(* ===== verification/Prelude.thy ===== *)
theory Prelude
  imports
    Complex_Main
    "HOL-Library.AList"
    "HOL-Library.Sublist"
    "HOL-Library.Code_Target_Nat"
begin

text \<open>
  Shared vocabulary of the development: the Python string operations the code uses, on ASCII
  strings (\<^typ>\<open>string\<close> is a list of characters, as Python's \<open>str\<close> is a
  sequence of code points), decimal rendering of indices, identifiers, and the lemma collections
  the component theories share.

  Conventions used everywhere:
  \<^item> a \<open>uuid.UUID\<close> is a number below; \<open>str(u)\<close> and \<open>uuid.UUID(s)\<close>
    are inverse to each other, so a state field that holds \<open>str(run.id)\<close> holds the number;
  \<^item> a \<open>Decimal\<close> is an exact rational;
  \<^item> a Python \<open>dict\<close> that is iterated is an association list in insertion order, updated
    with \<^const>\<open>AList.update\<close>, which overwrites in place or appends, as Python does;
  \<^item> an exception is the left side of a sum.
\<close>

named_theorems py_simps \<open>evaluation and algebra of the Python string operations\<close>
named_theorems rule_defs \<open>definitions of the validation rules\<close>
named_theorems frame_simps \<open>what an operation leaves unchanged\<close>

type_synonym uuid = nat
type_synonym decimal = rat
type_synonym timestamp = nat

section \<open>Python strings\<close>

text \<open>The ASCII part of \<open>str.isspace\<close>.\<close>

definition is_ws :: "char \<Rightarrow> bool" where
  "is_ws c \<longleftrightarrow> (let n = (of_char c :: nat) in (9 \<le> n \<and> n \<le> 13) \<or> (28 \<le> n \<and> n \<le> 32))"

definition is_upper :: "char \<Rightarrow> bool" where
  "is_upper c \<longleftrightarrow> (let n = (of_char c :: nat) in 65 \<le> n \<and> n \<le> 90)"

definition is_lower :: "char \<Rightarrow> bool" where
  "is_lower c \<longleftrightarrow> (let n = (of_char c :: nat) in 97 \<le> n \<and> n \<le> 122)"

definition is_digit :: "char \<Rightarrow> bool" where
  "is_digit c \<longleftrightarrow> (let n = (of_char c :: nat) in 48 \<le> n \<and> n \<le> 57)"

definition upper_char :: "char \<Rightarrow> char" where
  "upper_char c = (if is_lower c then char_of ((of_char c :: nat) - 32) else c)"

definition lower_char :: "char \<Rightarrow> char" where
  "lower_char c = (if is_upper c then char_of ((of_char c :: nat) + 32) else c)"

definition py_upper :: "string \<Rightarrow> string" where
  "py_upper s = map upper_char s"

definition py_lower :: "string \<Rightarrow> string" where
  "py_lower s = map lower_char s"

definition py_isalpha :: "string \<Rightarrow> bool" where
  "py_isalpha s \<longleftrightarrow> s \<noteq> [] \<and> list_all (\<lambda>c. is_upper c \<or> is_lower c) s"

definition py_strip :: "string \<Rightarrow> string" where
  "py_strip s = rev (dropWhile is_ws (rev (dropWhile is_ws s)))"

text \<open>\<open>s.rstrip(chars)\<close> for one character.\<close>

definition py_rstrip :: "char \<Rightarrow> string \<Rightarrow> string" where
  "py_rstrip ch s = rev (dropWhile (\<lambda>c. c = ch) (rev s))"

text \<open>\<open>s.split()\<close>: the maximal runs of non-white-space.\<close>

function py_split :: "string \<Rightarrow> string list" where
  "py_split s =
     (case dropWhile is_ws s of
        [] \<Rightarrow> []
      | c # cs \<Rightarrow> (c # takeWhile (\<lambda>x. \<not> is_ws x) cs) # py_split (dropWhile (\<lambda>x. \<not> is_ws x) cs))"
  by pat_completeness auto
termination
proof (relation "measure length", simp, goal_cases)
  case (1 s c cs)
  have "length (dropWhile (\<lambda>x. \<not> is_ws x) cs) \<le> length cs"
    by (rule length_dropWhile_le)
  also have "length cs < length (dropWhile is_ws s)"
    using 1 by simp
  also have "\<dots> \<le> length s"
    by (rule length_dropWhile_le)
  finally show ?case by simp
qed

declare py_split.simps [simp del]

text \<open>\<open>sep.join(parts)\<close>.\<close>

fun py_join :: "string \<Rightarrow> string list \<Rightarrow> string" where
  "py_join sep [] = []"
| "py_join sep [x] = x"
| "py_join sep (x # y # xs) = x @ sep @ py_join sep (y # xs)"

text \<open>\<open>needle in haystack\<close>.\<close>

fun py_contains :: "string \<Rightarrow> string \<Rightarrow> bool" where
  "py_contains needle [] \<longleftrightarrow> needle = []"
| "py_contains needle (c # cs) \<longleftrightarrow> prefix needle (c # cs) \<or> py_contains needle cs"

text \<open>\<open>s.split(ch)\<close> with a one-character separator: always at least one part.\<close>

fun py_split_on :: "char \<Rightarrow> string \<Rightarrow> string list" where
  "py_split_on ch [] = [[]]"
| "py_split_on ch (c # cs) =
     (if c = ch then [] # py_split_on ch cs
      else (case py_split_on ch cs of
              [] \<Rightarrow> [[c]]
            | p # ps \<Rightarrow> (c # p) # ps))"

text \<open>\<open>" ".join(s.split())\<close>.\<close>

definition collapse_ws :: "string \<Rightarrow> string" where
  "collapse_ws s = py_join '' '' (py_split s)"

subsection \<open>Case\<close>

lemma char_cases_bound: "(of_char c :: nat) < 256"
  using of_char_mod_256 [of c, where 'a = nat] by (metis mod_less_divisor zero_less_numeral)

lemma is_lower_upper_char [simp]: "\<not> is_lower (upper_char c)"
  using char_cases_bound [of c]
  by (auto simp: upper_char_def is_lower_def Let_def)

lemma upper_char_idem [simp]: "upper_char (upper_char c) = upper_char c"
  by (simp add: upper_char_def [of "upper_char c"])

lemma py_upper_idem [simp, py_simps]: "py_upper (py_upper s) = py_upper s"
  by (simp add: py_upper_def)

lemma length_py_upper [simp]: "length (py_upper s) = length s"
  by (simp add: py_upper_def)

lemma alpha_upper_char: "is_upper c \<or> is_lower c \<Longrightarrow> is_upper (upper_char c)"
  using char_cases_bound [of c]
  by (auto simp: upper_char_def is_lower_def is_upper_def Let_def)

lemma upper_alpha_char: "is_upper (upper_char c) \<Longrightarrow> is_upper c \<or> is_lower c"
  by (auto simp: upper_char_def split: if_splits)

lemma alpha_upper_char_iff: "is_upper (upper_char c) \<longleftrightarrow> is_upper c \<or> is_lower c"
  by (metis alpha_upper_char upper_alpha_char)

lemma py_isalpha_upper [simp, py_simps]: "py_isalpha (py_upper s) \<longleftrightarrow> py_isalpha s"
  by (simp add: py_isalpha_def py_upper_def list_all_iff alpha_upper_char_iff)

subsection \<open>White space\<close>

lemma dropWhile_hd_not: "dropWhile P xs = y # ys \<Longrightarrow> \<not> P y"
  by (metis hd_dropWhile list.distinct(1) list.sel(1))

lemma py_split_unfold:
  "py_split s = (let t = dropWhile is_ws s in
     if t = [] then [] else takeWhile (\<lambda>x. \<not> is_ws x) t # py_split (dropWhile (\<lambda>x. \<not> is_ws x) t))"
proof (cases "dropWhile is_ws s")
  case Nil
  then show ?thesis by (subst py_split.simps) (simp only: Let_def list.case if_True simp_thms)
next
  case (Cons c cs)
  then have "\<not> is_ws c" by (rule dropWhile_hd_not)
  with Cons show ?thesis by (subst py_split.simps) simp
qed

lemma py_split_Nil [simp]: "py_split [] = []"
  by (subst py_split.simps) simp

lemma py_split_ws [simp]: "is_ws c \<Longrightarrow> py_split (c # s) = py_split s"
  by (subst (1 2) py_split.simps) simp

lemma py_split_word:
  assumes "w \<noteq> []" "list_all (\<lambda>c. \<not> is_ws c) w" "t = [] \<or> is_ws (hd t)"
  shows "py_split (w @ t) = w # py_split t"
proof -
  obtain c cs where w: "w = c # cs" using assms(1) by (cases w) auto
  have nw: "\<not> is_ws c" "\<forall>x\<in>set cs. \<not> is_ws x" using assms(2) by (auto simp: w list_all_iff)
  have tk: "takeWhile (\<lambda>x. \<not> is_ws x) (cs @ t) = cs"
    using nw assms(3) by (cases t) (auto simp: takeWhile_append2)
  have dr: "dropWhile (\<lambda>x. \<not> is_ws x) (cs @ t) = t"
    using nw assms(3) by (cases t) (auto simp: dropWhile_append2)
  show ?thesis
    by (subst py_split.simps) (simp add: w nw tk dr)
qed

definition words_ok :: "string list \<Rightarrow> bool" where
  "words_ok ws \<longleftrightarrow> list_all (\<lambda>w. w \<noteq> [] \<and> list_all (\<lambda>c. \<not> is_ws c) w) ws"

lemma list_all_takeWhile: "list_all P (takeWhile P xs)"
  by (induction xs) auto

lemma words_ok_py_split: "words_ok (py_split s)"
proof (induction "length s" arbitrary: s rule: less_induct)
  case less
  define t where "t = dropWhile is_ws s"
  show ?case
  proof (cases t)
    case Nil
    then have "py_split s = []" unfolding py_split_unfold [of s] Let_def t_def by (rule if_P)
    then show ?thesis by (simp add: words_ok_def)
  next
    case (Cons c cs)
    then have c: "\<not> is_ws c" unfolding t_def by (rule dropWhile_hd_not)
    have eq: "py_split s = (c # takeWhile (\<lambda>x. \<not> is_ws x) cs)
        # py_split (dropWhile (\<lambda>x. \<not> is_ws x) cs)"
      using Cons unfolding t_def by (subst py_split.simps) simp
    have "length (dropWhile (\<lambda>x. \<not> is_ws x) cs) < length s"
      using Cons length_dropWhile_le [of "\<lambda>x. \<not> is_ws x" cs] length_dropWhile_le [of is_ws s]
      by (simp add: t_def)
    then have ih: "words_ok (py_split (dropWhile (\<lambda>x. \<not> is_ws x) cs))" by (rule less)
    have "list_all (\<lambda>c. \<not> is_ws c) (c # takeWhile (\<lambda>x. \<not> is_ws x) cs)"
      using c by (simp add: list_all_takeWhile)
    then show ?thesis
      using ih unfolding eq by (simp add: words_ok_def)
  qed
qed

lemma is_ws_space [simp]: "is_ws (CHR '' '')"
  by (simp add: is_ws_def Let_def)

lemma py_split_join: "words_ok ws \<Longrightarrow> py_split (py_join '' '' ws) = ws"
proof (induction ws)
  case Nil
  then show ?case by simp
next
  case (Cons x xs)
  show ?case
  proof (cases xs)
    case Nil
    then show ?thesis using Cons.prems py_split_word [of x "[]"] by (simp add: words_ok_def)
  next
    case (Cons y ys)
    then show ?thesis
      using Cons.IH Cons.prems py_split_word [of x "'' '' @ py_join '' '' (y # ys)"]
      by (simp add: words_ok_def)
  qed
qed

lemma collapse_ws_idem [simp, py_simps]: "collapse_ws (collapse_ws s) = collapse_ws s"
  by (simp add: collapse_ws_def py_split_join words_ok_py_split)

subsection \<open>Stripping\<close>

lemma dropWhile_dropWhile [simp]: "dropWhile P (dropWhile P xs) = dropWhile P xs"
  by (induction xs) auto

lemma dropWhile_id: "xs = [] \<or> \<not> P (hd xs) \<Longrightarrow> dropWhile P xs = xs"
  by (cases xs) auto

lemma hd_rev_dropWhile_rev:
  assumes "ys = rev (dropWhile P (rev xs))" "ys \<noteq> []" "xs = [] \<or> \<not> P (hd xs)"
  shows "\<not> P (hd ys)"
proof -
  have "prefix ys xs"
    using assms(1) suffix_dropWhile [of P "rev xs"] by (simp add: suffix_to_prefix)
  then have "hd ys = hd xs" "xs \<noteq> []"
    using assms(2) by (auto elim!: prefixE)
  with assms(3) show ?thesis by simp
qed

lemma py_strip_idem [simp, py_simps]: "py_strip (py_strip s) = py_strip s"
proof -
  define t where "t = dropWhile is_ws s"
  define u where "u = rev (dropWhile is_ws (rev t))"
  have t: "t = [] \<or> \<not> is_ws (hd t)"
    by (cases t) (auto simp: t_def dest: dropWhile_hd_not)
  have "u = [] \<or> \<not> is_ws (hd u)"
    using hd_rev_dropWhile_rev [OF u_def _ t] by blast
  then have "dropWhile is_ws u = u" by (rule dropWhile_id)
  then show ?thesis
    by (simp add: py_strip_def u_def t_def)
qed

lemma length_py_strip: "length (py_strip s) \<le> length s"
  unfolding py_strip_def
  by (metis length_dropWhile_le length_rev order_trans)

section \<open>Numbers in strings\<close>

definition digit_char :: "nat \<Rightarrow> char" where
  "digit_char d = char_of (48 + d)"

definition digit_val :: "char \<Rightarrow> nat" where
  "digit_val c = of_char c - 48"

text \<open>\<open>str(n)\<close> for a natural number.\<close>

fun show_nat :: "nat \<Rightarrow> string" where
  "show_nat n = (if n < 10 then [digit_char n] else show_nat (n div 10) @ [digit_char (n mod 10)])"

declare show_nat.simps [simp del]

text \<open>\<open>int(s)\<close> on a string of digits, nothing on any other string.\<close>

definition read_nat :: "string \<Rightarrow> nat option" where
  "read_nat s =
     (if s \<noteq> [] \<and> list_all is_digit s then Some (foldl (\<lambda>a c. 10 * a + digit_val c) 0 s) else None)"

lemma is_digit_digit_char [simp]: "d < 10 \<Longrightarrow> is_digit (digit_char d)"
  by (simp add: is_digit_def digit_char_def Let_def)

lemma digit_val_digit_char [simp]: "d < 10 \<Longrightarrow> digit_val (digit_char d) = d"
  by (simp add: digit_val_def digit_char_def)

lemma show_nat_not_Nil [simp]: "show_nat n \<noteq> []"
  by (subst show_nat.simps) simp

lemma show_nat_digits: "list_all is_digit (show_nat n)"
proof (induction n rule: show_nat.induct)
  case (1 n)
  then show ?case by (subst show_nat.simps) simp
qed

lemma foldl_show_nat: "foldl (\<lambda>a c. 10 * a + digit_val c) 0 (show_nat n) = n"
proof (induction n rule: show_nat.induct)
  case (1 n)
  then show ?case by (subst show_nat.simps) simp
qed

lemma read_show_nat [simp]: "read_nat (show_nat n) = Some n"
  by (simp add: read_nat_def show_nat_digits foldl_show_nat)

lemma show_nat_inject [simp]: "show_nat m = show_nat n \<longleftrightarrow> m = n"
  by (metis read_show_nat option.inject)

lemma show_nat_small [simp]:
  "show_nat 0 = ''0''" "show_nat 1 = ''1''" "show_nat 2 = ''2''" "show_nat 3 = ''3''"
  by code_simp+

text \<open>The text of a UUID: any injective rendering serves; \<open>uuid.UUID(s)\<close> reads it back.\<close>

definition uuid_str :: "uuid \<Rightarrow> string" where
  "uuid_str u = show_nat u"

definition parse_uuid :: "string \<Rightarrow> uuid option" where
  "parse_uuid s = read_nat s"

lemma parse_uuid_str [simp]: "parse_uuid (uuid_str u) = Some u"
  by (simp add: parse_uuid_def uuid_str_def)

lemma uuid_str_inject [simp]: "uuid_str u = uuid_str v \<longleftrightarrow> u = v"
  by (simp add: uuid_str_def)

section \<open>Lists and dictionaries\<close>

text \<open>\<open>list(dict.fromkeys(xs))\<close>: the first occurrence of each element, in order.\<close>

fun dict_fromkeys_from :: "'a list \<Rightarrow> 'a list \<Rightarrow> 'a list" where
  "dict_fromkeys_from seen [] = []"
| "dict_fromkeys_from seen (x # xs) =
     (if x \<in> set seen then dict_fromkeys_from seen xs
      else x # dict_fromkeys_from (x # seen) xs)"

definition dict_fromkeys :: "'a list \<Rightarrow> 'a list" where
  "dict_fromkeys xs = dict_fromkeys_from [] xs"

lemma set_dict_fromkeys_from: "set (dict_fromkeys_from seen xs) = set xs - set seen"
  by (induction xs arbitrary: seen) auto

lemma distinct_dict_fromkeys_from: "distinct (dict_fromkeys_from seen xs)"
  by (induction xs arbitrary: seen) (auto simp: set_dict_fromkeys_from)

lemma dict_fromkeys_from_id:
  "distinct xs \<Longrightarrow> set xs \<inter> set seen = {} \<Longrightarrow> dict_fromkeys_from seen xs = xs"
  by (induction xs arbitrary: seen) auto

lemma set_dict_fromkeys [simp]: "set (dict_fromkeys xs) = set xs"
  by (simp add: dict_fromkeys_def set_dict_fromkeys_from)

lemma distinct_dict_fromkeys [simp]: "distinct (dict_fromkeys xs)"
  by (simp add: dict_fromkeys_def distinct_dict_fromkeys_from)

lemma dict_fromkeys_distinct [simp]: "distinct xs \<Longrightarrow> dict_fromkeys xs = xs"
  by (simp add: dict_fromkeys_def dict_fromkeys_from_id)

lemma distinct_dict_fromkeys_iff: "dict_fromkeys xs = xs \<longleftrightarrow> distinct xs"
  by (metis distinct_dict_fromkeys dict_fromkeys_distinct)

text \<open>\<open>enumerate(xs)\<close>.\<close>

abbreviation enumerate0 :: "'a list \<Rightarrow> (nat \<times> 'a) list" where
  "enumerate0 xs \<equiv> List.enumerate 0 xs"

end
