(* ===== verification/Schemas.thy ===== *)
theory Schemas
  imports Prelude "HOL-Library.List_Lexorder" "HOL-Library.Char_ord"
begin

text \<open>
  The data model, \<open>src/core/schemas/nutrition.py\<close>, \<open>menu.py\<close> and
  \<open>restaurant.py\<close>, with the two operations Pydantic derives from a class body:
  \<open>model_dump(mode="json")\<close> (the \<open>dump_\<dots>\<close> functions) and
  \<open>model_validate\<close> (the \<open>v_\<dots>\<close> functions). A validation collects every error, each
  with its location, in the order of the fields; keys the class does not declare come last
  (\<open>extra="forbid"\<close>).

  JSON values keep decimals, floats and timestamps as leaves of their own, standing for the text
  or number they are dumped as. Scalars are read in the JSON shape the schema dumps them in, the
  only one the program produces; Pydantic's conversions between scalar shapes are outside the
  model. An absent \<open>id\<close> draws a fresh UUID: \<open>uu loc\<close> is the draw for the object at
  location \<open>loc\<close>. Record fields carry a prefix for their class (\<open>d_name\<close> is
  \<open>Dish.name\<close>).
\<close>

section \<open>JSON values\<close>

datatype json =
    JNull
  | JBool bool
  | JInt int
  | JFloat rat
  | JDec decimal
  | JTime timestamp
  | JStr string
  | JList "json list"
  | JObj "(string \<times> json) list"

datatype loc_part = LKey string | LIdx nat

type_synonym loc = "loc_part list"
type_synonym verr = "loc \<times> string"
type_synonym 'a vres = "verr list + 'a"

section \<open>Nutrition\<close>

record macros =
  m_calories :: "decimal option"
  m_protein_g :: "decimal option"
  m_carbohydrates_g :: "decimal option"
  m_fat_g :: "decimal option"
  m_saturated_fat_g :: "decimal option"
  m_trans_fat_g :: "decimal option"
  m_fiber_g :: "decimal option"
  m_sugar_g :: "decimal option"
  m_sodium_mg :: "decimal option"
  m_cholesterol_mg :: "decimal option"

record micronutrients =
  vitamin_a_mcg :: "decimal option"
  vitamin_c_mg :: "decimal option"
  vitamin_d_mcg :: "decimal option"
  calcium_mg :: "decimal option"
  iron_mg :: "decimal option"
  potassium_mg :: "decimal option"

definition empty_macros :: macros where
  "empty_macros = \<lparr>m_calories = None, m_protein_g = None, m_carbohydrates_g = None, m_fat_g = None,
     m_saturated_fat_g = None, m_trans_fat_g = None, m_fiber_g = None, m_sugar_g = None,
     m_sodium_mg = None, m_cholesterol_mg = None\<rparr>"

definition empty_micronutrients :: micronutrients where
  "empty_micronutrients = \<lparr>vitamin_a_mcg = None, vitamin_c_mg = None, vitamin_d_mcg = None,
     calcium_mg = None, iron_mg = None, potassium_mg = None\<rparr>"

record nutrition =
  n_serving_size :: "string option"
  n_macros :: macros
  n_micronutrients :: micronutrients

definition empty_nutrition :: nutrition where
  "empty_nutrition =
     \<lparr>n_serving_size = None, n_macros = empty_macros, n_micronutrients = empty_micronutrients\<rparr>"

section \<open>Menus\<close>

datatype allergen =
  MILK | EGGS | FISH | SHELLFISH | TREE_NUTS | PEANUTS | WHEAT | SOY | SESAME | GLUTEN

fun allergen_value :: "allergen \<Rightarrow> string" where
  "allergen_value MILK = ''milk''"
| "allergen_value EGGS = ''eggs''"
| "allergen_value FISH = ''fish''"
| "allergen_value SHELLFISH = ''shellfish''"
| "allergen_value TREE_NUTS = ''tree_nuts''"
| "allergen_value PEANUTS = ''peanuts''"
| "allergen_value WHEAT = ''wheat''"
| "allergen_value SOY = ''soy''"
| "allergen_value SESAME = ''sesame''"
| "allergen_value GLUTEN = ''gluten''"

definition all_allergens :: "allergen list" where
  "all_allergens = [MILK, EGGS, FISH, SHELLFISH, TREE_NUTS, PEANUTS, WHEAT, SOY, SESAME, GLUTEN]"

lemma allergen_value_inject [simp]: "allergen_value a = allergen_value b \<longleftrightarrow> a = b"
  by (cases a; cases b) simp_all

text \<open>\<open>sorted(..., key=lambda allergen: allergen.value)\<close> is the order of the type.\<close>

instantiation allergen :: linorder
begin

definition less_eq_allergen :: "allergen \<Rightarrow> allergen \<Rightarrow> bool" where
  "less_eq_allergen a b \<longleftrightarrow> allergen_value a \<le> allergen_value b"

definition less_allergen :: "allergen \<Rightarrow> allergen \<Rightarrow> bool" where
  "less_allergen a b \<longleftrightarrow> allergen_value a < allergen_value b"

instance
proof
  fix a b c :: allergen
  show "a < b \<longleftrightarrow> a \<le> b \<and> \<not> b \<le> a"
    by (simp add: less_eq_allergen_def less_allergen_def less_le_not_le)
  show "a \<le> a" by (simp add: less_eq_allergen_def)
  show "a \<le> b \<Longrightarrow> b \<le> c \<Longrightarrow> a \<le> c" by (simp add: less_eq_allergen_def)
  show "a \<le> b \<Longrightarrow> b \<le> a \<Longrightarrow> a = b" by (simp add: less_eq_allergen_def)
  show "a \<le> b \<or> b \<le> a" by (simp add: less_eq_allergen_def linear)
qed

end

record ingredient =
  i_name :: string
  i_is_optional :: bool

datatype review_state = PENDING | CONFIRMED | REJECTED

fun review_state_value :: "review_state \<Rightarrow> string" where
  "review_state_value PENDING = ''pending''"
| "review_state_value CONFIRMED = ''confirmed''"
| "review_state_value REJECTED = ''rejected''"

record dish =
  d_id :: uuid
  d_category_id :: uuid
  d_name :: string
  d_description :: "string option"
  d_image_url :: "string option"
  d_nutrition :: nutrition
  d_allergens :: "allergen list"
  d_ingredients :: "ingredient list"
  d_quantity :: "string option"
  d_price :: "decimal option"
  d_currency :: string
  d_review_state :: review_state

datatype menu_category = MenuCategory
  (mc_id: uuid) (mc_name: string) (mc_display_order: int)
  (mc_children: "menu_category list") (mc_dishes: "dish list")

record menu =
  me_id :: uuid
  me_name :: string
  me_categories :: "menu_category list"

section \<open>Restaurants\<close>

record restaurant_location =
  l_id :: uuid
  l_label :: "string option"
  l_address_line1 :: string
  l_address_line2 :: "string option"
  l_city :: string
  l_state :: "string option"
  l_postal_code :: "string option"
  l_country :: string
  l_latitude :: "rat option"
  l_longitude :: "rat option"
  l_phone :: "string option"

record restaurant =
  r_id :: uuid
  r_name :: string
  r_description :: "string option"
  r_logo_url :: "string option"
  r_cover_image_url :: "string option"
  r_gallery_image_urls :: "string list"
  r_website_url :: "string option"
  r_cuisine_types :: "string list"
  r_locations :: "restaurant_location list"
  r_menus :: "menu list"
  r_is_active :: bool
  r_created_at :: "timestamp option"
  r_updated_at :: "timestamp option"

section \<open>Dumping\<close>

definition j_opt :: "('a \<Rightarrow> json) \<Rightarrow> 'a option \<Rightarrow> json" where
  "j_opt f x = (case x of None \<Rightarrow> JNull | Some y \<Rightarrow> f y)"

definition dump_macros :: "macros \<Rightarrow> json" where
  "dump_macros m = JObj
     [(''calories'', j_opt JDec (m_calories m)),
      (''protein_g'', j_opt JDec (m_protein_g m)),
      (''carbohydrates_g'', j_opt JDec (m_carbohydrates_g m)),
      (''fat_g'', j_opt JDec (m_fat_g m)),
      (''saturated_fat_g'', j_opt JDec (m_saturated_fat_g m)),
      (''trans_fat_g'', j_opt JDec (m_trans_fat_g m)),
      (''fiber_g'', j_opt JDec (m_fiber_g m)),
      (''sugar_g'', j_opt JDec (m_sugar_g m)),
      (''sodium_mg'', j_opt JDec (m_sodium_mg m)),
      (''cholesterol_mg'', j_opt JDec (m_cholesterol_mg m))]"

definition dump_micronutrients :: "micronutrients \<Rightarrow> json" where
  "dump_micronutrients m = JObj
     [(''vitamin_a_mcg'', j_opt JDec (vitamin_a_mcg m)),
      (''vitamin_c_mg'', j_opt JDec (vitamin_c_mg m)),
      (''vitamin_d_mcg'', j_opt JDec (vitamin_d_mcg m)),
      (''calcium_mg'', j_opt JDec (calcium_mg m)),
      (''iron_mg'', j_opt JDec (iron_mg m)),
      (''potassium_mg'', j_opt JDec (potassium_mg m))]"

definition dump_nutrition :: "nutrition \<Rightarrow> json" where
  "dump_nutrition n = JObj
     [(''serving_size'', j_opt JStr (n_serving_size n)),
      (''macros'', dump_macros (n_macros n)),
      (''micronutrients'', dump_micronutrients (n_micronutrients n))]"

definition dump_ingredient :: "ingredient \<Rightarrow> json" where
  "dump_ingredient i = JObj
     [(''name'', JStr (i_name i)), (''is_optional'', JBool (i_is_optional i))]"

definition dump_dish :: "dish \<Rightarrow> json" where
  "dump_dish d = JObj
     [(''id'', JStr (uuid_str (d_id d))),
      (''category_id'', JStr (uuid_str (d_category_id d))),
      (''name'', JStr (d_name d)),
      (''description'', j_opt JStr (d_description d)),
      (''image_url'', j_opt JStr (d_image_url d)),
      (''nutrition'', dump_nutrition (d_nutrition d)),
      (''allergens'', JList (map (\<lambda>a. JStr (allergen_value a)) (d_allergens d))),
      (''ingredients'', JList (map dump_ingredient (d_ingredients d))),
      (''quantity'', j_opt JStr (d_quantity d)),
      (''price'', j_opt JDec (d_price d)),
      (''currency'', JStr (d_currency d)),
      (''review_state'', JStr (review_state_value (d_review_state d)))]"

fun dump_category :: "menu_category \<Rightarrow> json" where
  "dump_category (MenuCategory cid name order children dishes) = JObj
     [(''id'', JStr (uuid_str cid)),
      (''name'', JStr name),
      (''display_order'', JInt order),
      (''children'', JList (map dump_category children)),
      (''dishes'', JList (map dump_dish dishes))]"

definition dump_menu :: "menu \<Rightarrow> json" where
  "dump_menu m = JObj
     [(''id'', JStr (uuid_str (me_id m))),
      (''name'', JStr (me_name m)),
      (''categories'', JList (map dump_category (me_categories m)))]"

definition dump_location :: "restaurant_location \<Rightarrow> json" where
  "dump_location l = JObj
     [(''id'', JStr (uuid_str (l_id l))),
      (''label'', j_opt JStr (l_label l)),
      (''address_line1'', JStr (l_address_line1 l)),
      (''address_line2'', j_opt JStr (l_address_line2 l)),
      (''city'', JStr (l_city l)),
      (''state'', j_opt JStr (l_state l)),
      (''postal_code'', j_opt JStr (l_postal_code l)),
      (''country'', JStr (l_country l)),
      (''latitude'', j_opt JFloat (l_latitude l)),
      (''longitude'', j_opt JFloat (l_longitude l)),
      (''phone'', j_opt JStr (l_phone l))]"

definition dump_restaurant :: "restaurant \<Rightarrow> json" where
  "dump_restaurant r = JObj
     [(''id'', JStr (uuid_str (r_id r))),
      (''name'', JStr (r_name r)),
      (''description'', j_opt JStr (r_description r)),
      (''logo_url'', j_opt JStr (r_logo_url r)),
      (''cover_image_url'', j_opt JStr (r_cover_image_url r)),
      (''gallery_image_urls'', JList (map JStr (r_gallery_image_urls r))),
      (''website_url'', j_opt JStr (r_website_url r)),
      (''cuisine_types'', JList (map JStr (r_cuisine_types r))),
      (''locations'', JList (map dump_location (r_locations r))),
      (''menus'', JList (map dump_menu (r_menus r))),
      (''is_active'', JBool (r_is_active r)),
      (''created_at'', j_opt JTime (r_created_at r)),
      (''updated_at'', j_opt JTime (r_updated_at r))]"

section \<open>Validating\<close>

fun vap :: "('a \<Rightarrow> 'b) vres \<Rightarrow> 'a vres \<Rightarrow> 'b vres" where
  "vap (Inr f) (Inr x) = Inr (f x)"
| "vap (Inr f) (Inl es) = Inl es"
| "vap (Inl es) (Inr x) = Inl es"
| "vap (Inl es) (Inl fs) = Inl (es @ fs)"

fun vmap :: "('a \<Rightarrow> 'b) \<Rightarrow> 'a vres \<Rightarrow> 'b vres" where
  "vmap f (Inr x) = Inr (f x)"
| "vmap f (Inl es) = Inl es"

fun vthen :: "'a vres \<Rightarrow> ('a \<Rightarrow> 'b vres) \<Rightarrow> 'b vres" where
  "vthen (Inr x) f = f x"
| "vthen (Inl es) f = Inl es"

fun vseq :: "'a vres list \<Rightarrow> 'a list vres" where
  "vseq [] = Inr []"
| "vseq (r # rs) = vap (vmap (#) r) (vseq rs)"

definition verr_at :: "loc \<Rightarrow> string \<Rightarrow> 'a vres" where
  "verr_at loc msg = Inl [(loc, msg)]"

definition required :: "loc \<Rightarrow> string \<Rightarrow> 'a vres" where
  "required loc k = verr_at (loc @ [LKey k]) ''Field required''"

definition fld :: "(string \<times> json) list \<Rightarrow> loc \<Rightarrow> string \<Rightarrow> 'a vres \<Rightarrow> (loc \<Rightarrow> json \<Rightarrow> 'a vres) \<Rightarrow> 'a vres" where
  "fld kvs loc k absent f = (case map_of kvs k of None \<Rightarrow> absent | Some j \<Rightarrow> f (loc @ [LKey k]) j)"

text \<open>\<open>extra="forbid"\<close>.\<close>

definition forbid_extra :: "string list \<Rightarrow> loc \<Rightarrow> (string \<times> json) list \<Rightarrow> 'a vres \<Rightarrow> 'a vres" where
  "forbid_extra keys loc kvs r =
     (case map (\<lambda>(k, _). (loc @ [LKey k], ''Extra inputs are not permitted''))
             (filter (\<lambda>(k, _). k \<notin> set keys) kvs) of
        [] \<Rightarrow> r
      | es \<Rightarrow> (case r of Inl fs \<Rightarrow> Inl (fs @ es) | Inr _ \<Rightarrow> Inl es))"

definition v_model ::
  "string \<Rightarrow> string list \<Rightarrow> loc \<Rightarrow> json \<Rightarrow> ((string \<times> json) list \<Rightarrow> 'a vres) \<Rightarrow> 'a vres" where
  "v_model cls keys loc j f =
     (case j of
        JObj kvs \<Rightarrow> forbid_extra keys loc kvs (f kvs)
      | _ \<Rightarrow> verr_at loc (''Input should be a valid dictionary or instance of '' @ cls))"

definition v_list :: "(loc \<Rightarrow> json \<Rightarrow> 'a vres) \<Rightarrow> loc \<Rightarrow> json \<Rightarrow> 'a list vres" where
  "v_list f loc j =
     (case j of
        JList js \<Rightarrow> vseq (map (\<lambda>(i, x). f (loc @ [LIdx i]) x) (enumerate0 js))
      | _ \<Rightarrow> verr_at loc ''Input should be a valid list'')"

definition v_opt :: "(loc \<Rightarrow> json \<Rightarrow> 'a vres) \<Rightarrow> loc \<Rightarrow> json \<Rightarrow> 'a option vres" where
  "v_opt f loc j = (case j of JNull \<Rightarrow> Inr None | _ \<Rightarrow> vmap Some (f loc j))"

definition v_str :: "loc \<Rightarrow> json \<Rightarrow> string vres" where
  "v_str loc j = (case j of JStr s \<Rightarrow> Inr s | _ \<Rightarrow> verr_at loc ''Input should be a valid string'')"

definition chars :: "nat \<Rightarrow> string" where
  "chars n = show_nat n @ (if n = 1 then '' character'' else '' characters'')"

definition v_str_len :: "nat \<Rightarrow> nat \<Rightarrow> loc \<Rightarrow> json \<Rightarrow> string vres" where
  "v_str_len lo hi loc j =
     vthen (v_str loc j) (\<lambda>s.
       if length s < lo then verr_at loc (''String should have at least '' @ chars lo)
       else if hi < length s then verr_at loc (''String should have at most '' @ chars hi)
       else Inr s)"

text \<open>The field validators \<open>strip_and_require_non_blank\<close>.\<close>

definition strip_and_require_non_blank :: "string \<Rightarrow> loc \<Rightarrow> string \<Rightarrow> string vres" where
  "strip_and_require_non_blank msg loc value =
     (let stripped = py_strip value in
      if stripped = [] then verr_at loc (''Value error, '' @ msg) else Inr stripped)"

definition v_name :: "string \<Rightarrow> nat \<Rightarrow> loc \<Rightarrow> json \<Rightarrow> string vres" where
  "v_name msg hi loc j = vthen (v_str_len 1 hi loc j) (strip_and_require_non_blank msg loc)"

definition v_uuid :: "loc \<Rightarrow> json \<Rightarrow> uuid vres" where
  "v_uuid loc j =
     (case j of
        JStr s \<Rightarrow> (case parse_uuid s of Some u \<Rightarrow> Inr u | None \<Rightarrow> verr_at loc ''Input should be a valid UUID'')
      | _ \<Rightarrow> verr_at loc ''Input should be a valid UUID'')"

definition v_bool :: "loc \<Rightarrow> json \<Rightarrow> bool vres" where
  "v_bool loc j = (case j of JBool b \<Rightarrow> Inr b | _ \<Rightarrow> verr_at loc ''Input should be a valid boolean'')"

definition v_int :: "loc \<Rightarrow> json \<Rightarrow> int vres" where
  "v_int loc j = (case j of JInt i \<Rightarrow> Inr i | _ \<Rightarrow> verr_at loc ''Input should be a valid integer'')"

definition v_time :: "loc \<Rightarrow> json \<Rightarrow> timestamp vres" where
  "v_time loc j = (case j of JTime t \<Rightarrow> Inr t | _ \<Rightarrow> verr_at loc ''Input should be a valid datetime'')"

definition v_dec_ge0 :: "loc \<Rightarrow> json \<Rightarrow> decimal vres" where
  "v_dec_ge0 loc j =
     vthen (case j of
              JDec d \<Rightarrow> Inr d | JInt i \<Rightarrow> Inr (of_int i) | JFloat x \<Rightarrow> Inr x
            | _ \<Rightarrow> verr_at loc ''Decimal input should be an integer, float, string or Decimal object'')
       (\<lambda>d. if d < 0 then verr_at loc ''Input should be greater than or equal to 0'' else Inr d)"

definition v_float_between :: "rat \<Rightarrow> rat \<Rightarrow> string \<Rightarrow> string \<Rightarrow> loc \<Rightarrow> json \<Rightarrow> rat vres" where
  "v_float_between lo hi lo_txt hi_txt loc j =
     vthen (case j of JFloat x \<Rightarrow> Inr x | JInt i \<Rightarrow> Inr (of_int i) | _ \<Rightarrow> verr_at loc ''Input should be a valid number'')
       (\<lambda>x. if x < lo then verr_at loc (''Input should be greater than or equal to '' @ lo_txt)
            else if hi < x then verr_at loc (''Input should be less than or equal to '' @ hi_txt)
            else Inr x)"

fun quoted_alternatives :: "string list \<Rightarrow> string" where
  "quoted_alternatives [] = []"
| "quoted_alternatives [v] = CHR 0x27 # v @ [CHR 0x27]"
| "quoted_alternatives [v, w] = CHR 0x27 # v @ [CHR 0x27] @ '' or '' @ quoted_alternatives [w]"
| "quoted_alternatives (v # w # vs) = CHR 0x27 # v @ [CHR 0x27] @ '', '' @ quoted_alternatives (w # vs)"

definition v_enum :: "(string \<times> 'a) list \<Rightarrow> loc \<Rightarrow> json \<Rightarrow> 'a vres" where
  "v_enum table loc j =
     (let bad = verr_at loc (''Input should be '' @ quoted_alternatives (map fst table)) in
      case j of
        JStr s \<Rightarrow> (case map_of table s of Some a \<Rightarrow> Inr a | None \<Rightarrow> bad)
      | _ \<Rightarrow> bad)"

lemma map_of_size: "map_of kvs k = Some j \<Longrightarrow> size j < Suc (size_list (size_prod (\<lambda>_. 0) size) kvs)"
  for kvs :: "(string \<times> json) list"
  by (induction kvs) (auto split: if_splits)

lemma enumerate0_mem: "(i, x) \<in> set (enumerate0 xs) \<Longrightarrow> x \<in> set xs"
  by (auto simp: enumerate_eq_zip dest: set_zip_rightD)

lemma fld_cong [fundef_cong]:
  assumes "kvs = kvs'" "loc = loc'" "k = k'" "absent = absent'"
    "\<And>l j. map_of kvs' k' = Some j \<Longrightarrow> l = loc' @ [LKey k'] \<Longrightarrow> f l j = f' l j"
  shows "fld kvs loc k absent f = fld kvs' loc' k' absent' f'"
  using assms by (auto simp: fld_def split: option.splits)

lemma v_list_cong [fundef_cong]:
  assumes "loc = loc'" "j = j'"
    "\<And>l x js. j' = JList js \<Longrightarrow> x \<in> set js \<Longrightarrow> f l x = f' l x"
  shows "v_list f loc j = v_list f' loc' j'"
  using assms
  by (auto simp: v_list_def split: json.splits intro!: arg_cong [where f = vseq])
    (metis enumerate0_mem)

lemma v_model_cong [fundef_cong]:
  assumes "cls = cls'" "keys = keys'" "loc = loc'" "j = j'"
    "\<And>kvs. j' = JObj kvs \<Longrightarrow> f kvs = f' kvs"
  shows "v_model cls keys loc j f = v_model cls' keys' loc' j' f'"
  using assms by (auto simp: v_model_def split: json.splits)

subsection \<open>The classes\<close>

definition opt_dec :: "(string \<times> json) list \<Rightarrow> loc \<Rightarrow> string \<Rightarrow> decimal option vres" where
  "opt_dec kvs loc k = fld kvs loc k (Inr None) (v_opt v_dec_ge0)"

definition opt_str :: "(string \<times> json) list \<Rightarrow> loc \<Rightarrow> string \<Rightarrow> string option vres" where
  "opt_str kvs loc k = fld kvs loc k (Inr None) (v_opt v_str)"

definition macro_keys :: "string list" where
  "macro_keys = [''calories'', ''protein_g'', ''carbohydrates_g'', ''fat_g'', ''saturated_fat_g'',
     ''trans_fat_g'', ''fiber_g'', ''sugar_g'', ''sodium_mg'', ''cholesterol_mg'']"

definition v_macros :: "loc \<Rightarrow> json \<Rightarrow> macros vres" where
  "v_macros loc j = v_model ''Macros'' macro_keys loc j (\<lambda>kvs.
     vap (vap (vap (vap (vap (vap (vap (vap (vap (vmap macros.make
       (opt_dec kvs loc ''calories''))
       (opt_dec kvs loc ''protein_g''))
       (opt_dec kvs loc ''carbohydrates_g''))
       (opt_dec kvs loc ''fat_g''))
       (opt_dec kvs loc ''saturated_fat_g''))
       (opt_dec kvs loc ''trans_fat_g''))
       (opt_dec kvs loc ''fiber_g''))
       (opt_dec kvs loc ''sugar_g''))
       (opt_dec kvs loc ''sodium_mg''))
       (opt_dec kvs loc ''cholesterol_mg''))"

definition micronutrient_keys :: "string list" where
  "micronutrient_keys = [''vitamin_a_mcg'', ''vitamin_c_mg'', ''vitamin_d_mcg'', ''calcium_mg'',
     ''iron_mg'', ''potassium_mg'']"

definition v_micronutrients :: "loc \<Rightarrow> json \<Rightarrow> micronutrients vres" where
  "v_micronutrients loc j = v_model ''Micronutrients'' micronutrient_keys loc j (\<lambda>kvs.
     vap (vap (vap (vap (vap (vmap micronutrients.make
       (opt_dec kvs loc ''vitamin_a_mcg''))
       (opt_dec kvs loc ''vitamin_c_mg''))
       (opt_dec kvs loc ''vitamin_d_mcg''))
       (opt_dec kvs loc ''calcium_mg''))
       (opt_dec kvs loc ''iron_mg''))
       (opt_dec kvs loc ''potassium_mg''))"

definition v_nutrition :: "loc \<Rightarrow> json \<Rightarrow> nutrition vres" where
  "v_nutrition loc j =
     v_model ''Nutrition'' [''serving_size'', ''macros'', ''micronutrients''] loc j (\<lambda>kvs.
       vap (vap (vmap nutrition.make
         (opt_str kvs loc ''serving_size''))
         (fld kvs loc ''macros'' (Inr empty_macros) v_macros))
         (fld kvs loc ''micronutrients'' (Inr empty_micronutrients) v_micronutrients))"

definition v_ingredient :: "loc \<Rightarrow> json \<Rightarrow> ingredient vres" where
  "v_ingredient loc j =
     v_model ''Ingredient'' [''name'', ''is_optional''] loc j (\<lambda>kvs.
       vap (vmap ingredient.make
         (fld kvs loc ''name'' (required loc ''name'') (v_name ''Ingredient name cannot be blank'' 255)))
         (fld kvs loc ''is_optional'' (Inr False) v_bool))"

text \<open>An enum member is read from its value; the message of the error lists the values.\<close>

definition v_allergen :: "loc \<Rightarrow> json \<Rightarrow> allergen vres" where
  "v_allergen = v_enum (map (\<lambda>a. (allergen_value a, a)) all_allergens)"

definition v_review_state :: "loc \<Rightarrow> json \<Rightarrow> review_state vres" where
  "v_review_state = v_enum (map (\<lambda>s. (review_state_value s, s)) [PENDING, CONFIRMED, REJECTED])"

definition dish_keys :: "string list" where
  "dish_keys = [''id'', ''category_id'', ''name'', ''description'', ''image_url'', ''nutrition'',
     ''allergens'', ''ingredients'', ''quantity'', ''price'', ''currency'', ''review_state'']"

text \<open>\<open>uu\<close> is the supply of \<open>default_factory=uuid.uuid4\<close>.\<close>

definition v_id :: "(loc \<Rightarrow> uuid) \<Rightarrow> (string \<times> json) list \<Rightarrow> loc \<Rightarrow> uuid vres" where
  "v_id uu kvs loc = fld kvs loc ''id'' (Inr (uu loc)) v_uuid"

definition v_dish :: "(loc \<Rightarrow> uuid) \<Rightarrow> loc \<Rightarrow> json \<Rightarrow> dish vres" where
  "v_dish uu loc j = v_model ''Dish'' dish_keys loc j (\<lambda>kvs.
     vap (vap (vap (vap (vap (vap (vap (vap (vap (vap (vap (vmap dish.make
       (v_id uu kvs loc))
       (fld kvs loc ''category_id'' (required loc ''category_id'') v_uuid))
       (fld kvs loc ''name'' (required loc ''name'') (v_name ''Dish name cannot be blank'' 255)))
       (fld kvs loc ''description'' (Inr None) (v_opt (v_str_len 0 2000))))
       (opt_str kvs loc ''image_url''))
       (fld kvs loc ''nutrition'' (Inr empty_nutrition) v_nutrition))
       (fld kvs loc ''allergens'' (Inr []) (\<lambda>l x. vmap dict_fromkeys (v_list v_allergen l x))))
       (fld kvs loc ''ingredients'' (Inr []) (v_list v_ingredient)))
       (opt_str kvs loc ''quantity''))
       (opt_dec kvs loc ''price''))
       (fld kvs loc ''currency'' (Inr ''USD'') (v_str_len 3 3)))
       (fld kvs loc ''review_state'' (Inr PENDING) v_review_state))"

definition category_keys :: "string list" where
  "category_keys = [''id'', ''name'', ''display_order'', ''children'', ''dishes'']"

function v_category :: "(loc \<Rightarrow> uuid) \<Rightarrow> loc \<Rightarrow> json \<Rightarrow> menu_category vres" where
  "v_category uu loc j = v_model ''MenuCategory'' category_keys loc j (\<lambda>kvs.
     vap (vap (vap (vap (vmap MenuCategory
       (v_id uu kvs loc))
       (fld kvs loc ''name'' (required loc ''name'') (v_name ''Category name cannot be blank'' 255)))
       (fld kvs loc ''display_order'' (Inr 0) v_int))
       (fld kvs loc ''children'' (Inr []) (\<lambda>l x. v_list (\<lambda>l' c. v_category uu l' c) l x)))
       (fld kvs loc ''dishes'' (Inr []) (v_list (v_dish uu))))"
  by pat_completeness auto
termination
proof (relation "measure (\<lambda>(uu, loc, j). size j)", simp, goal_cases)
  case (1 uu loc j kvs l x l' c js)
  then show ?case
    using map_of_size [of kvs "''children''" x] size_list_estimation' [of c js "size c" size]
    by auto
qed

declare v_category.simps [simp del]

definition v_menu :: "(loc \<Rightarrow> uuid) \<Rightarrow> loc \<Rightarrow> json \<Rightarrow> menu vres" where
  "v_menu uu loc j = v_model ''Menu'' [''id'', ''name'', ''categories''] loc j (\<lambda>kvs.
     vap (vap (vmap menu.make
       (v_id uu kvs loc))
       (fld kvs loc ''name'' (Inr ''Menu'') (v_name ''Menu name cannot be blank'' 255)))
       (fld kvs loc ''categories'' (Inr []) (v_list (v_category uu))))"

definition location_keys :: "string list" where
  "location_keys = [''id'', ''label'', ''address_line1'', ''address_line2'', ''city'', ''state'',
     ''postal_code'', ''country'', ''latitude'', ''longitude'', ''phone'']"

definition v_location :: "(loc \<Rightarrow> uuid) \<Rightarrow> loc \<Rightarrow> json \<Rightarrow> restaurant_location vres" where
  "v_location uu loc j = v_model ''RestaurantLocation'' location_keys loc j (\<lambda>kvs.
     vap (vap (vap (vap (vap (vap (vap (vap (vap (vap (vmap restaurant_location.make
       (v_id uu kvs loc))
       (opt_str kvs loc ''label''))
       (fld kvs loc ''address_line1'' (required loc ''address_line1'') (v_name ''This field cannot be blank'' 255)))
       (fld kvs loc ''address_line2'' (Inr None) (v_opt (v_str_len 0 255))))
       (fld kvs loc ''city'' (required loc ''city'') (v_name ''This field cannot be blank'' 120)))
       (fld kvs loc ''state'' (Inr None) (v_opt (v_str_len 0 120))))
       (fld kvs loc ''postal_code'' (Inr None) (v_opt (v_str_len 0 20))))
       (fld kvs loc ''country'' (required loc ''country'') (\<lambda>l x. vmap py_upper (v_str_len 2 2 l x))))
       (fld kvs loc ''latitude'' (Inr None) (v_opt (v_float_between (- 90) 90 ''-90'' ''90''))))
       (fld kvs loc ''longitude'' (Inr None) (v_opt (v_float_between (- 180) 180 ''-180'' ''180''))))
       (opt_str kvs loc ''phone''))"

definition restaurant_keys :: "string list" where
  "restaurant_keys = [''id'', ''name'', ''description'', ''logo_url'', ''cover_image_url'',
     ''gallery_image_urls'', ''website_url'', ''cuisine_types'', ''locations'', ''menus'',
     ''is_active'', ''created_at'', ''updated_at'']"

definition v_restaurant :: "(loc \<Rightarrow> uuid) \<Rightarrow> loc \<Rightarrow> json \<Rightarrow> restaurant vres" where
  "v_restaurant uu loc j = v_model ''Restaurant'' restaurant_keys loc j (\<lambda>kvs.
     vap (vap (vap (vap (vap (vap (vap (vap (vap (vap (vap (vap (vmap restaurant.make
       (v_id uu kvs loc))
       (fld kvs loc ''name'' (required loc ''name'') (v_name ''Restaurant name cannot be blank'' 255)))
       (fld kvs loc ''description'' (Inr None) (v_opt (v_str_len 0 2000))))
       (opt_str kvs loc ''logo_url''))
       (opt_str kvs loc ''cover_image_url''))
       (fld kvs loc ''gallery_image_urls'' (Inr []) (v_list v_str)))
       (opt_str kvs loc ''website_url''))
       (fld kvs loc ''cuisine_types'' (Inr []) (v_list v_str)))
       (fld kvs loc ''locations'' (Inr []) (v_list (v_location uu))))
       (fld kvs loc ''menus'' (Inr []) (v_list (v_menu uu))))
       (fld kvs loc ''is_active'' (Inr True) v_bool))
       (fld kvs loc ''created_at'' (Inr None) (v_opt v_time)))
       (fld kvs loc ''updated_at'' (Inr None) (v_opt v_time)))"

section \<open>Well-formed instances\<close>

text \<open>What construction guarantees of an instance.\<close>

definition name_ok :: "nat \<Rightarrow> string \<Rightarrow> bool" where
  "name_ok hi s \<longleftrightarrow> py_strip s = s \<and> s \<noteq> [] \<and> length s \<le> hi"

definition opt_len_ok :: "nat \<Rightarrow> string option \<Rightarrow> bool" where
  "opt_len_ok hi s \<longleftrightarrow> (case s of None \<Rightarrow> True | Some t \<Rightarrow> length t \<le> hi)"

definition opt_ge0 :: "decimal option \<Rightarrow> bool" where
  "opt_ge0 d \<longleftrightarrow> (case d of None \<Rightarrow> True | Some x \<Rightarrow> 0 \<le> x)"

definition opt_between :: "rat \<Rightarrow> rat \<Rightarrow> rat option \<Rightarrow> bool" where
  "opt_between lo hi d \<longleftrightarrow> (case d of None \<Rightarrow> True | Some x \<Rightarrow> lo \<le> x \<and> x \<le> hi)"

definition macros_ok :: "macros \<Rightarrow> bool" where
  "macros_ok m \<longleftrightarrow> opt_ge0 (m_calories m) \<and> opt_ge0 (m_protein_g m) \<and> opt_ge0 (m_carbohydrates_g m)
     \<and> opt_ge0 (m_fat_g m) \<and> opt_ge0 (m_saturated_fat_g m) \<and> opt_ge0 (m_trans_fat_g m)
     \<and> opt_ge0 (m_fiber_g m) \<and> opt_ge0 (m_sugar_g m) \<and> opt_ge0 (m_sodium_mg m)
     \<and> opt_ge0 (m_cholesterol_mg m)"

definition micronutrients_ok :: "micronutrients \<Rightarrow> bool" where
  "micronutrients_ok m \<longleftrightarrow> opt_ge0 (vitamin_a_mcg m) \<and> opt_ge0 (vitamin_c_mg m)
     \<and> opt_ge0 (vitamin_d_mcg m) \<and> opt_ge0 (calcium_mg m) \<and> opt_ge0 (iron_mg m)
     \<and> opt_ge0 (potassium_mg m)"

definition nutrition_ok :: "nutrition \<Rightarrow> bool" where
  "nutrition_ok n \<longleftrightarrow> macros_ok (n_macros n) \<and> micronutrients_ok (n_micronutrients n)"

definition dish_ok :: "dish \<Rightarrow> bool" where
  "dish_ok d \<longleftrightarrow> name_ok 255 (d_name d) \<and> opt_len_ok 2000 (d_description d)
     \<and> nutrition_ok (d_nutrition d) \<and> distinct (d_allergens d)
     \<and> list_all (\<lambda>i. name_ok 255 (i_name i)) (d_ingredients d)
     \<and> opt_ge0 (d_price d) \<and> length (d_currency d) = 3"

fun category_ok :: "menu_category \<Rightarrow> bool" where
  "category_ok (MenuCategory cid name order children dishes) \<longleftrightarrow>
     name_ok 255 name \<and> list_all category_ok children \<and> list_all dish_ok dishes"

definition menu_ok :: "menu \<Rightarrow> bool" where
  "menu_ok m \<longleftrightarrow> name_ok 255 (me_name m) \<and> list_all category_ok (me_categories m)"

definition location_ok :: "restaurant_location \<Rightarrow> bool" where
  "location_ok l \<longleftrightarrow> name_ok 255 (l_address_line1 l) \<and> opt_len_ok 255 (l_address_line2 l)
     \<and> name_ok 120 (l_city l) \<and> opt_len_ok 120 (l_state l) \<and> opt_len_ok 20 (l_postal_code l)
     \<and> length (l_country l) = 2 \<and> py_upper (l_country l) = l_country l
     \<and> opt_between (- 90) 90 (l_latitude l) \<and> opt_between (- 180) 180 (l_longitude l)"

definition restaurant_ok :: "restaurant \<Rightarrow> bool" where
  "restaurant_ok r \<longleftrightarrow> name_ok 255 (r_name r) \<and> opt_len_ok 2000 (r_description r)
     \<and> list_all location_ok (r_locations r) \<and> list_all menu_ok (r_menus r)"

subsection \<open>A dump reads back\<close>

named_theorems vsimps \<open>reading back one dumped field\<close>

lemma forbid_extra_known: "list_all (\<lambda>(k, _). k \<in> set keys) kvs \<Longrightarrow> forbid_extra keys loc kvs r = r"
proof -
  assume "list_all (\<lambda>(k, _). k \<in> set keys) kvs"
  then have "filter (\<lambda>(k, _). k \<notin> set keys) kvs = []"
    by (auto simp: filter_empty_conv list_all_iff)
  then show ?thesis by (simp add: forbid_extra_def)
qed

lemma v_model_known [vsimps]:
  "list_all (\<lambda>(k, _). k \<in> set keys) kvs \<Longrightarrow> v_model cls keys loc (JObj kvs) f = f kvs"
  by (simp add: v_model_def forbid_extra_known)

lemma fld_present [vsimps]: "map_of kvs k = Some j \<Longrightarrow> fld kvs loc k absent f = f (loc @ [LKey k]) j"
  by (simp add: fld_def)

lemma vseq_Inr: "(\<And>r. r \<in> set rs \<Longrightarrow> \<exists>x. r = Inr x) \<Longrightarrow> vseq rs = Inr (map projr rs)"
  by (induction rs) fastforce+

lemma v_list_dump [vsimps]:
  assumes "\<And>l x. x \<in> set xs \<Longrightarrow> f l (dump x) = Inr x"
  shows "v_list f loc (JList (map dump xs)) = Inr xs"
proof -
  have "vseq (map (\<lambda>(i, x). f (loc @ [LIdx i]) x) (List.enumerate n (map dump ys))) = Inr ys"
    if "set ys \<subseteq> set xs" for n ys
    using that by (induction ys arbitrary: n) (auto simp: assms)
  then show ?thesis by (simp add: v_list_def)
qed

lemma v_opt_dump:
  assumes "\<And>x. v = Some x \<Longrightarrow> dump x \<noteq> JNull \<and> f loc (dump x) = Inr x"
  shows "v_opt f loc (j_opt dump v) = Inr v"
  using assms by (cases v) (auto simp: v_opt_def j_opt_def split: json.splits)

lemma v_str_dump [vsimps]: "v_str loc (JStr s) = Inr s"
  by (simp add: v_str_def)

lemma v_opt_str_dump [vsimps]: "v_opt v_str loc (j_opt JStr v) = Inr v"
  by (rule v_opt_dump) (simp add: v_str_def)

lemma v_str_len_dump [vsimps]:
  "lo \<le> length s \<Longrightarrow> length s \<le> hi \<Longrightarrow> v_str_len lo hi loc (JStr s) = Inr s"
  by (simp add: v_str_len_def v_str_def)

lemma v_opt_str_len_dump [vsimps]:
  "opt_len_ok hi v \<Longrightarrow> v_opt (v_str_len 0 hi) loc (j_opt JStr v) = Inr v"
  by (rule v_opt_dump) (auto simp: opt_len_ok_def v_str_len_dump)

lemma v_name_dump [vsimps]: "name_ok hi s \<Longrightarrow> v_name msg hi loc (JStr s) = Inr s"
  by (cases s) (auto simp: v_name_def name_ok_def v_str_len_dump strip_and_require_non_blank_def)

lemma v_uuid_dump [vsimps]: "v_uuid loc (JStr (uuid_str u)) = Inr u"
  by (simp add: v_uuid_def)

lemma v_bool_dump [vsimps]: "v_bool loc (JBool b) = Inr b"
  by (simp add: v_bool_def)

lemma v_int_dump [vsimps]: "v_int loc (JInt i) = Inr i"
  by (simp add: v_int_def)

lemma v_opt_time_dump [vsimps]: "v_opt v_time loc (j_opt JTime v) = Inr v"
  by (rule v_opt_dump) (simp add: v_time_def)

lemma v_opt_dec_dump [vsimps]: "opt_ge0 v \<Longrightarrow> v_opt v_dec_ge0 loc (j_opt JDec v) = Inr v"
  by (rule v_opt_dump) (auto simp: opt_ge0_def v_dec_ge0_def)

lemma v_opt_float_dump [vsimps]:
  "opt_between lo hi v \<Longrightarrow> v_opt (v_float_between lo hi a b) loc (j_opt JFloat v) = Inr v"
  by (rule v_opt_dump) (auto simp: opt_between_def v_float_between_def)

lemma v_allergen_dump [vsimps]: "v_allergen loc (JStr (allergen_value a)) = Inr a"
  by (cases a) (simp_all add: v_allergen_def v_enum_def all_allergens_def)

lemma v_review_state_dump [vsimps]: "v_review_state loc (JStr (review_state_value s)) = Inr s"
  by (cases s) (simp_all add: v_review_state_def v_enum_def)

lemma v_macros_dump [vsimps]: "macros_ok m \<Longrightarrow> v_macros loc (dump_macros m) = Inr m"
  by (simp add: v_macros_def dump_macros_def macro_keys_def macros_ok_def vsimps opt_dec_def macros.defs)

lemma v_micronutrients_dump [vsimps]:
  "micronutrients_ok m \<Longrightarrow> v_micronutrients loc (dump_micronutrients m) = Inr m"
  by (simp add: v_micronutrients_def dump_micronutrients_def micronutrient_keys_def
      micronutrients_ok_def vsimps opt_dec_def micronutrients.defs)

lemma v_nutrition_dump [vsimps]: "nutrition_ok n \<Longrightarrow> v_nutrition loc (dump_nutrition n) = Inr n"
  by (simp add: v_nutrition_def dump_nutrition_def nutrition_ok_def vsimps opt_str_def nutrition.defs)

lemma v_ingredient_dump [vsimps]:
  "name_ok 255 (i_name i) \<Longrightarrow> v_ingredient loc (dump_ingredient i) = Inr i"
  by (simp add: v_ingredient_def dump_ingredient_def vsimps ingredient.defs)

lemma v_dish_dump [vsimps]: "dish_ok d \<Longrightarrow> v_dish uu loc (dump_dish d) = Inr d"
  unfolding v_dish_def dump_dish_def dish_keys_def dish_ok_def
  by (simp add: vsimps v_id_def opt_str_def opt_dec_def dish.defs list_all_iff)

lemma v_category_dump [vsimps]: "category_ok c \<Longrightarrow> v_category uu loc (dump_category c) = Inr c"
proof (induction c arbitrary: loc)
  case (MenuCategory cid name order children dishes)
  have ch: "v_list (\<lambda>l' c. v_category uu l' c) l (JList (map dump_category children)) = Inr children" for l
    by (rule v_list_dump) (use MenuCategory in \<open>auto simp: list_all_iff\<close>)
  have di: "v_list (v_dish uu) l (JList (map dump_dish dishes)) = Inr dishes" for l
    by (rule v_list_dump) (use MenuCategory.prems in \<open>auto simp: list_all_iff vsimps\<close>)
  show ?case
    using MenuCategory.prems
    by (subst v_category.simps) (simp add: vsimps category_keys_def v_id_def ch di)
qed

lemma v_menu_dump [vsimps]: "menu_ok m \<Longrightarrow> v_menu uu loc (dump_menu m) = Inr m"
  by (simp add: v_menu_def dump_menu_def menu_ok_def v_id_def vsimps list_all_iff menu.defs)

lemma v_location_dump [vsimps]: "location_ok l \<Longrightarrow> v_location uu loc (dump_location l) = Inr l"
  unfolding v_location_def dump_location_def location_keys_def location_ok_def
  by (simp add: vsimps v_id_def opt_str_def restaurant_location.defs)

lemma v_restaurant_dump: "restaurant_ok r \<Longrightarrow> v_restaurant uu loc (dump_restaurant r) = Inr r"
  unfolding v_restaurant_def dump_restaurant_def restaurant_keys_def restaurant_ok_def
  by (simp add: vsimps v_id_def opt_str_def restaurant.defs list_all_iff v_list_dump [where dump = JStr])

subsection \<open>A validated instance is well formed\<close>

definition vall :: "('a \<Rightarrow> bool) \<Rightarrow> 'a vres \<Rightarrow> bool" where
  "vall P r \<longleftrightarrow> (case r of Inl _ \<Rightarrow> True | Inr x \<Rightarrow> P x)"

lemma vallI: "(\<And>x. r = Inr x \<Longrightarrow> P x) \<Longrightarrow> vall P r"
  by (simp add: vall_def split: sum.splits)

lemma vallD: "vall P r \<Longrightarrow> r = Inr x \<Longrightarrow> P x"
  by (simp add: vall_def)

lemma vall_Inr [simp]: "vall P (Inr x) \<longleftrightarrow> P x"
  by (simp add: vall_def)

lemma vap_Inr_iff: "vap f r = Inr y \<longleftrightarrow> (\<exists>g x. f = Inr g \<and> r = Inr x \<and> y = g x)"
  by (cases f; cases r) auto

lemma vmap_Inr_iff: "vmap f r = Inr y \<longleftrightarrow> (\<exists>x. r = Inr x \<and> y = f x)"
  by (cases r) auto

lemma vthen_Inr_iff: "vthen r f = Inr y \<longleftrightarrow> (\<exists>x. r = Inr x \<and> f x = Inr y)"
  by (cases r) auto

lemma verr_at_Inr [simp]: "verr_at loc msg \<noteq> Inr y"
  by (simp add: verr_at_def)

lemma required_Inr [simp]: "required loc k \<noteq> Inr y"
  by (simp add: required_def)

lemma fld_required_Inr: "fld kvs loc k (required l k') f = Inr x \<Longrightarrow> \<exists>l j. f l j = Inr x"
  by (auto simp: fld_def split: option.splits)

lemma fld_default_Inr: "fld kvs loc k (Inr d) f = Inr x \<Longrightarrow> x = d \<or> (\<exists>l j. f l j = Inr x)"
  by (auto simp: fld_def split: option.splits)

lemma v_model_Inr: "v_model cls keys loc j f = Inr x \<Longrightarrow> \<exists>kvs. j = JObj kvs \<and> f kvs = Inr x"
  by (auto simp: v_model_def forbid_extra_def split: json.splits list.splits sum.splits)

lemma vall_vseq: "(\<And>r. r \<in> set rs \<Longrightarrow> vall P r) \<Longrightarrow> vall (list_all P) (vseq rs)"
proof (induction rs)
  case Nil
  then show ?case by (simp add: vall_def)
next
  case (Cons r rs)
  then have "vall P r" "vall (list_all P) (vseq rs)" by auto
  then show ?case by (auto simp: vap_Inr_iff vmap_Inr_iff intro!: vallI)
qed

lemma vall_v_list: "(\<And>l x. vall P (f l x)) \<Longrightarrow> vall (list_all P) (v_list f loc j)"
  by (auto simp: v_list_def verr_at_def vall_def [of _ "Inl _"] split: json.splits intro!: vall_vseq)

lemma vall_v_list_mem:
  "(\<And>l x js. j = JList js \<Longrightarrow> x \<in> set js \<Longrightarrow> vall P (f l x)) \<Longrightarrow> vall (list_all P) (v_list f loc j)"
  by (auto simp: v_list_def verr_at_def vall_def [of _ "Inl _"] dest!: enumerate0_mem
      split: json.splits intro!: vall_vseq)

lemma vall_v_str_len: "vall (\<lambda>s. lo \<le> length s \<and> length s \<le> hi) (v_str_len lo hi loc j)"
  by (auto simp: v_str_len_def vthen_Inr_iff intro!: vallI split: if_splits)

lemma vall_v_opt: "(\<And>x. f loc j = Inr x \<Longrightarrow> P (Some x)) \<Longrightarrow> P None \<Longrightarrow> vall P (v_opt f loc j)"
  by (rule vallI) (auto simp: v_opt_def vmap_Inr_iff split: json.splits)

lemma vall_opt_str_len: "vall (opt_len_ok hi) (v_opt (v_str_len 0 hi) loc j)"
  by (rule vall_v_opt) (auto simp: opt_len_ok_def dest: vallD [OF vall_v_str_len])

lemma vall_v_name: "vall (name_ok hi) (v_name msg hi loc j)"
proof (rule vallI)
  fix t assume "v_name msg hi loc j = Inr t"
  then obtain s where s: "v_str_len 1 hi loc j = Inr s" "py_strip s \<noteq> []" "t = py_strip s"
    by (auto simp: v_name_def vthen_Inr_iff strip_and_require_non_blank_def Let_def split: if_splits)
  with vallD [OF vall_v_str_len s(1)] length_py_strip [of s] show "name_ok hi t"
    by (simp add: name_ok_def)
qed

lemma vall_opt_dec: "opt_dec kvs loc k = Inr v \<Longrightarrow> opt_ge0 v"
  unfolding opt_dec_def
  by (drule fld_default_Inr)
    (auto simp: opt_ge0_def v_dec_ge0_def vthen_Inr_iff split: if_splits
      dest!: vallD [OF vall_v_opt [where P = opt_ge0], rotated 2])

lemma vall_opt_float: "vall (opt_between lo hi) (v_opt (v_float_between lo hi a b) loc j)"
  by (rule vall_v_opt)
    (auto simp: opt_between_def v_float_between_def vthen_Inr_iff split: if_splits)

lemma vall_v_macros: "vall macros_ok (v_macros loc j)"
  by (rule vallI)
    (auto dest!: v_model_Inr
      simp: v_macros_def macros_ok_def vap_Inr_iff vmap_Inr_iff macros.defs vall_opt_dec)

lemma vall_v_micronutrients: "vall micronutrients_ok (v_micronutrients loc j)"
  by (rule vallI)
    (auto dest!: v_model_Inr
      simp: v_micronutrients_def micronutrients_ok_def vap_Inr_iff vmap_Inr_iff
        micronutrients.defs vall_opt_dec)

lemma empty_macros_ok [simp]: "macros_ok empty_macros"
  by (simp add: macros_ok_def empty_macros_def opt_ge0_def)

lemma empty_micronutrients_ok [simp]: "micronutrients_ok empty_micronutrients"
  by (simp add: micronutrients_ok_def empty_micronutrients_def opt_ge0_def)

named_theorems vok \<open>what validating one field guarantees\<close>

lemma fld_default:
  "fld kvs loc k (Inr d) f = Inr x \<Longrightarrow> (\<And>l j. vall P (f l j)) \<Longrightarrow> P d \<Longrightarrow> P x"
  using fld_default_Inr vallD by metis

lemma fld_required:
  "fld kvs loc k (required l k') f = Inr x \<Longrightarrow> (\<And>l j. vall P (f l j)) \<Longrightarrow> P x"
  using fld_required_Inr vallD by metis

lemma opt_str_len_fld [vok]: "fld kvs loc k (Inr None) (v_opt (v_str_len 0 hi)) = Inr x \<Longrightarrow> opt_len_ok hi x"
  by (erule fld_default) (rule vall_opt_str_len, simp add: opt_len_ok_def)

lemma opt_float_fld [vok]:
  "fld kvs loc k (Inr None) (v_opt (v_float_between lo hi a b)) = Inr x \<Longrightarrow> opt_between lo hi x"
  by (erule fld_default) (rule vall_opt_float, simp add: opt_between_def)

lemma name_fld [vok]: "fld kvs loc k (required l k') (v_name msg hi) = Inr x \<Longrightarrow> name_ok hi x"
  by (erule fld_required) (rule vall_v_name)

lemma list_fld:
  "fld kvs loc k (Inr []) (v_list f) = Inr xs \<Longrightarrow> (\<And>l j. vall P (f l j)) \<Longrightarrow> list_all P xs"
  by (erule fld_default) (auto intro: vall_v_list)

lemmas opt_dec_fld [vok] = vall_opt_dec

lemma macros_fld [vok]: "fld kvs loc k (Inr empty_macros) v_macros = Inr x \<Longrightarrow> macros_ok x"
  by (erule fld_default) (rule vall_v_macros, simp)

lemma micronutrients_fld [vok]:
  "fld kvs loc k (Inr empty_micronutrients) v_micronutrients = Inr x \<Longrightarrow> micronutrients_ok x"
  by (erule fld_default) (rule vall_v_micronutrients, simp)

lemma vall_v_nutrition: "vall nutrition_ok (v_nutrition loc j)"
  by (rule vallI, drule v_model_Inr [OF v_nutrition_def [symmetric, THEN trans]])
    (auto simp: nutrition_ok_def vap_Inr_iff vmap_Inr_iff nutrition.defs vok)

lemma vall_v_ingredient: "vall (\<lambda>i. name_ok 255 (i_name i)) (v_ingredient loc j)"
  by (rule vallI, drule v_model_Inr [OF v_ingredient_def [symmetric, THEN trans]])
    (auto simp: vap_Inr_iff vmap_Inr_iff ingredient.defs vok)

lemma nutrition_fld [vok]: "fld kvs loc k (Inr empty_nutrition) v_nutrition = Inr x \<Longrightarrow> nutrition_ok x"
  by (erule fld_default) (rule vall_v_nutrition, simp add: nutrition_ok_def empty_nutrition_def)

lemma allergens_fld [vok]:
  "fld kvs loc k (Inr []) (\<lambda>l x. vmap dict_fromkeys (v_list v_allergen l x)) = Inr as \<Longrightarrow> distinct as"
  by (erule fld_default) (auto simp: vmap_Inr_iff intro!: vallI)

lemma ingredients_fld [vok]:
  "fld kvs loc k (Inr []) (v_list v_ingredient) = Inr is \<Longrightarrow> list_all (\<lambda>i. name_ok 255 (i_name i)) is"
  by (erule list_fld) (rule vall_v_ingredient)

lemma currency_fld [vok]: "fld kvs loc k (Inr ''USD'') (v_str_len 3 3) = Inr x \<Longrightarrow> length x = 3"
  by (erule fld_default) (rule vallI, drule vallD [OF vall_v_str_len], auto)

lemma vall_v_dish: "vall dish_ok (v_dish uu loc j)"
  by (rule vallI, drule v_model_Inr [OF v_dish_def [symmetric, THEN trans]])
    (auto simp: vap_Inr_iff vmap_Inr_iff dish.defs vok dish_ok_def)

lemma dishes_fld [vok]: "fld kvs loc k (Inr []) (v_list (v_dish uu)) = Inr ds \<Longrightarrow> list_all dish_ok ds"
  by (erule list_fld) (rule vall_v_dish)

lemma vall_v_category: "vall category_ok (v_category uu loc j)"
proof (induction uu loc j rule: v_category.induct)
  case (1 uu loc j)
  show ?case
  proof (rule vallI)
    fix c assume "v_category uu loc j = Inr c"
    from v_model_Inr [OF this [unfolded v_category.simps [of uu loc j]]] obtain kvs where
      j: "j = JObj kvs" and eq: "vap (vap (vap (vap (vmap MenuCategory
       (v_id uu kvs loc))
       (fld kvs loc ''name'' (required loc ''name'') (v_name ''Category name cannot be blank'' 255)))
       (fld kvs loc ''display_order'' (Inr 0) v_int))
       (fld kvs loc ''children'' (Inr []) (\<lambda>l x. v_list (\<lambda>l' c. v_category uu l' c) l x)))
       (fld kvs loc ''dishes'' (Inr []) (v_list (v_dish uu))) = Inr c" by blast
    have ch: "list_all category_ok cs"
      if "fld kvs loc ''children'' (Inr []) (\<lambda>l x. v_list (\<lambda>l' c. v_category uu l' c) l x) = Inr cs" for cs
      using that 1 [OF j] vallD [OF vall_v_list_mem [where P = category_ok]]
      by (auto simp: fld_def split: option.splits) metis
    from eq show "category_ok c"
      by (auto simp: vap_Inr_iff vmap_Inr_iff vok ch)
  qed
qed

lemma categories_fld [vok]:
  "fld kvs loc k (Inr []) (v_list (v_category uu)) = Inr cs \<Longrightarrow> list_all category_ok cs"
  by (erule list_fld) (rule vall_v_category)

lemma menu_name_fld [vok]: "fld kvs loc k (Inr ''Menu'') (v_name msg 255) = Inr x \<Longrightarrow> name_ok 255 x"
  by (erule fld_default) (rule vall_v_name, simp add: name_ok_def py_strip_def is_ws_def Let_def)

lemma vall_v_menu: "vall menu_ok (v_menu uu loc j)"
  by (rule vallI, drule v_model_Inr [OF v_menu_def [symmetric, THEN trans]])
    (auto simp: vap_Inr_iff vmap_Inr_iff menu.defs vok menu_ok_def)

lemma menus_fld [vok]: "fld kvs loc k (Inr []) (v_list (v_menu uu)) = Inr ms \<Longrightarrow> list_all menu_ok ms"
  by (erule list_fld) (rule vall_v_menu)

lemma country_fld [vok]:
  "fld kvs loc k (required l k') (\<lambda>l x. vmap py_upper (v_str_len 2 2 l x)) = Inr s
     \<Longrightarrow> length s = 2 \<and> py_upper s = s"
  by (erule fld_required) (auto simp: vmap_Inr_iff intro!: vallI dest!: vallD [OF vall_v_str_len])

lemma vall_v_location: "vall location_ok (v_location uu loc j)"
  by (rule vallI, drule v_model_Inr [OF v_location_def [symmetric, THEN trans]])
    (auto simp: vap_Inr_iff vmap_Inr_iff restaurant_location.defs vok location_ok_def)

lemma locations_fld [vok]:
  "fld kvs loc k (Inr []) (v_list (v_location uu)) = Inr ls \<Longrightarrow> list_all location_ok ls"
  by (erule list_fld) (rule vall_v_location)

lemma vall_v_restaurant: "vall restaurant_ok (v_restaurant uu loc j)"
  by (rule vallI, drule v_model_Inr [OF v_restaurant_def [symmetric, THEN trans]])
    (auto simp: vap_Inr_iff vmap_Inr_iff restaurant.defs vok restaurant_ok_def)

subsection \<open>A failed validation reports something\<close>

definition reports :: "'a vres \<Rightarrow> bool" where
  "reports r \<longleftrightarrow> r \<noteq> Inl []"

named_theorems reporting \<open>a validation step that fails reports an error\<close>

lemma reports_Inr [reporting]: "reports (Inr x)"
  by (simp add: reports_def)

lemma reports_verr [reporting]: "reports (verr_at loc msg)" "reports (required loc k)"
  by (simp_all add: reports_def verr_at_def required_def)

lemma reports_vap [reporting]: "reports f \<Longrightarrow> reports r \<Longrightarrow> reports (vap f r)"
  by (cases f; cases r) (auto simp: reports_def)

lemma reports_vmap [reporting]: "reports r \<Longrightarrow> reports (vmap f r)"
  by (cases r) (auto simp: reports_def)

lemma reports_vthen [reporting]: "reports r \<Longrightarrow> (\<And>x. reports (f x)) \<Longrightarrow> reports (vthen r f)"
  by (cases r) (auto simp: reports_def)

lemma reports_fld [reporting]:
  "reports absent \<Longrightarrow> (\<And>l j. reports (f l j)) \<Longrightarrow> reports (fld kvs loc k absent f)"
  by (simp add: fld_def split: option.splits)

lemma reports_v_model [reporting]: "(\<And>kvs. reports (f kvs)) \<Longrightarrow> reports (v_model cls keys loc j f)"
  by (fastforce simp: v_model_def forbid_extra_def reports_def verr_at_def
      split: json.splits list.splits sum.splits)

lemma reports_vseq: "(\<And>r. r \<in> set rs \<Longrightarrow> reports r) \<Longrightarrow> reports (vseq rs)"
  by (induction rs) (auto intro: reporting)

lemma reports_v_list [reporting]: "(\<And>l x. reports (f l x)) \<Longrightarrow> reports (v_list f loc j)"
  by (auto simp: v_list_def split: json.splits intro!: reporting reports_vseq)

lemma reports_v_opt [reporting]: "reports (f loc j) \<Longrightarrow> reports (v_opt f loc j)"
  by (auto simp: v_opt_def split: json.splits intro!: reporting)

lemma reports_scalars [reporting]:
  "reports (v_str loc j)" "reports (v_uuid loc j)" "reports (v_bool loc j)" "reports (v_int loc j)"
  "reports (v_time loc j)" "reports (v_enum table loc j)"
  by (auto simp: v_str_def v_uuid_def v_bool_def v_int_def v_time_def v_enum_def Let_def
      split: json.splits option.splits intro!: reporting)

lemma reports_checked [reporting]:
  "reports (v_str_len lo hi loc j)" "reports (v_dec_ge0 loc j)"
  "reports (v_float_between a b s t loc j)" "reports (strip_and_require_non_blank msg loc s')"
  by (auto simp: v_str_len_def v_dec_ge0_def v_float_between_def strip_and_require_non_blank_def Let_def
      split: json.splits intro!: reporting)

lemma reports_fields [reporting]:
  "reports (v_name msg hi loc j)" "reports (v_allergen loc j)" "reports (v_review_state loc j)"
  "reports (opt_dec kvs loc k)" "reports (opt_str kvs loc k)" "reports (v_id uu kvs loc)"
  by (simp_all add: v_name_def v_allergen_def v_review_state_def opt_dec_def opt_str_def v_id_def
      reporting)

lemma reports_classes [reporting]:
  "reports (v_macros loc j)" "reports (v_micronutrients loc j)"  "reports (v_ingredient loc j)"
  by (simp_all add: v_macros_def v_micronutrients_def v_ingredient_def reporting)

lemma reports_v_nutrition [reporting]: "reports (v_nutrition loc j)"
  by (simp add: v_nutrition_def reporting)

lemma reports_v_dish [reporting]: "reports (v_dish uu loc j)"
  by (simp add: v_dish_def reporting)

lemma reports_v_category [reporting]: "reports (v_category uu loc j)"
proof (induction uu loc j rule: v_category.induct)
  case (1 uu loc j)
  have "reports (fld kvs loc ''children'' (Inr []) (\<lambda>l x. v_list (\<lambda>l' c. v_category uu l' c) l x))"
    if "j = JObj kvs" for kvs
    using 1 [OF that]
    by (auto simp: fld_def v_list_def split: option.splits json.splits
        intro!: reporting reports_vseq dest!: enumerate0_mem)
  then show ?case
    by (subst v_category.simps)
      (cases j; auto simp: v_model_def forbid_extra_def intro!: reporting
        split: list.splits sum.splits; fastforce intro!: reporting simp: reports_def)
qed

lemma reports_restaurant: "reports (v_restaurant uu loc j)"
  by (simp add: v_restaurant_def v_location_def v_menu_def reporting)

section \<open>Properties\<close>

definition sample_dish :: dish where
  "sample_dish = \<lparr>d_id = 3, d_category_id = 2, d_name = ''Pad Thai'', d_description = Some ''Rice noodles'',
     d_image_url = None,
     d_nutrition = \<lparr>n_serving_size = Some ''1 bowl'',
       n_macros = empty_macros\<lparr>m_calories := Some 600, m_protein_g := Some 20,
         m_carbohydrates_g := Some 80, m_fat_g := Some 20\<rparr>,
       n_micronutrients = empty_micronutrients\<rparr>,
     d_allergens = [PEANUTS], d_ingredients = [\<lparr>i_name = ''peanut'', i_is_optional = False\<rparr>],
     d_quantity = None, d_price = Some (25 / 2), d_currency = ''USD'', d_review_state = PENDING\<rparr>"

definition sample_restaurant :: restaurant where
  "sample_restaurant = \<lparr>r_id = 0, r_name = ''Thai Place'', r_description = None, r_logo_url = None,
     r_cover_image_url = None, r_gallery_image_urls = [], r_website_url = None, r_cuisine_types = [''thai''],
     r_locations = [], r_menus = [\<lparr>me_id = 1, me_name = ''Menu'',
       me_categories = [MenuCategory 2 ''Mains'' 0 [] [sample_dish]]\<rparr>],
     r_is_active = True, r_created_at = None, r_updated_at = None\<rparr>"

lemma sample_name_ok:
  "name_ok 255 ''Pad Thai''" "name_ok 255 ''peanut''" "name_ok 255 ''Mains''" "name_ok 255 ''Menu''"
  "name_ok 255 ''Thai Place''"
  by (simp_all add: name_ok_def py_strip_def is_ws_def)

lemma sample_restaurant_ok: "restaurant_ok sample_restaurant"
  by (simp add: restaurant_ok_def sample_restaurant_def sample_dish_def menu_ok_def dish_ok_def
      opt_len_ok_def nutrition_ok_def macros_ok_def micronutrients_ok_def empty_macros_def
      empty_micronutrients_def opt_ge0_def sample_name_ok)

text \<open>C28: Whatever JSON \<open>Restaurant.model_validate\<close> accepts, the instance it returns satisfies every
  constraint of the schema (stripped non-blank names within their lengths, non-negative nutrition and
  prices, three-letter currencies, distinct allergens, two-letter upper-case countries, coordinates in
  range, at every depth of the category tree), and dumping that instance and validating the dump
  returns it unchanged, whatever fresh UUIDs are drawn.\<close>

theorem validated_restaurant_roundtrip:
  "v_restaurant uu loc j = Inr r \<Longrightarrow>
     restaurant_ok r \<and> v_restaurant uu' loc' (dump_restaurant r) = Inr r"
  using vallD [OF vall_v_restaurant] by (simp add: v_restaurant_dump)

theorem validated_restaurant_roundtrip_witness:
  "v_restaurant (\<lambda>_. 9) [] (dump_restaurant sample_restaurant) = Inr sample_restaurant
   \<and> restaurant_ok sample_restaurant
   \<and> v_restaurant (\<lambda>_. 7) [LKey ''x''] (dump_restaurant sample_restaurant) = Inr sample_restaurant"
proof -
  have v: "v_restaurant (\<lambda>_. 9) [] (dump_restaurant sample_restaurant) = Inr sample_restaurant"
    by (rule v_restaurant_dump [OF sample_restaurant_ok])
  show ?thesis using v validated_restaurant_roundtrip [OF v] by simp
qed

end
