(* ===== verification/Validation.thy ===== *)
theory Validation
  imports Schemas
begin

text \<open>
  The deterministic validation engine, \<open>src/core/validation/\<close>: the rule modules, the safe
  corrections, and \<open>engine.validate\<close>, which runs them. A rule is a function from a dish and
  a path prefix to a list of issues; an f-string is kept as the list of its pieces, so that a
  message shows the values it quotes. Dashes in messages are written \<open>-\<close>.
\<close>

section \<open>Results\<close>

text \<open>The pieces of an f-string: literal text, a decimal, a decimal rounded to no places, a
  number, the \<open>repr\<close> of a list of strings, and \<open>text[:n]\<close>.\<close>

datatype piece = Txt string | Dec decimal | Dec0 decimal | Num nat | Repr "string list" | Cut nat "piece list"

type_synonym message = "piece list"

datatype severity = ERROR | WARNING

record validation_issue =
  vi_field_path :: string
  vi_code :: string
  vi_message :: message
  vi_severity :: severity

record corrected_field =
  cf_field_path :: string
  cf_old_value :: message
  cf_new_value :: message
  cf_reason :: string

record validation_outcome =
  vo_errors :: "validation_issue list"
  vo_warnings :: "validation_issue list"
  vo_corrected_fields :: "corrected_field list"
  vo_corrected_restaurant :: "restaurant option"

definition is_valid :: "validation_outcome \<Rightarrow> bool" where
  "is_valid vo \<longleftrightarrow> length (vo_errors vo) = 0"

definition issue :: "string \<Rightarrow> string \<Rightarrow> message \<Rightarrow> severity \<Rightarrow> validation_issue" where
  "issue path code msg sev =
     \<lparr>vi_field_path = path, vi_code = code, vi_message = msg, vi_severity = sev\<rparr>"

lemma issue_sel [simp]:
  "vi_field_path (issue p c m s) = p" "vi_code (issue p c m s) = c"
  "vi_message (issue p c m s) = m" "vi_severity (issue p c m s) = s"
  by (simp_all add: issue_def)

definition quoted :: "string \<Rightarrow> piece" where
  "quoted s = Txt (CHR 0x27 # s @ [CHR 0x27])"

definition at_index :: "string \<Rightarrow> nat \<Rightarrow> string" where
  "at_index s i = s @ ''['' @ show_nat i @ '']''"

section \<open>Required fields\<close>

fun category_has_any_dish :: "menu_category \<Rightarrow> bool" where
  "category_has_any_dish (MenuCategory cid name order children dishes) \<longleftrightarrow>
     dishes \<noteq> [] \<or> list_ex category_has_any_dish children"

definition menu_has_any_dish :: "menu \<Rightarrow> bool" where
  "menu_has_any_dish m \<longleftrightarrow> list_ex category_has_any_dish (me_categories m)"

definition check_required_fields :: "restaurant \<Rightarrow> validation_issue list" where
  "check_required_fields r =
     (if r_locations r = []
      then [issue ''locations'' ''missing_locations'' [Txt ''Restaurant has no locations.''] WARNING]
      else []) @
     (if r_menus r = []
      then [issue ''menus'' ''missing_menus''
              [Txt ''Restaurant has no menus - extraction likely found no usable menu content.''] ERROR]
      else if \<not> list_ex menu_has_any_dish (r_menus r)
      then [issue ''menus'' ''empty_menus''
              [Txt ''Restaurant has menus but no dishes in any of them - extraction likely found no usable menu content.'']
              ERROR]
      else [])"

definition check_dish_required_fields :: "dish \<Rightarrow> string \<Rightarrow> validation_issue list" where
  "check_dish_required_fields d field_prefix =
     (let m = n_macros (d_nutrition d);
          has_any_nutrition = list_ex (\<lambda>v. v \<noteq> None)
            [m_calories m, m_protein_g m, m_carbohydrates_g m, m_fat_g m]
      in
       (if d_price d = None
        then [issue (field_prefix @ ''.price'') ''missing_price''
                [Txt ''Dish '', quoted (d_name d), Txt '' has no price.''] WARNING]
        else []) @
       (if \<not> has_any_nutrition
        then [issue (field_prefix @ ''.nutrition'') ''missing_nutrition''
                [Txt ''Dish '', quoted (d_name d), Txt '' has no nutrition data.''] WARNING]
        else []))"

section \<open>Nutrition\<close>

definition kcal_per_g_protein :: decimal where "kcal_per_g_protein = 4"
definition kcal_per_g_carb :: decimal where "kcal_per_g_carb = 4"
definition kcal_per_g_fat :: decimal where "kcal_per_g_fat = 9"
definition atwater_relative_tolerance :: decimal where "atwater_relative_tolerance = 35 / 100"
definition atwater_min_absolute_tolerance_kcal :: decimal where
  "atwater_min_absolute_tolerance_kcal = 50"
definition max_plausible_calories :: decimal where "max_plausible_calories = 5000"
definition max_plausible_sodium_mg :: decimal where "max_plausible_sodium_mg = 10000"

definition atwater_expected_calories :: "decimal \<Rightarrow> decimal \<Rightarrow> decimal \<Rightarrow> decimal" where
  "atwater_expected_calories protein_g carbohydrates_g fat_g =
     protein_g * kcal_per_g_protein + carbohydrates_g * kcal_per_g_carb + fat_g * kcal_per_g_fat"

definition check_serving_size_present :: "dish \<Rightarrow> string \<Rightarrow> validation_issue list" where
  "check_serving_size_present d field_prefix =
     (let m = n_macros (d_nutrition d);
          has_any_value = list_ex (\<lambda>v. v \<noteq> None)
            [m_calories m, m_protein_g m, m_carbohydrates_g m, m_fat_g m];
          no_serving_size = (case n_serving_size (d_nutrition d) of None \<Rightarrow> True | Some s \<Rightarrow> s = [])
      in
       if has_any_value \<and> no_serving_size
       then [issue (field_prefix @ ''.serving_size'') ''missing_serving_size''
               [Txt ''Nutrition values are present but no serving_size is set; these numbers are meaningless without a serving context.'']
               WARNING]
       else [])"

definition check_atwater_consistency :: "macros \<Rightarrow> string \<Rightarrow> validation_issue list" where
  "check_atwater_consistency m field_prefix =
     (case (m_calories m, m_protein_g m, m_carbohydrates_g m, m_fat_g m) of
        (Some calories, Some protein_g, Some carbohydrates_g, Some fat_g) \<Rightarrow>
          (let expected = atwater_expected_calories protein_g carbohydrates_g fat_g;
               tolerance = max atwater_min_absolute_tolerance_kcal (expected * atwater_relative_tolerance);
               difference = \<bar>calories - expected\<bar>
           in
            if tolerance < difference
            then [issue (field_prefix @ ''.macros.calories'') ''atwater_mismatch''
                    [Txt ''Stated calories ('', Dec calories,
                     Txt '') diverge from the Atwater estimate from macros ('', Dec expected,
                     Txt '') by more than the allowed tolerance ('', Dec0 tolerance,
                     Txt '' kcal). This may indicate a transcription error, but the source value is kept as-is for human review.'']
                    WARNING]
            else [])
      | _ \<Rightarrow> [])"

definition check_plausible_bounds :: "dish \<Rightarrow> string \<Rightarrow> validation_issue list" where
  "check_plausible_bounds d field_prefix =
     (let m = n_macros (d_nutrition d) in
       (case m_calories m of
          Some c \<Rightarrow>
            if max_plausible_calories < c
            then [issue (field_prefix @ ''.macros.calories'') ''implausible_calories''
                    [Dec c, Txt '' kcal exceeds the plausible bound for a single menu item ('',
                     Dec max_plausible_calories, Txt '' kcal).''] ERROR]
            else []
        | None \<Rightarrow> []) @
       (case m_sodium_mg m of
          Some s \<Rightarrow>
            if max_plausible_sodium_mg < s
            then [issue (field_prefix @ ''.macros.sodium_mg'') ''implausible_sodium''
                    [Dec s, Txt '' mg sodium exceeds the plausible bound for a single menu item ('',
                     Dec max_plausible_sodium_mg, Txt '' mg).''] ERROR]
            else []
        | None \<Rightarrow> []))"

definition check_nutrition :: "dish \<Rightarrow> string \<Rightarrow> validation_issue list" where
  "check_nutrition d field_prefix =
     check_serving_size_present d field_prefix
     @ check_atwater_consistency (n_macros (d_nutrition d)) field_prefix
     @ check_plausible_bounds d field_prefix"

section \<open>Allergens\<close>

definition ingredient_allergen_keywords :: "(string \<times> allergen) list" where
  "ingredient_allergen_keywords =
     [(''milk'', MILK), (''cheese'', MILK), (''butter'', MILK), (''cream'', MILK), (''yogurt'', MILK),
      (''egg'', EGGS), (''mayonnaise'', EGGS),
      (''shrimp'', SHELLFISH), (''crab'', SHELLFISH), (''lobster'', SHELLFISH),
      (''peanut'', PEANUTS),
      (''almond'', TREE_NUTS), (''walnut'', TREE_NUTS), (''cashew'', TREE_NUTS), (''pecan'', TREE_NUTS),
      (''wheat'', WHEAT), (''flour'', WHEAT),
      (''soy'', SOY), (''tofu'', SOY),
      (''sesame'', SESAME), (''tahini'', SESAME)]"

definition implied_allergens :: "dish \<Rightarrow> allergen set" where
  "implied_allergens d =
     set (concat (map (\<lambda>i. let lowered = py_lower (i_name i) in
       map snd (filter (\<lambda>(keyword, _). py_contains keyword lowered) ingredient_allergen_keywords))
       (d_ingredients d)))"

definition check_allergens :: "dish \<Rightarrow> string \<Rightarrow> validation_issue list" where
  "check_allergens d field_prefix =
     (let undeclared = sorted_list_of_set (implied_allergens d - set (d_allergens d)) in
      map (\<lambda>a. issue (field_prefix @ ''.allergens'') ''possible_undeclared_allergen''
             [Txt ''Ingredients suggest '', quoted (allergen_value a),
              Txt '' may be present but it is not declared in allergens - please confirm.''] WARNING)
        undeclared)"

section \<open>Price\<close>

definition max_plausible_price :: decimal where "max_plausible_price = 500"
definition valid_currency_length :: nat where "valid_currency_length = 3"

definition check_price :: "dish \<Rightarrow> string \<Rightarrow> validation_issue list" where
  "check_price d field_prefix =
     (case d_price d of
        Some p \<Rightarrow>
          if max_plausible_price < p
          then [issue (field_prefix @ ''.price'') ''implausible_price''
                  [Txt ''Price '', Dec p, Txt '' '', Txt (d_currency d),
                   Txt '' exceeds the plausible bound for a single menu item ('',
                   Dec max_plausible_price, Txt '').''] ERROR]
          else []
      | None \<Rightarrow> []) @
     (case d_price d of
        Some p \<Rightarrow>
          if p = 0
          then [issue (field_prefix @ ''.price'') ''zero_price''
                  [Txt ''Price is exactly 0 - confirm this item is actually free/complimentary rather than a missing price.'']
                  WARNING]
          else []
      | None \<Rightarrow> []) @
     (if \<not> py_isalpha (d_currency d) \<or> length (d_currency d) \<noteq> valid_currency_length
      then [issue (field_prefix @ ''.currency'') ''malformed_currency_code''
              [quoted (d_currency d), Txt '' is not a well-formed 3-letter currency code.''] ERROR]
      else if d_currency d \<noteq> py_upper (d_currency d)
      then [issue (field_prefix @ ''.currency'') ''lowercase_currency_code''
              [Txt ''Currency code '', quoted (d_currency d), Txt '' should be uppercase ISO 4217 ('',
               quoted (py_upper (d_currency d)), Txt '').''] WARNING]
      else [])"

section \<open>Impossible values\<close>

definition exceeds :: "decimal option \<Rightarrow> decimal option \<Rightarrow> bool" where
  "exceeds part whole = (case (part, whole) of (Some p, Some w) \<Rightarrow> w < p | _ \<Rightarrow> False)"

definition subset_issue ::
  "string \<Rightarrow> string \<Rightarrow> string \<Rightarrow> string \<Rightarrow> string \<Rightarrow> decimal option \<Rightarrow> decimal option \<Rightarrow> validation_issue list" where
  "subset_issue field_prefix part_name whole_name code reason part whole =
     (if exceeds part whole
      then [issue (field_prefix @ ''.macros.'' @ part_name) code
              [Txt part_name, Txt '' ('', Dec (the part), Txt '') cannot exceed '', Txt whole_name,
               Txt '' ('', Dec (the whole), Txt '') - '', Txt reason] ERROR]
      else [])"

definition check_impossible_values :: "dish \<Rightarrow> string \<Rightarrow> validation_issue list" where
  "check_impossible_values d field_prefix =
     (let m = n_macros (d_nutrition d) in
       subset_issue field_prefix ''saturated_fat_g'' ''fat_g'' ''saturated_fat_exceeds_total_fat''
         ''saturated fat is a subset of total fat.'' (m_saturated_fat_g m) (m_fat_g m)
       @ subset_issue field_prefix ''trans_fat_g'' ''fat_g'' ''trans_fat_exceeds_total_fat''
         ''trans fat is a subset of total fat.'' (m_trans_fat_g m) (m_fat_g m)
       @ subset_issue field_prefix ''sugar_g'' ''carbohydrates_g'' ''sugar_exceeds_total_carbohydrates''
         ''sugar is a subset of total carbohydrates.'' (m_sugar_g m) (m_carbohydrates_g m)
       @ subset_issue field_prefix ''fiber_g'' ''carbohydrates_g'' ''fiber_exceeds_total_carbohydrates''
         ''fiber is a subset of total carbohydrates.'' (m_fiber_g m) (m_carbohydrates_g m))"

section \<open>Duplicates\<close>

definition normalize_name :: "string \<Rightarrow> string" where
  "normalize_name name = py_join '' '' (py_split (py_lower (py_strip name)))"

text \<open>\<open>by_name\<close>, a \<open>defaultdict(list)\<close>, after the first loop.\<close>

definition group_paths :: "(dish \<times> string) list \<Rightarrow> (string \<times> string list) list" where
  "group_paths dishes =
     fold (\<lambda>(d, path) by_name.
       let k = normalize_name (d_name d) in
       AList.update k ((case map_of by_name k of Some ps \<Rightarrow> ps | None \<Rightarrow> []) @ [path]) by_name)
       dishes []"

definition check_duplicate_dishes :: "(dish \<times> string) list \<Rightarrow> validation_issue list" where
  "check_duplicate_dishes dishes =
     concat (map (\<lambda>(normalized_name, field_paths).
       if length field_paths < 2 then []
       else map (\<lambda>field_path.
              issue (field_path @ ''.name'') ''duplicate_dish_name''
                [quoted normalized_name, Txt '' appears '', Num (length field_paths), Txt '' times ('',
                 Txt (py_join '', '' field_paths), Txt ''); these may be duplicates.''] WARNING)
              field_paths)
       (group_paths dishes))"

section \<open>Safe corrections\<close>

fun deduplicate_from :: "string list \<Rightarrow> ingredient list \<Rightarrow> ingredient list" where
  "deduplicate_from seen [] = []"
| "deduplicate_from seen (i # is) =
     (let key = normalize_name (i_name i) in
      if key \<in> set seen then deduplicate_from seen is
      else i # deduplicate_from (key # seen) is)"

definition deduplicate_ingredients :: "ingredient list \<Rightarrow> ingredient list \<times> bool" where
  "deduplicate_ingredients ingredients =
     (let deduplicated = deduplicate_from [] ingredients in
      (deduplicated, length deduplicated \<noteq> length ingredients))"

definition correct_currency :: "string \<Rightarrow> dish \<Rightarrow> dish \<times> corrected_field list" where
  "correct_currency field_prefix d =
     (if py_isalpha (d_currency d) \<and> length (d_currency d) = 3 \<and> d_currency d \<noteq> py_upper (d_currency d)
      then (d\<lparr>d_currency := py_upper (d_currency d)\<rparr>,
            [\<lparr>cf_field_path = field_prefix @ ''.currency'', cf_old_value = [Txt (d_currency d)],
              cf_new_value = [Txt (py_upper (d_currency d))],
              cf_reason = ''Normalized currency code casing to uppercase ISO 4217.''\<rparr>])
      else (d, []))"

definition correct_description :: "string \<Rightarrow> dish \<Rightarrow> dish \<times> corrected_field list" where
  "correct_description field_prefix d =
     (case d_description d of
        None \<Rightarrow> (d, [])
      | Some description \<Rightarrow>
          let collapsed = collapse_ws description in
          if collapsed \<noteq> description
          then (d\<lparr>d_description := Some collapsed\<rparr>,
                [\<lparr>cf_field_path = field_prefix @ ''.description'', cf_old_value = [Txt description],
                  cf_new_value = [Txt collapsed], cf_reason = ''Collapsed redundant whitespace.''\<rparr>])
          else (d, []))"

definition correct_ingredients :: "string \<Rightarrow> dish \<Rightarrow> dish \<times> corrected_field list" where
  "correct_ingredients field_prefix d =
     (let (deduplicated, removed_any) = deduplicate_ingredients (d_ingredients d) in
      if removed_any
      then (d\<lparr>d_ingredients := deduplicated\<rparr>,
            [\<lparr>cf_field_path = field_prefix @ ''.ingredients'',
              cf_old_value = [Repr (map i_name (d_ingredients d))],
              cf_new_value = [Repr (map i_name deduplicated)],
              cf_reason = ''Removed exact-duplicate ingredient entries.''\<rparr>])
      else (d, []))"

text \<open>The three corrections read and write different fields, so applying them one after the other
  is applying the collected \<open>updates\<close> at the end.\<close>

definition correct_dish :: "string \<Rightarrow> dish \<Rightarrow> dish \<times> corrected_field list" where
  "correct_dish field_prefix d =
     (let (d1, c1) = correct_currency field_prefix d;
          (d2, c2) = correct_description field_prefix d1;
          (d3, c3) = correct_ingredients field_prefix d2
      in (d3, c1 @ c2 @ c3))"

fun correct_dishes :: "string \<Rightarrow> nat \<Rightarrow> dish list \<Rightarrow> dish list \<times> corrected_field list" where
  "correct_dishes category_field_prefix i [] = ([], [])"
| "correct_dishes category_field_prefix i (d # ds) =
     (let (d', c1) = correct_dish (at_index (category_field_prefix @ ''.dishes'') i) d;
          (ds', c2) = correct_dishes category_field_prefix (Suc i) ds
      in (d' # ds', c1 @ c2))"

fun correct_categories ::
  "string \<Rightarrow> nat \<Rightarrow> menu_category list \<Rightarrow> menu_category list \<times> corrected_field list" where
  "correct_categories field_prefix i [] = ([], [])"
| "correct_categories field_prefix i (MenuCategory cid name order children dishes # rest) =
     (let category_field_prefix = at_index (field_prefix @ ''.categories'') i;
          (updated_dishes, c1) = correct_dishes category_field_prefix 0 dishes;
          (updated_children, c2) = correct_categories category_field_prefix 0 children;
          (updated, c3) = correct_categories field_prefix (Suc i) rest
      in (MenuCategory cid name order updated_children updated_dishes # updated, c1 @ c2 @ c3))"

fun correct_menus :: "nat \<Rightarrow> menu list \<Rightarrow> menu list \<times> corrected_field list" where
  "correct_menus i [] = ([], [])"
| "correct_menus i (m # ms) =
     (let (updated_categories, c1) = correct_categories (at_index ''menus'' i) 0 (me_categories m);
          (ms', c2) = correct_menus (Suc i) ms
      in (m\<lparr>me_categories := updated_categories\<rparr> # ms', c1 @ c2))"

definition apply_safe_corrections :: "restaurant \<Rightarrow> restaurant \<times> corrected_field list" where
  "apply_safe_corrections r =
     (let (updated_menus, corrections) = correct_menus 0 (r_menus r) in
      (r\<lparr>r_menus := updated_menus\<rparr>, corrections))"

section \<open>Schema validation\<close>

fun loc_part_str :: "loc_part \<Rightarrow> string" where
  "loc_part_str (LKey k) = k"
| "loc_part_str (LIdx i) = show_nat i"

definition schema_issue :: "verr \<Rightarrow> validation_issue" where
  "schema_issue e =
     (let path = py_join ''.'' (map loc_part_str (fst e)) in
      issue (if path = [] then ''<root>'' else path) ''schema_violation'' [Txt (snd e)] ERROR)"

definition validate_schema ::
  "(loc \<Rightarrow> uuid) \<Rightarrow> json \<Rightarrow> restaurant option \<times> validation_issue list" where
  "validate_schema uu payload =
     (case v_restaurant uu [] payload of
        Inl errs \<Rightarrow> (None, map schema_issue errs)
      | Inr r \<Rightarrow> (Some r, []))"

section \<open>The engine\<close>

fun iter_dishes_at :: "string \<Rightarrow> nat \<Rightarrow> menu_category list \<Rightarrow> (dish \<times> string) list" where
  "iter_dishes_at field_prefix i [] = []"
| "iter_dishes_at field_prefix i (MenuCategory cid name order children dishes # rest) =
     (let category_field_prefix = at_index (field_prefix @ ''.categories'') i in
      map (\<lambda>(k, d). (d, at_index (category_field_prefix @ ''.dishes'') k)) (enumerate0 dishes)
      @ iter_dishes_at category_field_prefix 0 children
      @ iter_dishes_at field_prefix (Suc i) rest)"

definition iter_dishes :: "menu_category list \<Rightarrow> string \<Rightarrow> (dish \<times> string) list" where
  "iter_dishes categories field_prefix = iter_dishes_at field_prefix 0 categories"

definition dish_issues :: "dish \<Rightarrow> string \<Rightarrow> validation_issue list" where
  "dish_issues d field_path =
     check_dish_required_fields d field_path
     @ check_nutrition d (field_path @ ''.nutrition'')
     @ check_allergens d field_path
     @ check_price d field_path
     @ check_impossible_values d field_path"

definition menu_issues :: "nat \<Rightarrow> menu \<Rightarrow> validation_issue list" where
  "menu_issues menu_index m =
     (let dishes = iter_dishes (me_categories m) (at_index ''menus'' menu_index) in
      check_duplicate_dishes dishes @ concat (map (\<lambda>(d, path). dish_issues d path) dishes))"

definition all_issues :: "restaurant \<Rightarrow> validation_issue list" where
  "all_issues r =
     check_required_fields r @ concat (map (\<lambda>(i, m). menu_issues i m) (enumerate0 (r_menus r)))"

definition split_issues ::
  "validation_issue list \<Rightarrow> corrected_field list \<Rightarrow> restaurant option \<Rightarrow> validation_outcome" where
  "split_issues issues corrected r =
     \<lparr>vo_errors = filter (\<lambda>i. vi_severity i = ERROR) issues,
      vo_warnings = filter (\<lambda>i. vi_severity i = WARNING) issues,
      vo_corrected_fields = corrected,
      vo_corrected_restaurant = r\<rparr>"

text \<open>\<open>validate\<close> on a \<open>Restaurant\<close> and on a dictionary.\<close>

definition validate_restaurant :: "restaurant \<Rightarrow> validation_outcome" where
  "validate_restaurant r =
     (let (corrected, fields) = apply_safe_corrections r in
      split_issues (all_issues corrected) fields (Some corrected))"

definition validate :: "(loc \<Rightarrow> uuid) \<Rightarrow> json \<Rightarrow> validation_outcome" where
  "validate uu payload =
     (case validate_schema uu payload of
        (None, schema_issues) \<Rightarrow> split_issues schema_issues [] None
      | (Some r, schema_issues) \<Rightarrow>
          (let (corrected, fields) = apply_safe_corrections r in
           split_issues (schema_issues @ all_issues corrected) fields (Some corrected)))"

section \<open>The contract of a dish rule\<close>

text \<open>
  What \<open>engine.validate\<close> relies on: a rule reports the same issues wherever the dish sits; the
  prefix it is given only relocates their paths.
\<close>

definition relocate :: "string \<Rightarrow> validation_issue \<Rightarrow> validation_issue" where
  "relocate p i = i\<lparr>vi_field_path := p @ vi_field_path i\<rparr>"

lemma relocate_issue [simp]: "relocate p (issue q c m s) = issue (p @ q) c m s"
  by (simp add: relocate_def issue_def)

lemma relocate_sel [simp]:
  "vi_field_path (relocate p i) = p @ vi_field_path i" "vi_code (relocate p i) = vi_code i"
  "vi_message (relocate p i) = vi_message i" "vi_severity (relocate p i) = vi_severity i"
  by (simp_all add: relocate_def)

lemma relocate_relocate [simp]: "relocate p (relocate q i) = relocate (p @ q) i"
  by (simp add: relocate_def)

locale dish_rule =
  fixes rule :: "dish \<Rightarrow> string \<Rightarrow> validation_issue list"
  assumes relocates: "rule d p = map (relocate p) (rule d [])"
begin

lemma path_below: "i \<in> set (rule d p) \<Longrightarrow> prefix p (vi_field_path i)"
  by (subst (asm) relocates) auto

lemma contents_anywhere:
  "map (\<lambda>i. (vi_code i, vi_message i, vi_severity i)) (rule d p)
     = map (\<lambda>i. (vi_code i, vi_message i, vi_severity i)) (rule d q)"
proof -
  have eq: "map (\<lambda>i. (vi_code i, vi_message i, vi_severity i)) (rule d p)
      = map (\<lambda>i. (vi_code i, vi_message i, vi_severity i)) (rule d [])" for p
    by (subst relocates) simp
  show ?thesis by (rule trans [OF eq eq [symmetric]])
qed

lemma under_field: "dish_rule (\<lambda>d p. rule d (p @ f))"
proof (unfold_locales)
  fix d p
  show "rule d (p @ f) = map (relocate p) (rule d ([] @ f))"
    by (subst relocates, subst (2) relocates) simp
qed

end

lemma dish_rule_append:
  assumes "dish_rule r1" "dish_rule r2"
  shows "dish_rule (\<lambda>d p. r1 d p @ r2 d p)"
proof (unfold_locales)
  fix d p
  show "r1 d p @ r2 d p = map (relocate p) (r1 d [] @ r2 d [])"
    unfolding map_append
    by (subst dish_rule.relocates [OF assms(1)], subst dish_rule.relocates [OF assms(2)]) simp
qed

interpretation dish_required: dish_rule check_dish_required_fields
  by unfold_locales (simp add: check_dish_required_fields_def Let_def)

interpretation serving_size: dish_rule check_serving_size_present
  by unfold_locales (simp add: check_serving_size_present_def Let_def)

interpretation atwater: dish_rule "\<lambda>d. check_atwater_consistency (n_macros (d_nutrition d))"
  by unfold_locales (simp add: check_atwater_consistency_def Let_def split: option.splits)

interpretation plausible_bounds: dish_rule check_plausible_bounds
  by unfold_locales (simp add: check_plausible_bounds_def Let_def split: option.splits)

interpretation nutrition_rule: dish_rule check_nutrition
proof -
  have eq: "check_nutrition = (\<lambda>d p. check_serving_size_present d p
      @ (\<lambda>d p. check_atwater_consistency (n_macros (d_nutrition d)) p @ check_plausible_bounds d p) d p)"
    by (simp add: fun_eq_iff check_nutrition_def)
  show "dish_rule check_nutrition"
    unfolding eq
    by (intro dish_rule_append serving_size.dish_rule_axioms atwater.dish_rule_axioms
        plausible_bounds.dish_rule_axioms)
qed

interpretation allergen_rule: dish_rule check_allergens
  by unfold_locales (simp add: check_allergens_def Let_def)

interpretation price_rule: dish_rule check_price
  by unfold_locales (simp add: check_price_def Let_def split: option.splits)

interpretation impossible_values: dish_rule check_impossible_values
  by unfold_locales (simp add: check_impossible_values_def subset_issue_def Let_def)

interpretation all_dish_rules: dish_rule dish_issues
proof -
  have eq: "dish_issues = (\<lambda>d p. check_dish_required_fields d p
      @ (\<lambda>d p. check_nutrition d (p @ ''.nutrition'')
      @ (\<lambda>d p. check_allergens d p
      @ (\<lambda>d p. check_price d p @ check_impossible_values d p) d p) d p) d p)"
    by (simp add: fun_eq_iff dish_issues_def)
  show "dish_rule dish_issues"
    unfolding eq
    by (intro dish_rule_append dish_required.dish_rule_axioms
        nutrition_rule.under_field allergen_rule.dish_rule_axioms price_rule.dish_rule_axioms
        impossible_values.dish_rule_axioms)
qed

section \<open>Safe corrections: what they change\<close>

lemma dedup_from_subseq: "subseq (deduplicate_from seen is) is"
  by (induction "is" arbitrary: seen) (auto simp: Let_def)

lemma dedup_from_keys:
  "distinct (map (\<lambda>i. normalize_name (i_name i)) (deduplicate_from seen is))
   \<and> set (map (\<lambda>i. normalize_name (i_name i)) (deduplicate_from seen is)) \<inter> set seen = {}"
  by (induction "is" arbitrary: seen) (auto simp: Let_def, force+)

lemma dedup_from_id:
  "distinct (map (\<lambda>i. normalize_name (i_name i)) is) \<Longrightarrow>
   set (map (\<lambda>i. normalize_name (i_name i)) is) \<inter> set seen = {} \<Longrightarrow> deduplicate_from seen is = is"
  by (induction "is" arbitrary: seen) (auto simp: Let_def)

lemma dedup_from_idem: "deduplicate_from [] (deduplicate_from [] is) = deduplicate_from [] is"
  using dedup_from_keys [of "[]" "is"] by (intro dedup_from_id) auto

lemma dedup_length_eq: "length (deduplicate_from [] is) = length is \<longleftrightarrow> deduplicate_from [] is = is"
  using dedup_from_subseq [of "[]" "is"] subseq_same_length by metis

definition corrected_dish :: "dish \<Rightarrow> dish" where
  "corrected_dish d = d\<lparr>
     d_currency := (if py_isalpha (d_currency d) \<and> length (d_currency d) = 3
                    then py_upper (d_currency d) else d_currency d),
     d_description := map_option collapse_ws (d_description d),
     d_ingredients := deduplicate_from [] (d_ingredients d)\<rparr>"

lemma fst_correct_dish [simp]: "fst (correct_dish p d) = corrected_dish d"
  by (cases "d_description d")
    (auto simp: correct_dish_def correct_currency_def correct_description_def
      correct_ingredients_def deduplicate_ingredients_def corrected_dish_def Let_def
      dedup_length_eq)

lemma corrected_dish_idem [simp]: "corrected_dish (corrected_dish d) = corrected_dish d"
  by (simp add: corrected_dish_def dedup_from_idem option.map_comp comp_def)

lemma snd_correct_dish_Nil: "snd (correct_dish p d) = [] \<longleftrightarrow> corrected_dish d = d"
proof -
  have upd: "d\<lparr>d_currency := c, d_description := x, d_ingredients := is\<rparr> = d
      \<longleftrightarrow> c = d_currency d \<and> x = d_description d \<and> is = d_ingredients d" for c x "is"
    by (cases d) auto
  show ?thesis
    unfolding corrected_dish_def upd
    by (cases "d_description d")
      (auto simp: correct_dish_def correct_currency_def correct_description_def
        correct_ingredients_def deduplicate_ingredients_def Let_def dedup_length_eq)
qed

fun corrected_category :: "menu_category \<Rightarrow> menu_category" where
  "corrected_category (MenuCategory cid name order children dishes) =
     MenuCategory cid name order (map corrected_category children) (map corrected_dish dishes)"

definition corrected_menu :: "menu \<Rightarrow> menu" where
  "corrected_menu m = m\<lparr>me_categories := map corrected_category (me_categories m)\<rparr>"

definition corrected_restaurant :: "restaurant \<Rightarrow> restaurant" where
  "corrected_restaurant r = r\<lparr>r_menus := map corrected_menu (r_menus r)\<rparr>"

lemma fst_correct_dishes [simp]: "fst (correct_dishes p i ds) = map corrected_dish ds"
  by (induction ds arbitrary: i)
    (auto simp: case_prod_beta Let_def)

lemma snd_correct_dishes_Nil: "snd (correct_dishes p i ds) = [] \<longleftrightarrow> map corrected_dish ds = ds"
  by (induction ds arbitrary: i)
    (auto simp: case_prod_beta Let_def snd_correct_dish_Nil)

lemma fst_correct_categories [simp]: "fst (correct_categories p i cs) = map corrected_category cs"
  by (induction p i cs rule: iter_dishes_at.induct) (auto simp: case_prod_beta Let_def)

lemma snd_correct_categories_Nil:
  "snd (correct_categories p i cs) = [] \<longleftrightarrow> map corrected_category cs = cs"
  by (induction p i cs rule: iter_dishes_at.induct)
    (auto simp: case_prod_beta Let_def snd_correct_dishes_Nil)

lemma fst_correct_menus [simp]: "fst (correct_menus i ms) = map corrected_menu ms"
  by (induction ms arbitrary: i)
    (auto simp: case_prod_beta Let_def corrected_menu_def)

lemma corrected_menu_id: "corrected_menu m = m \<longleftrightarrow> map corrected_category (me_categories m) = me_categories m"
  by (cases m) (simp add: corrected_menu_def)

lemma snd_correct_menus_Nil: "snd (correct_menus i ms) = [] \<longleftrightarrow> map corrected_menu ms = ms"
  by (induction ms arbitrary: i)
    (auto simp: case_prod_beta Let_def snd_correct_categories_Nil corrected_menu_id)

lemma fst_apply_safe_corrections [simp]: "fst (apply_safe_corrections r) = corrected_restaurant r"
  by (simp add: apply_safe_corrections_def corrected_restaurant_def case_prod_beta)

lemma snd_apply_safe_corrections_Nil:
  "snd (apply_safe_corrections r) = [] \<longleftrightarrow> corrected_restaurant r = r"
  by (cases r) (simp add: apply_safe_corrections_def corrected_restaurant_def case_prod_beta
      snd_correct_menus_Nil)

lemma corrected_category_idem [simp]: "corrected_category (corrected_category c) = corrected_category c"
  by (induction c) simp

lemma corrected_menu_idem [simp]: "corrected_menu (corrected_menu m) = corrected_menu m"
  by (simp add: corrected_menu_def)

lemma corrected_restaurant_idem [simp]:
  "corrected_restaurant (corrected_restaurant r) = corrected_restaurant r"
  by (simp add: corrected_restaurant_def)

lemma corrections_of_corrected [simp]: "snd (apply_safe_corrections (corrected_restaurant r)) = []"
  by (simp add: snd_apply_safe_corrections_Nil)

lemma enumerate0_map: "enumerate0 (map f xs) = map (\<lambda>(i, x). (i, f x)) (enumerate0 xs)"
proof -
  have "List.enumerate n (map f xs) = map (\<lambda>(i, x). (i, f x)) (List.enumerate n xs)" for n
    by (induction xs arbitrary: n) auto
  then show ?thesis .
qed

text \<open>A correction keeps every dish at its path.\<close>

lemma iter_dishes_corrected:
  "iter_dishes_at p i (map corrected_category cs)
     = map (\<lambda>(d, path). (corrected_dish d, path)) (iter_dishes_at p i cs)"
  by (induction p i cs rule: iter_dishes_at.induct)
    (auto simp: Let_def enumerate0_map)

lemma length_collapse_ws: "length (collapse_ws s) \<le> length s"
proof -
  have "length (py_join '' '' (py_split s)) \<le> length s
      \<and> (py_split s \<noteq> [] \<longrightarrow> length (py_join '' '' (py_split s)) \<le> length (dropWhile is_ws s))"
  proof (induction "length s" arbitrary: s rule: less_induct)
    case less
    define t where "t = dropWhile is_ws s"
    show ?case
    proof (cases t)
      case Nil
      then have "py_split s = []" unfolding py_split_unfold [of s] Let_def t_def by (rule if_P)
      then show ?thesis by simp
    next
      case (Cons c cs)
      define u where "u = dropWhile (\<lambda>x. \<not> is_ws x) cs"
      define w where "w = c # takeWhile (\<lambda>x. \<not> is_ws x) cs"
      have eq: "py_split s = w # py_split u"
        using Cons unfolding t_def w_def u_def by (subst py_split.simps) simp
      have len: "length w + length u = length t"
        unfolding Cons w_def u_def
        by simp (metis length_append takeWhile_dropWhile_id)
      have ts: "length t \<le> length s" by (simp add: t_def length_dropWhile_le)
      have "length u < length s" using len ts by (simp add: w_def)
      note ih = less [OF this]
      have hd: "u \<noteq> [] \<Longrightarrow> is_ws (hd u)" unfolding u_def using hd_dropWhile by blast
      have "length (py_join '' '' (py_split s)) \<le> length t"
      proof (cases "py_split u")
        case Nil
        then show ?thesis using len by (simp add: eq)
      next
        case (Cons v vs)
        then have "u \<noteq> []" by auto
        then have "length (dropWhile is_ws u) < length u"
          using hd by (cases u) (auto simp: less_Suc_eq_le length_dropWhile_le)
        then show ?thesis using ih len Cons by (simp add: eq)
      qed
      then show ?thesis using ts by (simp add: t_def)
    qed
  qed
  then show ?thesis by (simp add: collapse_ws_def)
qed

lemma corrected_dish_ok: "dish_ok d \<Longrightarrow> dish_ok (corrected_dish d)"
proof -
  assume d: "dish_ok d"
  have "set (deduplicate_from [] (d_ingredients d)) \<subseteq> set (d_ingredients d)"
    using dedup_from_subseq [of "[]"] by (rule list_emb_set [THEN subsetI]) auto
  then show ?thesis
    using d length_collapse_ws
    by (auto simp: dish_ok_def corrected_dish_def list_all_iff opt_len_ok_def
        split: option.splits intro: order_trans)
qed

lemma corrected_category_ok: "category_ok c \<Longrightarrow> category_ok (corrected_category c)"
  by (induction c) (auto simp: list_all_iff corrected_dish_ok)

lemma corrected_restaurant_ok: "restaurant_ok r \<Longrightarrow> restaurant_ok (corrected_restaurant r)"
  by (auto simp: restaurant_ok_def corrected_restaurant_def corrected_menu_def menu_ok_def
      list_all_iff corrected_category_ok)

section \<open>What each rule finds\<close>

definition no_errors :: "validation_issue list \<Rightarrow> bool" where
  "no_errors is \<longleftrightarrow> (\<forall>i \<in> set is. vi_severity i \<noteq> ERROR)"

lemma no_errors_simps [simp]:
  "no_errors []" "no_errors (i # is) \<longleftrightarrow> vi_severity i \<noteq> ERROR \<and> no_errors is"
  "no_errors (xs @ ys) \<longleftrightarrow> no_errors xs \<and> no_errors ys"
  "no_errors (concat xss) \<longleftrightarrow> (\<forall>xs \<in> set xss. no_errors xs)"
  by (auto simp: no_errors_def)

definition at_most :: "decimal \<Rightarrow> decimal option \<Rightarrow> bool" where
  "at_most b v \<longleftrightarrow> (case v of None \<Rightarrow> True | Some x \<Rightarrow> x \<le> b)"

lemma no_errors_required_dish [simp]: "no_errors (check_dish_required_fields d p)"
  by (simp add: check_dish_required_fields_def Let_def)

lemma no_errors_allergens [simp]: "no_errors (check_allergens d p)"
  by (auto simp: check_allergens_def no_errors_def Let_def)

lemma no_errors_duplicates [simp]: "no_errors (check_duplicate_dishes ds)"
  by (auto simp: check_duplicate_dishes_def no_errors_def split: if_splits)

lemma no_errors_nutrition:
  "no_errors (check_nutrition d p) \<longleftrightarrow>
     at_most max_plausible_calories (m_calories (n_macros (d_nutrition d)))
     \<and> at_most max_plausible_sodium_mg (m_sodium_mg (n_macros (d_nutrition d)))"
  by (auto simp: check_nutrition_def check_serving_size_present_def check_atwater_consistency_def
      check_plausible_bounds_def at_most_def Let_def split: option.splits)

lemma no_errors_price:
  "no_errors (check_price d p) \<longleftrightarrow>
     at_most max_plausible_price (d_price d) \<and> py_isalpha (d_currency d)
     \<and> length (d_currency d) = valid_currency_length"
  by (auto simp: check_price_def at_most_def split: option.splits)

lemma no_errors_impossible:
  "no_errors (check_impossible_values d p) \<longleftrightarrow>
     (let m = n_macros (d_nutrition d) in
      \<not> exceeds (m_saturated_fat_g m) (m_fat_g m) \<and> \<not> exceeds (m_trans_fat_g m) (m_fat_g m)
      \<and> \<not> exceeds (m_sugar_g m) (m_carbohydrates_g m) \<and> \<not> exceeds (m_fiber_g m) (m_carbohydrates_g m))"
  by (auto simp: check_impossible_values_def subset_issue_def Let_def)

lemma no_errors_required_fields:
  "no_errors (check_required_fields r) \<longleftrightarrow> list_ex menu_has_any_dish (r_menus r)"
  by (cases "r_menus r") (auto simp: check_required_fields_def)

text \<open>The dishes of a restaurant, in document order, and what an error-free dish satisfies.\<close>

definition restaurant_dishes :: "restaurant \<Rightarrow> (dish \<times> string) list" where
  "restaurant_dishes r =
     concat (map (\<lambda>(i, m). iter_dishes (me_categories m) (at_index ''menus'' i)) (enumerate0 (r_menus r)))"

definition dish_plausible :: "dish \<Rightarrow> bool" where
  "dish_plausible d \<longleftrightarrow>
     (let m = n_macros (d_nutrition d) in
      at_most max_plausible_price (d_price d)
      \<and> at_most max_plausible_calories (m_calories m) \<and> at_most max_plausible_sodium_mg (m_sodium_mg m)
      \<and> py_isalpha (d_currency d) \<and> length (d_currency d) = valid_currency_length
      \<and> \<not> exceeds (m_saturated_fat_g m) (m_fat_g m) \<and> \<not> exceeds (m_trans_fat_g m) (m_fat_g m)
      \<and> \<not> exceeds (m_sugar_g m) (m_carbohydrates_g m) \<and> \<not> exceeds (m_fiber_g m) (m_carbohydrates_g m))"

lemma no_errors_dish_issues: "no_errors (dish_issues d p) \<longleftrightarrow> dish_plausible d"
  by (auto simp: dish_issues_def dish_plausible_def no_errors_nutrition no_errors_price
      no_errors_impossible Let_def)

lemma enumerate_Nil [simp]: "List.enumerate n xs = [] \<longleftrightarrow> xs = []"
  by (cases xs) auto

lemma iter_dishes_at_Nil: "iter_dishes_at p i cs = [] \<longleftrightarrow> \<not> list_ex category_has_any_dish cs"
  by (induction p i cs rule: iter_dishes_at.induct) (auto simp: Let_def)

lemma menu_has_any_dish_iff: "menu_has_any_dish m \<longleftrightarrow> iter_dishes (me_categories m) p \<noteq> []"
  by (simp add: menu_has_any_dish_def iter_dishes_def iter_dishes_at_Nil)

lemma snd_enumerate0: "map snd (enumerate0 xs) = xs"
  by (simp add: enumerate_eq_zip)

lemma list_ex_enumerate0: "list_ex P xs \<longleftrightarrow> (\<exists>(i, x) \<in> set (enumerate0 xs). P x)"
proof -
  have "list_ex P xs \<longleftrightarrow> (\<exists>x \<in> snd ` set (enumerate0 xs). P x)"
    by (metis snd_enumerate0 list_ex_iff set_map)
  then show ?thesis by (simp add: case_prod_beta)
qed

lemma restaurant_dishes_Nil: "restaurant_dishes r = [] \<longleftrightarrow> \<not> list_ex menu_has_any_dish (r_menus r)"
proof -
  have "menu_has_any_dish m \<longleftrightarrow> iter_dishes (me_categories m) (at_index ''menus'' i) \<noteq> []" for m i
    by (rule menu_has_any_dish_iff)
  then show ?thesis
    unfolding restaurant_dishes_def list_ex_enumerate0 by fastforce
qed

lemma no_errors_menu_issues:
  "no_errors (menu_issues i m) \<longleftrightarrow>
     (\<forall>(d, path) \<in> set (iter_dishes (me_categories m) (at_index ''menus'' i)). dish_plausible d)"
  by (auto simp: menu_issues_def Let_def no_errors_dish_issues)

lemma no_errors_all_issues:
  "no_errors (all_issues r) \<longleftrightarrow>
     restaurant_dishes r \<noteq> [] \<and> (\<forall>(d, path) \<in> set (restaurant_dishes r). dish_plausible d)"
proof -
  have "no_errors (all_issues r) \<longleftrightarrow> list_ex menu_has_any_dish (r_menus r)
      \<and> (\<forall>(i, m) \<in> set (enumerate0 (r_menus r)). no_errors (menu_issues i m))"
    by (auto simp: all_issues_def no_errors_required_fields)
  also have "\<dots> \<longleftrightarrow> restaurant_dishes r \<noteq> []
      \<and> (\<forall>(d, path) \<in> set (restaurant_dishes r). dish_plausible d)"
    by (simp add: restaurant_dishes_Nil no_errors_menu_issues) (fastforce simp: restaurant_dishes_def)
  finally show ?thesis .
qed

lemma is_valid_split: "is_valid (split_issues is fs r) \<longleftrightarrow> no_errors is"
  by (simp add: is_valid_def split_issues_def no_errors_def filter_empty_conv)

lemma restaurant_dishes_corrected:
  "restaurant_dishes (corrected_restaurant r)
     = map (\<lambda>(d, path). (corrected_dish d, path)) (restaurant_dishes r)"
  by (simp add: restaurant_dishes_def corrected_restaurant_def enumerate0_map map_concat comp_def
      case_prod_beta corrected_menu_def iter_dishes_def iter_dishes_corrected)

lemma dish_plausible_corrected [simp]: "dish_plausible (corrected_dish d) \<longleftrightarrow> dish_plausible d"
  by (simp add: dish_plausible_def corrected_dish_def Let_def)

lemma validate_dump:
  "restaurant_ok r \<Longrightarrow> validate uu (dump_restaurant r) = validate_restaurant r"
  by (simp add: validate_def validate_schema_def v_restaurant_dump validate_restaurant_def)

lemma validate_cases:
  "validate uu payload =
     (case v_restaurant uu [] payload of
        Inl errs \<Rightarrow> split_issues (map schema_issue errs) [] None
      | Inr r \<Rightarrow> validate_restaurant r)"
  by (simp add: validate_def validate_schema_def validate_restaurant_def split: sum.splits)

lemma validate_restaurant_valid:
  "is_valid (validate_restaurant r) \<longleftrightarrow>
     restaurant_dishes r \<noteq> [] \<and> (\<forall>(d, path) \<in> set (restaurant_dishes r). dish_plausible d)"
  by (auto simp: validate_restaurant_def case_prod_beta is_valid_split no_errors_all_issues
      restaurant_dishes_corrected)

section \<open>Which dishes are duplicates\<close>

abbreviation norm_is :: "string \<Rightarrow> dish \<times> string \<Rightarrow> bool" where
  "norm_is k dp \<equiv> normalize_name (d_name (fst dp)) = k"

definition add_path :: "dish \<times> string \<Rightarrow> (string \<times> string list) list \<Rightarrow> (string \<times> string list) list" where
  "add_path dp by_name =
     (let k = normalize_name (d_name (fst dp)) in
      AList.update k ((case map_of by_name k of Some ps \<Rightarrow> ps | None \<Rightarrow> []) @ [snd dp]) by_name)"

lemma group_paths_add: "group_paths dishes = fold add_path dishes []"
proof -
  have "(\<lambda>(d, path) by_name.
       let k = normalize_name (d_name d) in
       AList.update k ((case map_of by_name k of Some ps \<Rightarrow> ps | None \<Rightarrow> []) @ [path]) by_name) = add_path"
    by (simp add: fun_eq_iff add_path_def)
  then show ?thesis by (simp add: group_paths_def)
qed

definition paths_of :: "string \<Rightarrow> (dish \<times> string) list \<Rightarrow> string list" where
  "paths_of k dishes = map snd (filter (norm_is k) dishes)"

lemma map_of_fold_add_path:
  "map_of (fold add_path dishes m) k =
     (if paths_of k dishes = [] then map_of m k
      else Some ((case map_of m k of Some ps \<Rightarrow> ps | None \<Rightarrow> []) @ paths_of k dishes))"
  by (induction dishes arbitrary: m)
    (auto simp: paths_of_def add_path_def Let_def update_conv split: option.splits)

lemma distinct_fold_add_path:
  "distinct (map fst m) \<Longrightarrow> distinct (map fst (fold add_path dishes m))"
  by (induction dishes arbitrary: m) (auto simp: add_path_def Let_def distinct_update)

lemma group_paths_mem:
  "(k, ps) \<in> set (group_paths dishes) \<longleftrightarrow> ps = paths_of k dishes \<and> ps \<noteq> []"
proof -
  have d: "distinct (map fst (group_paths dishes))"
    unfolding group_paths_add by (rule distinct_fold_add_path) simp
  have "(k, ps) \<in> set (group_paths dishes) \<longleftrightarrow> map_of (group_paths dishes) k = Some ps"
    using d by (metis map_of_eq_Some_iff)
  also have "\<dots> \<longleftrightarrow> ps = paths_of k dishes \<and> ps \<noteq> []"
    by (auto simp: group_paths_add map_of_fold_add_path)
  finally show ?thesis .
qed

lemma duplicate_issue_paths:
  "vi_field_path ` set (check_duplicate_dishes dishes)
     = {path @ ''.name'' | k path. path \<in> set (paths_of k dishes) \<and> 2 \<le> length (paths_of k dishes)}"
  by (fastforce simp: check_duplicate_dishes_def group_paths_mem image_iff not_less split: if_splits)

section \<open>Properties\<close>

lemma py_contains_iff: "py_contains needle s \<longleftrightarrow> (\<exists>u v. s = u @ needle @ v)"
proof (induction s)
  case Nil
  then show ?case by simp
next
  case (Cons c cs)
  have "(\<exists>u v. c # cs = u @ needle @ v) \<longleftrightarrow>
      (\<exists>v. c # cs = needle @ v) \<or> (\<exists>u v. cs = u @ needle @ v)" (is "?l \<longleftrightarrow> ?r")
  proof
    assume ?l
    then obtain u v where "c # cs = u @ needle @ v" by blast
    then show ?r by (cases u) auto
  next
    assume ?r
    then show ?l by (metis append_Cons append_Nil)
  qed
  then show ?case using Cons by (simp add: prefix_def)
qed

lemma finite_implied [simp]: "finite (implied_allergens d)"
  by (simp add: implied_allergens_def)

lemma implied_allergens_iff:
  "a \<in> implied_allergens d \<longleftrightarrow>
     (\<exists>i \<in> set (d_ingredients d). \<exists>k. (k, a) \<in> set ingredient_allergen_keywords
        \<and> py_contains k (py_lower (i_name i)))"
  by (force simp: implied_allergens_def Let_def)

text \<open>What a correction must not change: every field but the three it may touch, the words of the
  description, the normalized names of the ingredients, and the currency up to case.\<close>

definition dish_content where
  "dish_content d =
     (d_id d, d_category_id d, d_name d, map_option py_split (d_description d), d_image_url d,
      d_nutrition d, d_allergens d, (\<lambda>i. normalize_name (i_name i)) ` set (d_ingredients d),
      d_quantity d, d_price d, py_upper (d_currency d), d_review_state d)"

lemma dedup_from_set:
  "(\<lambda>i. normalize_name (i_name i)) ` set (deduplicate_from seen is)
     = (\<lambda>i. normalize_name (i_name i)) ` set is - set seen"
  by (induction "is" arbitrary: seen) (auto simp: Let_def)

lemma py_split_collapse [simp]: "py_split (collapse_ws s) = py_split s"
  by (simp add: collapse_ws_def py_split_join words_ok_py_split)

lemma dish_content_corrected [simp]: "dish_content (corrected_dish d) = dish_content d"
  by (simp add: dedup_from_set dish_content_def corrected_dish_def option.map_comp comp_def)

lemma price_codes_corrected:
  "''lowercase_currency_code'' \<notin> vi_code ` set (check_price (corrected_dish d) p)"
  by (auto simp: check_price_def corrected_dish_def valid_currency_length_def split: option.splits if_splits)

lemma other_codes:
  "''lowercase_currency_code'' \<notin> vi_code ` set (check_dish_required_fields d p)"
  "''lowercase_currency_code'' \<notin> vi_code ` set (check_nutrition d p)"
  "''lowercase_currency_code'' \<notin> vi_code ` set (check_allergens d p)"
  "''lowercase_currency_code'' \<notin> vi_code ` set (check_impossible_values d p)"
  "''lowercase_currency_code'' \<notin> vi_code ` set (check_duplicate_dishes ds)"
  "''lowercase_currency_code'' \<notin> vi_code ` set (check_required_fields r)"
  by (auto simp: check_dish_required_fields_def check_nutrition_def check_serving_size_present_def
      check_atwater_consistency_def check_plausible_bounds_def check_allergens_def
      check_impossible_values_def subset_issue_def check_duplicate_dishes_def
      check_required_fields_def Let_def split: option.splits if_splits)

lemma menu_issues_corrected:
  "menu_issues i (corrected_menu m) =
     check_duplicate_dishes (iter_dishes (me_categories (corrected_menu m)) (at_index ''menus'' i))
     @ concat (map (\<lambda>(d, path). dish_issues (corrected_dish d) path)
         (iter_dishes (me_categories m) (at_index ''menus'' i)))"
  by (simp add: menu_issues_def Let_def corrected_menu_def iter_dishes_def iter_dishes_corrected
      comp_def case_prod_unfold)

lemma dish_content_corrected_pair:
  "map (\<lambda>(d, path). (dish_content d, path)) (restaurant_dishes (corrected_restaurant r))
     = map (\<lambda>(d, path). (dish_content d, path)) (restaurant_dishes r)"
  by (simp add: restaurant_dishes_corrected case_prod_unfold)

lemma valid_iff:
  "is_valid (validate uu payload) \<longleftrightarrow>
     (\<exists>r. v_restaurant uu [] payload = Inr r \<and> restaurant_dishes r \<noteq> []
        \<and> (\<forall>(d, path) \<in> set (restaurant_dishes r). dish_plausible d))"
proof (cases "v_restaurant uu [] payload")
  case (Inl errs)
  then have "errs \<noteq> []" using reports_restaurant by (auto simp: reports_def)
  then have "\<not> no_errors (map schema_issue errs)"
    by (cases errs) (auto simp: schema_issue_def Let_def)
  then show ?thesis by (simp add: validate_cases Inl is_valid_split)
next
  case (Inr r)
  then show ?thesis by (simp add: validate_cases validate_restaurant_valid)
qed

text \<open>C29: Validation passes exactly when the payload has the shape of a restaurant, the restaurant has a
  dish somewhere in its menus, and every dish is plausible: price at most 500, calories at most 5000,
  sodium at most 10000 mg, a three-letter currency, and no subset macro above its total. Warnings and
  corrections have no influence.\<close>

theorem valid_outcome_guarantee:
  "is_valid (validate uu payload) \<longleftrightarrow>
     (\<exists>r. v_restaurant uu [] payload = Inr r \<and> restaurant_dishes r \<noteq> []
        \<and> (\<forall>(d, path) \<in> set (restaurant_dishes r). dish_plausible d))"
  by (rule valid_iff)

lemma sample_dishes: "restaurant_dishes sample_restaurant = [(sample_dish, ''menus[0].categories[0].dishes[0]'')]"
  by (simp add: restaurant_dishes_def sample_restaurant_def iter_dishes_def at_index_def)

lemma sample_plausible: "dish_plausible sample_dish"
  by (simp add: dish_plausible_def sample_dish_def empty_macros_def at_most_def exceeds_def Let_def
      max_plausible_price_def max_plausible_calories_def max_plausible_sodium_mg_def
      valid_currency_length_def py_isalpha_def is_upper_def)

theorem valid_outcome_guarantee_witness:
  "is_valid (validate (\<lambda>_. 0) (dump_restaurant sample_restaurant))"
  unfolding valid_outcome_guarantee
  using v_restaurant_dump [OF sample_restaurant_ok] by (simp add: sample_dishes sample_plausible)


text \<open>The Atwater cross-check warns exactly when all four of calories, protein, carbohydrates and fat
  are present and the stated calories are more than 50 kcal and more than 35 percent of
  \<open>4 * protein + 4 * carbs + 9 * fat\<close> away from that estimate.\<close>

theorem atwater_flagged_iff:
  "''atwater_mismatch'' \<in> vi_code ` set (check_nutrition d p) \<longleftrightarrow>
     (\<exists>kcal protein carbs fat. m_calories (n_macros (d_nutrition d)) = Some kcal
        \<and> m_protein_g (n_macros (d_nutrition d)) = Some protein
        \<and> m_carbohydrates_g (n_macros (d_nutrition d)) = Some carbs
        \<and> m_fat_g (n_macros (d_nutrition d)) = Some fat
        \<and> (let expected = 4 * protein + 4 * carbs + 9 * fat in
             50 < \<bar>kcal - expected\<bar> \<and> 35 / 100 * expected < \<bar>kcal - expected\<bar>))"
  by (cases "m_calories (n_macros (d_nutrition d))"; cases "m_protein_g (n_macros (d_nutrition d))";
      cases "m_carbohydrates_g (n_macros (d_nutrition d))"; cases "m_fat_g (n_macros (d_nutrition d))")
    (auto simp: check_nutrition_def check_serving_size_present_def check_plausible_bounds_def
      check_atwater_consistency_def atwater_expected_calories_def kcal_per_g_protein_def
      kcal_per_g_carb_def kcal_per_g_fat_def atwater_relative_tolerance_def
      atwater_min_absolute_tolerance_kcal_def Let_def mult.commute)

text \<open>The allergen rule warns, in the order of their names and once each, about exactly the
  allergens some ingredient's lower-cased name implies by containing a keyword and the dish does not
  declare.\<close>

theorem undeclared_allergens_exact:
  "\<exists>as. sorted as \<and> distinct as
     \<and> set as = {a. a \<notin> set (d_allergens d) \<and> (\<exists>i k u v. i \<in> set (d_ingredients d)
                    \<and> (k, a) \<in> set ingredient_allergen_keywords \<and> py_lower (i_name i) = u @ k @ v)}
     \<and> map (\<lambda>i. (vi_field_path i, vi_severity i, vi_message i ! 1)) (check_allergens d p)
         = map (\<lambda>a. (p @ ''.allergens'', WARNING, quoted (allergen_value a))) as"
proof (intro exI conjI)
  let ?as = "sorted_list_of_set (implied_allergens d - set (d_allergens d))"
  show "sorted ?as" "distinct ?as" by simp_all
  show "set ?as = {a. a \<notin> set (d_allergens d) \<and> (\<exists>i k u v. i \<in> set (d_ingredients d)
                    \<and> (k, a) \<in> set ingredient_allergen_keywords \<and> py_lower (i_name i) = u @ k @ v)}"
    by (simp add: set_eq_iff implied_allergens_iff py_contains_iff) blast
  show "map (\<lambda>i. (vi_field_path i, vi_severity i, vi_message i ! 1)) (check_allergens d p)
         = map (\<lambda>a. (p @ ''.allergens'', WARNING, quoted (allergen_value a))) ?as"
    by (simp add: check_allergens_def Let_def)
qed

lemma paths_of_mem: "path \<in> set (paths_of k dishes) \<longleftrightarrow> (\<exists>d. (d, path) \<in> set dishes \<and> normalize_name (d_name d) = k)"
  by (force simp: paths_of_def image_iff)

text \<open>The duplicate check flags exactly the dishes whose normalized name at least two of the given
  dishes share.\<close>

theorem duplicates_exact:
  "vi_field_path ` set (check_duplicate_dishes dishes)
     = {path @ ''.name'' | d path. (d, path) \<in> set dishes
          \<and> 2 \<le> length (filter (norm_is (normalize_name (d_name d))) dishes)}"
  unfolding duplicate_issue_paths paths_of_mem by (auto simp: paths_of_def)

text \<open>Every issue of every dish rule lies at or below the path of the dish, and which issues are
  reported does not depend on where the dish sits.\<close>

theorem dish_issues_position_independent:
  "(\<forall>i. i \<in> set (dish_issues d path) \<longrightarrow> prefix path (vi_field_path i))
   \<and> map (\<lambda>i. (vi_code i, vi_message i, vi_severity i)) (dish_issues d path)
     = map (\<lambda>i. (vi_code i, vi_message i, vi_severity i)) (dish_issues d path')"
  using all_dish_rules.path_below all_dish_rules.contents_anywhere by blast

theorem dish_issues_position_independent_witness:
  "prefix ''menus[0].categories[0].dishes[0]''
     (vi_field_path (hd (dish_issues (sample_dish\<lparr>d_price := None\<rparr>) ''menus[0].categories[0].dishes[0]'')))"
proof -
  have "hd (dish_issues (sample_dish\<lparr>d_price := None\<rparr>) ''menus[0].categories[0].dishes[0]'')
      \<in> set (dish_issues (sample_dish\<lparr>d_price := None\<rparr>) ''menus[0].categories[0].dishes[0]'')"
    by (rule hd_in_set) (simp add: dish_issues_def check_dish_required_fields_def Let_def)
  then show ?thesis using dish_issues_position_independent by blast
qed

lemma dish_issues_no_lowercase: "''lowercase_currency_code'' \<notin> vi_code ` set (dish_issues (corrected_dish d) p)"
  unfolding dish_issues_def set_append image_Un Un_iff
  by (simp only: price_codes_corrected other_codes simp_thms)

lemma menu_issues_no_lowercase:
  "''lowercase_currency_code'' \<notin> vi_code ` set (menu_issues i (corrected_menu m))"
proof -
  have "''lowercase_currency_code'' \<notin> vi_code ` (\<Union>x\<in>X. set (case x of (d, path) \<Rightarrow> dish_issues (corrected_dish d) path))" for X
    using dish_issues_no_lowercase by (simp add: image_UN case_prod_beta)
  then show ?thesis
    unfolding menu_issues_corrected set_append image_Un Un_iff set_concat set_map image_image
    by (simp only: other_codes simp_thms)
qed

lemma all_issues_no_lowercase: "''lowercase_currency_code'' \<notin> vi_code ` set (all_issues (corrected_restaurant r))"
proof -
  have "''lowercase_currency_code'' \<notin> vi_code ` (\<Union>x\<in>X. set (case x of (i, m) \<Rightarrow> menu_issues i (corrected_menu m)))" for X
    using menu_issues_no_lowercase by (simp add: image_UN case_prod_beta)
  then show ?thesis
    unfolding all_issues_def set_append image_Un Un_iff set_concat set_map image_image
    by (simp add: other_codes corrected_restaurant_def enumerate0_map case_prod_unfold image_UN image_image)
qed

text \<open>The engine corrects currencies before it runs the price rule, so the rule's
  lower-case currency warning is never part of an outcome.\<close>

theorem lowercase_currency_never_reported:
  "''lowercase_currency_code''
     \<notin> vi_code ` set (vo_errors (validate uu payload) @ vo_warnings (validate uu payload))"
proof (cases "v_restaurant uu [] payload")
  case (Inl errs)
  then show ?thesis by (auto simp: validate_cases split_issues_def schema_issue_def Let_def)
next
  case (Inr r)
  then show ?thesis
    using all_issues_no_lowercase [of r]
    by (auto simp: validate_cases validate_restaurant_def split_issues_def case_prod_beta)
qed
end
