(* ===== verification/Database.thy ===== *)
theory Database
  imports Validation
begin

text \<open>
  The persistent state, \<open>src/database/\<close>: one list of rows per table, in insertion order, and the
  repository operations on them. \<open>db_next\<close> supplies the UUIDs that \<open>uuid.uuid4\<close> draws
  (fresh by construction), \<open>db_now\<close> is the clock. An operation that only flushes and cannot fail
  returns the new database; one that can raise returns \<open>Inl\<close> of the exception, and its caller's
  transaction is rolled back, which is keeping the old database. A \<open>SELECT\<close> without an
  \<open>ORDER BY\<close> is read in insertion order; \<open>ORDER BY\<close> is a stable sort.
\<close>

datatype exn =
    IntegrityError
  | DataError
  | MultipleResultsFound
  | RecursionError
  | ValidationError "verr list"
  | AIProviderError message
  | OtherError message

text \<open>The first exception of a list of results, or all their values.\<close>

fun those_res :: "('e + 'a) list \<Rightarrow> 'e + 'a list" where
  "those_res [] = Inr []"
| "those_res (Inl e # rs) = Inl e"
| "those_res (Inr x # rs) = (case those_res rs of Inl e \<Rightarrow> Inl e | Inr xs \<Rightarrow> Inr (x # xs))"

lemma those_res_Inr [simp]: "those_res (map (\<lambda>x. Inr (f x)) xs) = Inr (map f xs)"
  by (induction xs) auto

lemma those_res_map_Inr:
  "(\<And>x. x \<in> set xs \<Longrightarrow> f x = Inr (g x)) \<Longrightarrow> those_res (map f xs) = Inr (map g xs)"
  by (induction xs) auto

lemma those_res_Inr_iff: "those_res rs = Inr xs \<longleftrightarrow> rs = map Inr xs"
proof (induction rs arbitrary: xs)
  case Nil
  then show ?case by auto
next
  case (Cons r rs)
  show ?case
  proof (cases r)
    case (Inl e)
    then show ?thesis by auto
  next
    case (Inr y)
    then show ?thesis
      using Cons.IH by (cases xs) (auto split: sum.splits)
  qed
qed

section \<open>Rows\<close>

datatype workflow_type = COLLECTOR | REVIEWER

datatype run_status = RUN_PENDING | RUN_RUNNING | RUN_SUCCEEDED | RUN_FAILED | RUN_CANCELLED

record agent_run =
  ar_id :: uuid
  ar_workflow_type :: workflow_type
  ar_restaurant_id :: "uuid option"
  ar_status :: run_status
  ar_started_at :: "timestamp option"
  ar_completed_at :: "timestamp option"
  ar_error_message :: "message option"
  ar_metrics :: "(string \<times> json) list"
  ar_created_at :: timestamp

datatype change_entity_type = PC_RESTAURANT | PC_LOCATION | PC_MENU | PC_CATEGORY | PC_DISH

datatype change_status = PC_PENDING | APPROVED | REJECTED_CHANGE | PUBLISHED

record proposed_change =
  pc_id :: uuid
  pc_entity_type :: change_entity_type
  pc_entity_id :: uuid
  pc_structured_json :: json
  pc_validation_result :: json
  pc_status :: change_status
  pc_agent_run_id :: "uuid option"
  pc_source_id :: "uuid option"
  pc_thread_id :: "uuid option"
  pc_created_by :: "uuid option"
  pc_created_at :: timestamp

record approval =
  ap_id :: uuid
  ap_proposed_change_id :: uuid
  ap_decision :: change_status
  ap_reviewer_user_id :: uuid
  ap_reason :: "string option"
  ap_decided_at :: timestamp

datatype audit_action =
    RESTAURANT_CREATE | RESTAURANT_EDIT | RESTAURANT_DELETE | AI_EXTRACTION | AGENT_RUN_TRIGGER
  | PROPOSED_CHANGE_CREATE | PROPOSED_CHANGE_EDIT | PROPOSED_CHANGE_APPROVE | PROPOSED_CHANGE_REJECT
  | PROPOSED_CHANGE_PUBLISH | LOGIN_SUCCESS | LOGIN_FAILURE | LOGOUT | LOGOUT_ALL | TOKEN_REFRESH

datatype audit_entity_type =
  AE_RESTAURANT | AE_PROPOSED_CHANGE | AE_AGENT_RUN | AE_USER | AE_SESSION

record audit_log =
  al_id :: uuid
  al_action :: audit_action
  al_entity_type :: audit_entity_type
  al_entity_id :: string
  al_actor_id :: "uuid option"
  al_actor_email :: "string option"
  al_metadata :: "(string \<times> message) list"
  al_created_at :: timestamp

datatype source_type = RESTAURANT_WEBSITE | THIRD_PARTY_MENU_PROVIDER | PDF_MENU | MANUAL_ENTRY

record source =
  so_id :: uuid
  so_restaurant_id :: uuid
  so_source_type :: source_type
  so_url :: string
  so_is_verified_domain :: bool
  so_created_at :: timestamp

datatype content_type = HTML | PDF | SCREENSHOT

record snapshot =
  sn_id :: uuid
  sn_source_id :: uuid
  sn_content_type :: content_type
  sn_content_hash :: string
  sn_storage_path :: string
  sn_fetched_at :: timestamp
  sn_http_status :: "nat option"
  sn_content_length_bytes :: "nat option"

record restaurant_row =
  rr_id :: uuid
  rr_name :: string
  rr_description :: "string option"
  rr_logo_url :: "string option"
  rr_cover_image_url :: "string option"
  rr_gallery_image_urls :: "string list"
  rr_website_url :: "string option"
  rr_cuisine_types :: "string list"
  rr_is_active :: bool
  rr_created_at :: timestamp

record location_row =
  lr_restaurant_id :: uuid
  lr_location :: restaurant_location

record menu_row =
  mr_id :: uuid
  mr_restaurant_id :: uuid
  mr_name :: string

record category_row =
  cr_id :: uuid
  cr_menu_id :: uuid
  cr_parent_id :: "uuid option"
  cr_name :: string
  cr_display_order :: int

record dish_row =
  dr_id :: uuid
  dr_category_id :: uuid
  dr_name :: string
  dr_description :: "string option"
  dr_image_url :: "string option"
  dr_nutrition :: json
  dr_allergens :: json
  dr_ingredients :: json
  dr_quantity :: "string option"
  dr_price :: "decimal option"
  dr_currency :: string
  dr_review_state :: review_state

datatype queue_status = QUEUED | QRUNNING | QSUCCEEDED | QFAILED

record queue_item =
  qi_id :: uuid
  qi_batch_id :: uuid
  qi_name :: string
  qi_menu_url :: string
  qi_nutrition_url :: string
  qi_status :: queue_status
  qi_restaurant_seed_id :: "string option"
  qi_error_message :: "message option"
  qi_created_by :: "uuid option"
  qi_created_at :: timestamp
  qi_updated_at :: timestamp

datatype role = SUPER_ADMIN | DATA_MANAGER | REVIEWER_ROLE | VIEWER

record user =
  us_id :: uuid
  us_email :: string
  us_hashed_password :: string
  us_full_name :: string
  us_role :: role
  us_is_active :: bool
  us_created_at :: timestamp

record refresh_token =
  tk_id :: uuid
  tk_user_id :: uuid
  tk_token_hash :: string
  tk_revoked :: bool
  tk_created_at :: timestamp
  tk_expires_at :: timestamp

record db =
  db_now :: timestamp
  db_next :: uuid
  db_agent_runs :: "agent_run list"
  db_proposed_changes :: "proposed_change list"
  db_approvals :: "approval list"
  db_audit_logs :: "audit_log list"
  db_sources :: "source list"
  db_snapshots :: "snapshot list"
  db_restaurants :: "restaurant_row list"
  db_locations :: "location_row list"
  db_menus :: "menu_row list"
  db_categories :: "category_row list"
  db_dishes :: "dish_row list"
  db_queue :: "queue_item list"
  db_users :: "user list"
  db_refresh_tokens :: "refresh_token list"

section \<open>Rows by primary key\<close>

definition row_by :: "('r \<Rightarrow> uuid) \<Rightarrow> uuid \<Rightarrow> 'r list \<Rightarrow> 'r option" where
  "row_by key i rows = List.find (\<lambda>r. key r = i) rows"

definition update_by :: "('r \<Rightarrow> uuid) \<Rightarrow> uuid \<Rightarrow> ('r \<Rightarrow> 'r) \<Rightarrow> 'r list \<Rightarrow> 'r list" where
  "update_by key i f rows = map (\<lambda>r. if key r = i then f r else r) rows"

text \<open>What an in-place update of one row promises, for every update that keeps the key.\<close>

locale row_update =
  fixes key :: "'r \<Rightarrow> uuid" and f :: "'r \<Rightarrow> 'r"
  assumes keeps_key: "key (f r) = key r"
begin

lemma get_updated: "row_by key i (update_by key i f rows) = map_option f (row_by key i rows)"
  by (induction rows) (auto simp: row_by_def update_by_def keeps_key)

lemma get_other: "i \<noteq> j \<Longrightarrow> row_by key j (update_by key i f rows) = row_by key j rows"
  by (induction rows) (auto simp: row_by_def update_by_def keeps_key)

lemma same_keys: "map key (update_by key i f rows) = map key rows"
  by (simp add: update_by_def keeps_key)

end

lemma row_by_append: "row_by key i (xs @ ys) = (case row_by key i xs of None \<Rightarrow> row_by key i ys | Some r \<Rightarrow> Some r)"
  by (induction xs) (auto simp: row_by_def)

lemma row_by_SomeD: "row_by key i rows = Some r \<Longrightarrow> r \<in> set rows \<and> key r = i"
  by (auto simp: row_by_def find_Some_iff)

lemma row_by_None: "row_by key i rows = None \<longleftrightarrow> i \<notin> key ` set rows"
  by (auto simp: row_by_def find_None_iff)

lemma length_update_by [simp]: "length (update_by key i f rows) = length rows"
  by (simp add: update_by_def)

section \<open>Agent runs\<close>

definition get_run :: "db \<Rightarrow> uuid \<Rightarrow> agent_run option" where
  "get_run s run_id = row_by ar_id run_id (db_agent_runs s)"

definition create_run :: "workflow_type \<Rightarrow> uuid option \<Rightarrow> db \<Rightarrow> agent_run \<times> db" where
  "create_run wt restaurant_id s =
     (let record =
        \<lparr>ar_id = db_next s, ar_workflow_type = wt, ar_restaurant_id = restaurant_id,
         ar_status = RUN_RUNNING, ar_started_at = Some (db_now s), ar_completed_at = None,
         ar_error_message = None, ar_metrics = [], ar_created_at = db_now s\<rparr>
      in (record, s\<lparr>db_next := Suc (db_next s), db_agent_runs := db_agent_runs s @ [record]\<rparr>))"

definition succeed_run :: "timestamp \<Rightarrow> agent_run \<Rightarrow> agent_run" where
  "succeed_run t r = r\<lparr>ar_status := RUN_SUCCEEDED, ar_completed_at := Some t\<rparr>"

definition fail_run :: "timestamp \<Rightarrow> message \<Rightarrow> agent_run \<Rightarrow> agent_run" where
  "fail_run t msg r =
     r\<lparr>ar_status := RUN_FAILED, ar_completed_at := Some t, ar_error_message := Some [Cut 2000 msg]\<rparr>"

definition merge_metrics :: "(string \<times> json) list \<Rightarrow> agent_run \<Rightarrow> agent_run" where
  "merge_metrics metrics r = r\<lparr>ar_metrics := fold (\<lambda>(k, v). AList.update k v) metrics (ar_metrics r)\<rparr>"

text \<open>On an unknown run each of the three returns without doing anything.\<close>

definition mark_succeeded :: "uuid \<Rightarrow> db \<Rightarrow> db" where
  "mark_succeeded run_id s =
     s\<lparr>db_agent_runs := update_by ar_id run_id (succeed_run (db_now s)) (db_agent_runs s)\<rparr>"

definition mark_failed :: "uuid \<Rightarrow> message \<Rightarrow> db \<Rightarrow> db" where
  "mark_failed run_id error_message s =
     s\<lparr>db_agent_runs := update_by ar_id run_id (fail_run (db_now s) error_message) (db_agent_runs s)\<rparr>"

definition update_metrics :: "uuid \<Rightarrow> (string \<times> json) list \<Rightarrow> db \<Rightarrow> db" where
  "update_metrics run_id metrics s =
     s\<lparr>db_agent_runs := update_by ar_id run_id (merge_metrics metrics) (db_agent_runs s)\<rparr>"

text \<open>\<open>ORDER BY t DESC\<close>, \<open>OFFSET\<close> and \<open>LIMIT\<close>; page numbers start at 1.\<close>

definition order_desc :: "('r \<Rightarrow> timestamp) \<Rightarrow> 'r list \<Rightarrow> 'r list" where
  "order_desc t rows = sort_key (\<lambda>r. - int (t r)) rows"

definition page_of :: "nat \<Rightarrow> nat \<Rightarrow> 'r list \<Rightarrow> 'r list" where
  "page_of page page_size rows = take page_size (drop ((page - 1) * page_size) rows)"

definition list_runs_paginated :: "nat \<Rightarrow> nat \<Rightarrow> db \<Rightarrow> agent_run list \<times> nat" where
  "list_runs_paginated page page_size s =
     (page_of page page_size (order_desc ar_created_at (db_agent_runs s)), length (db_agent_runs s))"

interpretation run_succeeds: row_update ar_id "succeed_run t" for t
  by unfold_locales (simp add: succeed_run_def)

interpretation run_fails: row_update ar_id "fail_run t msg" for t msg
  by unfold_locales (simp add: fail_run_def)

interpretation run_metrics: row_update ar_id "merge_metrics metrics" for metrics
  by unfold_locales (simp add: merge_metrics_def)

section \<open>Audit log\<close>

definition create_audit_log ::
  "audit_action \<Rightarrow> audit_entity_type \<Rightarrow> string \<Rightarrow> uuid option \<Rightarrow> string option
     \<Rightarrow> (string \<times> message) list \<Rightarrow> db \<Rightarrow> db" where
  "create_audit_log action entity_type entity_id actor_id actor_email metadata s =
     s\<lparr>db_next := Suc (db_next s),
       db_audit_logs := db_audit_logs s @
         [\<lparr>al_id = db_next s, al_action = action, al_entity_type = entity_type, al_entity_id = entity_id,
           al_actor_id = actor_id, al_actor_email = actor_email, al_metadata = metadata,
           al_created_at = db_now s\<rparr>]\<rparr>"

definition list_audit_for_entity :: "audit_entity_type \<Rightarrow> string \<Rightarrow> nat \<Rightarrow> db \<Rightarrow> audit_log list" where
  "list_audit_for_entity entity_type entity_id limit s =
     take limit (order_desc al_created_at
       (filter (\<lambda>r. al_entity_type r = entity_type \<and> al_entity_id r = entity_id) (db_audit_logs s)))"

definition list_audit_recent :: "nat \<Rightarrow> db \<Rightarrow> audit_log list" where
  "list_audit_recent limit s = take limit (order_desc al_created_at (db_audit_logs s))"

text \<open>\<open>AuditService.log\<close>: the actor is the id and e-mail of a user. An explicit
  \<open>actor_email\<close> takes precedence.\<close>

definition audit ::
  "audit_action \<Rightarrow> audit_entity_type \<Rightarrow> string \<Rightarrow> (uuid \<times> string) option \<Rightarrow> string option
     \<Rightarrow> (string \<times> message) list \<Rightarrow> db \<Rightarrow> db" where
  "audit action entity_type entity_id actor actor_email metadata s =
     create_audit_log action entity_type entity_id (map_option fst actor)
       (if actor_email \<noteq> None then actor_email else map_option snd actor) metadata s"

definition audit_security_event ::
  "audit_action \<Rightarrow> (uuid \<times> string) option \<Rightarrow> string option \<Rightarrow> (string \<times> message) list \<Rightarrow> db \<Rightarrow> db" where
  "audit_security_event action actor actor_email metadata s =
     (case actor of
        Some (actor_id, _) \<Rightarrow>
          audit action AE_SESSION (uuid_str actor_id) actor actor_email metadata s
      | None \<Rightarrow>
          (case actor_email of
             Some e \<Rightarrow>
               if e \<noteq> [] then audit action AE_SESSION e actor actor_email metadata s
               else audit action AE_SESSION (uuid_str (db_next s)) actor actor_email metadata
                      (s\<lparr>db_next := Suc (db_next s)\<rparr>)
           | None \<Rightarrow>
               audit action AE_SESSION (uuid_str (db_next s)) actor actor_email metadata
                 (s\<lparr>db_next := Suc (db_next s)\<rparr>)))"

section \<open>Proposed changes and approvals\<close>

definition create_proposed_change ::
  "change_entity_type \<Rightarrow> uuid \<Rightarrow> json \<Rightarrow> json \<Rightarrow> uuid option \<Rightarrow> uuid option \<Rightarrow> uuid option
     \<Rightarrow> uuid option \<Rightarrow> db \<Rightarrow> proposed_change \<times> db" where
  "create_proposed_change entity_type entity_id structured_json validation_result agent_run_id source_id
     thread_id created_by s =
     (let record =
        \<lparr>pc_id = db_next s, pc_entity_type = entity_type, pc_entity_id = entity_id,
         pc_structured_json = structured_json, pc_validation_result = validation_result,
         pc_status = PC_PENDING, pc_agent_run_id = agent_run_id, pc_source_id = source_id,
         pc_thread_id = thread_id, pc_created_by = created_by, pc_created_at = db_now s\<rparr>
      in (record, s\<lparr>db_next := Suc (db_next s), db_proposed_changes := db_proposed_changes s @ [record]\<rparr>))"

definition get_change :: "db \<Rightarrow> uuid \<Rightarrow> proposed_change option" where
  "get_change s i = row_by pc_id i (db_proposed_changes s)"

text \<open>\<open>scalar_one_or_none\<close> raises when more than one row matches.\<close>

definition scalar_one_or_none :: "'r list \<Rightarrow> exn + 'r option" where
  "scalar_one_or_none rows =
     (case rows of [] \<Rightarrow> Inr None | [r] \<Rightarrow> Inr (Some r) | _ \<Rightarrow> Inl MultipleResultsFound)"

definition get_change_by_thread :: "db \<Rightarrow> uuid \<Rightarrow> exn + proposed_change option" where
  "get_change_by_thread s thread_id =
     scalar_one_or_none (filter (\<lambda>r. pc_thread_id r = Some thread_id) (db_proposed_changes s))"

definition get_published_for_entity :: "db \<Rightarrow> uuid \<Rightarrow> proposed_change option" where
  "get_published_for_entity s entity_id =
     List.find (\<lambda>r. pc_entity_id r = entity_id \<and> pc_status r = PUBLISHED) (db_proposed_changes s)"

definition list_pending_changes :: "nat \<Rightarrow> db \<Rightarrow> proposed_change list" where
  "list_pending_changes limit s =
     take limit (order_desc pc_created_at (filter (\<lambda>r. pc_status r = PC_PENDING) (db_proposed_changes s)))"

definition set_change_status :: "change_status \<Rightarrow> json option \<Rightarrow> proposed_change \<Rightarrow> proposed_change" where
  "set_change_status status structured_json r =
     (let r' = r\<lparr>pc_status := status\<rparr> in
      case structured_json of None \<Rightarrow> r' | Some j \<Rightarrow> r'\<lparr>pc_structured_json := j\<rparr>)"

definition update_change_status :: "uuid \<Rightarrow> change_status \<Rightarrow> json option \<Rightarrow> db \<Rightarrow> db" where
  "update_change_status i status structured_json s =
     s\<lparr>db_proposed_changes :=
         update_by pc_id i (set_change_status status structured_json) (db_proposed_changes s)\<rparr>"

interpretation change_status: row_update pc_id "set_change_status status j" for status j
  by unfold_locales (simp add: set_change_status_def Let_def split: option.splits)

definition create_approval ::
  "uuid \<Rightarrow> change_status \<Rightarrow> uuid \<Rightarrow> string option \<Rightarrow> db \<Rightarrow> db" where
  "create_approval change_id decision reviewer reason s =
     s\<lparr>db_next := Suc (db_next s),
       db_approvals := db_approvals s @
         [\<lparr>ap_id = db_next s, ap_proposed_change_id = change_id, ap_decision = decision,
           ap_reviewer_user_id = reviewer, ap_reason = reason, ap_decided_at = db_now s\<rparr>]\<rparr>"

definition list_approvals :: "uuid \<Rightarrow> db \<Rightarrow> approval list" where
  "list_approvals change_id s =
     order_desc ap_decided_at (filter (\<lambda>a. ap_proposed_change_id a = change_id) (db_approvals s))"

section \<open>Sources and snapshots\<close>

definition create_source :: "uuid \<Rightarrow> source_type \<Rightarrow> string \<Rightarrow> bool \<Rightarrow> db \<Rightarrow> exn + source \<times> db" where
  "create_source restaurant_id source_type url verified s =
     (let record =
        \<lparr>so_id = db_next s, so_restaurant_id = restaurant_id, so_source_type = source_type,
         so_url = url, so_is_verified_domain = verified, so_created_at = db_now s\<rparr>
      in if 2048 < length url then Inl DataError
         else Inr (record, s\<lparr>db_next := Suc (db_next s), db_sources := db_sources s @ [record]\<rparr>))"

definition get_source :: "db \<Rightarrow> uuid \<Rightarrow> source option" where
  "get_source s i = row_by so_id i (db_sources s)"

definition list_sources :: "uuid \<Rightarrow> db \<Rightarrow> source list" where
  "list_sources restaurant_id s =
     order_desc so_created_at (filter (\<lambda>r. so_restaurant_id r = restaurant_id) (db_sources s))"

definition get_verified_website :: "uuid \<Rightarrow> db \<Rightarrow> source option" where
  "get_verified_website restaurant_id s =
     (case order_desc so_created_at
             (filter (\<lambda>r. so_restaurant_id r = restaurant_id \<and> so_source_type r = RESTAURANT_WEBSITE
                \<and> so_is_verified_domain r) (db_sources s)) of
        [] \<Rightarrow> None | r # _ \<Rightarrow> Some r)"

definition create_snapshot :: "snapshot \<Rightarrow> db \<Rightarrow> exn + db" where
  "create_snapshot sn s =
     (if sn_id sn \<in> sn_id ` set (db_snapshots s) \<or> sn_source_id sn \<notin> so_id ` set (db_sources s)
      then Inl IntegrityError
      else Inr (s\<lparr>db_snapshots := db_snapshots s @ [sn]\<rparr>))"

definition list_snapshots :: "uuid \<Rightarrow> db \<Rightarrow> snapshot list" where
  "list_snapshots source_id s =
     order_desc sn_fetched_at (filter (\<lambda>r. sn_source_id r = source_id) (db_snapshots s))"

definition latest_snapshot :: "uuid \<Rightarrow> content_type option \<Rightarrow> db \<Rightarrow> snapshot option" where
  "latest_snapshot source_id ct s =
     (case order_desc sn_fetched_at
             (filter (\<lambda>r. sn_source_id r = source_id \<and> (ct = None \<or> ct = Some (sn_content_type r)))
               (db_snapshots s)) of
        [] \<Rightarrow> None | r # _ \<Rightarrow> Some r)"

end
