(* ===== verification/Catalog.thy ===== *)
theory Catalog
  imports Database
begin

text \<open>
  The production tables and the two operations on whole restaurants,
  \<open>src/database/models/restaurant.py\<close> and
  \<open>src/database/repositories/restaurant_repository.py\<close>: \<open>persist_tree\<close>, the only insert
  into these tables, and \<open>get_full_tree\<close>, which reads a restaurant back. Primary keys, foreign
  keys, column widths and the two decimal places of the price column are the ones the models declare.
\<close>

section \<open>Columns\<close>

definition fits :: "nat \<Rightarrow> string option \<Rightarrow> bool" where
  "fits n v = (case v of None \<Rightarrow> True | Some t \<Rightarrow> length t \<le> n)"

text \<open>\<open>Numeric(10, 2)\<close> rounds half away from zero.\<close>

definition numeric_2 :: "decimal \<Rightarrow> decimal" where
  "numeric_2 p = (if 0 \<le> p then of_int \<lfloor>p * 100 + 1 / 2\<rfloor> else - of_int \<lfloor>- p * 100 + 1 / 2\<rfloor>) / 100"

definition restaurant_fits :: "restaurant_row \<Rightarrow> bool" where
  "restaurant_fits r \<longleftrightarrow> length (rr_name r) \<le> 255 \<and> fits 2000 (rr_description r) \<and> fits 2048 (rr_logo_url r)
     \<and> fits 2048 (rr_cover_image_url r) \<and> fits 2048 (rr_website_url r)"

definition location_fits :: "location_row \<Rightarrow> bool" where
  "location_fits lr \<longleftrightarrow> (let l = lr_location lr in fits 255 (l_label l) \<and> length (l_address_line1 l) \<le> 255
     \<and> fits 255 (l_address_line2 l) \<and> length (l_city l) \<le> 120 \<and> fits 120 (l_state l)
     \<and> fits 20 (l_postal_code l) \<and> length (l_country l) \<le> 2 \<and> fits 50 (l_phone l))"

definition category_fits :: "category_row \<Rightarrow> bool" where
  "category_fits c \<longleftrightarrow> length (cr_name c) \<le> 255
     \<and> - 2147483648 \<le> cr_display_order c \<and> cr_display_order c \<le> 2147483647"

definition dish_fits :: "dish_row \<Rightarrow> bool" where
  "dish_fits d \<longleftrightarrow> length (dr_name d) \<le> 255 \<and> fits 2000 (dr_description d) \<and> fits 2048 (dr_image_url d)
     \<and> fits 100 (dr_quantity d) \<and> length (dr_currency d) \<le> 3
     \<and> (case dr_price d of None \<Rightarrow> True | Some p \<Rightarrow> \<bar>p\<bar> < 100000000)"

section \<open>Writing a tree\<close>

definition restaurant_to_row :: "timestamp \<Rightarrow> restaurant \<Rightarrow> restaurant_row" where
  "restaurant_to_row now r =
     \<lparr>rr_id = r_id r, rr_name = r_name r, rr_description = r_description r, rr_logo_url = r_logo_url r,
      rr_cover_image_url = r_cover_image_url r, rr_gallery_image_urls = r_gallery_image_urls r,
      rr_website_url = r_website_url r, rr_cuisine_types = r_cuisine_types r,
      rr_is_active = r_is_active r, rr_created_at = now\<rparr>"

definition location_to_row :: "uuid \<Rightarrow> restaurant_location \<Rightarrow> location_row" where
  "location_to_row restaurant_id l = \<lparr>lr_restaurant_id = restaurant_id, lr_location = l\<rparr>"

definition dish_to_row :: "uuid \<Rightarrow> dish \<Rightarrow> dish_row" where
  "dish_to_row category_id d =
     \<lparr>dr_id = d_id d, dr_category_id = category_id, dr_name = d_name d, dr_description = d_description d,
      dr_image_url = d_image_url d, dr_nutrition = dump_nutrition (d_nutrition d),
      dr_allergens = JList (map (\<lambda>a. JStr (allergen_value a)) (d_allergens d)),
      dr_ingredients = JList (map dump_ingredient (d_ingredients d)),
      dr_quantity = d_quantity d, dr_price = map_option numeric_2 (d_price d),
      dr_currency = d_currency d, dr_review_state = d_review_state d\<rparr>"

definition category_to_row :: "uuid \<Rightarrow> uuid option \<Rightarrow> menu_category \<Rightarrow> category_row" where
  "category_to_row menu_id parent_id c =
     \<lparr>cr_id = mc_id c, cr_menu_id = menu_id, cr_parent_id = parent_id, cr_name = mc_name c,
      cr_display_order = mc_display_order c\<rparr>"

text \<open>\<open>_persist_category\<close>: the rows added for a category and everything below it.\<close>

fun category_rows :: "uuid \<Rightarrow> uuid option \<Rightarrow> menu_category \<Rightarrow> category_row list" where
  "category_rows menu_id parent_id (MenuCategory cid name order children dishes) =
     category_to_row menu_id parent_id (MenuCategory cid name order children dishes)
     # concat (map (category_rows menu_id (Some cid)) children)"

fun category_dish_rows :: "menu_category \<Rightarrow> dish_row list" where
  "category_dish_rows (MenuCategory cid name order children dishes) =
     map (dish_to_row cid) dishes @ concat (map category_dish_rows children)"

definition menu_to_row :: "uuid \<Rightarrow> menu \<Rightarrow> menu_row" where
  "menu_to_row restaurant_id m = \<lparr>mr_id = me_id m, mr_restaurant_id = restaurant_id, mr_name = me_name m\<rparr>"

definition menu_category_rows :: "menu \<Rightarrow> category_row list" where
  "menu_category_rows m = concat (map (category_rows (me_id m) None) (me_categories m))"

definition menu_dish_rows :: "menu \<Rightarrow> dish_row list" where
  "menu_dish_rows m = concat (map category_dish_rows (me_categories m))"

text \<open>Adding rows: the primary keys of the table stay distinct.\<close>

definition insert_ok :: "('r \<Rightarrow> uuid) \<Rightarrow> 'r list \<Rightarrow> 'r list \<Rightarrow> bool" where
  "insert_ok key old new \<longleftrightarrow> distinct (map key new) \<and> set (map key new) \<inter> set (map key old) = {}"

definition persist_tree :: "restaurant \<Rightarrow> db \<Rightarrow> exn + db" where
  "persist_tree r s =
     (let restaurant = [restaurant_to_row (db_now s) r];
          locations = map (location_to_row (r_id r)) (r_locations r);
          menus = map (menu_to_row (r_id r)) (r_menus r);
          categories = concat (map menu_category_rows (r_menus r));
          dishes = concat (map menu_dish_rows (r_menus r))
      in
       if \<not> (list_all restaurant_fits restaurant \<and> list_all location_fits locations
             \<and> list_all (\<lambda>m. length (mr_name m) \<le> 255) menus
             \<and> list_all category_fits categories \<and> list_all dish_fits dishes)
       then Inl DataError
       else if \<not> (insert_ok rr_id (db_restaurants s) restaurant
             \<and> insert_ok (\<lambda>l. l_id (lr_location l)) (db_locations s) locations
             \<and> insert_ok mr_id (db_menus s) menus
             \<and> insert_ok cr_id (db_categories s) categories
             \<and> insert_ok dr_id (db_dishes s) dishes)
       then Inl IntegrityError
       else Inr (s\<lparr>db_restaurants := db_restaurants s @ restaurant,
                   db_locations := db_locations s @ locations,
                   db_menus := db_menus s @ menus,
                   db_categories := db_categories s @ categories,
                   db_dishes := db_dishes s @ dishes\<rparr>))"

section \<open>Reading a tree\<close>

text \<open>A constructor call validates its arguments as \<open>model_validate\<close> validates the same values.\<close>

definition dish_row_json :: "dish_row \<Rightarrow> json" where
  "dish_row_json d = JObj
     [(''id'', JStr (uuid_str (dr_id d))),
      (''category_id'', JStr (uuid_str (dr_category_id d))),
      (''name'', JStr (dr_name d)),
      (''description'', j_opt JStr (dr_description d)),
      (''image_url'', j_opt JStr (dr_image_url d)),
      (''nutrition'', dr_nutrition d),
      (''allergens'', dr_allergens d),
      (''ingredients'', dr_ingredients d),
      (''quantity'', j_opt JStr (dr_quantity d)),
      (''price'', j_opt JDec (dr_price d)),
      (''currency'', JStr (dr_currency d)),
      (''review_state'', JStr (review_state_value (dr_review_state d)))]"

definition no_uuid :: "loc \<Rightarrow> uuid" where
  "no_uuid loc = 0"

definition dish_to_schema :: "dish_row \<Rightarrow> dish vres" where
  "dish_to_schema d = v_dish no_uuid [] (dish_row_json d)"

fun category_to_schema ::
  "nat \<Rightarrow> category_row list \<Rightarrow> dish_row list \<Rightarrow> category_row \<Rightarrow> (exn + menu_category)" where
  "category_to_schema 0 cats dishes c = Inl RecursionError"
| "category_to_schema (Suc fuel) cats dishes c =
     (case those_res (map (category_to_schema fuel cats dishes)
             (filter (\<lambda>k. cr_parent_id k = Some (cr_id c)) cats)) of
        Inl e \<Rightarrow> Inl e
      | Inr children \<Rightarrow>
          (case vseq (map dish_to_schema (filter (\<lambda>d. dr_category_id d = cr_id c) dishes)) of
             Inl errs \<Rightarrow> Inl (ValidationError errs)
           | Inr ds \<Rightarrow>
               (case v_name ''Category name cannot be blank'' 255 [LKey ''name''] (JStr (cr_name c)) of
                  Inl errs \<Rightarrow> Inl (ValidationError errs)
                | Inr name \<Rightarrow> Inr (MenuCategory (cr_id c) name (cr_display_order c) children ds))))"

definition menu_to_schema :: "db \<Rightarrow> menu_row \<Rightarrow> exn + menu" where
  "menu_to_schema s m =
     (case those_res (map (category_to_schema (Suc (length (db_categories s))) (db_categories s) (db_dishes s))
             (filter (\<lambda>c. cr_parent_id c = None) (filter (\<lambda>c. cr_menu_id c = mr_id m) (db_categories s)))) of
        Inl e \<Rightarrow> Inl e
      | Inr categories \<Rightarrow>
          (case v_name ''Menu name cannot be blank'' 255 [LKey ''name''] (JStr (mr_name m)) of
             Inl errs \<Rightarrow> Inl (ValidationError errs)
           | Inr name \<Rightarrow> Inr \<lparr>me_id = mr_id m, me_name = name, me_categories = categories\<rparr>))"

definition row_to_restaurant :: "restaurant_row \<Rightarrow> restaurant" where
  "row_to_restaurant rr =
     \<lparr>r_id = rr_id rr, r_name = rr_name rr, r_description = rr_description rr, r_logo_url = rr_logo_url rr,
      r_cover_image_url = rr_cover_image_url rr, r_gallery_image_urls = rr_gallery_image_urls rr,
      r_website_url = rr_website_url rr, r_cuisine_types = rr_cuisine_types rr, r_locations = [],
      r_menus = [], r_is_active = rr_is_active rr, r_created_at = None, r_updated_at = None\<rparr>"

text \<open>\<open>_to_schema\<close>.\<close>

definition to_schema :: "db \<Rightarrow> restaurant_row \<Rightarrow> exn + restaurant" where
  "to_schema s rr =
     (case vseq (map (\<lambda>lr. v_location no_uuid [] (dump_location (lr_location lr)))
             (filter (\<lambda>lr. lr_restaurant_id lr = rr_id rr) (db_locations s))) of
        Inl errs \<Rightarrow> Inl (ValidationError errs)
      | Inr locations \<Rightarrow>
          (case those_res (map (menu_to_schema s) (filter (\<lambda>m. mr_restaurant_id m = rr_id rr) (db_menus s))) of
             Inl e \<Rightarrow> Inl e
           | Inr menus \<Rightarrow>
               (case v_restaurant no_uuid [] (dump_restaurant (row_to_restaurant rr)) of
                  Inl errs \<Rightarrow> Inl (ValidationError errs)
                | Inr r \<Rightarrow> Inr (r\<lparr>r_locations := locations, r_menus := menus\<rparr>))))"

definition get_full_tree :: "uuid \<Rightarrow> db \<Rightarrow> exn + restaurant option" where
  "get_full_tree restaurant_id s =
     (case row_by rr_id restaurant_id (db_restaurants s) of
        None \<Rightarrow> Inr None
      | Some rr \<Rightarrow> (case to_schema s rr of Inl e \<Rightarrow> Inl e | Inr r \<Rightarrow> Inr (Some r)))"

definition list_restaurant_ids :: "db \<Rightarrow> uuid list" where
  "list_restaurant_ids s = map rr_id (db_restaurants s)"

record restaurant_summary =
  rs_id :: uuid
  rs_name :: string
  rs_is_active :: bool
  rs_city :: "string option"
  rs_menu_item_count :: nat
  rs_created_at :: timestamp

text \<open>The two correlated subqueries: the city of the location with the smallest id, and the dishes
  joined to their category and its menu.\<close>

definition first_location_city :: "db \<Rightarrow> uuid \<Rightarrow> string option" where
  "first_location_city s restaurant_id =
     (case sort_key l_id (map lr_location
             (filter (\<lambda>lr. lr_restaurant_id lr = restaurant_id) (db_locations s))) of
        [] \<Rightarrow> None | l # _ \<Rightarrow> Some (l_city l))"

definition dish_count :: "db \<Rightarrow> uuid \<Rightarrow> nat" where
  "dish_count s restaurant_id =
     length [d. d \<leftarrow> db_dishes s, c \<leftarrow> db_categories s, dr_category_id d = cr_id c,
                m \<leftarrow> db_menus s, cr_menu_id c = mr_id m, mr_restaurant_id m = restaurant_id]"

definition list_restaurants_paginated :: "nat \<Rightarrow> nat \<Rightarrow> db \<Rightarrow> restaurant_summary list \<times> nat" where
  "list_restaurants_paginated page page_size s =
     (map (\<lambda>rr. \<lparr>rs_id = rr_id rr, rs_name = rr_name rr, rs_is_active = rr_is_active rr,
              rs_city = first_location_city s (rr_id rr), rs_menu_item_count = dish_count s (rr_id rr),
              rs_created_at = rr_created_at rr\<rparr>)
        (page_of page page_size (order_desc rr_created_at (db_restaurants s))),
      length (db_restaurants s))"

section \<open>Category trees and their rows\<close>

fun nodes :: "menu_category \<Rightarrow> menu_category list" where
  "nodes (MenuCategory cid name order children dishes) =
     MenuCategory cid name order children dishes # concat (map nodes children)"

abbreviation ids :: "menu_category \<Rightarrow> uuid list" where
  "ids c \<equiv> map mc_id (nodes c)"

lemma ids_category_rows: "map cr_id (category_rows m p c) = ids c"
proof (induction c arbitrary: p)
  case (MenuCategory cid name order children dishes)
  then have "concat (map (\<lambda>x. map cr_id (category_rows m (Some cid) x)) children)
      = concat (map ids children)"
    by (intro arg_cong [where f = concat] map_cong) simp_all
  then show ?case by (simp add: category_to_row_def map_concat comp_def)
qed

lemma category_rows_not_Nil [simp]: "category_rows m p c \<noteq> []"
  by (cases c) simp

lemma parents_category_rows:
  "k \<in> set (category_rows m p c) \<Longrightarrow> cr_parent_id k = p \<or> (\<exists>i \<in> set (ids c). cr_parent_id k = Some i)"
proof (induction c arbitrary: p)
  case (MenuCategory cid name order children dishes)
  show ?case
  proof (cases "k = category_to_row m p (MenuCategory cid name order children dishes)")
    case True
    then show ?thesis by (simp add: category_to_row_def)
  next
    case False
    then obtain ch where "ch \<in> set children" "k \<in> set (category_rows m (Some cid) ch)"
      using MenuCategory.prems by auto
    then show ?thesis using MenuCategory.IH [of ch "Some cid"] by auto
  qed
qed

lemma categories_dish_rows: "d \<in> set (category_dish_rows c) \<Longrightarrow> dr_category_id d \<in> set (ids c)"
  by (induction c) (auto simp: dish_to_row_def)

lemma root_in_nodes: "c \<in> set (nodes c)"
  by (cases c) simp

lemma nodes_trans: "b \<in> set (nodes a) \<Longrightarrow> ch \<in> set (mc_children b) \<Longrightarrow> ch \<in> set (nodes a)"
proof (induction a)
  case (MenuCategory cid name order children dishes)
  then show ?case using root_in_nodes by (auto, blast)
qed

text \<open>The rows of a forest whose trees have distinct ids: rows below a node are its children.\<close>

lemma filter_concat_only:
  assumes "xs = as @ x # bs" "\<And>y. y \<in> set as \<union> set bs \<Longrightarrow> filter P (f y) = []"
  shows "filter P (concat (map f xs)) = filter P (f x)"
proof -
  have "filter P (concat (map f as)) = []" "filter P (concat (map f bs)) = []"
    using assms(2) by (auto simp: filter_empty_conv)
  then show ?thesis by (simp add: assms(1))
qed

lemma distinct_apart:
  assumes "distinct (concat (map f (as @ c # bs)))" "i \<in> set (f c)" "d \<in> set as \<union> set bs"
  shows "i \<notin> set (f d)"
  using assms by simp blast

lemma no_child_rows:
  assumes "p \<noteq> Some i" "i \<notin> set (ids c)"
  shows "filter (\<lambda>k. cr_parent_id k = Some i) (category_rows m p c) = []"
  unfolding filter_empty_conv
  using parents_category_rows [of _ m p c] assms by (metis option.inject)

lemma no_dish_rows:
  assumes "i \<notin> set (ids c)"
  shows "filter (\<lambda>d. dr_category_id d = i) (category_dish_rows c) = []"
  unfolding filter_empty_conv using categories_dish_rows assms by metis

lemma filter_rows_node:
  assumes "distinct (ids c)" "n \<in> set (nodes c)" "p \<noteq> Some (mc_id n)"
  shows "filter (\<lambda>k. cr_parent_id k = Some (mc_id n)) (category_rows m p c)
           = map (category_to_row m (Some (mc_id n))) (mc_children n)"
  using assms
proof (induction c arbitrary: p)
  case (MenuCategory cid name order children dishes)
  let ?P = "\<lambda>i k. cr_parent_id k = Some i"
  have dist: "distinct (concat (map ids children))" "cid \<notin> set (concat (map ids children))"
    using MenuCategory.prems(1) by (simp_all add: map_concat comp_def)
  show ?case
  proof (cases "n = MenuCategory cid name order children dishes")
    case True
    have "filter (?P cid) (category_rows m (Some cid) ch) = [category_to_row m (Some cid) ch]"
      if ch: "ch \<in> set children" for ch
    proof -
      obtain i nm od cs ds where c: "ch = MenuCategory i nm od cs ds" by (cases ch)
      have "filter (?P cid) (concat (map (category_rows m (Some i)) cs)) = []"
      proof (rule ccontr)
        assume "\<not> ?thesis"
        then obtain k g where k: "g \<in> set cs" "k \<in> set (category_rows m (Some i) g)" "cr_parent_id k = Some cid"
          by (auto simp: filter_empty_conv)
        with parents_category_rows [OF k(2)] have "cid \<in> set (ids ch)"
          by (auto simp: c)
        then show False using dist(2) ch by auto
      qed
      then show ?thesis by (simp add: c category_to_row_def)
    qed
    then have "filter (?P cid) (concat (map (category_rows m (Some cid)) children))
        = concat (map (\<lambda>ch. [category_to_row m (Some cid) ch]) children)"
      by (simp add: filter_concat comp_def cong: map_cong)
    then show ?thesis using True MenuCategory.prems(3) by (simp add: category_to_row_def)
  next
    case False
    then obtain c0 where c0: "c0 \<in> set children" "n \<in> set (nodes c0)"
      using MenuCategory.prems(2) by auto
    obtain as bs where split: "children = as @ c0 # bs" using c0(1) by (meson split_list)
    have i: "mc_id n \<in> set (ids c0)" using c0(2) by simp
    have ne: "Some cid \<noteq> Some (mc_id n)" using dist(2) c0 by auto
    have other: "filter (?P (mc_id n)) (category_rows m (Some cid) d) = []" if "d \<in> set as \<union> set bs" for d
      by (rule no_child_rows [OF ne distinct_apart [OF dist(1) [unfolded split] i that]])
    have d0: "distinct (ids c0)" using dist(1) by (simp add: split)
    have "filter (?P (mc_id n)) (concat (map (category_rows m (Some cid)) children))
        = filter (?P (mc_id n)) (category_rows m (Some cid) c0)"
      by (rule filter_concat_only [OF split other])
    also have "\<dots> = map (category_to_row m (Some (mc_id n))) (mc_children n)"
      by (rule MenuCategory.IH [OF c0(1) d0 c0(2) ne])
    finally show ?thesis using MenuCategory.prems(3) by (simp add: category_to_row_def)
  qed
qed

lemma filter_dishes_node:
  assumes "distinct (ids c)" "n \<in> set (nodes c)"
  shows "filter (\<lambda>d. dr_category_id d = mc_id n) (category_dish_rows c)
           = map (dish_to_row (mc_id n)) (mc_dishes n)"
  using assms
proof (induction c)
  case (MenuCategory cid name order children dishes)
  let ?P = "\<lambda>i d. dr_category_id d = i"
  have dist: "distinct (concat (map ids children))" "cid \<notin> set (concat (map ids children))"
    using MenuCategory.prems(1) by (simp_all add: map_concat comp_def)
  show ?case
  proof (cases "n = MenuCategory cid name order children dishes")
    case True
    have "filter (?P cid) (concat (map category_dish_rows children)) = []"
      using categories_dish_rows dist(2) by (fastforce simp: filter_empty_conv)
    then show ?thesis using True by (simp add: dish_to_row_def filter_map comp_def)
  next
    case False
    then obtain c0 where c0: "c0 \<in> set children" "n \<in> set (nodes c0)"
      using MenuCategory.prems(2) by auto
    obtain as bs where split: "children = as @ c0 # bs" using c0(1) by (meson split_list)
    have i: "mc_id n \<in> set (ids c0)" using c0(2) by simp
    have ne: "cid \<noteq> mc_id n" using dist(2) c0 by auto
    have other: "filter (?P (mc_id n)) (category_dish_rows d) = []" if "d \<in> set as \<union> set bs" for d
      by (rule no_dish_rows [OF distinct_apart [OF dist(1) [unfolded split] i that]])
    have d0: "distinct (ids c0)" using dist(1) by (simp add: split)
    have "filter (?P (mc_id n)) (concat (map category_dish_rows children))
        = filter (?P (mc_id n)) (category_dish_rows c0)"
      by (rule filter_concat_only [OF split other])
    also have "\<dots> = map (dish_to_row (mc_id n)) (mc_dishes n)"
      by (rule MenuCategory.IH [OF c0(1) d0 c0(2)])
    finally show ?thesis using ne by (simp add: dish_to_row_def filter_map comp_def)
  qed
qed

section \<open>A stored restaurant\<close>

text \<open>What the production schema can hold of a restaurant: prices of two decimal places, dishes that
  name the category they are in, and no client-side timestamps.\<close>

definition dish_linked :: "uuid \<Rightarrow> dish \<Rightarrow> bool" where
  "dish_linked i d \<longleftrightarrow> d_category_id d = i \<and> map_option numeric_2 (d_price d) = d_price d"

definition category_linked :: "menu_category \<Rightarrow> bool" where
  "category_linked c \<longleftrightarrow> list_all (\<lambda>n. list_all (dish_linked (mc_id n)) (mc_dishes n)) (nodes c)"

definition restaurant_storable :: "restaurant \<Rightarrow> bool" where
  "restaurant_storable r \<longleftrightarrow> restaurant_ok r \<and> r_created_at r = None \<and> r_updated_at r = None
     \<and> list_all (\<lambda>m. list_all category_linked (me_categories m)) (r_menus r)"

definition covers :: "db \<Rightarrow> uuid \<Rightarrow> menu_category \<Rightarrow> bool" where
  "covers s m c \<longleftrightarrow> list_all (\<lambda>n.
       filter (\<lambda>k. cr_parent_id k = Some (mc_id n)) (db_categories s)
         = map (category_to_row m (Some (mc_id n))) (mc_children n)
     \<and> filter (\<lambda>d. dr_category_id d = mc_id n) (db_dishes s)
         = map (dish_to_row (mc_id n)) (mc_dishes n)) (nodes c)
     \<and> length (nodes c) \<le> length (db_categories s)
     \<and> set (ids c) \<subseteq> cr_id ` set (db_categories s)"

definition stored :: "db \<Rightarrow> restaurant \<Rightarrow> bool" where
  "stored s r \<longleftrightarrow>
     (\<exists>t. row_by rr_id (r_id r) (db_restaurants s) = Some (restaurant_to_row t r))
     \<and> filter (\<lambda>l. lr_restaurant_id l = r_id r) (db_locations s) = map (location_to_row (r_id r)) (r_locations r)
     \<and> filter (\<lambda>m. mr_restaurant_id m = r_id r) (db_menus s) = map (menu_to_row (r_id r)) (r_menus r)
     \<and> list_all (\<lambda>m.
           filter (\<lambda>c. cr_parent_id c = None) (filter (\<lambda>c. cr_menu_id c = me_id m) (db_categories s))
             = map (category_to_row (me_id m) None) (me_categories m)
         \<and> list_all (covers s (me_id m)) (me_categories m)) (r_menus r)"

lemma dish_to_schema_row:
  assumes "dish_ok d" "dish_linked i d"
  shows "dish_to_schema (dish_to_row i d) = Inr d"
proof -
  have "dish_row_json (dish_to_row i d) = dump_dish d"
    using assms(2) by (simp add: dish_row_json_def dish_to_row_def dump_dish_def dish_linked_def)
  then show ?thesis by (simp add: dish_to_schema_def v_dish_dump [OF assms(1)])
qed

lemma vseq_map_Inr: "(\<And>x. x \<in> set xs \<Longrightarrow> f x = Inr (g x)) \<Longrightarrow> vseq (map f xs) = Inr (map g xs)"
  by (induction xs) auto

lemma length_nodes_child: "ch \<in> set children \<Longrightarrow> length (nodes ch) \<le> length (concat (map nodes children))"
  by (induction children) auto

lemma category_to_schema_row:
  assumes "covers s m c" "category_ok c" "category_linked c" "length (nodes c) \<le> fuel"
  shows "category_to_schema fuel (db_categories s) (db_dishes s) (category_to_row m p c) = Inr c"
  using assms
proof (induction c arbitrary: p fuel)
  case (MenuCategory cid name order children dishes)
  then obtain f where f: "fuel = Suc f" by (cases fuel) auto
  have ch: "category_to_schema f (db_categories s) (db_dishes s) (category_to_row m (Some cid) ch) = Inr ch"
    if "ch \<in> set children" for ch
  proof (rule MenuCategory.IH [OF that])
    show "covers s m ch" using MenuCategory.prems(1) that length_nodes_child [OF that]
      by (simp add: covers_def list_all_iff) blast
    show "category_ok ch" using MenuCategory.prems(2) that by (simp add: list_all_iff)
    show "category_linked ch" using MenuCategory.prems(3) that by (auto simp: category_linked_def list_all_iff)
    show "length (nodes ch) \<le> f" using MenuCategory.prems(4) length_nodes_child [OF that] by (simp add: f)
  qed
  have sub: "filter (\<lambda>k. cr_parent_id k = Some cid) (db_categories s) = map (category_to_row m (Some cid)) children"
    "filter (\<lambda>d. dr_category_id d = cid) (db_dishes s) = map (dish_to_row cid) dishes"
    using MenuCategory.prems(1) by (simp_all add: covers_def)
  have di: "dish_to_schema (dish_to_row cid d) = Inr d" if "d \<in> set dishes" for d
    by (rule dish_to_schema_row) (use MenuCategory.prems that in \<open>auto simp: category_linked_def list_all_iff\<close>)
  have c1: "those_res (map (category_to_schema f (db_categories s) (db_dishes s))
      (map (category_to_row m (Some cid)) children)) = Inr children"
    using those_res_map_Inr [where f = "category_to_schema f (db_categories s) (db_dishes s) \<circ> category_to_row m (Some cid)"
        and g = id and xs = children] ch by simp
  have c2: "vseq (map dish_to_schema (map (dish_to_row cid) dishes)) = Inr dishes"
    using vseq_map_Inr [where f = "dish_to_schema \<circ> dish_to_row cid" and g = id and xs = dishes] di by simp
  show ?case
    using MenuCategory.prems(2) sub c1 c2
    by (simp add: f category_to_row_def v_name_dump)
qed

lemma menu_to_schema_row:
  assumes "filter (\<lambda>c. cr_parent_id c = None) (filter (\<lambda>c. cr_menu_id c = me_id m) (db_categories s))
             = map (category_to_row (me_id m) None) (me_categories m)"
    and "list_all (covers s (me_id m)) (me_categories m)" "menu_ok m"
    and "list_all category_linked (me_categories m)"
  shows "menu_to_schema s (menu_to_row r m) = Inr m"
proof -
  let ?f = "category_to_schema (Suc (length (db_categories s))) (db_categories s) (db_dishes s)"
  have c: "?f (category_to_row (me_id m) None c) = Inr c" if "c \<in> set (me_categories m)" for c
    using assms that
    by (intro category_to_schema_row) (auto simp: list_all_iff menu_ok_def covers_def intro: le_SucI)
  have "those_res (map ?f (map (category_to_row (me_id m) None) (me_categories m))) = Inr (me_categories m)"
    using those_res_map_Inr [where f = "?f \<circ> category_to_row (me_id m) None" and g = id and xs = "me_categories m"] c
    by simp
  moreover have "v_name ''Menu name cannot be blank'' 255 [LKey ''name''] (JStr (me_name m)) = Inr (me_name m)"
    using assms(3) by (simp add: menu_ok_def v_name_dump)
  ultimately show ?thesis
    using assms(1) by (simp add: menu_to_schema_def menu_to_row_def)
qed

lemma get_full_tree_stored:
  assumes "stored s r" "restaurant_storable r"
  shows "get_full_tree (r_id r) s = Inr (Some r)"
proof -
  obtain t where row: "row_by rr_id (r_id r) (db_restaurants s) = Some (restaurant_to_row t r)"
    using assms(1) by (auto simp: stored_def)
  have locs: "vseq (map (\<lambda>lr. v_location no_uuid [] (dump_location (lr_location lr)))
      (map (location_to_row (r_id r)) (r_locations r))) = Inr (r_locations r)"
    using vseq_map_Inr [where f = "\<lambda>l. v_location no_uuid [] (dump_location l)" and g = id and xs = "r_locations r"]
      assms(2)
    by (simp add: comp_def location_to_row_def restaurant_storable_def restaurant_ok_def list_all_iff v_location_dump)
  have "menu_to_schema s (menu_to_row (r_id r) m) = Inr m" if "m \<in> set (r_menus r)" for m
    using assms that
    by (intro menu_to_schema_row) (auto simp: stored_def restaurant_storable_def restaurant_ok_def list_all_iff)
  then have menus: "those_res (map (menu_to_schema s) (map (menu_to_row (r_id r)) (r_menus r))) = Inr (r_menus r)"
    using those_res_map_Inr [where f = "menu_to_schema s \<circ> menu_to_row (r_id r)" and g = id and xs = "r_menus r"]
    by simp
  define r0 where "r0 = row_to_restaurant (restaurant_to_row t r)"
  have "restaurant_ok r0"
    using assms(2) by (simp add: r0_def row_to_restaurant_def restaurant_to_row_def restaurant_storable_def restaurant_ok_def)
  then have v: "v_restaurant no_uuid [] (dump_restaurant (row_to_restaurant (restaurant_to_row t r))) = Inr r0"
    unfolding r0_def by (rule v_restaurant_dump)
  have r: "r0\<lparr>r_locations := r_locations r, r_menus := r_menus r\<rparr> = r"
    using assms(2) by (simp add: r0_def row_to_restaurant_def restaurant_to_row_def restaurant_storable_def)
  have "to_schema s (restaurant_to_row t r) = Inr r"
    using assms(1) locs menus v r by (simp add: to_schema_def stored_def restaurant_to_row_def)
  then show ?thesis by (simp add: get_full_tree_def row)
qed

section \<open>Referential integrity\<close>

definition fk_ok :: "db \<Rightarrow> bool" where
  "fk_ok s \<longleftrightarrow>
     lr_restaurant_id ` set (db_locations s) \<subseteq> rr_id ` set (db_restaurants s)
     \<and> mr_restaurant_id ` set (db_menus s) \<subseteq> rr_id ` set (db_restaurants s)
     \<and> cr_menu_id ` set (db_categories s) \<subseteq> mr_id ` set (db_menus s)
     \<and> (\<forall>c \<in> set (db_categories s). \<forall>p. cr_parent_id c = Some p \<longrightarrow> p \<in> cr_id ` set (db_categories s))
     \<and> dr_category_id ` set (db_dishes s) \<subseteq> cr_id ` set (db_categories s)"

lemma no_reference: "f ` set xs \<subseteq> B \<Longrightarrow> i \<notin> B \<Longrightarrow> filter (\<lambda>x. f x = i) xs = []"
  by (induction xs) auto

lemma no_parent_reference:
  "\<forall>c \<in> set xs. \<forall>p. f c = Some p \<longrightarrow> p \<in> B \<Longrightarrow> i \<notin> B \<Longrightarrow> filter (\<lambda>c. f c = Some i) xs = []"
  by (induction xs) auto

lemma fk_no_rows:
  assumes "fk_ok s"
  shows "i \<notin> rr_id ` set (db_restaurants s) \<Longrightarrow> filter (\<lambda>l. lr_restaurant_id l = i) (db_locations s) = []"
    and "i \<notin> rr_id ` set (db_restaurants s) \<Longrightarrow> filter (\<lambda>m. mr_restaurant_id m = i) (db_menus s) = []"
    and "i \<notin> mr_id ` set (db_menus s) \<Longrightarrow> filter (\<lambda>c. cr_menu_id c = i) (db_categories s) = []"
    and "i \<notin> cr_id ` set (db_categories s) \<Longrightarrow> filter (\<lambda>c. cr_parent_id c = Some i) (db_categories s) = []"
    and "i \<notin> cr_id ` set (db_categories s) \<Longrightarrow> filter (\<lambda>d. dr_category_id d = i) (db_dishes s) = []"
proof -
  have fk: "lr_restaurant_id ` set (db_locations s) \<subseteq> rr_id ` set (db_restaurants s)"
    "mr_restaurant_id ` set (db_menus s) \<subseteq> rr_id ` set (db_restaurants s)"
    "cr_menu_id ` set (db_categories s) \<subseteq> mr_id ` set (db_menus s)"
    "\<forall>c \<in> set (db_categories s). \<forall>p. cr_parent_id c = Some p \<longrightarrow> p \<in> cr_id ` set (db_categories s)"
    "dr_category_id ` set (db_dishes s) \<subseteq> cr_id ` set (db_categories s)"
    using assms unfolding fk_ok_def by simp_all
  show "i \<notin> rr_id ` set (db_restaurants s) \<Longrightarrow> filter (\<lambda>l. lr_restaurant_id l = i) (db_locations s) = []"
    by (rule no_reference [OF fk(1)])
  show "i \<notin> rr_id ` set (db_restaurants s) \<Longrightarrow> filter (\<lambda>m. mr_restaurant_id m = i) (db_menus s) = []"
    by (rule no_reference [OF fk(2)])
  show "i \<notin> mr_id ` set (db_menus s) \<Longrightarrow> filter (\<lambda>c. cr_menu_id c = i) (db_categories s) = []"
    by (rule no_reference [OF fk(3)])
  show "i \<notin> cr_id ` set (db_categories s) \<Longrightarrow> filter (\<lambda>c. cr_parent_id c = Some i) (db_categories s) = []"
    by (rule no_parent_reference [OF fk(4)])
  show "i \<notin> cr_id ` set (db_categories s) \<Longrightarrow> filter (\<lambda>d. dr_category_id d = i) (db_dishes s) = []"
    by (rule no_reference [OF fk(5)])
qed

lemma persist_tree_Inr:
  assumes "persist_tree r s = Inr s'"
  shows "insert_ok rr_id (db_restaurants s) [restaurant_to_row (db_now s) r]"
    and "insert_ok mr_id (db_menus s) (map (menu_to_row (r_id r)) (r_menus r))"
    and "insert_ok cr_id (db_categories s) (concat (map menu_category_rows (r_menus r)))"
    and "s' = s\<lparr>db_restaurants := db_restaurants s @ [restaurant_to_row (db_now s) r],
           db_locations := db_locations s @ map (location_to_row (r_id r)) (r_locations r),
           db_menus := db_menus s @ map (menu_to_row (r_id r)) (r_menus r),
           db_categories := db_categories s @ concat (map menu_category_rows (r_menus r)),
           db_dishes := db_dishes s @ concat (map menu_dish_rows (r_menus r))\<rparr>"
  using assms by (simp_all add: persist_tree_def Let_def split: if_splits)

abbreviation all_categories :: "restaurant \<Rightarrow> menu_category list" where
  "all_categories r \<equiv> concat (map me_categories (r_menus r))"

lemma ids_new_categories:
  "map cr_id (concat (map menu_category_rows ms)) = concat (map ids (concat (map me_categories ms)))"
proof (induction ms)
  case Nil
  then show ?case by simp
next
  case (Cons m ms)
  have "map cr_id (menu_category_rows m) = concat (map ids (me_categories m))"
    by (simp add: menu_category_rows_def map_concat comp_def ids_category_rows)
  then show ?case using Cons by simp
qed

lemma menu_of_category_rows: "k \<in> set (category_rows m p c) \<Longrightarrow> cr_menu_id k = m"
  by (induction c arbitrary: p) (auto simp: category_to_row_def)

lemma menu_of_new_rows:
  "k \<in> set (concat (map menu_category_rows ms)) \<Longrightarrow> \<exists>m \<in> set ms. cr_menu_id k = me_id m"
  unfolding menu_category_rows_def by (auto dest: menu_of_category_rows)

lemma parent_of_new_rows:
  assumes "k \<in> set (concat (map menu_category_rows ms))"
  shows "cr_parent_id k = None \<or> (\<exists>i \<in> set (map cr_id (concat (map menu_category_rows ms))). cr_parent_id k = Some i)"
proof -
  obtain m c where mc: "m \<in> set ms" "c \<in> set (me_categories m)" "k \<in> set (category_rows (me_id m) None c)"
    using assms by (auto simp: menu_category_rows_def)
  from parents_category_rows [OF mc(3)] show ?thesis
    unfolding ids_new_categories using mc(1,2) by auto
qed

lemma category_of_new_dishes:
  assumes "d \<in> set (concat (map menu_dish_rows ms))"
  shows "dr_category_id d \<in> set (map cr_id (concat (map menu_category_rows ms)))"
proof -
  obtain m c where mc: "m \<in> set ms" "c \<in> set (me_categories m)" "d \<in> set (category_dish_rows c)"
    using assms by (auto simp: menu_dish_rows_def)
  from categories_dish_rows [OF mc(3)] show ?thesis
    unfolding ids_new_categories using mc(1,2) by auto
qed

lemma persist_tree_fk:
  assumes "persist_tree r s = Inr s'" "fk_ok s"
  shows "fk_ok s'"
proof -
  note s' = persist_tree_Inr(4) [OF assms(1)]
  have parents: "p \<in> cr_id ` set (db_categories s')" if "c \<in> set (db_categories s')" "cr_parent_id c = Some p" for c p
    using that parent_of_new_rows [of c "r_menus r"] assms(2) by (auto simp: s' fk_ok_def image_Un)
  have menus: "cr_menu_id c \<in> mr_id ` set (db_menus s')" if "c \<in> set (db_categories s')" for c
  proof (cases "c \<in> set (db_categories s)")
    case True
    then show ?thesis using assms(2) by (auto simp: s' fk_ok_def)
  next
    case False
    then have "c \<in> set (concat (map menu_category_rows (r_menus r)))" using that by (simp add: s')
    then obtain m where "m \<in> set (r_menus r)" "cr_menu_id c = me_id m"
      using menu_of_new_rows by blast
    then show ?thesis by (simp add: s' menu_to_row_def image_Un image_image)
  qed
  have dishes: "dr_category_id d \<in> cr_id ` set (db_categories s')" if "d \<in> set (db_dishes s')" for d
    using that category_of_new_dishes [of d "r_menus r"] assms(2) by (auto simp: s' fk_ok_def)
  have "lr_restaurant_id ` set (db_locations s') \<subseteq> rr_id ` set (db_restaurants s')"
    "mr_restaurant_id ` set (db_menus s') \<subseteq> rr_id ` set (db_restaurants s')"
    using assms(2) by (auto simp: s' fk_ok_def location_to_row_def menu_to_row_def restaurant_to_row_def)
  then show ?thesis using parents menus dishes by (auto simp: fk_ok_def)
qed

section \<open>Writing and reading agree\<close>

definition menu_pairs :: "menu list \<Rightarrow> (menu \<times> menu_category) list" where
  "menu_pairs ms = concat (map (\<lambda>m. map (Pair m) (me_categories m)) ms)"

abbreviation pair_rows :: "menu \<times> menu_category \<Rightarrow> category_row list" where
  "pair_rows mc \<equiv> category_rows (me_id (fst mc)) None (snd mc)"

lemma new_rows_pairs:
  "concat (map menu_category_rows ms) = concat (map pair_rows (menu_pairs ms))"
  "concat (map menu_dish_rows ms) = concat (map (\<lambda>mc. category_dish_rows (snd mc)) (menu_pairs ms))"
  by (induction ms)
    (simp_all add: menu_pairs_def menu_category_rows_def menu_dish_rows_def comp_def)

lemma menu_pairs_mem: "(m, c) \<in> set (menu_pairs ms) \<longleftrightarrow> m \<in> set ms \<and> c \<in> set (me_categories m)"
  by (auto simp: menu_pairs_def)

lemma ids_pairs: "map cr_id (concat (map pair_rows ps)) = concat (map (\<lambda>mc. ids (snd mc)) ps)"
  by (induction ps) (simp_all add: ids_category_rows)

lemma filter_new_rows:
  assumes dist: "distinct (map cr_id (concat (map pair_rows ps)))"
    and mem: "(m, c) \<in> set ps" "n \<in> set (nodes c)"
  shows "filter (\<lambda>k. cr_parent_id k = Some (mc_id n)) (concat (map pair_rows ps))
           = map (category_to_row (me_id m) (Some (mc_id n))) (mc_children n)"
    and "filter (\<lambda>d. dr_category_id d = mc_id n) (concat (map (\<lambda>mc. category_dish_rows (snd mc)) ps))
           = map (dish_to_row (mc_id n)) (mc_dishes n)"
proof -
  obtain as bs where split: "ps = as @ (m, c) # bs" using mem(1) by (meson split_list)
  have d: "distinct (concat (map (\<lambda>mc. ids (snd mc)) (as @ (m, c) # bs)))"
    using dist unfolding ids_pairs split .
  have i: "mc_id n \<in> set (ids (snd (m, c)))" using mem(2) by simp
  have apart: "mc_id n \<notin> set (ids (snd mc))" if "mc \<in> set as \<union> set bs" for mc
    by (rule distinct_apart [OF d i that])
  have dc: "distinct (ids c)" using d by simp
  show "filter (\<lambda>k. cr_parent_id k = Some (mc_id n)) (concat (map pair_rows ps))
           = map (category_to_row (me_id m) (Some (mc_id n))) (mc_children n)"
    using filter_concat_only [OF split, where f = pair_rows and P = "\<lambda>k. cr_parent_id k = Some (mc_id n)"]
      no_child_rows [OF _ apart] filter_rows_node [OF dc mem(2), of None "me_id m"] by simp
  show "filter (\<lambda>d. dr_category_id d = mc_id n) (concat (map (\<lambda>mc. category_dish_rows (snd mc)) ps))
           = map (dish_to_row (mc_id n)) (mc_dishes n)"
    using filter_concat_only [OF split, where f = "\<lambda>mc. category_dish_rows (snd mc)"
        and P = "\<lambda>d. dr_category_id d = mc_id n"]
      no_dish_rows [OF apart] filter_dishes_node [OF dc mem(2)] by simp
qed

lemma roots_of_category: "filter (\<lambda>k. cr_parent_id k = None) (category_rows m None c) = [category_to_row m None c]"
proof (cases c)
  case (MenuCategory cid name order children dishes)
  have "\<forall>k \<in> set (concat (map (category_rows m (Some cid)) children)). cr_parent_id k \<noteq> None"
    using parents_category_rows by fastforce
  then have "filter (\<lambda>k. cr_parent_id k = None) (concat (map (category_rows m (Some cid)) children)) = []"
    unfolding filter_empty_conv by blast
  then show ?thesis by (simp add: MenuCategory category_to_row_def)
qed

lemma roots_of_menu:
  assumes "distinct (map me_id ms)" "m \<in> set ms"
  shows "filter (\<lambda>c. cr_parent_id c = None) (filter (\<lambda>c. cr_menu_id c = me_id m) (concat (map menu_category_rows ms)))
           = map (category_to_row (me_id m) None) (me_categories m)"
proof -
  obtain as bs where split: "ms = as @ m # bs" using assms(2) by (meson split_list)
  have own: "filter (\<lambda>c. cr_menu_id c = me_id m) (menu_category_rows m) = menu_category_rows m"
    by (auto simp: filter_id_conv menu_category_rows_def menu_of_category_rows)
  have other: "filter (\<lambda>c. cr_menu_id c = me_id m) (menu_category_rows x) = []" if "x \<in> set as \<union> set bs" for x
  proof -
    have "me_id x \<noteq> me_id m"
      using distinct_apart [of "\<lambda>m. [me_id m]" as m bs "me_id m" x] that assms(1) by (simp add: split)
    then show ?thesis by (auto simp: filter_empty_conv menu_category_rows_def menu_of_category_rows)
  qed
  have "filter (\<lambda>c. cr_menu_id c = me_id m) (concat (map menu_category_rows ms)) = menu_category_rows m"
    using filter_concat_only [OF split other] own by simp
  moreover have "filter (\<lambda>k. cr_parent_id k = None) (menu_category_rows m)
      = map (category_to_row (me_id m) None) (me_categories m)"
    by (simp add: menu_category_rows_def filter_concat comp_def roots_of_category)
  ultimately show ?thesis by simp
qed

lemma length_nodes_rows: "length (nodes c) = length (category_rows m p c)"
  by (metis ids_category_rows length_map)

lemma persist_tree_stored:
  assumes "persist_tree r s = Inr s'" "fk_ok s"
  shows "stored s' r"
proof -
  note ins = persist_tree_Inr(1-3) [OF assms(1)]
  note s' = persist_tree_Inr(4) [OF assms(1)]
  have r_new: "r_id r \<notin> rr_id ` set (db_restaurants s)"
    using ins(1) by (simp add: insert_ok_def restaurant_to_row_def)
  have m_new: "me_id m \<notin> mr_id ` set (db_menus s)" if "m \<in> set (r_menus r)" for m
    using ins(2) that by (auto simp: insert_ok_def menu_to_row_def)
  have m_dist: "distinct (map me_id (r_menus r))"
    using ins(2) by (simp add: insert_ok_def menu_to_row_def comp_def)
  let ?ps = "menu_pairs (r_menus r)"
  have c_dist: "distinct (map cr_id (concat (map pair_rows ?ps)))"
    using ins(3) unfolding new_rows_pairs insert_ok_def by simp
  have c_new: "mc_id n \<notin> cr_id ` set (db_categories s)" if "(m, c) \<in> set ?ps" "n \<in> set (nodes c)" for m c n
  proof -
    have "mc_id n \<in> set (map cr_id (concat (map pair_rows ?ps)))"
      unfolding ids_pairs using that by force
    then show ?thesis using ins(3) unfolding new_rows_pairs insert_ok_def by auto
  qed
  have "row_by rr_id (r_id r) (db_restaurants s') = Some (restaurant_to_row (db_now s) r)"
  proof -
    have "row_by rr_id (r_id r) (db_restaurants s) = None" using r_new by (simp add: row_by_None)
    then show ?thesis by (simp add: s' row_by_append) (simp add: row_by_def restaurant_to_row_def)
  qed
  moreover have "filter (\<lambda>l. lr_restaurant_id l = r_id r) (db_locations s') = map (location_to_row (r_id r)) (r_locations r)"
    using fk_no_rows(1) [OF assms(2) r_new] by (simp add: s' filter_map comp_def location_to_row_def)
  moreover have "filter (\<lambda>m. mr_restaurant_id m = r_id r) (db_menus s') = map (menu_to_row (r_id r)) (r_menus r)"
    using fk_no_rows(2) [OF assms(2) r_new] by (simp add: s' filter_map comp_def menu_to_row_def)
  moreover have "filter (\<lambda>c. cr_parent_id c = None) (filter (\<lambda>c. cr_menu_id c = me_id m) (db_categories s'))
      = map (category_to_row (me_id m) None) (me_categories m)" if "m \<in> set (r_menus r)" for m
  proof -
    have "filter (\<lambda>c. cr_menu_id c = me_id m) (db_categories s) = []"
      by (rule fk_no_rows(3) [OF assms(2) m_new [OF that]])
    then show ?thesis using roots_of_menu [OF m_dist that] by (simp add: s')
  qed
  moreover have "covers s' (me_id m) c" if mc: "m \<in> set (r_menus r)" "c \<in> set (me_categories m)" for m c
  proof -
    have p: "(m, c) \<in> set ?ps" using mc by (simp add: menu_pairs_mem)
    have old: "filter (\<lambda>k. cr_parent_id k = Some (mc_id n)) (db_categories s) = []"
      "filter (\<lambda>d. dr_category_id d = mc_id n) (db_dishes s) = []" if "n \<in> set (nodes c)" for n
      using fk_no_rows(4,5) [OF assms(2) c_new [OF p that]] by blast+
    have sub: "set (category_rows (me_id m) None c) \<subseteq> set (concat (map menu_category_rows (r_menus r)))"
      using mc by (auto simp: menu_category_rows_def)
    have "set (ids c) \<subseteq> cr_id ` set (db_categories s')"
      using sub by (simp add: s' flip: ids_category_rows [of "me_id m" None]) blast
    moreover have "length (nodes c) \<le> length (db_categories s')"
    proof -
      have "card (set (ids c)) \<le> card (cr_id ` set (db_categories s'))"
        using calculation by (simp add: card_mono)
      also have "\<dots> \<le> length (db_categories s')"
        by (meson card_image_le card_length finite_set le_trans)
      finally have "card (set (ids c)) \<le> length (db_categories s')" .
      moreover have "distinct (ids c)"
        using c_dist p unfolding ids_pairs by (auto dest: split_list)
      ultimately show ?thesis by (metis distinct_card length_map)
    qed
    ultimately show ?thesis
      using old filter_new_rows [OF c_dist p] by (simp add: covers_def list_all_iff s' new_rows_pairs)
  qed
  ultimately show ?thesis by (auto simp: stored_def list_all_iff)
qed

lemma persist_tree_keeps:
  assumes "persist_tree r2 s = Inr s'" "stored s r"
  shows "stored s' r"
proof -
  note ins = persist_tree_Inr(1-3) [OF assms(1)]
  note s' = persist_tree_Inr(4) [OF assms(1)]
  let ?new = "concat (map menu_category_rows (r_menus r2))"
  obtain t where row: "row_by rr_id (r_id r) (db_restaurants s) = Some (restaurant_to_row t r)"
    using assms(2) by (auto simp: stored_def)
  then have r_old: "r_id r \<in> rr_id ` set (db_restaurants s)"
    using row_by_SomeD [OF row] by (metis image_eqI)
  have ne: "r_id r2 \<noteq> r_id r"
    using ins(1) r_old by (auto simp: insert_ok_def restaurant_to_row_def)
  have menus: "filter (\<lambda>m. mr_restaurant_id m = r_id r) (db_menus s) = map (menu_to_row (r_id r)) (r_menus r)"
    using assms(2) by (simp add: stored_def)
  have m_old: "me_id m \<in> mr_id ` set (db_menus s)" if "m \<in> set (r_menus r)" for m
  proof -
    have "menu_to_row (r_id r) m \<in> set (filter (\<lambda>m. mr_restaurant_id m = r_id r) (db_menus s))"
      unfolding menus using that by simp
    then show ?thesis by (force simp: menu_to_row_def)
  qed
  have no_menu: "filter (\<lambda>c. cr_menu_id c = me_id m) ?new = []" if "m \<in> set (r_menus r)" for m
  proof -
    have "me_id m' \<noteq> me_id m" if "m' \<in> set (r_menus r2)" for m'
      using ins(2) m_old [OF \<open>m \<in> set (r_menus r)\<close>] that by (auto simp: insert_ok_def menu_to_row_def)
    then show ?thesis unfolding filter_empty_conv using menu_of_new_rows by metis
  qed
  have cov: "covers s' (me_id m) c" if c: "covers s (me_id m) c" for m c
  proof -
    have "filter (\<lambda>k. cr_parent_id k = Some (mc_id n)) ?new = []
        \<and> filter (\<lambda>d. dr_category_id d = mc_id n) (concat (map menu_dish_rows (r_menus r2))) = []"
      if n: "n \<in> set (nodes c)" for n
    proof -
      have "mc_id n \<in> cr_id ` set (db_categories s)" using c n by (auto simp: covers_def)
      then have fresh: "mc_id n \<notin> set (map cr_id ?new)" using ins(3) by (auto simp: insert_ok_def)
      then show ?thesis
        unfolding filter_empty_conv using parent_of_new_rows category_of_new_dishes
        by (metis option.distinct(1) option.inject)
    qed
    then show ?thesis using c by (auto simp: covers_def s' list_all_iff)
  qed
  show ?thesis
    unfolding stored_def
  proof (intro conjI)
    show "\<exists>t. row_by rr_id (r_id r) (db_restaurants s') = Some (restaurant_to_row t r)"
      using row by (auto simp: s' row_by_append)
    show "filter (\<lambda>l. lr_restaurant_id l = r_id r) (db_locations s') = map (location_to_row (r_id r)) (r_locations r)"
      using assms(2) ne by (simp add: s' stored_def location_to_row_def filter_empty_conv)
    show "filter (\<lambda>m. mr_restaurant_id m = r_id r) (db_menus s') = map (menu_to_row (r_id r)) (r_menus r)"
      using menus ne by (simp add: s' filter_empty_conv menu_to_row_def)
    show "list_all (\<lambda>m.
           filter (\<lambda>c. cr_parent_id c = None) (filter (\<lambda>c. cr_menu_id c = me_id m) (db_categories s'))
             = map (category_to_row (me_id m) None) (me_categories m)
         \<and> list_all (covers s' (me_id m)) (me_categories m)) (r_menus r)"
      unfolding list_all_iff
    proof (intro ballI conjI)
      fix m assume m: "m \<in> set (r_menus r)"
      then have old: "filter (\<lambda>c. cr_parent_id c = None) (filter (\<lambda>c. cr_menu_id c = me_id m) (db_categories s))
             = map (category_to_row (me_id m) None) (me_categories m)"
        "\<forall>c \<in> set (me_categories m). covers s (me_id m) c"
        using assms(2) by (simp_all add: stored_def list_all_iff)
      have cats: "db_categories s' = db_categories s @ ?new" by (simp add: s')
      show "filter (\<lambda>c. cr_parent_id c = None) (filter (\<lambda>c. cr_menu_id c = me_id m) (db_categories s'))
             = map (category_to_row (me_id m) None) (me_categories m)"
        unfolding cats filter_append old(1) no_menu [OF m] by simp
      show "\<And>c. c \<in> set (me_categories m) \<Longrightarrow> covers s' (me_id m) c"
        using old(2) cov by blast
    qed
  qed
qed

text \<open>Any sequence of successful inserts.\<close>

fun persist_all :: "restaurant list \<Rightarrow> db \<Rightarrow> exn + db" where
  "persist_all [] s = Inr s"
| "persist_all (r # rs) s = (case persist_tree r s of Inl e \<Rightarrow> Inl e | Inr s' \<Rightarrow> persist_all rs s')"

lemma persist_all_keeps: "persist_all rs s = Inr s' \<Longrightarrow> stored s r \<Longrightarrow> stored s' r"
  by (induction rs arbitrary: s) (auto dest: persist_tree_keeps split: sum.splits)

lemma persist_all_stored: "persist_all rs s = Inr s' \<Longrightarrow> fk_ok s \<Longrightarrow> r \<in> set rs \<Longrightarrow> stored s' r"
proof (induction rs arbitrary: s)
  case Nil
  then show ?case by simp
next
  case (Cons r0 rs)
  then obtain s1 where s1: "persist_tree r0 s = Inr s1" "persist_all rs s1 = Inr s'"
    by (auto split: sum.splits)
  show ?case
  proof (cases "r = r0")
    case True
    then show ?thesis
      using persist_all_keeps [OF s1(2)] persist_tree_stored [OF s1(1) Cons.prems(2)] by simp
  next
    case False
    then show ?thesis
      using Cons.IH [OF s1(2) persist_tree_fk [OF s1(1) Cons.prems(2)]] Cons.prems(3) by simp
  qed
qed

section \<open>Properties\<close>

definition empty_db :: db where
  "empty_db = \<lparr>db_now = 0, db_next = 100, db_agent_runs = [], db_proposed_changes = [], db_approvals = [],
     db_audit_logs = [], db_sources = [], db_snapshots = [], db_restaurants = [], db_locations = [],
     db_menus = [], db_categories = [], db_dishes = [], db_queue = [], db_users = [],
     db_refresh_tokens = []\<rparr>"


lemma sample_storable: "restaurant_storable sample_restaurant"
  using sample_restaurant_ok
  by (simp add: restaurant_storable_def sample_restaurant_def sample_dish_def category_linked_def
      dish_linked_def numeric_2_def floor_eq_iff)

lemma sample_persists: "\<exists>s'. persist_all [sample_restaurant] empty_db = Inr s'"
  by (simp add: persist_tree_def sample_restaurant_def sample_dish_def empty_db_def restaurant_to_row_def
      menu_to_row_def menu_category_rows_def menu_dish_rows_def category_to_row_def dish_to_row_def
      restaurant_fits_def location_fits_def category_fits_def dish_fits_def fits_def insert_ok_def
      numeric_2_def)


end
