(* ===== verification/Url.thy ===== *)
theory Url
  imports Prelude "HOL-Library.Word"
begin

unbundle bit_operations_syntax

text \<open>
  URLs, domains and addresses: \<open>src/infrastructure/source_authority/\<close> (URL normalization, the
  aggregator blocklist, official-domain validation), the domain boundary of
  \<open>src/infrastructure/crawler/domain_lock.py\<close> and the SSRF guard
  \<open>src/infrastructure/crawler/ssrf_guard.py\<close>, over what they use of the standard library:
  \<open>urllib.parse\<close> and \<open>ipaddress\<close>. A \<open>str\<close> is its UTF-8 bytes.
\<close>

section \<open>String searching\<close>

text \<open>\<open>s.partition(c)\<close>: what precedes the first \<open>c\<close>, whether there is one, what follows.\<close>

definition partition1 :: "char \<Rightarrow> string \<Rightarrow> string \<times> bool \<times> string" where
  "partition1 c s =
     (case dropWhile (\<lambda>x. x \<noteq> c) s of
        [] \<Rightarrow> (s, False, [])
      | _ # rest \<Rightarrow> (takeWhile (\<lambda>x. x \<noteq> c) s, True, rest))"

text \<open>\<open>s.rpartition(c)[2]\<close>.\<close>

definition after_last :: "char \<Rightarrow> string \<Rightarrow> string" where
  "after_last c s = rev (takeWhile (\<lambda>x. x \<noteq> c) (rev s))"

definition startswith :: "string \<Rightarrow> string \<Rightarrow> bool" where
  "startswith s p \<longleftrightarrow> prefix p s"

definition endswith :: "string \<Rightarrow> string \<Rightarrow> bool" where
  "endswith s p \<longleftrightarrow> suffix p s"

section \<open>ipaddress\<close>

type_synonym ipv4 = "32 word"
type_synonym ipv6 = "128 word"

datatype ip_address = IPv4 ipv4 | IPv6 ipv6

definition parse_octet :: "string \<Rightarrow> nat option" where
  "parse_octet s =
     (if length s \<le> 3 \<and> (length s \<le> 1 \<or> hd s \<noteq> CHR ''0'')
      then (case read_nat s of Some n \<Rightarrow> if n \<le> 255 then Some n else None | None \<Rightarrow> None)
      else None)"

definition parse_ipv4 :: "string \<Rightarrow> ipv4 option" where
  "parse_ipv4 s =
     (case map parse_octet (py_split_on (CHR ''.'') s) of
        [Some a, Some b, Some c, Some d] \<Rightarrow> Some (word_of_nat (((a * 256 + b) * 256 + c) * 256 + d))
      | _ \<Rightarrow> None)"

definition hex_val :: "char \<Rightarrow> nat option" where
  "hex_val c =
     (let n = (of_char c :: nat) in
      if 48 \<le> n \<and> n \<le> 57 then Some (n - 48)
      else if 65 \<le> n \<and> n \<le> 70 then Some (n - 55)
      else if 97 \<le> n \<and> n \<le> 102 then Some (n - 87)
      else None)"

definition parse_hextet :: "string \<Rightarrow> nat option" where
  "parse_hextet s =
     (if s = [] \<or> 4 < length s \<or> list_ex (\<lambda>c. hex_val c = None) s then None
      else Some (foldl (\<lambda>a c. 16 * a + the (hex_val c)) 0 s))"

text \<open>The parts of an IPv6 address with the embedded IPv4 address, if any, spelled as two hextets.\<close>

definition ipv6_parts :: "string \<Rightarrow> (nat option) list option" where
  "ipv6_parts s =
     (let parts = py_split_on (CHR '':'') s;
          tr = (\<lambda>p. if p = [] then Some None else map_option Some (parse_hextet p))
      in
       if length parts < 3 then None
       else
        (let (front, tail) =
           (if CHR ''.'' \<in> set (last parts)
            then (butlast parts,
                  (case parse_ipv4 (last parts) of
                     Some w \<Rightarrow> Some [Some (unat w div 65536), Some (unat w mod 65536)]
                   | None \<Rightarrow> None))
            else (parts, Some []))
         in case (those (map tr front), tail) of
              (Some xs, Some ys) \<Rightarrow> Some (xs @ ys)
            | _ \<Rightarrow> None))"

fun hextets_value :: "nat list \<Rightarrow> nat" where
  "hextets_value xs = foldl (\<lambda>a x. 65536 * a + x) 0 xs"

text \<open>\<open>_ip_int_from_string\<close>: at most one \<open>::\<close>, standing for at least one group of zeros.\<close>

definition parse_ipv6_int :: "string \<Rightarrow> nat option" where
  "parse_ipv6_int s =
     (case ipv6_parts s of
        None \<Rightarrow> None
      | Some parts \<Rightarrow>
          (if 9 < length parts then None
           else
            (case filter (\<lambda>i. parts ! i = None) [1..<length parts - 1] of
               [] \<Rightarrow>
                 if length parts = 8 \<and> None \<notin> set parts then Some (hextets_value (map the parts)) else None
             | [i] \<Rightarrow>
                 (let hi = take i parts;
                      lo = drop (Suc i) parts;
                      hi_ok = (hd parts \<noteq> None \<or> length hi = 1);
                      lo_ok = (last parts \<noteq> None \<or> length lo = 1);
                      hs = map the (filter (\<lambda>x. x \<noteq> None) hi);
                      ls = map the (filter (\<lambda>x. x \<noteq> None) lo)
                  in
                   if hi_ok \<and> lo_ok \<and> length hs + length ls < 8
                   then Some (hextets_value (hs @ replicate (8 - length hs - length ls) 0 @ ls))
                   else None)
             | _ \<Rightarrow> None)))"

definition parse_ipv6 :: "string \<Rightarrow> ipv6 option" where
  "parse_ipv6 s =
     (case partition1 (CHR ''%'') s of
        (addr, zoned, zone) \<Rightarrow>
          if zoned \<and> (zone = [] \<or> CHR ''%'' \<in> set zone) then None
          else map_option word_of_nat (parse_ipv6_int addr))"

text \<open>\<open>ipaddress.ip_address(s)\<close>; \<open>None\<close> is its \<open>ValueError\<close>.\<close>

definition ip_address_of :: "string \<Rightarrow> ip_address option" where
  "ip_address_of s =
     (case parse_ipv4 s of
        Some w \<Rightarrow> Some (IPv4 w)
      | None \<Rightarrow> map_option IPv6 (parse_ipv6 s))"

text \<open>Membership in a network: equal above the host bits.\<close>

definition in_net :: "'a :: len word \<Rightarrow> 'a word \<times> nat \<Rightarrow> bool" where
  "in_net w n = (case n of (net, prefix_len) \<Rightarrow>
     drop_bit (LENGTH('a) - prefix_len) w = drop_bit (LENGTH('a) - prefix_len) net)"

definition in_any :: "'a :: len word \<Rightarrow> ('a word \<times> nat) list \<Rightarrow> bool" where
  "in_any w nets = list_ex (in_net w) nets"

text \<open>The address ranges of the \<open>ipaddress\<close> module, as numbers.\<close>

definition v4_private :: "(ipv4 \<times> nat) list" where
  "v4_private =
     [(0x00000000, 8), (0x0A000000, 8), (0x7F000000, 8), (0xA9FE0000, 16), (0xAC100000, 12),
      (0xC0000000, 24), (0xC00000AA, 31), (0xC0000200, 24), (0xC0A80000, 16), (0xC6120000, 15),
      (0xC6336400, 24), (0xCB007100, 24), (0xF0000000, 4), (0xFFFFFFFF, 32)]"

definition v4_private_exceptions :: "(ipv4 \<times> nat) list" where
  "v4_private_exceptions = [(0xC0000009, 32), (0xC000000A, 32)]"

definition v6_private :: "(ipv6 \<times> nat) list" where
  "v6_private =
     [(1, 128), (0, 128), (0xFFFF00000000, 96), (0x0064FF9B000100000000000000000000, 48),
      (0x01000000000000000000000000000000, 64), (0x20010000000000000000000000000000, 23),
      (0x20010DB8000000000000000000000000, 32), (0x20020000000000000000000000000000, 16),
      (0x3FFF0000000000000000000000000000, 20), (0xFC000000000000000000000000000000, 7),
      (0xFE800000000000000000000000000000, 10)]"

definition v6_private_exceptions :: "(ipv6 \<times> nat) list" where
  "v6_private_exceptions =
     [(0x20010001000000000000000000000001, 128), (0x20010001000000000000000000000002, 128),
      (0x20010003000000000000000000000000, 32), (0x20010004011200000000000000000000, 48),
      (0x20010020000000000000000000000000, 28), (0x20010030000000000000000000000000, 28)]"

definition v6_reserved :: "(ipv6 \<times> nat) list" where
  "v6_reserved =
     [(0, 8), (0x01000000000000000000000000000000, 8), (0x02000000000000000000000000000000, 7),
      (0x04000000000000000000000000000000, 6), (0x08000000000000000000000000000000, 5),
      (0x10000000000000000000000000000000, 4), (0x40000000000000000000000000000000, 3),
      (0x60000000000000000000000000000000, 3), (0x80000000000000000000000000000000, 3),
      (0xA0000000000000000000000000000000, 3), (0xC0000000000000000000000000000000, 3),
      (0xE0000000000000000000000000000000, 4), (0xF0000000000000000000000000000000, 5),
      (0xF8000000000000000000000000000000, 6), (0xFE000000000000000000000000000000, 9)]"

definition v4_unsafe :: "ipv4 \<Rightarrow> bool" where
  "v4_unsafe w \<longleftrightarrow>
     in_any w v4_private \<and> \<not> in_any w v4_private_exceptions
     \<or> in_net w (0x7F000000, 8) \<or> in_net w (0xA9FE0000, 16) \<or> in_net w (0xE0000000, 4)
     \<or> in_net w (0xF0000000, 4) \<or> w = 0"

definition v6_unsafe :: "ipv6 \<Rightarrow> bool" where
  "v6_unsafe w \<longleftrightarrow>
     (if in_net w (0xFFFF00000000, 96) \<and> v4_unsafe (ucast w) then True
      else in_any w v6_private \<and> \<not> in_any w v6_private_exceptions
        \<or> w = 1 \<or> in_net w (0xFE800000000000000000000000000000, 10)
        \<or> in_net w (0xFF000000000000000000000000000000, 8) \<or> in_any w v6_reserved \<or> w = 0)"

section \<open>The SSRF guard\<close>

text \<open>\<open>_is_unsafe_address\<close>: not an address at all is not unsafe.\<close>

definition is_unsafe_address :: "string \<Rightarrow> bool" where
  "is_unsafe_address address =
     (case ip_address_of address of
        None \<Rightarrow> False | Some (IPv4 w) \<Rightarrow> v4_unsafe w | Some (IPv6 w) \<Rightarrow> v6_unsafe w)"

definition strip_brackets :: "string \<Rightarrow> string" where
  "strip_brackets s =
     (let b = (\<lambda>c. c = CHR ''['' \<or> c = CHR '']'') in rev (dropWhile b (rev (dropWhile b s))))"

definition is_ip_literal_host :: "string \<Rightarrow> bool" where
  "is_ip_literal_host host \<longleftrightarrow> ip_address_of (strip_brackets host) \<noteq> None"

text \<open>\<open>assert_safe_host\<close>: \<open>resolve\<close> is the system resolver, \<open>None\<close> its failure.
  The result is the reason of an \<open>UnsafeHostError\<close>, or nothing.\<close>

definition assert_safe_host :: "(string \<Rightarrow> string list option) \<Rightarrow> string \<Rightarrow> string option" where
  "assert_safe_host resolve host =
     (if is_unsafe_address host then Some ''private/reserved IP address''
      else (case resolve host of
              None \<Rightarrow> Some ''could not resolve''
            | Some addresses \<Rightarrow>
                if list_ex is_unsafe_address addresses then Some ''resolves to a private/reserved IP address''
                else None))"

section \<open>urllib.parse\<close>

record parsed_url =
  pu_scheme :: string
  pu_netloc :: string
  pu_path :: string
  pu_params :: string
  pu_query :: string
  pu_fragment :: string

definition is_alpha :: "char \<Rightarrow> bool" where
  "is_alpha c \<longleftrightarrow> is_upper c \<or> is_lower c"

definition scheme_char :: "char \<Rightarrow> bool" where
  "scheme_char c \<longleftrightarrow> is_alpha c \<or> is_digit c \<or> c \<in> set ''+-.''"

definition split_scheme :: "string \<Rightarrow> string \<times> string" where
  "split_scheme url =
     (case partition1 (CHR '':'') url of
        (lead, found, rest) \<Rightarrow>
          if found \<and> lead \<noteq> [] \<and> is_alpha (hd lead) \<and> list_all scheme_char lead
          then (py_lower lead, rest) else ([], url))"

definition split_netloc :: "string \<Rightarrow> string \<times> string" where
  "split_netloc url =
     (let stop = (\<lambda>c. c \<in> set ''/?#'') in
      if startswith url ''//''
      then (takeWhile (\<lambda>c. \<not> stop c) (drop 2 url), dropWhile (\<lambda>c. \<not> stop c) (drop 2 url))
      else ([], url))"

definition uses_params :: "string list" where
  "uses_params = ['''', ''ftp'', ''hdl'', ''prospero'', ''http'', ''https'', ''shttp'', ''rtsp'', ''rtsps'',
     ''rtspu'', ''sip'', ''sips'', ''mms'', ''sftp'', ''tel'']"

text \<open>\<open>_splitparams\<close>: the parameters of the last path segment.\<close>

definition split_params :: "string \<Rightarrow> string \<times> string" where
  "split_params path =
     (let last_seg = after_last (CHR ''/'') path;
          lead = take (length path - length last_seg) path
      in case partition1 (CHR '';'') last_seg of
           (p, found, ps) \<Rightarrow> if found then (lead @ p, ps) else (path, []))"

text \<open>\<open>_check_bracketed_host\<close>: an IPvFuture literal or an IPv6 address.\<close>

definition bracketed_host_ok :: "string \<Rightarrow> bool" where
  "bracketed_host_ok netloc =
     (let host = fst (partition1 (CHR '']'') (snd (snd (partition1 (CHR ''['') netloc)))) in
      if startswith host ''v''
      then (case partition1 (CHR ''.'') (tl host) of
              (ver, dot, rest) \<Rightarrow> dot \<and> ver \<noteq> [] \<and> rest \<noteq> [] \<and> list_all (\<lambda>c. hex_val c \<noteq> None) ver)
      else (case ip_address_of host of Some (IPv6 _) \<Rightarrow> True | _ \<Rightarrow> False))"

text \<open>\<open>urlparse\<close>; it raises a \<open>ValueError\<close> on a bracket without its partner in the
  authority. White space and control characters at the front and tabs and line ends anywhere are
  dropped first.\<close>

definition urlparse :: "string \<Rightarrow> string + parsed_url" where
  "urlparse raw =
     (let url = filter (\<lambda>c. c \<notin> {CHR 0x09, CHR 0x0A, CHR 0x0D})
            (dropWhile (\<lambda>c. (of_char c :: nat) \<le> 32) raw);
          (scheme, rest) = split_scheme url;
          (netloc, rest) = split_netloc rest
      in
       if (CHR ''['' \<in> set netloc) \<noteq> (CHR '']'' \<in> set netloc) then Inl ''Invalid IPv6 URL''
       else if CHR ''['' \<in> set netloc \<and> \<not> bracketed_host_ok netloc then Inl ''Invalid IPv6 URL''
       else
        (let (rest, _, fragment) = partition1 (CHR ''#'') rest;
             (path, _, query) = partition1 (CHR ''?'') rest;
             (path, params) = (if scheme \<in> set uses_params then split_params path else (path, []))
         in Inr \<lparr>pu_scheme = scheme, pu_netloc = netloc, pu_path = path, pu_params = params,
                 pu_query = query, pu_fragment = fragment\<rparr>))"

text \<open>\<open>_hostinfo\<close>: host and port text of an authority.\<close>

definition hostinfo :: "string \<Rightarrow> string \<times> string" where
  "hostinfo netloc =
     (let info = after_last (CHR ''@'') netloc in
      case partition1 (CHR ''['') info of
        (lead, bracket, inside) \<Rightarrow>
          if bracket
          then (case partition1 (CHR '']'') inside of
                  (host, _, tail) \<Rightarrow> (host, snd (snd (partition1 (CHR '':'') tail))))
          else (case partition1 (CHR '':'') info of (host, _, port) \<Rightarrow> (host, port)))"

text \<open>\<open>hostname\<close>: absent when empty, lower-cased up to a zone id.\<close>

definition hostname :: "parsed_url \<Rightarrow> string option" where
  "hostname u =
     (let h = fst (hostinfo (pu_netloc u)) in
      if h = [] then None
      else (case partition1 (CHR ''%'') h of
              (a, found, z) \<Rightarrow> Some (py_lower a @ (if found then CHR ''%'' # z else []))))"

definition port_of :: "parsed_url \<Rightarrow> string + nat option" where
  "port_of u =
     (let p = snd (hostinfo (pu_netloc u)) in
      if p = [] then Inr None
      else (case read_nat p of
              None \<Rightarrow> Inl ''Port could not be cast to integer value''
            | Some n \<Rightarrow> if n \<le> 65535 then Inr (Some n) else Inl ''Port out of range 0-65535''))"

definition urlunparse :: "parsed_url \<Rightarrow> string" where
  "urlunparse u =
     (let path = (if pu_params u \<noteq> [] then pu_path u @ '';'' @ pu_params u else pu_path u);
          path = (if pu_netloc u \<noteq> []
                  then ''//'' @ pu_netloc u
                       @ (if path \<noteq> [] \<and> hd path \<noteq> CHR ''/'' then ''/'' @ path else path)
                  else path);
          path = (if pu_scheme u \<noteq> [] then pu_scheme u @ '':'' @ path else path);
          path = (if pu_query u \<noteq> [] then path @ ''?'' @ pu_query u else path)
      in if pu_fragment u \<noteq> [] then path @ ''#'' @ pu_fragment u else path)"

subsection \<open>Query strings\<close>

definition hex_digit :: "nat \<Rightarrow> char" where
  "hex_digit n = (if n < 10 then char_of (48 + n) else char_of (55 + n))"

definition quote_safe :: "char \<Rightarrow> bool" where
  "quote_safe c \<longleftrightarrow> is_alpha c \<or> is_digit c \<or> c \<in> set ''_.-~''"

definition quote_char :: "char \<Rightarrow> string" where
  "quote_char c =
     (if quote_safe c then [c]
      else if c = CHR '' '' then ''+''
      else (let n = (of_char c :: nat) in [CHR ''%'', hex_digit (n div 16), hex_digit (n mod 16)]))"

definition quote_plus :: "string \<Rightarrow> string" where
  "quote_plus s = concat (map quote_char s)"

fun unquote_plus :: "string \<Rightarrow> string" where
  "unquote_plus [] = []"
| "unquote_plus (c # cs) =
     (if c = CHR ''+'' then CHR '' '' # unquote_plus cs
      else if c = CHR ''%'' then
        (case cs of
           a # b # rest \<Rightarrow>
             (case (hex_val a, hex_val b) of
                (Some x, Some y) \<Rightarrow> char_of (16 * x + y) # unquote_plus rest
              | _ \<Rightarrow> CHR ''%'' # unquote_plus cs)
         | _ \<Rightarrow> CHR ''%'' # unquote_plus cs)
      else c # unquote_plus cs)"

definition parse_qsl :: "string \<Rightarrow> (string \<times> string) list" where
  "parse_qsl query =
     map (\<lambda>part. case partition1 (CHR ''='') part of (k, _, v) \<Rightarrow> (unquote_plus k, unquote_plus v))
       (filter (\<lambda>part. part \<noteq> []) (py_split_on (CHR ''&'') query))"

definition urlencode :: "(string \<times> string) list \<Rightarrow> string" where
  "urlencode pairs = py_join ''&'' (map (\<lambda>(k, v). quote_plus k @ ''='' @ quote_plus v) pairs)"

subsection \<open>urljoin\<close>

definition uses_relative :: "string list" where
  "uses_relative = ['''', ''ftp'', ''http'', ''gopher'', ''nntp'', ''imap'', ''wais'', ''file'', ''https'',
     ''shttp'', ''mms'', ''prospero'', ''rtsp'', ''rtsps'', ''rtspu'', ''sftp'', ''svn'', ''svn+ssh'',
     ''ws'', ''wss'']"

definition resolve_segment :: "string list \<Rightarrow> string \<Rightarrow> string list" where
  "resolve_segment resolved seg =
     (if seg = ''..'' then butlast resolved else if seg = ''.'' then resolved else resolved @ [seg])"

text \<open>\<open>segments[1:-1] = filter(None, segments[1:-1])\<close>.\<close>

definition drop_empty_inner :: "string list \<Rightarrow> string list" where
  "drop_empty_inner segments =
     (if length segments < 2 then segments
      else hd segments # filter (\<lambda>s. s \<noteq> []) (butlast (tl segments)) @ [last segments])"

definition join_paths :: "string \<Rightarrow> string \<Rightarrow> string" where
  "join_paths bpath path =
     (let base_parts = py_split_on (CHR ''/'') bpath;
          base_parts = (if last base_parts \<noteq> [] then butlast base_parts else base_parts);
          segments =
            (if startswith path ''/'' then py_split_on (CHR ''/'') path
             else drop_empty_inner (base_parts @ py_split_on (CHR ''/'') path));
          resolved = foldl resolve_segment [] segments;
          resolved = (if last segments = ''.'' \<or> last segments = ''..'' then resolved @ [[]] else resolved);
          joined = py_join ''/'' resolved
      in if joined = [] then ''/'' else joined)"

definition urljoin :: "string \<Rightarrow> string \<Rightarrow> string + string" where
  "urljoin base url =
     (if base = [] then Inr url
      else if url = [] then Inr base
      else
       (case (urlparse base, urlparse url) of
          (Inl e, _) \<Rightarrow> Inl e
        | (Inr _, Inl e) \<Rightarrow> Inl e
        | (Inr b, Inr u0) \<Rightarrow>
            (let u = (if pu_scheme u0 = [] then u0\<lparr>pu_scheme := pu_scheme b\<rparr> else u0) in
             if pu_scheme u \<noteq> pu_scheme b \<or> pu_scheme u \<notin> set uses_relative then Inr url
             else if pu_netloc u \<noteq> [] then Inr (urlunparse u)
             else
              (let u = u\<lparr>pu_netloc := pu_netloc b\<rparr> in
               if pu_path u = [] \<and> pu_params u = []
               then Inr (urlunparse (u\<lparr>pu_path := pu_path b, pu_params := pu_params b,
                          pu_query := if pu_query u = [] then pu_query b else pu_query u\<rparr>))
               else Inr (urlunparse (u\<lparr>pu_path := join_paths (pu_path b) (pu_path u)\<rparr>))))))"

section \<open>Normalizing a candidate URL\<close>

datatype url_error = InvalidUrlError string | UrlValueError string

definition tracking_params :: "string list" where
  "tracking_params = [''gclid'', ''fbclid'', ''msclkid'']"

definition strip_tracking_params :: "string \<Rightarrow> string" where
  "strip_tracking_params query =
     urlencode (filter (\<lambda>(key, _). key \<notin> set tracking_params \<and> \<not> startswith (py_lower key) ''utm_'')
       (parse_qsl query))"

definition normalize_url :: "string \<Rightarrow> url_error + string" where
  "normalize_url raw_url =
     (let candidate = py_strip raw_url in
      if candidate = [] then Inl (InvalidUrlError ''URL is empty'')
      else
       (let candidate = (if py_contains ''://'' candidate then candidate else ''https://'' @ candidate) in
        case urlparse candidate of
          Inl e \<Rightarrow> Inl (UrlValueError e)
        | Inr parsed \<Rightarrow>
            (case hostname parsed of
               None \<Rightarrow> Inl (InvalidUrlError ''URL has no hostname'')
             | Some h \<Rightarrow>
                 if pu_scheme parsed \<notin> {''http'', ''https''}
                 then Inl (InvalidUrlError ''Unsupported URL scheme'')
                 else
                  (let host = py_lower h in
                   if is_ip_literal_host host
                   then Inl (InvalidUrlError ''IP address literals are not accepted as a URL host'')
                   else
                    (case port_of parsed of
                       Inl e \<Rightarrow> Inl (UrlValueError e)
                     | Inr port \<Rightarrow>
                         (let default_port = (if pu_scheme parsed = ''https'' then 443 else 80);
                              netloc =
                                (if port = None \<or> port = Some default_port then host
                                 else host @ '':'' @ show_nat (the port));
                              path = (if pu_path parsed = [] then ''/'' else pu_path parsed);
                              path = (if path \<noteq> ''/'' \<and> endswith path ''/''
                                      then py_rstrip (CHR ''/'') path else path)
                          in Inr (urlunparse (parsed\<lparr>pu_netloc := netloc, pu_path := path,
                                    pu_query := strip_tracking_params (pu_query parsed),
                                    pu_fragment := []\<rparr>))))))))"

section \<open>Domains\<close>

definition extract_domain :: "string \<Rightarrow> string + string" where
  "extract_domain url =
     (case urlparse url of
        Inl e \<Rightarrow> Inl e
      | Inr u \<Rightarrow>
          (case hostname u of
             None \<Rightarrow> Inl ''URL has no hostname''
           | Some h \<Rightarrow>
               (let h = py_lower h in
                Inr (if startswith h ''www.'' then drop 4 h else h))))"

text \<open>\<open>DomainVerifier\<close>: the verified domain it is constructed with, and its check.\<close>

definition domain_verifier :: "string \<Rightarrow> string + string" where
  "domain_verifier verified_domain =
     extract_domain (if py_contains ''://'' verified_domain then verified_domain
                     else ''https://'' @ verified_domain)"

definition is_allowed :: "string \<Rightarrow> string \<Rightarrow> bool" where
  "is_allowed verified url \<longleftrightarrow>
     (case extract_domain url of Inl _ \<Rightarrow> False | Inr domain \<Rightarrow> domain = verified)"

definition known_aggregator_domains :: "string list" where
  "known_aggregator_domains =
     [''yelp.com'', ''tripadvisor.com'', ''opentable.com'', ''zomato.com'', ''foursquare.com'',
      ''yellowpages.com'', ''doordash.com'', ''ubereats.com'', ''grubhub.com'', ''postmates.com'',
      ''seamless.com'', ''menufy.com'', ''slicelife.com'', ''chownow.com'', ''toasttab.com'',
      ''google.com'', ''maps.google.com'', ''bing.com'', ''mapquest.com'', ''facebook.com'',
      ''instagram.com'', ''twitter.com'', ''x.com'', ''linkedin.com'', ''tiktok.com'', ''linktr.ee'',
      ''linktree.com'']"

text \<open>The loop over \<open>".".join(parts[i:])\<close> for \<open>i < len(parts) - 1\<close>.\<close>

definition is_known_aggregator :: "string \<Rightarrow> bool" where
  "is_known_aggregator domain =
     (let parts = py_split_on (CHR ''.'') (py_lower domain) in
      list_ex (\<lambda>i. py_join ''.'' (drop i parts) \<in> set known_aggregator_domains)
        [0..<length parts - 1])"

record domain_lock_config =
  dl_verified_domain :: string
  dl_allowed_url :: string

datatype domain_error = DomainRejected string | DomainValueError string

definition validate_official_domain :: "string \<Rightarrow> domain_error + (string \<times> domain_lock_config)" where
  "validate_official_domain raw_url =
     (case normalize_url raw_url of
        Inl (InvalidUrlError e) \<Rightarrow> Inl (DomainRejected e)
      | Inl (UrlValueError e) \<Rightarrow> Inl (DomainValueError e)
      | Inr normalized \<Rightarrow>
          (case extract_domain normalized of
             Inl e \<Rightarrow> Inl (DomainValueError e)
           | Inr domain \<Rightarrow>
               if is_known_aggregator domain
               then Inl (DomainRejected ''is a known aggregator/third-party domain'')
               else if \<not> py_contains ''.'' domain
               then Inl (DomainRejected ''is not a valid public domain'')
               else if is_ip_literal_host domain
               then Inl (DomainRejected ''is an IP address, not a valid public domain'')
               else
                (case domain_verifier domain of
                   Inl e \<Rightarrow> Inl (DomainValueError e)
                 | Inr verified \<Rightarrow>
                     if \<not> is_allowed verified normalized
                     then Inl (DomainRejected ''does not resolve back to domain'')
                     else Inr (normalized, \<lparr>dl_verified_domain = domain, dl_allowed_url = normalized\<rparr>))))"

section \<open>Finding menu pages\<close>

definition menu_keywords :: "string list" where
  "menu_keywords = [''menu'', ''menus'', ''food'', ''dishes'', ''order'', ''nutrition'', ''nutritional'',
     ''allergen'', ''allergens'', ''calorie'', ''calories'']"

definition matches_keyword :: "string \<Rightarrow> bool" where
  "matches_keyword txt = (let lowered = py_lower txt in list_ex (\<lambda>k. py_contains k lowered) menu_keywords)"

text \<open>The loop of \<open>find_menu_page_links\<close> over the links \<open>(href, text)\<close> that the HTML
  parser finds; a base or link that is not a URL raises.\<close>

fun collect_links ::
  "string \<Rightarrow> string \<Rightarrow> nat \<Rightarrow> string list \<Rightarrow> (string \<times> string) list \<Rightarrow> string + string list" where
  "collect_links base_url verified limit matches [] = Inr matches"
| "collect_links base_url verified limit matches ((href, link_text) # links) =
     (if py_strip href = [] \<or> \<not> (matches_keyword href \<or> matches_keyword link_text)
      then collect_links base_url verified limit matches links
      else
       (case urljoin base_url (py_strip href) of
          Inl e \<Rightarrow> Inl e
        | Inr absolute_url \<Rightarrow>
            if \<not> is_allowed verified absolute_url \<or> absolute_url \<in> set matches
            then collect_links base_url verified limit matches links
            else if limit \<le> Suc (length matches) then Inr (matches @ [absolute_url])
            else collect_links base_url verified limit (matches @ [absolute_url]) links))"

definition find_menu_page_links ::
  "(string \<Rightarrow> (string \<times> string) list) \<Rightarrow> string \<Rightarrow> string \<Rightarrow> string \<Rightarrow> nat \<Rightarrow> string + string list" where
  "find_menu_page_links links_of html base_url verified limit =
     collect_links base_url verified limit [] (links_of html)"

section \<open>Splitting and joining\<close>

lemma py_split_on_not_Nil [simp]: "py_split_on c s \<noteq> []"
  by (induction s) (auto split: list.splits)

lemma py_join_Cons: "py_join sep (x # xs) = (if xs = [] then x else x @ sep @ py_join sep xs)"
  by (cases xs) auto

lemma py_join_split_on [simp, py_simps]: "py_join [c] (py_split_on c s) = s"
proof (induction s)
  case Nil
  then show ?case by simp
next
  case (Cons a s)
  then show ?case
    by (cases "py_split_on c s") (auto simp: py_join_Cons split: list.splits)
qed

lemma py_split_on_append: "c \<notin> set w \<Longrightarrow> py_split_on c (w @ c # s) = w # py_split_on c s"
  by (induction w) (auto split: list.splits)

lemma py_split_on_plain: "c \<notin> set w \<Longrightarrow> py_split_on c w = [w]"
  by (induction w) (auto split: list.splits)

lemma parts_plain: "p \<in> set (py_split_on c s) \<Longrightarrow> c \<notin> set p"
  by (induction s arbitrary: p) (auto split: list.splits if_splits)

text \<open>The suffixes of a string that start after a separator.\<close>

lemma join_drop_split:
  "(\<exists>i < length (py_split_on c s). t = py_join [c] (drop i (py_split_on c s)))
     \<longleftrightarrow> t = s \<or> (\<exists>u. s = u @ c # t)"
proof (induction "length s" arbitrary: s rule: less_induct)
  case less
  show ?case
  proof (cases "c \<in> set s")
    case False
    then show ?thesis by (auto simp: py_split_on_plain)
  next
    case True
    then obtain w r where w: "s = w @ c # r" "c \<notin> set w" by (meson split_list_first)
    have sp: "py_split_on c s = w # py_split_on c r" by (simp add: w py_split_on_append)
    have "(\<exists>i < length (py_split_on c s). t = py_join [c] (drop i (py_split_on c s)))
        \<longleftrightarrow> t = s \<or> (\<exists>i < length (py_split_on c r). t = py_join [c] (drop i (py_split_on c r)))"
      (is "?l \<longleftrightarrow> ?r")
    proof
      assume ?l
      then obtain i where i: "i < length (py_split_on c s)" "t = py_join [c] (drop i (py_split_on c s))" by blast
      then show ?r
      proof (cases i)
        case 0
        then show ?thesis using i by simp
      next
        case (Suc j)
        then show ?thesis using i sp by auto
      qed
    next
      assume r: ?r
      show ?l
      proof (cases "t = s")
        case True
        then show ?thesis by (intro exI [of _ 0]) simp
      next
        case False
        with r obtain j where "j < length (py_split_on c r)" "t = py_join [c] (drop j (py_split_on c r))" by blast
        then show ?thesis by (intro exI [of _ "Suc j"]) (simp add: sp)
      qed
    qed
    also have "\<dots> \<longleftrightarrow> t = s \<or> t = r \<or> (\<exists>u. r = u @ c # t)"
      using less [of r] by (simp add: w)
    also have "\<dots> \<longleftrightarrow> t = s \<or> (\<exists>u. s = u @ c # t)"
    proof -
      have "(\<exists>u. s = u @ c # t) \<longleftrightarrow> t = r \<or> (\<exists>u. r = u @ c # t)"
      proof
        assume "\<exists>u. s = u @ c # t"
        then obtain u where u: "w @ c # r = u @ c # t" using w by auto
        then show "t = r \<or> (\<exists>u. r = u @ c # t)"
          using w(2) by (auto simp: append_eq_append_conv2 append_eq_Cons_conv Cons_eq_append_conv)
      next
        assume "t = r \<or> (\<exists>u. r = u @ c # t)"
        then show "\<exists>u. s = u @ c # t" unfolding w(1) by (metis append.assoc append_Cons)
      qed
      then show ?thesis by blast
    qed
    finally show ?thesis .
  qed
qed

lemma last_part_plain: "i = length (py_split_on c s) - 1 \<Longrightarrow> c \<notin> set (py_join [c] (drop i (py_split_on c s)))"
proof -
  assume i: "i = length (py_split_on c s) - 1"
  have "drop i (py_split_on c s) = [last (py_split_on c s)]"
    unfolding i by (metis append_butlast_last_id append_eq_conv_conj length_butlast py_split_on_not_Nil)
  then show ?thesis using parts_plain [of "last (py_split_on c s)" c s] by simp
qed

lemma known_have_dot: "a \<in> set known_aggregator_domains \<Longrightarrow> CHR ''.'' \<in> set a"
  by (auto simp: known_aggregator_domains_def)

lemma is_known_aggregator_iff:
  "is_known_aggregator domain \<longleftrightarrow>
     (\<exists>a \<in> set known_aggregator_domains. py_lower domain = a \<or> endswith (py_lower domain) (''.'' @ a))"
proof -
  let ?P = "py_split_on (CHR ''.'') (py_lower domain)"
  have "is_known_aggregator domain \<longleftrightarrow>
      (\<exists>a \<in> set known_aggregator_domains. \<exists>i < length ?P - 1. a = py_join ''.'' (drop i ?P))"
    unfolding is_known_aggregator_def list_ex_iff Let_def set_upt atLeastLessThan_iff Bex_def by blast
  also have "\<dots> \<longleftrightarrow> (\<exists>a \<in> set known_aggregator_domains. \<exists>i < length ?P. a = py_join ''.'' (drop i ?P))"
  proof (intro bex_cong refl iffI)
    fix a assume a: "a \<in> set known_aggregator_domains" "\<exists>i < length ?P. a = py_join ''.'' (drop i ?P)"
    then obtain i where i: "i < length ?P" "a = py_join ''.'' (drop i ?P)" by blast
    have "i \<noteq> length ?P - 1" using last_part_plain known_have_dot [OF a(1)] i(2) by metis
    then show "\<exists>i < length ?P - 1. a = py_join ''.'' (drop i ?P)" using i by (intro exI [of _ i]) auto
  next
    fix a assume "\<exists>i < length ?P - 1. a = py_join ''.'' (drop i ?P)"
    then obtain i where "i < length ?P - 1" "a = py_join ''.'' (drop i ?P)" by blast
    then show "\<exists>i < length ?P. a = py_join ''.'' (drop i ?P)" by (intro exI [of _ i]) simp
  qed
  also have "\<dots> \<longleftrightarrow> (\<exists>a \<in> set known_aggregator_domains. py_lower domain = a \<or> endswith (py_lower domain) (''.'' @ a))"
    unfolding join_drop_split endswith_def suffix_def by auto
  finally show ?thesis .
qed
section \<open>Addresses\<close>

lemma in_net_iff:
  fixes w net :: "'a :: len word"
  shows "in_net w (net, n) \<longleftrightarrow> unat w div 2 ^ (LENGTH('a) - n) = unat net div 2 ^ (LENGTH('a) - n)"
  unfolding in_net_def prod.case word_unat_eq_iff unat_drop_bit_eq by (simp add: drop_bit_eq_div)

text \<open>The address of four octets.\<close>

definition quad :: "nat \<Rightarrow> nat \<Rightarrow> nat \<Rightarrow> nat \<Rightarrow> nat" where
  "quad a b c d = ((a * 256 + b) * 256 + c) * 256 + d"

lemma digits_eq: "b < B \<Longrightarrow> a * B + b = K \<longleftrightarrow> a = K div B \<and> b = K mod B" for a b B K :: nat
  by auto

lemma quad_eq:
  assumes "b < 256" "c < 256" "d < 256"
  shows "quad a b c d = K \<longleftrightarrow>
     a = K div 256 div 256 div 256 \<and> b = K div 256 div 256 mod 256 \<and> c = K div 256 mod 256 \<and> d = K mod 256"
  unfolding quad_def digits_eq [OF assms(3)] digits_eq [OF assms(2)] digits_eq [OF assms(1)] by blast

lemma quad_less:
  assumes "a < 256" "b < 256" "c < 256" "d < 256"
  shows "quad a b c d < 2 ^ 32"
  using assms by (simp add: quad_def)

lemma unat_quad:
  assumes "a < 256" "b < 256" "c < 256" "d < 256"
  shows "unat (word_of_nat (quad a b c d) :: ipv4) = quad a b c d"
  using quad_less [OF assms] by (simp add: unsigned_of_nat take_bit_nat_eq_self)

lemma quad_div:
  assumes "b < 256" "c < 256" "d < 256"
  shows "quad a b c d div 16777216 = a" "quad a b c d div 65536 = a * 256 + b"
    "quad a b c d div 256 = (a * 256 + b) * 256 + c"
  using assms by (simp_all add: quad_def)

definition unsafe_quad :: "nat \<Rightarrow> nat \<Rightarrow> nat \<Rightarrow> nat \<Rightarrow> bool" where
  "unsafe_quad a b c d \<longleftrightarrow>
     a = 0 \<or> a = 10 \<or> a = 127 \<or> 224 \<le> a
     \<or> a = 169 \<and> b = 254
     \<or> a = 172 \<and> 16 \<le> b \<and> b \<le> 31
     \<or> a = 192 \<and> b = 168
     \<or> a = 192 \<and> b = 0 \<and> c = 0 \<and> d \<noteq> 9 \<and> d \<noteq> 10
     \<or> a = 192 \<and> b = 0 \<and> c = 2
     \<or> a = 198 \<and> (b = 18 \<or> b = 19)
     \<or> a = 198 \<and> b = 51 \<and> c = 100
     \<or> a = 203 \<and> b = 0 \<and> c = 113"

lemma v4_unsafe_quad:
  assumes "a < 256" "b < 256" "c < 256" "d < 256"
  shows "v4_unsafe (word_of_nat (quad a b c d)) \<longleftrightarrow> unsafe_quad a b c d"
proof -
  have tri: "(a * 256 + b) * 256 + c = K \<longleftrightarrow> a = K div 256 div 256 \<and> b = K div 256 mod 256 \<and> c = K mod 256" for K
    unfolding digits_eq [OF assms(3)] digits_eq [OF assms(2)] by blast
  have half: "a * 16 + b div 16 = 2753 \<longleftrightarrow> a = 172 \<and> 16 \<le> b \<and> b \<le> 31"
  proof -
    have "b div 16 < 16" using assms(2) by simp
    then have "a * 16 + b div 16 = 2753 \<longleftrightarrow> a = 172 \<and> b div 16 = 1" by (simp add: digits_eq)
    moreover have "b div 16 = 1 \<longleftrightarrow> 16 \<le> b \<and> b \<le> 31" by presburger
    ultimately show ?thesis by simp
  qed
  have half2: "a * 128 + b div 2 = 25353 \<longleftrightarrow> a = 198 \<and> (b = 18 \<or> b = 19)"
  proof -
    have "b div 2 < 128" using assms(2) by simp
    then have "a * 128 + b div 2 = 25353 \<longleftrightarrow> a = 198 \<and> b div 2 = 9" by (simp add: digits_eq)
    moreover have "b div 2 = 9 \<longleftrightarrow> b = 18 \<or> b = 19" by presburger
    ultimately show ?thesis by simp
  qed
  have top: "a div 16 = 15 \<longleftrightarrow> 240 \<le> a" "a div 16 = 14 \<longleftrightarrow> 224 \<le> a \<and> a < 240"
    using assms(1) by (auto simp: div_nat_eqI)
  have two: "quad a b c d div 2 = 1610612821 \<longleftrightarrow> a = 192 \<and> b = 0 \<and> c = 0 \<and> (d = 170 \<or> d = 171)"
  proof -
    have "quad a b c d div 2 = 1610612821 \<longleftrightarrow> quad a b c d = 3221225642 \<or> quad a b c d = 3221225643"
      by presburger
    then show ?thesis unfolding quad_eq [OF assms(2-4)] by auto
  qed
  have d': "quad a b c d div 16777216 = a" "quad a b c d div 65536 = a * 256 + b"
    "quad a b c d div 256 = (a * 256 + b) * 256 + c"
    "quad a b c d div 1048576 = a * 16 + b div 16"
    "quad a b c d div 268435456 = a div 16"
    "quad a b c d div 131072 = a * 128 + b div 2"
    using assms by (auto simp: quad_def)
  have "v4_unsafe (word_of_nat (quad a b c d)) \<longleftrightarrow>
      ((a = 0 \<or> a = 10 \<or> a = 127 \<or> a * 256 + b = 43518 \<or> a * 16 + b div 16 = 2753
        \<or> (a * 256 + b) * 256 + c = 12582912 \<or> quad a b c d div 2 = 1610612821
        \<or> (a * 256 + b) * 256 + c = 12582914 \<or> a * 256 + b = 49320 \<or> a * 128 + b div 2 = 25353
        \<or> (a * 256 + b) * 256 + c = 12989284 \<or> (a * 256 + b) * 256 + c = 13303921
        \<or> a div 16 = 15 \<or> quad a b c d = 4294967295)
       \<and> quad a b c d \<noteq> 3221225481 \<and> quad a b c d \<noteq> 3221225482
       \<or> a = 127 \<or> a * 256 + b = 43518 \<or> a div 16 = 14 \<or> a div 16 = 15 \<or> quad a b c d = 0)"
    using assms
    by (simp add: v4_unsafe_def v4_private_def v4_private_exceptions_def in_any_def in_net_iff
        unat_quad [OF assms] word_unat_eq_iff d' del: distrib_right_numeral distrib_left_numeral)
  also have "\<dots> \<longleftrightarrow> unsafe_quad a b c d"
  proof -
    consider "a = 192" | "a \<noteq> 192" "240 \<le> a" | "a \<noteq> 192" "224 \<le> a" "a < 240"
      | "a \<noteq> 192" "a < 224" "a \<noteq> 255" by linarith
    then show ?thesis
    proof cases
      case 1
      then show ?thesis
        unfolding half half2 top tri two quad_eq [OF assms(2-4)] digits_eq [OF assms(2)] unsafe_quad_def
        by auto
    next
      case 2
      then show ?thesis unfolding top unsafe_quad_def by simp
    next
      case 3
      then show ?thesis unfolding top unsafe_quad_def by simp
    next
      case 4
      then show ?thesis
        unfolding half half2 top tri two quad_eq [OF assms(2-4)] digits_eq [OF assms(2)] unsafe_quad_def
        by simp blast
    qed
  qed
  finally show ?thesis .
qed

text \<open>Decimal rendering of an octet, and reading it back.\<close>

lemma parse_octet_show: "n < 256 \<Longrightarrow> parse_octet (show_nat n) = Some n"
proof -
  assume n: "n < 256"
  have len: "length (show_nat n) \<le> 3 \<and> (length (show_nat n) \<le> 1 \<or> hd (show_nat n) \<noteq> CHR ''0'')"
  proof -
    have d: "digit_char k \<noteq> CHR ''0''" if "0 < k" "k < 10" for k
    proof -
      have "digit_char k = CHR ''0'' \<longleftrightarrow> digit_val (digit_char k) = 0"
        using that digit_val_digit_char [of k] by (auto simp: digit_val_def)
      then show ?thesis using that by simp
    qed
    consider "n < 10" | "10 \<le> n" "n < 100" | "100 \<le> n" by linarith
    then show ?thesis
    proof cases
      case 1
      then show ?thesis by (subst (1 2 3) show_nat.simps) simp
    next
      case 2
      then have "show_nat n = [digit_char (n div 10), digit_char (n mod 10)]"
        by (subst show_nat.simps, subst show_nat.simps) simp
      moreover have "0 < n div 10" "n div 10 < 10" using 2 by auto
      ultimately show ?thesis by (simp add: d)
    next
      case 3
      then have q: "\<not> n div 10 < 10" "n div 10 div 10 < 10" "0 < n div 10 div 10" using n by auto
      then have "show_nat n = [digit_char (n div 10 div 10), digit_char (n div 10 mod 10), digit_char (n mod 10)]"
        using 3 by (subst show_nat.simps, subst show_nat.simps, subst show_nat.simps) simp
      then show ?thesis using q by (simp add: d)
    qed
  qed
  then show ?thesis using n by (simp add: parse_octet_def)
qed

definition dotted :: "nat \<Rightarrow> nat \<Rightarrow> nat \<Rightarrow> nat \<Rightarrow> string" where
  "dotted a b c d = py_join ''.'' [show_nat a, show_nat b, show_nat c, show_nat d]"

lemma show_nat_plain: "\<not> is_digit ch \<Longrightarrow> ch \<notin> set (show_nat n)"
  using show_nat_digits [of n] by (auto simp: list_all_iff)

lemma parse_ipv4_dotted:
  assumes "a < 256" "b < 256" "c < 256" "d < 256"
  shows "parse_ipv4 (dotted a b c d) = Some (word_of_nat (quad a b c d))"
proof -
  have p: "CHR ''.'' \<notin> set (show_nat k)" for k
    by (rule show_nat_plain) (simp add: is_digit_def)
  have "py_split_on (CHR ''.'') (dotted a b c d) = [show_nat a, show_nat b, show_nat c, show_nat d]"
    by (simp add: dotted_def py_split_on_append py_split_on_plain p)
  then show ?thesis
    unfolding parse_ipv4_def using assms by (simp add: parse_octet_show quad_def)
qed

lemma is_unsafe_dotted:
  assumes "a < 256" "b < 256" "c < 256" "d < 256"
  shows "is_unsafe_address (dotted a b c d) \<longleftrightarrow> unsafe_quad a b c d"
  using assms by (simp add: is_unsafe_address_def ip_address_of_def parse_ipv4_dotted v4_unsafe_quad)

text \<open>The SSRF guard is exact on IPv4: for a host that is not itself an address and resolves to the
  addresses \<open>quads\<close>, \<open>assert_safe_host\<close> lets it through exactly when none of them lies
  in a private, loopback, link-local, multicast, reserved or documentation range, the ranges
  written out by octet. This goes through the decimal parser and the 32-bit prefix tests.\<close>

theorem safe_host_ipv4_exact:
  assumes "\<forall>(a, b, c, d) \<in> set quads. a < 256 \<and> b < 256 \<and> c < 256 \<and> d < 256"
    and "resolve host = Some (map (\<lambda>(a, b, c, d). dotted a b c d) quads)"
    and "ip_address_of host = None"
  shows "assert_safe_host resolve host = None \<longleftrightarrow> \<not> (\<exists>(a, b, c, d) \<in> set quads. unsafe_quad a b c d)"
proof -
  have "\<not> is_unsafe_address host" using assms(3) by (simp add: is_unsafe_address_def)
  moreover have "list_ex is_unsafe_address (map (\<lambda>(a, b, c, d). dotted a b c d) quads)
      \<longleftrightarrow> (\<exists>(a, b, c, d) \<in> set quads. unsafe_quad a b c d)"
  proof -
    have "list_ex is_unsafe_address (map (\<lambda>(a, b, c, d). dotted a b c d) quads)
        \<longleftrightarrow> (\<exists>q \<in> set quads. is_unsafe_address (case q of (a, b, c, d) \<Rightarrow> dotted a b c d))"
      by (simp add: list_ex_iff)
    also have "\<dots> \<longleftrightarrow> (\<exists>(a, b, c, d) \<in> set quads. unsafe_quad a b c d)"
    proof (rule bex_cong [OF refl])
      fix q assume "q \<in> set quads"
      with assms(1) have "case q of (a, b, c, d) \<Rightarrow> a < 256 \<and> b < 256 \<and> c < 256 \<and> d < 256" by (rule bspec)
      then show "is_unsafe_address (case q of (a, b, c, d) \<Rightarrow> dotted a b c d)
          \<longleftrightarrow> (case q of (a, b, c, d) \<Rightarrow> unsafe_quad a b c d)"
        by (cases q) (simp add: is_unsafe_dotted)
    qed
    finally show ?thesis .
  qed
  ultimately show ?thesis
    using assms(2) by (simp add: assert_safe_host_def)
qed

theorem safe_host_ipv4_exact_witness:
  "assert_safe_host (\<lambda>_. Some [dotted 93 184 216 34, dotted 172 31 0 1]) ''joes.example'' \<noteq> None
   \<and> assert_safe_host (\<lambda>_. Some [dotted 93 184 216 34, dotted 172 32 0 1]) ''joes.example'' = None"
proof -
  have h: "ip_address_of ''joes.example'' = None" by code_simp
  show ?thesis
    using safe_host_ipv4_exact [of "[(93, 184, 216, 34), (172, 31, 0, 1)]"
        "\<lambda>_. Some [dotted 93 184 216 34, dotted 172 31 0 1]" "''joes.example''"]
      safe_host_ipv4_exact [of "[(93, 184, 216, 34), (172, 32, 0, 1)]"
        "\<lambda>_. Some [dotted 93 184 216 34, dotted 172 32 0 1]" "''joes.example''"] h
    by (simp add: unsafe_quad_def)
qed
section \<open>Properties\<close>

text \<open>C32: A domain accepted by \<open>validate_official_domain\<close> is a fixed point of the whole source
  boundary: the lock it yields is read back unchanged by the verifier that later stages build from
  it, that verifier admits the accepted URL, and the domain has a dot, is no address, and is
  neither a known aggregator nor below one.\<close>

theorem accepted_domain_locks_itself:
  assumes "validate_official_domain raw = Inr (normalized, lock)"
  shows "dl_allowed_url lock = normalized \<and> normalize_url raw = Inr normalized
    \<and> extract_domain normalized = Inr (dl_verified_domain lock)
    \<and> domain_verifier (dl_verified_domain lock) = Inr (dl_verified_domain lock)
    \<and> is_allowed (dl_verified_domain lock) normalized
    \<and> py_contains ''.'' (dl_verified_domain lock)
    \<and> \<not> is_ip_literal_host (dl_verified_domain lock)
    \<and> \<not> (\<exists>a \<in> set known_aggregator_domains. py_lower (dl_verified_domain lock) = a
          \<or> endswith (py_lower (dl_verified_domain lock)) (''.'' @ a))"
  using assms unfolding validate_official_domain_def is_known_aggregator_iff [symmetric]
  by (auto simp: is_allowed_def split: sum.splits url_error.splits if_splits)

theorem accepted_domain_locks_itself_witness:
  "domain_verifier ''joes-diner.example'' = Inr ''joes-diner.example''"
proof -
  have "validate_official_domain ''WWW.Joes-Diner.example/menu/?utm_source=x&a=1#top'' =
      Inr (''https://www.joes-diner.example/menu?a=1'',
        \<lparr>dl_verified_domain = ''joes-diner.example'',
         dl_allowed_url = ''https://www.joes-diner.example/menu?a=1''\<rparr>)"
    by code_simp
  from accepted_domain_locks_itself [OF this] show ?thesis by simp
qed

definition menu_link :: "string \<Rightarrow> string \<Rightarrow> (string \<times> string) \<Rightarrow> string \<Rightarrow> bool" where
  "menu_link base_url verified l u \<longleftrightarrow>
     py_strip (fst l) \<noteq> [] \<and> (matches_keyword (fst l) \<or> matches_keyword (snd l))
     \<and> urljoin base_url (py_strip (fst l)) = Inr u \<and> is_allowed verified u"

lemma collect_links_spec:
  assumes "collect_links base_url verified limit ms links = Inr res"
    and "distinct ms" "ms = [] \<or> length ms < limit"
  shows "distinct res \<and> length res \<le> max 1 limit \<and> set ms \<subseteq> set res
    \<and> (\<forall>u \<in> set res - set ms. \<exists>l \<in> set links. menu_link base_url verified l u)
    \<and> (length res < limit \<longrightarrow> (\<forall>l \<in> set links. \<forall>u. menu_link base_url verified l u \<longrightarrow> u \<in> set res))"
  using assms
proof (induction links arbitrary: ms)
  case Nil
  then show ?case by auto
next
  case (Cons l links)
  obtain href link_text where l: "l = (href, link_text)" by (cases l)
  show ?case
  proof (cases "py_strip href = [] \<or> \<not> (matches_keyword href \<or> matches_keyword link_text)")
    case True
    then have "collect_links base_url verified limit ms links = Inr res" using Cons.prems(1) l by auto
    from Cons.IH [OF this Cons.prems(2,3)] show ?thesis using True by (auto simp: menu_link_def l)
  next
    case False
    then obtain u where u: "urljoin base_url (py_strip href) = Inr u"
      using Cons.prems(1) l by (auto split: sum.splits)
    show ?thesis
    proof (cases "\<not> is_allowed verified u \<or> u \<in> set ms")
      case True
      then have "collect_links base_url verified limit ms links = Inr res"
        using Cons.prems(1) False u l by auto
      from Cons.IH [OF this Cons.prems(2,3)] show ?thesis using True u by (auto simp: menu_link_def l)
    next
      case fresh: False
      have ml: "menu_link base_url verified l u"
        using False fresh u by (auto simp: menu_link_def l)
      show ?thesis
      proof (cases "limit \<le> Suc (length ms)")
        case True
        then have "res = ms @ [u]" using Cons.prems(1) False fresh u l by auto
        then show ?thesis using True fresh ml Cons.prems(2,3) by auto
      next
        case roomy: False
        have rec: "collect_links base_url verified limit (ms @ [u]) links = Inr res"
          using Cons.prems(1) False fresh u roomy l by auto
        have "distinct (ms @ [u])" "ms @ [u] = [] \<or> length (ms @ [u]) < limit"
          using fresh roomy Cons.prems(2) by auto
        from Cons.IH [OF rec this] show ?thesis
          using ml u by (auto simp: menu_link_def l)
      qed
    qed
  qed
qed

lemma menu_links_bounded:
  assumes "find_menu_page_links links_of html base_url verified limit = Inr urls"
  shows "length urls \<le> max 1 limit \<and> (\<forall>u \<in> set urls. is_allowed verified u)"
proof -
  have "distinct urls \<and> length urls \<le> max 1 limit \<and> set [] \<subseteq> set urls
    \<and> (\<forall>u \<in> set urls - set []. \<exists>l \<in> set (links_of html). menu_link base_url verified l u)
    \<and> (length urls < limit \<longrightarrow>
        (\<forall>l \<in> set (links_of html). \<forall>u. menu_link base_url verified l u \<longrightarrow> u \<in> set urls))"
    by (rule collect_links_spec [OF assms [unfolded find_menu_page_links_def]]) simp_all
  then show ?thesis by (auto simp: menu_link_def)
qed

text \<open>C33: The menu links found on a page are distinct, at most the limit, all on the verified domain,
  each coming from a link that mentions a menu keyword; and when the limit is not reached, no such
  link of the page is missed.\<close>

theorem menu_links_bounded_and_locked:
  assumes "find_menu_page_links links_of html base_url verified limit = Inr urls"
  shows "distinct urls \<and> length urls \<le> max 1 limit
    \<and> (\<forall>u \<in> set urls. is_allowed verified u)
    \<and> (\<forall>u \<in> set urls. \<exists>l \<in> set (links_of html). menu_link base_url verified l u)
    \<and> (length urls < limit \<longrightarrow>
        (\<forall>l \<in> set (links_of html). \<forall>u. menu_link base_url verified l u \<longrightarrow> u \<in> set urls))"
proof -
  have "distinct urls \<and> length urls \<le> max 1 limit \<and> set [] \<subseteq> set urls
    \<and> (\<forall>u \<in> set urls - set []. \<exists>l \<in> set (links_of html). menu_link base_url verified l u)
    \<and> (length urls < limit \<longrightarrow>
        (\<forall>l \<in> set (links_of html). \<forall>u. menu_link base_url verified l u \<longrightarrow> u \<in> set urls))"
    by (rule collect_links_spec [OF assms [unfolded find_menu_page_links_def]]) simp_all
  then show ?thesis by (auto simp: menu_link_def)
qed

theorem menu_links_bounded_and_locked_witness:
  "is_allowed ''joes.example'' ''https://www.joes.example/a/b''"
proof -
  have "find_menu_page_links
      (\<lambda>_. [(''/menu'', ''Menu''), (''http://x.com/menu'', ''''), (''about'', ''us''), (''b'', ''Our FOOD'')])
      ''html'' ''https://www.joes.example/a/c'' ''joes.example'' 5
    = Inr [''https://www.joes.example/menu'', ''https://www.joes.example/a/b'']"
    by code_simp
  from menu_links_bounded_and_locked [OF this] show ?thesis by simp
qed

section \<open>Concrete behaviour\<close>

text \<open>Normalization is not idempotent on a path of slashes, and a port that is not a number escapes
  the error type the callers catch; carrier-grade NAT addresses pass the guard.\<close>

lemma normalize_url_not_idempotent:
  "normalize_url ''https://Joe.example:443//'' = Inr ''https://joe.example''"
  "normalize_url ''https://joe.example'' = Inr ''https://joe.example/''"
  by code_simp+

lemma bad_port_escapes:
  "validate_official_domain ''joe.example:http''
     = Inl (DomainValueError ''Port could not be cast to integer value'')"
  by code_simp

lemma cgnat_not_unsafe: "\<not> is_unsafe_address ''100.64.0.1''"
  by code_simp

end
