(* ===== verification/SourceAuthority.thy ===== *)
theory SourceAuthority
  imports Catalog Url
begin

text \<open>
  Resolving a restaurant's official website:
  \<open>src/apps/api/app/services/source_authority_service.py\<close>, its manual counterpart
  \<open>manual_source_verification.py\<close> and the two providers of
  \<open>src/infrastructure/source_authority/\<close>. The provider is an argument; a scored candidate list is
  ranked, the first candidate that the domain checks accept decides, and only a confident one is
  written.
\<close>

section \<open>Vocabulary\<close>

datatype resolution_status = RS_VERIFIED | RS_NEEDS_REVIEW | RS_NOT_FOUND | RS_REJECTED

fun resolution_status_value :: "resolution_status \<Rightarrow> string" where
  "resolution_status_value RS_VERIFIED = ''verified''"
| "resolution_status_value RS_NEEDS_REVIEW = ''needs_review''"
| "resolution_status_value RS_NOT_FOUND = ''not_found''"
| "resolution_status_value RS_REJECTED = ''rejected''"

datatype confidence_level = HIGH | MEDIUM | LOW

record entity_query =
  eq_restaurant_id :: uuid
  eq_name :: string
  eq_city :: "string option"
  eq_state :: "string option"
  eq_country :: "string option"
  eq_phone :: "string option"

record entity_candidate =
  ec_url :: string
  ec_provider_confidence :: rat
  ec_provider_name :: string

record authority_result =
  sr_restaurant_id :: uuid
  sr_status :: resolution_status
  sr_confidence :: "confidence_level option"
  sr_resolved_url :: "string option"
  sr_rejected_candidates :: "string list"
  sr_reason :: "string option"
  sr_source_id :: "uuid option"

type_synonym provider = "entity_query \<Rightarrow> entity_candidate list"

section \<open>Providers\<close>

definition null_provider :: provider where
  "null_provider query = []"

definition manual_provider :: "string \<Rightarrow> provider" where
  "manual_provider url query =
     [\<lparr>ec_url = url, ec_provider_confidence = 1, ec_provider_name = ''manual''\<rparr>]"

section \<open>The service\<close>

definition auto_verify_confidence_threshold :: rat where "auto_verify_confidence_threshold = 75 / 100"
definition medium_confidence_threshold :: rat where "medium_confidence_threshold = 5 / 10"

definition confidence_of :: "rat \<Rightarrow> confidence_level" where
  "confidence_of score =
     (if auto_verify_confidence_threshold \<le> score then HIGH
      else if medium_confidence_threshold \<le> score then MEDIUM
      else LOW)"

text \<open>\<open>_try_accept\<close>: a rejected domain is \<open>None\<close>; any other error escapes.\<close>

definition try_accept :: "entity_candidate \<Rightarrow> exn + (string \<times> confidence_level) option" where
  "try_accept candidate =
     (case validate_official_domain (ec_url candidate) of
        Inl (DomainRejected _) \<Rightarrow> Inr None
      | Inl (DomainValueError e) \<Rightarrow> Inl (OtherError [Txt e])
      | Inr (normalized_url, _) \<Rightarrow>
          Inr (Some (normalized_url, confidence_of (ec_provider_confidence candidate))))"

definition finalize ::
  "entity_query \<Rightarrow> string \<Rightarrow> confidence_level \<Rightarrow> string list \<Rightarrow> db \<Rightarrow> exn + authority_result \<times> db" where
  "finalize query normalized_url confidence rejected s =
     (if confidence = HIGH
      then
       (case create_source (eq_restaurant_id query) RESTAURANT_WEBSITE normalized_url True s of
          Inl e \<Rightarrow> Inl e
        | Inr (record, s') \<Rightarrow>
            Inr (\<lparr>sr_restaurant_id = eq_restaurant_id query, sr_status = RS_VERIFIED,
                  sr_confidence = Some confidence, sr_resolved_url = Some normalized_url,
                  sr_rejected_candidates = rejected, sr_reason = None,
                  sr_source_id = Some (so_id record)\<rparr>, s'))
      else
        Inr (\<lparr>sr_restaurant_id = eq_restaurant_id query, sr_status = RS_NEEDS_REVIEW,
              sr_confidence = Some confidence, sr_resolved_url = Some normalized_url,
              sr_rejected_candidates = rejected,
              sr_reason = Some ''Best candidate is below the auto-verify confidence threshold'',
              sr_source_id = None\<rparr>, s))"

text \<open>\<open>sorted(candidates, key=..., reverse=True)\<close> keeps the order of equal scores.\<close>

definition ranked :: "entity_candidate list \<Rightarrow> entity_candidate list" where
  "ranked candidates = sort_key (\<lambda>c. - ec_provider_confidence c) candidates"

fun try_candidates ::
  "entity_query \<Rightarrow> entity_candidate list \<Rightarrow> string list \<Rightarrow> db \<Rightarrow> exn + authority_result \<times> db" where
  "try_candidates query [] rejected s =
     Inr (\<lparr>sr_restaurant_id = eq_restaurant_id query, sr_status = RS_REJECTED, sr_confidence = None,
           sr_resolved_url = None, sr_rejected_candidates = rejected,
           sr_reason = Some ''All candidates were rejected (aggregator or invalid domain)'',
           sr_source_id = None\<rparr>, s)"
| "try_candidates query (candidate # rest) rejected s =
     (case try_accept candidate of
        Inl e \<Rightarrow> Inl e
      | Inr None \<Rightarrow> try_candidates query rest (rejected @ [ec_url candidate]) s
      | Inr (Some (normalized_url, confidence)) \<Rightarrow> finalize query normalized_url confidence rejected s)"

definition resolve_official_website :: "provider \<Rightarrow> entity_query \<Rightarrow> db \<Rightarrow> exn + authority_result \<times> db" where
  "resolve_official_website resolve query s =
     (let candidates = resolve query in
      if candidates = []
      then Inr (\<lparr>sr_restaurant_id = eq_restaurant_id query, sr_status = RS_NOT_FOUND,
                 sr_confidence = None, sr_resolved_url = None, sr_rejected_candidates = [],
                 sr_reason = Some ''Provider returned no candidates'', sr_source_id = None\<rparr>, s)
      else try_candidates query (ranked candidates) [] s)"

section \<open>The manual path\<close>

datatype manual_error = ManualSourceRejected string | ManualOther exn

definition verify_and_persist_manual_source :: "uuid \<Rightarrow> string \<Rightarrow> db \<Rightarrow> manual_error + source \<times> db" where
  "verify_and_persist_manual_source restaurant_id raw_url s =
     (case validate_official_domain raw_url of
        Inl (DomainRejected e) \<Rightarrow> Inl (ManualSourceRejected e)
      | Inl (DomainValueError e) \<Rightarrow> Inl (ManualOther (OtherError [Txt e]))
      | Inr (normalized_url, _) \<Rightarrow>
          (case create_source restaurant_id RESTAURANT_WEBSITE normalized_url True s of
             Inl e \<Rightarrow> Inl (ManualOther e)
           | Inr r \<Rightarrow> Inr r))"

section \<open>What resolution decides\<close>

definition rejects :: "entity_candidate \<Rightarrow> bool" where
  "rejects c \<longleftrightarrow> try_accept c = Inr None"

lemma finalize_Inr:
  "finalize query u conf rejected s = Inr (res, s') \<longleftrightarrow>
     (if conf = HIGH
      then length u \<le> 2048
        \<and> res = \<lparr>sr_restaurant_id = eq_restaurant_id query, sr_status = RS_VERIFIED,
             sr_confidence = Some conf, sr_resolved_url = Some u, sr_rejected_candidates = rejected,
             sr_reason = None, sr_source_id = Some (db_next s)\<rparr>
        \<and> s' = s\<lparr>db_next := Suc (db_next s), db_sources := db_sources s @
             [\<lparr>so_id = db_next s, so_restaurant_id = eq_restaurant_id query,
               so_source_type = RESTAURANT_WEBSITE, so_url = u, so_is_verified_domain = True,
               so_created_at = db_now s\<rparr>]\<rparr>
      else res = \<lparr>sr_restaurant_id = eq_restaurant_id query, sr_status = RS_NEEDS_REVIEW,
             sr_confidence = Some conf, sr_resolved_url = Some u, sr_rejected_candidates = rejected,
             sr_reason = Some ''Best candidate is below the auto-verify confidence threshold'',
             sr_source_id = None\<rparr> \<and> s' = s)"
  by (auto simp: finalize_def create_source_def Let_def)

lemma try_candidates_spec:
  assumes "try_candidates query cs rejected s = Inr (res, s')"
  shows "(list_all rejects cs \<and> sr_status res = RS_REJECTED \<and> sr_resolved_url res = None \<and> s' = s
          \<and> sr_rejected_candidates res = rejected @ map ec_url cs)
    \<or> (\<exists>before c after u conf. cs = before @ c # after \<and> list_all rejects before
          \<and> try_accept c = Inr (Some (u, conf))
          \<and> finalize query u conf (rejected @ map ec_url before) s = Inr (res, s'))"
  using assms
proof (induction cs arbitrary: rejected)
  case Nil
  then show ?case by auto
next
  case (Cons c cs)
  show ?case
  proof (cases "try_accept c")
    case (Inl e)
    then show ?thesis using Cons.prems by simp
  next
    case (Inr a)
    show ?thesis
    proof (cases a)
      case None
      with Inr have rj: "rejects c" by (simp add: rejects_def)
      have "try_candidates query cs (rejected @ [ec_url c]) s = Inr (res, s')"
        using Cons.prems Inr None by simp
      from Cons.IH [OF this] show ?thesis
      proof
        assume "list_all rejects cs \<and> sr_status res = RS_REJECTED \<and> sr_resolved_url res = None \<and> s' = s
          \<and> sr_rejected_candidates res = (rejected @ [ec_url c]) @ map ec_url cs"
        then show ?thesis using rj by auto
      next
        assume "\<exists>before d after u conf. cs = before @ d # after \<and> list_all rejects before
          \<and> try_accept d = Inr (Some (u, conf))
          \<and> finalize query u conf ((rejected @ [ec_url c]) @ map ec_url before) s = Inr (res, s')"
        then obtain b d a u conf where h: "cs = b @ d # a" "list_all rejects b"
          "try_accept d = Inr (Some (u, conf))"
          "finalize query u conf ((rejected @ [ec_url c]) @ map ec_url b) s = Inr (res, s')"
          by blast
        then have "c # cs = (c # b) @ d # a" "list_all rejects (c # b)"
          "finalize query u conf (rejected @ map ec_url (c # b)) s = Inr (res, s')"
          using rj by auto
        with h(3) show ?thesis by blast
      qed
    next
      case (Some p)
      obtain u conf where p: "p = (u, conf)" by (cases p)
      have "c # cs = [] @ c # cs" "list_all rejects []"
        "finalize query u conf (rejected @ map ec_url []) s = Inr (res, s')"
        using Cons.prems Inr Some p by auto
      then show ?thesis using Inr Some p by blast
    qed
  qed
qed

lemma ranked_first:
  assumes "ranked cs = before @ c # after" "c' \<in> set cs"
    "ec_provider_confidence c < ec_provider_confidence c'"
  shows "c' \<in> set before"
proof -
  have sorted: "sorted (map (\<lambda>c. - ec_provider_confidence c) (before @ c # after))"
    using assms(1) by (metis ranked_def sorted_sort_key)
  have "c' \<in> set (ranked cs)" using assms(2) by (simp add: ranked_def)
  then show ?thesis
    using assms(1,3) sorted by (auto simp: sorted_append)
qed

lemma try_accept_Some:
  "try_accept c = Inr (Some (u, conf)) \<longleftrightarrow>
     (\<exists>lock. validate_official_domain (ec_url c) = Inr (u, lock))
     \<and> conf = confidence_of (ec_provider_confidence c)"
  by (auto simp: try_accept_def split: sum.splits domain_error.splits)

lemma rejects_iff: "rejects c \<longleftrightarrow> (\<exists>e. validate_official_domain (ec_url c) = Inl (DomainRejected e))"
  by (auto simp: rejects_def try_accept_def split: sum.splits domain_error.splits)

lemma confidence_HIGH: "confidence_of x = HIGH \<longleftrightarrow> 3 / 4 \<le> x"
  by (simp add: confidence_of_def auto_verify_confidence_threshold_def)

text \<open>C31: Source authority decides for the best acceptable candidate and writes only on confidence. If
  resolution returns, then either nothing was resolved, the database is untouched, and every
  candidate was rejected by the domain checks; or the resolved URL is the normalized URL of a
  candidate that those checks accept while every candidate of higher confidence is rejected, the
  outcome is VERIFIED exactly when its confidence reaches three quarters, a VERIFIED outcome adds
  exactly one verified website source with that URL, and any other outcome leaves the database
  untouched.\<close>

theorem resolution_takes_best_accepted:
  assumes "resolve_official_website provider query s = Inr (res, s')"
  shows "(sr_resolved_url res = None \<and> s' = s
          \<and> (\<forall>c \<in> set (provider query). \<exists>e. validate_official_domain (ec_url c) = Inl (DomainRejected e))
          \<and> sr_status res = (if provider query = [] then RS_NOT_FOUND else RS_REJECTED))
    \<or> (\<exists>c \<in> set (provider query). \<exists>u lock.
          validate_official_domain (ec_url c) = Inr (u, lock) \<and> sr_resolved_url res = Some u
          \<and> (\<forall>c' \<in> set (provider query). ec_provider_confidence c < ec_provider_confidence c'
               \<longrightarrow> (\<exists>e. validate_official_domain (ec_url c') = Inl (DomainRejected e)))
          \<and> sr_status res = (if 3 / 4 \<le> ec_provider_confidence c then RS_VERIFIED else RS_NEEDS_REVIEW)
          \<and> (if 3 / 4 \<le> ec_provider_confidence c
             then (\<exists>src. create_source (eq_restaurant_id query) RESTAURANT_WEBSITE u True s = Inr (src, s')
                  \<and> sr_source_id res = Some (so_id src))
             else s' = s))"
proof (cases "provider query = []")
  case True
  then show ?thesis using assms by (auto simp: resolve_official_website_def)
next
  case False
  then have t: "try_candidates query (ranked (provider query)) [] s = Inr (res, s')"
    using assms by (simp add: resolve_official_website_def)
  have set_ranked: "set (ranked (provider query)) = set (provider query)" by (simp add: ranked_def)
  from try_candidates_spec [OF t] show ?thesis
  proof
    assume "list_all rejects (ranked (provider query)) \<and> sr_status res = RS_REJECTED
      \<and> sr_resolved_url res = None \<and> s' = s
      \<and> sr_rejected_candidates res = [] @ map ec_url (ranked (provider query))"
    then show ?thesis using False set_ranked by (auto simp: list_all_iff rejects_iff)
  next
    assume "\<exists>before c after u conf. ranked (provider query) = before @ c # after
      \<and> list_all rejects before \<and> try_accept c = Inr (Some (u, conf))
      \<and> finalize query u conf ([] @ map ec_url before) s = Inr (res, s')"
    then obtain b c a u conf where h: "ranked (provider query) = b @ c # a" "list_all rejects b"
      "try_accept c = Inr (Some (u, conf))" "finalize query u conf ([] @ map ec_url b) s = Inr (res, s')"
      by blast
    have c: "c \<in> set (provider query)" using h(1) set_ranked by auto
    obtain lock where lock: "validate_official_domain (ec_url c) = Inr (u, lock)"
      and conf: "conf = confidence_of (ec_provider_confidence c)"
      using h(3) by (auto simp: try_accept_Some)
    have better: "\<forall>c' \<in> set (provider query). ec_provider_confidence c < ec_provider_confidence c'
        \<longrightarrow> (\<exists>e. validate_official_domain (ec_url c') = Inl (DomainRejected e))"
      using ranked_first [OF h(1)] h(2) by (auto simp: list_all_iff rejects_iff)
    have fin: "sr_resolved_url res = Some u
        \<and> sr_status res = (if 3 / 4 \<le> ec_provider_confidence c then RS_VERIFIED else RS_NEEDS_REVIEW)
        \<and> (if 3 / 4 \<le> ec_provider_confidence c
           then (\<exists>src. create_source (eq_restaurant_id query) RESTAURANT_WEBSITE u True s = Inr (src, s')
                  \<and> sr_source_id res = Some (so_id src))
           else s' = s)"
      using h(4) unfolding finalize_Inr conf
      by (auto simp: confidence_HIGH create_source_def Let_def split: if_splits)
    show ?thesis using c lock better fin by blast
  qed
qed

theorem resolution_takes_best_accepted_witness:
  "\<exists>res s'. resolve_official_website (manual_provider ''joes-diner.example'')
       \<lparr>eq_restaurant_id = 7, eq_name = [], eq_city = None, eq_state = None, eq_country = None, eq_phone = None\<rparr>
       empty_db = Inr (res, s')
     \<and> sr_resolved_url res = Some ''https://joes-diner.example/'' \<and> sr_status res = RS_VERIFIED"
proof -
  let ?q = "\<lparr>eq_restaurant_id = 7, eq_name = [], eq_city = None, eq_state = None, eq_country = None,
    eq_phone = None\<rparr>"
  have v: "validate_official_domain ''joes-diner.example'' =
      Inr (''https://joes-diner.example/'',
        \<lparr>dl_verified_domain = ''joes-diner.example'', dl_allowed_url = ''https://joes-diner.example/''\<rparr>)"
    by code_simp
  have "\<exists>res s'. resolve_official_website (manual_provider ''joes-diner.example'') ?q empty_db = Inr (res, s')"
    by (simp add: resolve_official_website_def manual_provider_def ranked_def try_accept_def v
        finalize_def create_source_def confidence_of_def auto_verify_confidence_threshold_def Let_def)
  then obtain res s' where
    r: "resolve_official_website (manual_provider ''joes-diner.example'') ?q empty_db = Inr (res, s')" by blast
  from resolution_takes_best_accepted [OF r] r show ?thesis
    by (auto simp: manual_provider_def v)
qed

end
