(* ===== verification/Fetch.thy ===== *)
theory Fetch
  imports Catalog Url
begin

text \<open>
  Fetching and storing pages: \<open>src/infrastructure/crawler/http_fetcher.py\<close>, the per-domain
  throttle of \<open>domain_lock.py\<close>, \<open>snapshot_service.py\<close>, \<open>crawler_service.py\<close> and
  the storage backend \<open>src/infrastructure/storage/local_storage.py\<close>. The network is an argument:
  what a GET of a URL answers, what the resolver answers, what FlareSolverr answers and what
  robots.txt allows. A fetch returns the list of requests it issued with its result, so that what is
  never requested can be stated.
\<close>

section \<open>Requests and responses\<close>

text \<open>Header names are lower case.\<close>

record http_response =
  hr_status :: nat
  hr_headers :: "(string \<times> string) list"
  hr_body :: string

datatype http_result = TransportError | HttpResponse http_response

record fetch_result =
  fr_url :: string
  fr_content_type :: content_type
  fr_content :: string
  fr_http_status :: "nat option"
  fr_content_length_bytes :: nat

datatype fetch_error =
    DomainNotAllowedError
  | DomainRejectedBySsrfGuardError string
  | RobotsDisallowedError
  | ResponseTooLargeError
  | TooManyRedirectsError
  | TransportFailure
  | FetchValueError string

fun fetch_error_name :: "fetch_error \<Rightarrow> string" where
  "fetch_error_name DomainNotAllowedError = ''DomainNotAllowedError''"
| "fetch_error_name (DomainRejectedBySsrfGuardError e) = ''DomainRejectedBySsrfGuardError: '' @ e"
| "fetch_error_name RobotsDisallowedError = ''RobotsDisallowedError''"
| "fetch_error_name ResponseTooLargeError = ''ResponseTooLargeError''"
| "fetch_error_name TooManyRedirectsError = ''TooManyRedirectsError''"
| "fetch_error_name TransportFailure = ''TransportError''"
| "fetch_error_name (FetchValueError e) = ''ValueError: '' @ e"

datatype request = Get string | Solve string | Render string

text \<open>The JSON FlareSolverr answers with: its status and, of its solution, the page, the URL and the
  HTTP status, each possibly missing.\<close>

record solver_payload =
  sv_status :: "string option"
  sv_response :: "string option"
  sv_url :: "string option"
  sv_http_status :: "nat option"

record network =
  nw_get :: "string \<Rightarrow> http_result"
  nw_resolve :: "string \<Rightarrow> string list option"
  nw_solver :: "(string \<Rightarrow> solver_payload option) option"
  nw_robots :: "(string \<Rightarrow> bool) option"

definition max_redirects :: nat where "max_redirects = 10"
definition max_response_bytes :: nat where "max_response_bytes = 25 * 1024 * 1024"

definition header :: "http_response \<Rightarrow> string \<Rightarrow> string option" where
  "header r k = map_of (hr_headers r) k"

text \<open>httpx: a redirect status with a \<open>Location\<close> header.\<close>

definition redirect_location :: "http_response \<Rightarrow> string option" where
  "redirect_location r = (if hr_status r \<in> {301, 302, 303, 307, 308} then header r ''location'' else None)"

definition cloudflare_body_markers :: "string list" where
  "cloudflare_body_markers =
     [''cf-browser-verification'', ''cf_chl_'', ''Checking your browser before accessing'',
      ''Attention Required! | Cloudflare'', ''Just a moment...'']"

definition looks_like_cloudflare_challenge :: "http_response \<Rightarrow> bool" where
  "looks_like_cloudflare_challenge r \<longleftrightarrow>
     hr_status r \<in> {403, 503}
     \<and> (py_contains ''cloudflare'' (py_lower (case header r ''server'' of None \<Rightarrow> [] | Some v \<Rightarrow> v))
        \<or> header r ''cf-mitigated'' \<noteq> None
        \<or> list_ex (\<lambda>marker. py_contains marker (hr_body r)) cloudflare_body_markers)"

definition classify_content_type :: "string option \<Rightarrow> content_type" where
  "classify_content_type h =
     (if py_contains ''pdf'' (py_lower (case h of None \<Rightarrow> [] | Some v \<Rightarrow> v)) then PDF else HTML)"

definition read_capped :: "http_response \<Rightarrow> fetch_error + string" where
  "read_capped r =
     (case header r ''content-length'' of
        Some v \<Rightarrow>
          (case read_nat v of
             None \<Rightarrow> Inl (FetchValueError ''invalid literal for int()'')
           | Some n \<Rightarrow>
               if max_response_bytes < n \<or> max_response_bytes < length (hr_body r)
               then Inl ResponseTooLargeError else Inr (hr_body r))
      | None \<Rightarrow> if max_response_bytes < length (hr_body r) then Inl ResponseTooLargeError else Inr (hr_body r))"

section \<open>The fetch\<close>

text \<open>\<open>_validate_target\<close>.\<close>

definition validate_target :: "network \<Rightarrow> string \<Rightarrow> string \<Rightarrow> fetch_error option" where
  "validate_target net verified url =
     (if \<not> is_allowed verified url then Some DomainNotAllowedError
      else (case extract_domain url of
              Inl e \<Rightarrow> Some (FetchValueError e)
            | Inr host \<Rightarrow>
                (case assert_safe_host (nw_resolve net) host of
                   Some reason \<Rightarrow> Some (DomainRejectedBySsrfGuardError reason)
                 | None \<Rightarrow> None)))"

text \<open>\<open>_fetch_via_flaresolverr\<close>: \<open>None\<close> when FlareSolverr did not solve the challenge.\<close>

definition fetch_via_flaresolverr :: "(string \<Rightarrow> solver_payload option) \<Rightarrow> string \<Rightarrow> fetch_result option" where
  "fetch_via_flaresolverr solver url =
     (case solver url of
        None \<Rightarrow> None
      | Some payload \<Rightarrow>
          if sv_status payload \<noteq> Some ''ok'' then None
          else
           (case sv_response payload of
              None \<Rightarrow> None
            | Some content \<Rightarrow>
                Some \<lparr>fr_url = (case sv_url payload of Some u \<Rightarrow> u | None \<Rightarrow> url),
                      fr_content_type = HTML, fr_content = content,
                      fr_http_status = (case sv_http_status payload of Some n \<Rightarrow> Some n | None \<Rightarrow> Some 200),
                      fr_content_length_bytes = length content\<rparr>))"

text \<open>One response to the end of the handler: a solved challenge, or the response itself.\<close>

definition finish_response :: "network \<Rightarrow> string \<Rightarrow> http_response \<Rightarrow> request list \<times> (fetch_error + fetch_result)" where
  "finish_response net current_url r =
     (case read_capped r of
        Inl e \<Rightarrow> ([], Inl e)
      | Inr content \<Rightarrow>
          (let plain = \<lparr>fr_url = current_url, fr_content_type = classify_content_type (header r ''content-type''),
                 fr_content = content, fr_http_status = Some (hr_status r),
                 fr_content_length_bytes = length content\<rparr>
           in case nw_solver net of
                Some solver \<Rightarrow>
                  if looks_like_cloudflare_challenge r
                  then ([Solve current_url],
                        Inr (case fetch_via_flaresolverr solver current_url of
                               Some solved \<Rightarrow> solved | None \<Rightarrow> plain))
                  else ([], Inr plain)
              | None \<Rightarrow> ([], Inr plain)))"

text \<open>The loop \<open>for _ in range(_MAX_REDIRECTS + 1)\<close>.\<close>

fun fetch_loop :: "network \<Rightarrow> string \<Rightarrow> nat \<Rightarrow> string \<Rightarrow> request list \<times> (fetch_error + fetch_result)" where
  "fetch_loop net verified 0 current_url = ([], Inl TooManyRedirectsError)"
| "fetch_loop net verified (Suc n) current_url =
     (case nw_get net current_url of
        TransportError \<Rightarrow>
          (case nw_solver net of
             None \<Rightarrow> ([Get current_url], Inl TransportFailure)
           | Some solver \<Rightarrow>
               ([Get current_url, Solve current_url],
                case fetch_via_flaresolverr solver current_url of
                  None \<Rightarrow> Inl TransportFailure | Some solved \<Rightarrow> Inr solved))
      | HttpResponse r \<Rightarrow>
          (case redirect_location r of
             Some location \<Rightarrow>
               (case urljoin current_url location of
                  Inl e \<Rightarrow> ([Get current_url], Inl (FetchValueError e))
                | Inr next_url \<Rightarrow>
                    (case validate_target net verified next_url of
                       Some e \<Rightarrow> ([Get current_url], Inl e)
                     | None \<Rightarrow>
                         (case fetch_loop net verified n next_url of
                            (reqs, res) \<Rightarrow> (Get current_url # reqs, res))))
           | None \<Rightarrow>
               (case finish_response net current_url r of
                  (reqs, res) \<Rightarrow> (Get current_url # reqs, res))))"

text \<open>\<open>HttpFetcher.fetch\<close>.\<close>

definition fetch :: "network \<Rightarrow> string \<Rightarrow> string \<Rightarrow> request list \<times> (fetch_error + fetch_result)" where
  "fetch net verified url =
     (case validate_target net verified url of
        Some e \<Rightarrow> ([], Inl e)
      | None \<Rightarrow>
          (if (case nw_robots net of None \<Rightarrow> False | Some allows \<Rightarrow> \<not> allows url)
           then ([], Inl RobotsDisallowedError)
           else fetch_loop net verified (max_redirects + 1) url))"

fun request_url :: "request \<Rightarrow> string" where
  "request_url (Get url) = url"
| "request_url (Solve url) = url"
| "request_url (Render url) = url"

fun is_get :: "request \<Rightarrow> bool" where
  "is_get (Get url) = True"
| "is_get (Solve url) = False"
| "is_get (Render url) = False"

section \<open>What a fetch touches\<close>

lemma validate_target_None:
  "validate_target net verified url = None \<longleftrightarrow>
     extract_domain url = Inr verified \<and> assert_safe_host (nw_resolve net) verified = None"
  by (auto simp: validate_target_def is_allowed_def split: sum.splits option.splits)

lemma finish_response_requests:
  "finish_response net url r = (reqs, res) \<Longrightarrow> set reqs \<subseteq> {Solve url} \<and> length (filter is_get reqs) = 0"
  by (auto simp: finish_response_def Let_def split: sum.splits option.splits if_splits)

lemma fetch_loop_requests:
  assumes "fetch_loop net verified n url = (reqs, res)" "validate_target net verified url = None"
  shows "(\<forall>q \<in> set reqs. validate_target net verified (request_url q) = None)
    \<and> length (filter is_get reqs) \<le> n"
  using assms
proof (induction n arbitrary: url reqs res)
  case 0
  then show ?case by simp
next
  case (Suc n)
  show ?case
  proof (cases "nw_get net url")
    case TransportError
    then show ?thesis using Suc.prems by (auto split: option.splits)
  next
    case (HttpResponse r)
    show ?thesis
    proof (cases "redirect_location r")
      case None
      obtain reqs' res' where f: "finish_response net url r = (reqs', res')" by (cases "finish_response net url r")
      have "reqs = Get url # reqs'" using Suc.prems(1) HttpResponse None f by simp
      then show ?thesis
        using finish_response_requests [OF f] Suc.prems(2) by auto
    next
      case (Some location)
      show ?thesis
      proof (cases "\<exists>next_url. urljoin url location = Inr next_url \<and> validate_target net verified next_url = None")
        case True
        then obtain next_url where nu: "urljoin url location = Inr next_url"
          "validate_target net verified next_url = None" by blast
        obtain reqs' res' where f: "fetch_loop net verified n next_url = (reqs', res')"
          by (cases "fetch_loop net verified n next_url")
        have "reqs = Get url # reqs'" using Suc.prems(1) HttpResponse Some nu f by simp
        then show ?thesis
          using Suc.IH [OF f nu(2)] Suc.prems(2) by auto
      next
        case False
        then have "reqs = [Get url]"
          using Suc.prems(1) HttpResponse Some by (auto split: sum.splits option.splits)
        then show ?thesis using Suc.prems(2) by simp
      qed
    qed
  qed
qed

lemma finish_response_result:
  assumes "finish_response net url r = (reqs, Inr res)"
  shows "fr_content_length_bytes res = length (fr_content res)
    \<and> (reqs = [] \<longrightarrow> length (fr_content res) \<le> max_response_bytes)"
proof -
  have cap: "length content \<le> max_response_bytes" if "read_capped r = Inr content" for content
    using that by (auto simp: read_capped_def split: option.splits if_splits)
  have sol: "fr_content_length_bytes x = length (fr_content x)"
    if "fetch_via_flaresolverr solver url = Some x" for solver x
    using that by (auto simp: fetch_via_flaresolverr_def split: option.splits if_splits)
  show ?thesis
    using assms cap sol
    by (auto simp: finish_response_def Let_def split: sum.splits option.splits if_splits)
qed

lemma fetch_loop_result:
  assumes "fetch_loop net verified n url = (reqs, Inr res)"
  shows "fr_content_length_bytes res = length (fr_content res)
    \<and> (list_all is_get reqs \<longrightarrow> length (fr_content res) \<le> max_response_bytes)"
  using assms
proof (induction n arbitrary: url reqs)
  case 0
  then show ?case by simp
next
  case (Suc n)
  show ?case
  proof (cases "nw_get net url")
    case TransportError
    then show ?thesis using Suc.prems
      by (auto simp: fetch_via_flaresolverr_def split: option.splits if_splits)
  next
    case (HttpResponse r)
    show ?thesis
    proof (cases "redirect_location r")
      case None
      obtain reqs' where f: "finish_response net url r = (reqs', Inr res)" "reqs = Get url # reqs'"
        using Suc.prems HttpResponse None by (auto split: prod.splits)
      then have "list_all is_get reqs \<longrightarrow> reqs' = []"
        using finish_response_requests [OF f(1)] by (cases reqs') auto
      then show ?thesis using finish_response_result [OF f(1)] by auto
    next
      case (Some location)
      then obtain next_url reqs' where "fetch_loop net verified n next_url = (reqs', Inr res)" "reqs = Get url # reqs'"
        using Suc.prems HttpResponse by (auto split: sum.splits option.splits prod.splits)
      then show ?thesis using Suc.IH by auto
    qed
  qed
qed

lemma fetch_requests:
  assumes "fetch net verified url = (reqs, res)"
  shows "(\<forall>q \<in> set reqs. extract_domain (request_url q) = Inr verified
            \<and> assert_safe_host (nw_resolve net) verified = None)
    \<and> length (filter is_get reqs) \<le> 11
    \<and> (\<forall>r. res = Inr r \<longrightarrow> fr_content_length_bytes r = length (fr_content r)
         \<and> (list_all is_get reqs \<longrightarrow> length (fr_content r) \<le> max_response_bytes))"
proof (cases "validate_target net verified url = None
    \<and> \<not> (case nw_robots net of None \<Rightarrow> False | Some allows \<Rightarrow> \<not> allows url)")
  case True
  then have f: "fetch_loop net verified 11 url = (reqs, res)"
    using assms by (simp add: fetch_def max_redirects_def)
  then show ?thesis
    using fetch_loop_requests [OF f] fetch_loop_result [of net verified 11 url reqs] True
    by (auto simp: validate_target_None)
next
  case False
  then have "reqs = []" "\<exists>e. res = Inl e"
    using assms by (auto simp: fetch_def split: option.splits)
  then show ?thesis by auto
qed


definition sample_network :: network where
  "sample_network =
     \<lparr>nw_get = (\<lambda>url.
        if url = ''https://joes.example/menu''
        then HttpResponse \<lparr>hr_status = 301, hr_headers = [(''location'', ''https://www.joes.example/m'')], hr_body = []\<rparr>
        else if url = ''https://www.joes.example/m''
        then HttpResponse \<lparr>hr_status = 200, hr_headers = [], hr_body = ''soup''\<rparr>
        else TransportError),
      nw_resolve = (\<lambda>_. Some [''93.184.216.34'']), nw_solver = None, nw_robots = None\<rparr>"

lemma sample_fetch:
  "fetch sample_network ''joes.example'' ''https://joes.example/menu'' =
     ([Get ''https://joes.example/menu'', Get ''https://www.joes.example/m''],
      Inr \<lparr>fr_url = ''https://www.joes.example/m'', fr_content_type = HTML, fr_content = ''soup'',
           fr_http_status = Some 200, fr_content_length_bytes = 4\<rparr>)"
  by code_simp


text \<open>The host that is resolved for the check is the one \<open>extract_domain\<close> returns, without a leading
  \<open>www.\<close>; the connection is made to the host of the URL. A site whose \<open>www.\<close> name resolves to
  a loopback address is requested.\<close>

lemma www_host_not_checked:
  assumes "nw_get net ''https://www.joes.example/m'' = TransportError" "nw_solver net = None"
    "nw_robots net = None"
    "nw_resolve net = (\<lambda>host. if host = ''www.joes.example'' then Some [''127.0.0.1''] else Some [''93.184.216.34''])"
  shows "fst (fetch net ''joes.example'' ''https://www.joes.example/m'') = [Get ''https://www.joes.example/m'']
    \<and> assert_safe_host (nw_resolve net) ''www.joes.example'' \<noteq> None"
proof -
  have d: "extract_domain ''https://www.joes.example/m'' = Inr ''joes.example''" by code_simp
  have u: "is_unsafe_address ''127.0.0.1''" "\<not> is_unsafe_address ''93.184.216.34''"
    "\<not> is_unsafe_address ''joes.example''" "\<not> is_unsafe_address ''www.joes.example''"
    by code_simp+
  have "validate_target net ''joes.example'' ''https://www.joes.example/m'' = None"
    using assms(4) by (simp add: validate_target_None d assert_safe_host_def u)
  then show ?thesis
    using assms fetch_loop.simps(2) [of net "''joes.example''" 10 "''https://www.joes.example/m''"] by (simp add: fetch_def max_redirects_def assert_safe_host_def u)
qed

section \<open>Storage\<close>

text \<open>The files by their absolute path, as the adapter spells it.\<close>

type_synonym files = "string \<Rightarrow> string option"

definition norm_step :: "string list \<Rightarrow> string \<Rightarrow> string list" where
  "norm_step p name = (if name = [] \<or> name = ''.'' then p else if name = ''..'' then butlast p else p @ [name])"

text \<open>\<open>(base_dir / key).resolve()\<close>, without symbolic links: an absolute key replaces the base,
  a directory given by its names.\<close>

definition resolve_key :: "string list \<Rightarrow> string \<Rightarrow> string list" where
  "resolve_key base key =
     foldl norm_step (if startswith key ''/'' then [] else base) (py_split_on (CHR ''/'') key)"

definition path_str :: "string list \<Rightarrow> string" where
  "path_str p = CHR ''/'' # py_join ''/'' p"

definition storage_resolve :: "string list \<Rightarrow> string \<Rightarrow> exn + string list" where
  "storage_resolve base key =
     (let p = resolve_key base key in
      if \<not> prefix base p then Inl (OtherError [Txt ''Refusing to write outside storage base_dir''])
      else Inr p)"

definition storage_save :: "string list \<Rightarrow> string \<Rightarrow> string \<Rightarrow> files \<Rightarrow> exn + string \<times> files" where
  "storage_save base key content fs =
     (case storage_resolve base key of
        Inl e \<Rightarrow> Inl e
      | Inr p \<Rightarrow> Inr (path_str p, fs(path_str p \<mapsto> content)))"

definition storage_read :: "string \<Rightarrow> files \<Rightarrow> string option" where
  "storage_read storage_path fs = fs storage_path"

text \<open>What the snapshot service relies on from a storage backend.\<close>

locale storage_adapter =
  fixes save :: "string \<Rightarrow> string \<Rightarrow> 'fs \<Rightarrow> exn + string \<times> 'fs"
    and read :: "string \<Rightarrow> 'fs \<Rightarrow> string option"
  assumes read_saved: "save key content fs = Inr (p, fs') \<Longrightarrow> read p fs' = Some content"
    and read_other: "save key content fs = Inr (p, fs') \<Longrightarrow> q \<noteq> p \<Longrightarrow> read q fs' = read q fs"
begin

text \<open>Content addressing: when the path of a save carries the tag of its content, every path that held
  content of its own tag still does.\<close>

lemma save_keeps_tagged:
  assumes "save key content fs = Inr (p, fs')" "tag p = h content"
    and "\<exists>c. read q fs = Some c \<and> h c = tag q"
  shows "\<exists>c. read q fs' = Some c \<and> h c = tag q"
  using assms read_saved [OF assms(1)] read_other [OF assms(1)] by (cases "q = p") auto

end

interpretation local_storage: storage_adapter "storage_save base" storage_read for base
  by unfold_locales (auto simp: storage_save_def storage_read_def split: sum.splits)

section \<open>Snapshots\<close>

fun snapshot_extension :: "content_type \<Rightarrow> string" where
  "snapshot_extension HTML = ''html''"
| "snapshot_extension PDF = ''pdf''"
| "snapshot_extension SCREENSHOT = ''png''"

text \<open>\<open>SnapshotService.store_snapshot\<close>: \<open>sha\<close> is SHA-256 in hexadecimal; the id and the time
  are those the record is created with.\<close>

definition store_snapshot ::
  "(string \<Rightarrow> string) \<Rightarrow> string list \<Rightarrow> uuid \<Rightarrow> fetch_result \<Rightarrow> uuid \<Rightarrow> timestamp \<Rightarrow> files
     \<Rightarrow> exn + snapshot \<times> files" where
  "store_snapshot sha base source_id result new_id now fs =
     (let content_hash = sha (fr_content result);
          key = uuid_str source_id @ ''/'' @ content_hash @ ''.'' @ snapshot_extension (fr_content_type result)
      in case storage_save base key (fr_content result) fs of
           Inl e \<Rightarrow> Inl e
         | Inr (storage_path, fs') \<Rightarrow>
             Inr (\<lparr>sn_id = new_id, sn_source_id = source_id, sn_content_type = fr_content_type result,
                   sn_content_hash = content_hash, sn_storage_path = storage_path, sn_fetched_at = now,
                   sn_http_status = fr_http_status result,
                   sn_content_length_bytes = Some (fr_content_length_bytes result)\<rparr>, fs'))"

text \<open>\<open>CrawlerService.fetch_and_store\<close> over HTTP, up to the page metadata.\<close>

definition fetch_and_store ::
  "network \<Rightarrow> (string \<Rightarrow> string) \<Rightarrow> string list \<Rightarrow> string \<Rightarrow> uuid \<Rightarrow> string \<Rightarrow> uuid \<Rightarrow> timestamp \<Rightarrow> files
     \<Rightarrow> request list \<times> (exn + snapshot \<times> files)" where
  "fetch_and_store net sha base verified source_id url new_id now fs =
     (case fetch net verified url of
        (reqs, Inl e) \<Rightarrow> (reqs, Inl (OtherError [Txt (fetch_error_name e)]))
      | (reqs, Inr result) \<Rightarrow> (reqs, store_snapshot sha base source_id result new_id now fs))"

fun store_all ::
  "(string \<Rightarrow> string) \<Rightarrow> string list \<Rightarrow> (uuid \<times> fetch_result \<times> uuid \<times> timestamp) list \<Rightarrow> files
     \<Rightarrow> exn + snapshot list \<times> files" where
  "store_all sha base [] fs = Inr ([], fs)"
| "store_all sha base ((source_id, result, new_id, now) # rest) fs =
     (case store_snapshot sha base source_id result new_id now fs of
        Inl e \<Rightarrow> Inl e
      | Inr (sn, fs') \<Rightarrow>
          (case store_all sha base rest fs' of
             Inl e \<Rightarrow> Inl e
           | Inr (sns, fs'') \<Rightarrow> Inr (sn # sns, fs'')))"

definition hex_digits :: "string \<Rightarrow> bool" where
  "hex_digits s \<longleftrightarrow> set s \<subseteq> set ''0123456789abcdef''"

text \<open>The tag a snapshot path carries: its file name up to the extension.\<close>

definition path_tag :: "string \<Rightarrow> string" where
  "path_tag p = takeWhile (\<lambda>c. c \<noteq> CHR ''.'') (after_last (CHR ''/'') p)"

lemma takeWhile_stop: "c \<notin> set w \<Longrightarrow> takeWhile (\<lambda>x. x \<noteq> c) (w @ c # t) = w"
  by (induction w) auto

lemma after_last_append: "c \<notin> set w \<Longrightarrow> after_last c (u @ c # w) = w"
proof -
  assume w: "c \<notin> set w"
  have "takeWhile (\<lambda>x. x \<noteq> c) (rev w @ c # rev u) = rev w"
    using w by (intro takeWhile_stop) simp
  then show ?thesis by (simp add: after_last_def)
qed

lemma py_join_append1: "xs \<noteq> [] \<Longrightarrow> py_join sep (xs @ [x]) = py_join sep xs @ sep @ x"
  by (induction sep xs rule: py_join.induct) auto

lemma snapshot_path:
  assumes "hex_digits h"
  shows "resolve_key base (uuid_str i @ ''/'' @ h @ ''.'' @ snapshot_extension ct)
      = base @ [uuid_str i, h @ ''.'' @ snapshot_extension ct]"
    and "path_tag (path_str (base @ [uuid_str i, h @ ''.'' @ snapshot_extension ct])) = h"
proof -
  let ?f = "h @ ''.'' @ snapshot_extension ct"
  have h: "CHR ''/'' \<notin> set h" "CHR ''.'' \<notin> set h" using assms by (auto simp: hex_digits_def)
  have u: "CHR ''/'' \<notin> set (uuid_str i)" "CHR ''.'' \<notin> set (uuid_str i)"
    unfolding uuid_str_def by (rule show_nat_plain, simp add: is_digit_def)+
  have e: "CHR ''/'' \<notin> set (snapshot_extension ct)" "snapshot_extension ct \<noteq> []"
    "CHR ''.'' \<notin> set (snapshot_extension ct)"
    by (cases ct; simp)+
  have ne: "uuid_str i \<noteq> []" by (simp add: uuid_str_def)
  have nd: "uuid_str i \<noteq> ''.''" "uuid_str i \<noteq> ''..''" using u(2) by auto
  have fd: "?f \<noteq> []" "?f \<noteq> ''.''" "?f \<noteq> ''..''"
  proof -
    show "?f \<noteq> []" by simp
    show "?f \<noteq> ''.''" using e(2) by (cases h) auto
    show "?f \<noteq> ''..''" using e(2,3) h(2) by (cases h) (auto simp: Cons_eq_append_conv append_eq_Cons_conv)
  qed
  have ns: "\<not> startswith (uuid_str i @ ''/'' @ ?f) ''/''"
    using ne u(1) by (cases "uuid_str i") (auto simp: startswith_def)
  have sp: "py_split_on (CHR ''/'') (uuid_str i @ ''/'' @ ?f) = [uuid_str i, ?f]"
    using u h e by (simp add: py_split_on_append py_split_on_plain)
  show "resolve_key base (uuid_str i @ ''/'' @ ?f) = base @ [uuid_str i, ?f]"
    unfolding resolve_key_def sp using ns ne nd fd by (simp add: norm_step_def del: append_assoc)
  have p: "path_str (base @ [uuid_str i, ?f]) = (CHR ''/'' # py_join ''/'' (base @ [uuid_str i])) @ CHR ''/'' # ?f"
    using py_join_append1 [of "base @ [uuid_str i]" "''/''" ?f] by (simp add: path_str_def)
  have "CHR ''/'' \<notin> set ?f" using h e by auto
  then have "after_last (CHR ''/'') (path_str (base @ [uuid_str i, ?f])) = ?f"
    unfolding p by (rule after_last_append)
  then show "path_tag (path_str (base @ [uuid_str i, ?f])) = h"
    unfolding path_tag_def using h(2) by (simp add: takeWhile_stop)
qed

lemma store_snapshot_Inr:
  assumes "hex_digits (sha (fr_content result))"
  shows "\<exists>sn fs'. store_snapshot sha base source_id result new_id now fs = Inr (sn, fs')
    \<and> sn_content_hash sn = sha (fr_content result) \<and> path_tag (sn_storage_path sn) = sn_content_hash sn
    \<and> prefix (path_str base) (sn_storage_path sn)
    \<and> storage_save base (uuid_str source_id @ ''/'' @ sha (fr_content result) @ ''.''
          @ snapshot_extension (fr_content_type result)) (fr_content result) fs = Inr (sn_storage_path sn, fs')"
proof -
  let ?f = "sha (fr_content result) @ ''.'' @ snapshot_extension (fr_content_type result)"
  have "prefix (path_str base) (path_str (base @ [uuid_str source_id, ?f]))"
    unfolding path_str_def by (induction "''/''" base rule: py_join.induct) (auto simp: py_join_Cons)
  then show ?thesis
    using snapshot_path [OF assms, of base source_id "fr_content_type result"]
    by (simp add: store_snapshot_def storage_save_def storage_resolve_def Let_def)
qed

lemma store_all_spec:
  assumes "\<And>c. hex_digits (sha c)"
  shows "\<exists>sns fs'. store_all sha base items fs = Inr (sns, fs') \<and> length sns = length items
    \<and> (\<forall>sn \<in> set sns. path_tag (sn_storage_path sn) = sn_content_hash sn \<and> prefix (path_str base) (sn_storage_path sn)
         \<and> (\<exists>c. storage_read (sn_storage_path sn) fs' = Some c \<and> sha c = path_tag (sn_storage_path sn)))
    \<and> (\<forall>q. (\<exists>c. storage_read q fs = Some c \<and> sha c = path_tag q)
         \<longrightarrow> (\<exists>c. storage_read q fs' = Some c \<and> sha c = path_tag q))"
proof (induction items arbitrary: fs)
  case Nil
  then show ?case by simp
next
  case (Cons item items)
  obtain source_id result new_id now where item: "item = (source_id, result, new_id, now)" by (cases item)
  obtain sn fs1 where s1: "store_snapshot sha base source_id result new_id now fs = Inr (sn, fs1)"
    "sn_content_hash sn = sha (fr_content result)" "path_tag (sn_storage_path sn) = sn_content_hash sn"
    "prefix (path_str base) (sn_storage_path sn)"
    "storage_save base (uuid_str source_id @ ''/'' @ sha (fr_content result) @ ''.''
        @ snapshot_extension (fr_content_type result)) (fr_content result) fs = Inr (sn_storage_path sn, fs1)"
    using store_snapshot_Inr [where sha = sha, OF assms] by blast
  have kept: "\<exists>c. storage_read q fs1 = Some c \<and> sha c = path_tag q"
    if "\<exists>c. storage_read q fs = Some c \<and> sha c = path_tag q" for q
    by (rule local_storage.save_keeps_tagged [where tag = path_tag, OF s1(5) _ that])
      (simp add: s1(2,3))
  have here: "\<exists>c. storage_read (sn_storage_path sn) fs1 = Some c \<and> sha c = path_tag (sn_storage_path sn)"
    using local_storage.read_saved [OF s1(5)] s1(2,3) by simp
  obtain sns fs2 where s2: "store_all sha base items fs1 = Inr (sns, fs2)" "length sns = length items"
    "\<forall>sn \<in> set sns. path_tag (sn_storage_path sn) = sn_content_hash sn \<and> prefix (path_str base) (sn_storage_path sn)
         \<and> (\<exists>c. storage_read (sn_storage_path sn) fs2 = Some c \<and> sha c = path_tag (sn_storage_path sn))"
    "\<forall>q. (\<exists>c. storage_read q fs1 = Some c \<and> sha c = path_tag q)
         \<longrightarrow> (\<exists>c. storage_read q fs2 = Some c \<and> sha c = path_tag q)"
    using Cons.IH by blast
  have now: "path_tag (sn_storage_path x) = sn_content_hash x \<and> prefix (path_str base) (sn_storage_path x)
      \<and> (\<exists>c. storage_read (sn_storage_path x) fs2 = Some c \<and> sha c = path_tag (sn_storage_path x))"
    if "x \<in> set (sn # sns)" for x
  proof (cases "x = sn")
    case True
    then show ?thesis using s1(3,4) s2(4) here by blast
  next
    case False
    then show ?thesis using that s2(3) by auto
  qed
  have "store_all sha base (item # items) fs = Inr (sn # sns, fs2)"
    using s1(1) s2(1) by (simp add: item)
  moreover have "length (sn # sns) = length (item # items)" using s2(2) by simp
  ultimately show ?case using now kept s2(4) by blast
qed

text \<open>C34: Captured material is what its record says, for good. Whatever sequence of fetch results is
  stored, on whatever the disk held, every save succeeds, every snapshot's path lies under the base
  directory, and after all of them the bytes at the path of every snapshot still hash to its
  \<open>content_hash\<close>, although equal contents overwrite each other. The hash is assumed to consist
  of hexadecimal digits.\<close>

theorem snapshots_match_their_hash:
  assumes "\<forall>c. hex_digits (sha c)"
  shows "\<exists>sns fs'. store_all sha base items fs = Inr (sns, fs') \<and> length sns = length items
    \<and> (\<forall>sn \<in> set sns. prefix (path_str base) (sn_storage_path sn)
         \<and> (\<exists>c. storage_read (sn_storage_path sn) fs' = Some c \<and> sha c = sn_content_hash sn))"
  using store_all_spec [of sha base items fs] assms by auto metis

theorem snapshots_match_their_hash_witness:
  "\<exists>sns fs'. store_all (\<lambda>c. if c = [] then ''e3b0'' else ''ca97'') [''data'']
       [(1, \<lparr>fr_url = ''u'', fr_content_type = HTML, fr_content = ''a'', fr_http_status = Some 200,
             fr_content_length_bytes = 1\<rparr>, 2, 0)] Map.empty = Inr (sns, fs') \<and> length sns = 1"
proof -
  have "\<forall>c. hex_digits ((\<lambda>c. if c = [] then ''e3b0'' else ''ca97'') c)"
    by (simp add: hex_digits_def)
  from snapshots_match_their_hash [OF this] show ?thesis
    by fastforce
qed

end
