(* ===== verification/Throttle.thy ===== *)
theory Throttle
  imports Url
begin

text \<open>
  The per-domain throttle \<open>DomainLock\<close> of \<open>src/infrastructure/crawler/domain_lock.py\<close>, as a
  state machine over concurrent tasks: a registry with one lock per domain and the time of the last
  request of each, a clock, and the phase of every task between \<open>acquire\<close> and \<open>release\<close>.
  A step is a run of one task between two \<open>await\<close>s, or the passing of time; any interleaving is
  a run. \<open>th_log\<close> records the requests made, with their start and end.
\<close>

type_synonym task = nat
type_synonym time = rat

datatype phase =
    Idle
  | Sleeping string time
  | Requesting string time

record throttle =
  th_now :: time
  th_locks :: "string \<Rightarrow> task option"
  th_last_request_at :: "string \<Rightarrow> time option"
  th_phase :: "task \<Rightarrow> phase"
  th_log :: "(string \<times> time \<times> time) list"

text \<open>\<open>remaining\<close>: how long \<open>acquire\<close> still sleeps once it holds the lock; a domain without
  an entry counts as last requested at time 0.\<close>

definition remaining :: "rat \<Rightarrow> throttle \<Rightarrow> string \<Rightarrow> rat" where
  "remaining interval s domain =
     interval - (th_now s - (case th_last_request_at s domain of None \<Rightarrow> 0 | Some t \<Rightarrow> t))"

definition acquired :: "rat \<Rightarrow> task \<Rightarrow> string \<Rightarrow> throttle \<Rightarrow> throttle" where
  "acquired interval t domain s =
     s\<lparr>th_locks := (th_locks s)(domain := Some t),
       th_phase := (th_phase s)(t := Sleeping domain (th_now s + max 0 (remaining interval s domain)))\<rparr>"

definition released :: "task \<Rightarrow> string \<Rightarrow> time \<Rightarrow> throttle \<Rightarrow> throttle" where
  "released t domain start s =
     s\<lparr>th_last_request_at := (th_last_request_at s)(domain \<mapsto> th_now s),
       th_locks := (th_locks s)(domain := None),
       th_phase := (th_phase s)(t := Idle),
       th_log := th_log s @ [(domain, start, th_now s)]\<rparr>"

text \<open>A task waits in \<open>lock.acquire()\<close> while another holds the lock of its domain. A task cancelled
  in the \<open>sleep\<close> of \<open>acquire\<close> never reaches \<open>release\<close>, since the body of the
  \<open>async with\<close> was not entered.\<close>

inductive th_step :: "rat \<Rightarrow> throttle \<Rightarrow> throttle \<Rightarrow> bool" for interval where
  tick: "th_now s \<le> now \<Longrightarrow> th_step interval s (s\<lparr>th_now := now\<rparr>)"
| acquire: "extract_domain url = Inr domain \<Longrightarrow> th_phase s t = Idle \<Longrightarrow> th_locks s domain = None \<Longrightarrow>
    th_step interval s (acquired interval t domain s)"
| wake: "th_phase s t = Sleeping domain until \<Longrightarrow> until \<le> th_now s \<Longrightarrow>
    th_step interval s (s\<lparr>th_phase := (th_phase s)(t := Requesting domain (th_now s))\<rparr>)"
| release: "th_phase s t = Requesting domain start \<Longrightarrow> th_step interval s (released t domain start s)"
| cancel: "th_phase s t = Sleeping domain until \<Longrightarrow>
    th_step interval s (s\<lparr>th_phase := (th_phase s)(t := Idle)\<rparr>)"

inductive th_reachable :: "rat \<Rightarrow> throttle \<Rightarrow> bool" for interval where
  init: "0 \<le> now \<Longrightarrow>
    th_reachable interval \<lparr>th_now = now, th_locks = Map.empty, th_last_request_at = Map.empty,
      th_phase = (\<lambda>_. Idle), th_log = []\<rparr>"
| step: "th_reachable interval s \<Longrightarrow> th_step interval s s' \<Longrightarrow> th_reachable interval s'"

inductive_cases th_stepE: "th_step interval s s'"

section \<open>The invariant\<close>

fun holds :: "phase \<Rightarrow> string \<Rightarrow> bool" where
  "holds Idle domain = False"
| "holds (Sleeping d _) domain = (d = domain)"
| "holds (Requesting d _) domain = (d = domain)"

text \<open>The earliest time the request of a phase can have started.\<close>

fun not_before :: "phase \<Rightarrow> time \<Rightarrow> bool" where
  "not_before Idle t = True"
| "not_before (Sleeping _ until) t = (t \<le> until)"
| "not_before (Requesting _ start) t = (t \<le> start)"

definition spaced :: "rat \<Rightarrow> (string \<times> time \<times> time) list \<Rightarrow> bool" where
  "spaced interval entries \<longleftrightarrow>
     sorted_wrt (\<lambda>(d, _, e) (d', st, _). d = d' \<longrightarrow> e + interval \<le> st) entries"

text \<open>Who is past the lock of a domain holds it; nothing recorded lies in the future; and who is past it
  starts no earlier than the interval after the last request.\<close>

definition lock_held :: "throttle \<Rightarrow> bool" where
  "lock_held s \<longleftrightarrow> (\<forall>t domain. holds (th_phase s t) domain \<longrightarrow> th_locks s domain = Some t)"

definition last_past :: "throttle \<Rightarrow> bool" where
  "last_past s \<longleftrightarrow> (\<forall>d l. th_last_request_at s d = Some l \<longrightarrow> l \<le> th_now s)"

definition log_past :: "throttle \<Rightarrow> bool" where
  "log_past s \<longleftrightarrow> (\<forall>d st e. (d, st, e) \<in> set (th_log s) \<longrightarrow> (\<exists>l. th_last_request_at s d = Some l \<and> e \<le> l))"

definition waits_enough :: "rat \<Rightarrow> throttle \<Rightarrow> bool" where
  "waits_enough interval s \<longleftrightarrow>
     (\<forall>t d l. holds (th_phase s t) d \<longrightarrow> th_last_request_at s d = Some l
        \<longrightarrow> not_before (th_phase s t) (l + interval))"

definition th_inv :: "rat \<Rightarrow> throttle \<Rightarrow> bool" where
  "th_inv interval s \<longleftrightarrow>
     lock_held s \<and> last_past s \<and> log_past s \<and> waits_enough interval s \<and> spaced interval (th_log s)"

lemma spaced_append:
  "spaced interval (entries @ [(d, st, e)]) \<longleftrightarrow>
     spaced interval entries \<and> (\<forall>(d', _, e') \<in> set entries. d' = d \<longrightarrow> e' + interval \<le> st)"
  by (auto simp: spaced_def sorted_wrt_append)

lemma lock_held_step: "th_step interval s s' \<Longrightarrow> lock_held s \<Longrightarrow> lock_held s'"
proof (induction rule: th_step.induct)
  case (release s t domain start)
  then have "holds (th_phase s u) domain \<Longrightarrow> u = t" for u
    unfolding lock_held_def by (metis holds.simps(3) option.inject)
  with release show ?case by (auto simp: lock_held_def released_def)
next
  case (wake s t domain until)
  then have "holds (th_phase s t) domain" by simp
  with wake show ?case by (auto simp: lock_held_def)
next
  case (acquire url domain s t)
  then show ?case by (fastforce simp: lock_held_def acquired_def)
qed (auto simp: lock_held_def)

lemma last_past_step: "th_step interval s s' \<Longrightarrow> last_past s \<Longrightarrow> last_past s'"
  by (induction rule: th_step.induct) (auto simp: last_past_def acquired_def released_def intro: order_trans)

lemma log_past_step: "th_step interval s s' \<Longrightarrow> log_past s \<Longrightarrow> last_past s \<Longrightarrow> log_past s'"
proof (induction rule: th_step.induct)
  case (release s t domain start)
  have "\<exists>l. th_last_request_at (released t domain start s) d = Some l \<and> e \<le> l"
    if m: "(d, st, e) \<in> set (th_log (released t domain start s))" for d st e
  proof (cases "d = domain")
    case True
    have "e \<le> th_now s"
      using m release(2,3) True unfolding log_past_def last_past_def released_def by force
    then show ?thesis using True by (simp add: released_def)
  next
    case False
    then show ?thesis using m release(2) by (auto simp: log_past_def released_def)
  qed
  then show ?case by (simp add: log_past_def)
qed (auto simp: log_past_def acquired_def)

lemma waits_enough_step:
  "th_step interval s s' \<Longrightarrow> waits_enough interval s \<Longrightarrow> lock_held s \<Longrightarrow> waits_enough interval s'"
proof (induction rule: th_step.induct)
  case (tick s now)
  then show ?case by (simp add: waits_enough_def)
next
  case (acquire url domain s t)
  then show ?case
    by (auto simp: waits_enough_def acquired_def remaining_def)
next
  case (wake s t domain until)
  have "l + interval \<le> th_now s" if "th_last_request_at s domain = Some l" for l
  proof -
    have "not_before (th_phase s t) (l + interval)"
      using wake(1,3) that unfolding waits_enough_def by (metis holds.simps(2))
    then show ?thesis using wake(1,2) by simp
  qed
  then show ?case using wake(3) by (auto simp: waits_enough_def)
next
  case (release s t domain start)
  then have mine: "u = t" if "holds (th_phase s u) domain" for u
    using that unfolding lock_held_def by (metis holds.simps(3) option.inject)
  have "not_before (th_phase s u) (l + interval)"
    if "u \<noteq> t" "holds (th_phase s u) d" "th_last_request_at (released t domain start s) d = Some l" for u d l
    using that mine release(2) unfolding waits_enough_def released_def by (cases "d = domain") auto
  then show ?case unfolding waits_enough_def by (auto simp: released_def)
next
  case (cancel s t domain until)
  then show ?case by (auto simp: waits_enough_def)
qed

lemma spaced_step:
  "th_step interval s s' \<Longrightarrow> spaced interval (th_log s) \<Longrightarrow> waits_enough interval s \<Longrightarrow> log_past s
     \<Longrightarrow> spaced interval (th_log s')"
proof (induction rule: th_step.induct)
  case (release s t domain start)
  have "e + interval \<le> start" if m: "(domain, st, e) \<in> set (th_log s)" for st e
  proof -
    obtain l where l: "th_last_request_at s domain = Some l" "e \<le> l"
      using release(4) m unfolding log_past_def by blast
    have "not_before (th_phase s t) (l + interval)"
      using release(1,3) l(1) unfolding waits_enough_def by (metis holds.simps(3))
    then show ?thesis using l(2) release(1) by simp
  qed
  then show ?case using release(2) by (auto simp: released_def spaced_append)
qed (simp_all add: acquired_def)

lemma th_inv_step: "th_step interval s s' \<Longrightarrow> th_inv interval s \<Longrightarrow> th_inv interval s'"
  unfolding th_inv_def
  by (meson lock_held_step last_past_step log_past_step waits_enough_step spaced_step)

lemmas th_inv_defs = th_inv_def lock_held_def last_past_def log_past_def waits_enough_def

lemma th_inv_reachable: "th_reachable interval s \<Longrightarrow> th_inv interval s"
proof (induction rule: th_reachable.induct)
  case (init now)
  then show ?case by (simp add: th_inv_defs spaced_def)
next
  case (step s s')
  then show ?case by (blast intro: th_inv_step)
qed

section \<open>Properties\<close>

text \<open>C35: The throttle serializes and spaces requests. In every state any interleaving of any number of
  tasks can reach, two tasks are never both past the lock of one domain, and of two requests made to
  one domain the later one started at least the minimum interval after the earlier one ended.\<close>

theorem throttle_serializes_and_spaces:
  assumes "th_reachable interval s"
  shows "(\<forall>t u domain. holds (th_phase s t) domain \<and> holds (th_phase s u) domain \<longrightarrow> t = u)
    \<and> (\<forall>i j d st e st' e'. i < j \<and> j < length (th_log s) \<and> th_log s ! i = (d, st, e) \<and> th_log s ! j = (d, st', e')
         \<longrightarrow> e + interval \<le> st')"
proof -
  have inv: "th_inv interval s" using assms by (rule th_inv_reachable)
  have "t = u" if "holds (th_phase s t) d" "holds (th_phase s u) d" for t u d
    using inv that unfolding th_inv_def lock_held_def by (metis option.inject)
  moreover have "e + interval \<le> st'"
    if "i < j" "j < length (th_log s)" "th_log s ! i = (d, st, e)" "th_log s ! j = (d, st', e')" for i j d st e st' e'
    using inv that sorted_wrt_nth_less [of _ "th_log s" i j] unfolding th_inv_def spaced_def by fastforce
  ultimately show ?thesis by blast
qed

text \<open>A run of two requests to one domain.\<close>

definition sample_throttle :: throttle where
  "sample_throttle = \<lparr>th_now = 5, th_locks = Map.empty, th_last_request_at = Map.empty,
     th_phase = (\<lambda>_. Idle), th_log = []\<rparr>"

definition after_first :: throttle where
  "after_first = \<lparr>th_now = 5, th_locks = Map.empty, th_last_request_at = [''a.example'' \<mapsto> 5],
     th_phase = (\<lambda>_. Idle), th_log = [(''a.example'', 5, 5)]\<rparr>"

lemma sample_domain: "extract_domain ''https://www.a.example/menu'' = Inr ''a.example''"
  by code_simp

lemma one_request:
  assumes "th_reachable interval s" "th_phase s t = Idle" "th_locks s ''a.example'' = None"
    "remaining interval s ''a.example'' \<le> 0"
  shows "th_reachable interval (released t ''a.example'' (th_now s)
    (s\<lparr>th_locks := (th_locks s)(''a.example'' := Some t),
       th_phase := (th_phase s)(t := Requesting ''a.example'' (th_now s))\<rparr>))"
proof -
  let ?a = "acquired interval t ''a.example'' s"
  have a: "th_reachable interval ?a"
    using th_reachable.step [OF assms(1) th_step.acquire [OF sample_domain assms(2,3)]] .
  have "th_phase ?a t = Sleeping ''a.example'' (th_now s)" "th_now ?a = th_now s"
    using assms(4) by (simp_all add: acquired_def)
  from th_reachable.step [OF a th_step.wake [OF this(1)]] this(2)
  have w: "th_reachable interval (?a\<lparr>th_phase := (th_phase ?a)(t := Requesting ''a.example'' (th_now s))\<rparr>)" by simp
  have "th_phase (?a\<lparr>th_phase := (th_phase ?a)(t := Requesting ''a.example'' (th_now s))\<rparr>) t
      = Requesting ''a.example'' (th_now s)" by simp
  from th_reachable.step [OF w th_step.release [OF this]] show ?thesis
    by (simp add: acquired_def)
qed

theorem throttle_serializes_and_spaces_witness:
  "\<exists>s. th_reachable 1 s \<and> th_log s ! 0 = (''a.example'', 5, 5) \<and> th_log s ! 1 = (''a.example'', 6, 6)
     \<and> (5::rat) + 1 \<le> 6"
proof -
  have "th_reachable 1 sample_throttle"
    unfolding sample_throttle_def by (rule th_reachable.init) simp
  from one_request [OF this, of 0]
  have "th_reachable 1 (released 0 ''a.example'' (th_now sample_throttle)
      (sample_throttle\<lparr>th_locks := (th_locks sample_throttle)(''a.example'' := Some 0),
         th_phase := (th_phase sample_throttle)(0 := Requesting ''a.example'' (th_now sample_throttle))\<rparr>))"
    by (simp add: sample_throttle_def remaining_def)
  moreover have "released 0 ''a.example'' (th_now sample_throttle)
      (sample_throttle\<lparr>th_locks := (th_locks sample_throttle)(''a.example'' := Some 0),
         th_phase := (th_phase sample_throttle)(0 := Requesting ''a.example'' (th_now sample_throttle))\<rparr>)
      = after_first"
    by (simp add: sample_throttle_def after_first_def released_def fun_eq_iff)
  ultimately have "th_reachable 1 after_first" by simp
  from th_reachable.step [OF this th_step.tick [of _ 6]]
  have "th_reachable 1 (after_first\<lparr>th_now := 6\<rparr>)" by (simp add: after_first_def)
  from one_request [OF this, of 3] obtain s where s: "th_reachable 1 s"
    "th_log s = [(''a.example'', 5, 5), (''a.example'', 6, 6)]"
    by (auto simp: after_first_def remaining_def released_def)
  have "th_log s ! 0 = (''a.example'', 5, 5)" "th_log s ! 1 = (''a.example'', 6, 6)" "1 < length (th_log s)"
    by (simp_all add: s(2))
  with throttle_serializes_and_spaces [OF s(1)] s(1) show ?thesis
    using zero_less_one by blast
qed

text \<open>A task cancelled while it sleeps leaves its domain locked, and no step of any task unlocks it.\<close>

definition leaked :: "string \<Rightarrow> throttle \<Rightarrow> bool" where
  "leaked domain s \<longleftrightarrow> th_locks s domain \<noteq> None \<and> (\<forall>t. \<not> holds (th_phase s t) domain)"

lemma cancelled_wait_leaks_lock:
  assumes "lock_held s" "th_phase s t = Sleeping domain until"
  shows "leaked domain (s\<lparr>th_phase := (th_phase s)(t := Idle)\<rparr>)"
proof -
  have "th_locks s domain = Some t" using assms by (auto simp: lock_held_def)
  moreover have "u = t" if "holds (th_phase s u) domain" for u
    using that assms(1) calculation unfolding lock_held_def by auto
  ultimately show ?thesis by (auto simp: leaked_def)
qed

lemma leaked_forever: "th_step interval s s' \<Longrightarrow> leaked domain s \<Longrightarrow> leaked domain s'"
proof (induction rule: th_step.induct)
  case (wake s t d until)
  then show ?case unfolding leaked_def by (metis holds.simps(2) holds.simps(3) fun_upd_apply throttle.select_convs(4) throttle.select_convs(2) throttle.update_convs(4) throttle.surjective)
next
  case (release s t d start)
  have "holds (th_phase s t) d" using release(1) by simp
  then have "d \<noteq> domain" using release(2) by (auto simp: leaked_def)
  then show ?case using release by (auto simp: leaked_def released_def)
qed (auto simp: leaked_def acquired_def)

end
