(* ===== verification/AI.thy ===== *)
theory AI
  imports Database
begin

text \<open>
  Structured extraction by a model, \<open>src/infrastructure/ai/\<close> and the schema a model may answer
  with, \<open>src/core/schemas/extraction_output.py\<close>: the retries of
  \<open>openai_provider.py\<close> over an arbitrary sequence of answers of the API, and the two-phase
  extraction of \<open>chunked_extraction.py\<close> over an arbitrary provider. A provider returns instances
  of the schema it was asked for or raises; what the schemas constrain is \<open>discovery_ok\<close> and its
  companions.
\<close>

section \<open>The schema of a model's answer\<close>

record extracted_nutrition =
  xn_serving_size :: "string option"
  xn_macros :: macros
  xn_micronutrients :: micronutrients

text \<open>The float mirrors of \<open>Macros\<close> and \<open>Micronutrients\<close> have their fields one for one; a
  float is an exact rational here, as a decimal is.\<close>

record extracted_dish =
  xd_name :: string
  xd_description :: "string option"
  xd_image_url :: "string option"
  xd_nutrition :: extracted_nutrition
  xd_allergens :: "allergen list"
  xd_ingredient_names :: "string list"
  xd_quantity :: "string option"
  xd_price :: "rat option"
  xd_currency :: "string option"
  xd_confidence :: "rat option"
  xd_source_snapshot_ids :: "string list"

record extracted_category =
  xc_name :: string
  xc_dishes :: "extracted_dish list"

record extracted_menu =
  xm_name :: string
  xm_categories :: "extracted_category list"

record extracted_profile =
  xp_description :: "string option"
  xp_cuisine_types :: "string list"
  xp_logo_url :: "string option"
  xp_cover_image_url :: "string option"
  xp_confidence :: "rat option"
  xp_source_snapshot_ids :: "string list"

record extraction_output =
  xo_restaurant_profile :: extracted_profile
  xo_menus :: "extracted_menu list"

record category_stub =
  xs_menu_name :: string
  xs_category_name :: string

record discovery =
  xy_restaurant_profile :: extracted_profile
  xy_categories :: "category_stub list"

definition short_name :: "string \<Rightarrow> bool" where
  "short_name s \<longleftrightarrow> s \<noteq> [] \<and> length s \<le> 255"

definition extracted_dish_ok :: "extracted_dish \<Rightarrow> bool" where
  "extracted_dish_ok d \<longleftrightarrow> short_name (xd_name d) \<and> opt_len_ok 2000 (xd_description d)
     \<and> macros_ok (xn_macros (xd_nutrition d)) \<and> micronutrients_ok (xn_micronutrients (xd_nutrition d))
     \<and> opt_ge0 (xd_price d) \<and> (case xd_currency d of None \<Rightarrow> True | Some c \<Rightarrow> length c = 3)
     \<and> opt_between 0 1 (xd_confidence d)"

definition extracted_category_ok :: "extracted_category \<Rightarrow> bool" where
  "extracted_category_ok c \<longleftrightarrow> short_name (xc_name c) \<and> list_all extracted_dish_ok (xc_dishes c)"

definition extracted_menu_ok :: "extracted_menu \<Rightarrow> bool" where
  "extracted_menu_ok m \<longleftrightarrow> short_name (xm_name m) \<and> list_all extracted_category_ok (xm_categories m)"

definition profile_ok :: "extracted_profile \<Rightarrow> bool" where
  "profile_ok p \<longleftrightarrow> opt_len_ok 2000 (xp_description p) \<and> opt_between 0 1 (xp_confidence p)"

definition output_ok :: "extraction_output \<Rightarrow> bool" where
  "output_ok out \<longleftrightarrow> profile_ok (xo_restaurant_profile out) \<and> list_all extracted_menu_ok (xo_menus out)"

definition stub_ok :: "category_stub \<Rightarrow> bool" where
  "stub_ok st \<longleftrightarrow> short_name (xs_menu_name st) \<and> short_name (xs_category_name st)"

definition discovery_ok :: "discovery \<Rightarrow> bool" where
  "discovery_ok d \<longleftrightarrow> profile_ok (xy_restaurant_profile d) \<and> list_all stub_ok (xy_categories d)"

section \<open>The provider\<close>

record 'a provider_result =
  pr_output :: 'a
  pr_model_name :: string
  pr_overall_confidence :: "rat option"

text \<open>\<open>AIProvider.generate_structured\<close> for the two response models the program asks for, on a
  system prompt and the user content.\<close>

record ai_provider =
  ai_discover :: "string \<Rightarrow> string \<Rightarrow> exn + discovery provider_result"
  ai_category :: "string \<Rightarrow> string \<Rightarrow> exn + extracted_dish list provider_result"

subsection \<open>OpenAI: retries on a rate limit\<close>

definition max_rate_limit_retries :: nat where "max_rate_limit_retries = 5"
definition fallback_retry_after_seconds :: rat where "fallback_retry_after_seconds = 5"
definition max_retry_after_seconds :: rat where "max_retry_after_seconds = 60"

text \<open>\<open>float(s)\<close> on an optionally signed decimal numeral, nothing on any other string (the
  exponents, infinities and NaNs that \<open>float\<close> also reads are outside the model).\<close>

definition read_unsigned :: "string \<Rightarrow> rat option" where
  "read_unsigned s =
     (let whole = takeWhile (\<lambda>c. c \<noteq> CHR ''.'') s; frac = drop (Suc (length whole)) s in
      if list_all is_digit (whole @ frac) \<and> whole @ frac \<noteq> []
      then Some (of_nat (the (read_nat (whole @ frac))) / 10 ^ length frac) else None)"

definition read_float :: "string \<Rightarrow> rat option" where
  "read_float s =
     (case py_strip s of
        [] \<Rightarrow> None
      | c # cs \<Rightarrow> if c = CHR ''-'' then map_option uminus (read_unsigned cs)
                 else if c = CHR ''+'' then read_unsigned cs
                 else read_unsigned (c # cs))"

definition retry_after_seconds :: "(string \<times> string) list \<Rightarrow> rat" where
  "retry_after_seconds headers =
     (let seconds =
        (case map_of headers ''retry-after'' of
           Some v \<Rightarrow>
             (case read_float v of
                Some x \<Rightarrow> min x max_retry_after_seconds
              | None \<Rightarrow> fallback_retry_after_seconds)
         | None \<Rightarrow> fallback_retry_after_seconds)
      in case map_of headers ''retry-after-ms'' of
           Some v \<Rightarrow>
             (case read_float v of
                Some x \<Rightarrow> min (x / 1000) max_retry_after_seconds
              | None \<Rightarrow> seconds)
         | None \<Rightarrow> seconds)"

text \<open>What one API call does: a completion, given by its first choice if it has one, a rate limit, or
  another error.\<close>

record 'a choice =
  ch_refusal :: "string option"
  ch_parsed :: "'a option"

datatype 'a call_outcome =
    Completion "'a choice option"
  | RateLimitError "(string \<times> string) list" string
  | OpenAIError string

text \<open>\<open>_parse_with_rate_limit_retry\<close>: \<open>answers attempt\<close> is the outcome of the call of that
  number; the first component is the list of waits.\<close>

fun retry_from :: "(nat \<Rightarrow> 'a call_outcome) \<Rightarrow> nat \<Rightarrow> nat \<Rightarrow> rat list \<times> (exn + 'a choice option)" where
  "retry_from answers attempt left =
     (case answers attempt of
        Completion c \<Rightarrow> ([], Inr c)
      | OpenAIError e \<Rightarrow> ([], Inl (AIProviderError [Txt ''OpenAI request failed: '', Txt e]))
      | RateLimitError headers e \<Rightarrow>
          (case left of
             0 \<Rightarrow> ([], Inl (AIProviderError [Txt ''OpenAI request failed: '', Txt e]))
           | Suc n \<Rightarrow>
               (case retry_from answers (Suc attempt) n of
                  (waits, res) \<Rightarrow> (retry_after_seconds headers # waits, res))))"

declare retry_from.simps [simp del]

definition parse_with_rate_limit_retry :: "(nat \<Rightarrow> 'a call_outcome) \<Rightarrow> rat list \<times> (exn + 'a choice option)" where
  "parse_with_rate_limit_retry answers = retry_from answers 0 max_rate_limit_retries"

definition openai_generate_structured ::
  "string \<Rightarrow> (nat \<Rightarrow> 'a call_outcome) \<Rightarrow> rat list \<times> (exn + 'a provider_result)" where
  "openai_generate_structured model answers =
     (case parse_with_rate_limit_retry answers of
        (waits, Inl e) \<Rightarrow> (waits, Inl e)
      | (waits, Inr None) \<Rightarrow> (waits, Inl (AIProviderError [Txt ''OpenAI returned no choices'']))
      | (waits, Inr (Some choice)) \<Rightarrow>
          (waits,
           case ch_refusal choice of
             Some (r # rs) \<Rightarrow> Inl (AIProviderError [Txt ''Model refused to respond: '', Txt (r # rs)])
           | _ \<Rightarrow>
               (case ch_parsed choice of
                  None \<Rightarrow> Inl (AIProviderError [Txt ''OpenAI response did not include parsed structured output''])
                | Some parsed \<Rightarrow>
                    Inr \<lparr>pr_output = parsed, pr_model_name = model, pr_overall_confidence = None\<rparr>)))"

section \<open>Two-phase extraction\<close>

definition discovery_instruction :: string where
  "discovery_instruction =
     [CHR 0x0A, CHR 0x0A] @ ''First, identify the restaurant profile and the menu structure ''
     @ ''only: for every menu, list its categories by name. Do NOT list ''
     @ ''individual dishes yet - dish-level detail is requested separately, ''
     @ ''one category at a time.''"

definition category_instruction :: "category_stub \<Rightarrow> string" where
  "category_instruction st =
     [CHR 0x0A, CHR 0x0A] @ ''From the same source material, extract every dish that belongs ''
     @ ''specifically to the menu category '' @ [CHR 0x22] @ xs_category_name st @ [CHR 0x22] @ '' (part of ''
     @ [CHR 0x22] @ xs_menu_name st @ [CHR 0x22] @ ''). Only report dishes actually listed under this ''
     @ ''category - do not include dishes from other categories.''"

text \<open>\<open>menus\<close> and \<open>menu_order\<close>: the categories of each menu name, and the names in the order
  they first appear.\<close>

definition add_category ::
  "category_stub \<times> extracted_category
     \<Rightarrow> (string \<times> extracted_category list) list \<times> string list
     \<Rightarrow> (string \<times> extracted_category list) list \<times> string list" where
  "add_category p acc =
     (case (p, acc) of ((st, category), (menus, menu_order)) \<Rightarrow>
        (let name = xs_menu_name st;
             (menus, menu_order) =
               (if map_of menus name = None then (AList.update name [] menus, menu_order @ [name])
                else (menus, menu_order))
         in (AList.update name (the (map_of menus name) @ [category]) menus, menu_order)))"

definition assemble_menus :: "category_stub list \<Rightarrow> extracted_category list \<Rightarrow> extracted_menu list" where
  "assemble_menus stubs categories =
     (case fold add_category (zip stubs categories) ([], []) of (menus, menu_order) \<Rightarrow>
        map (\<lambda>name. \<lparr>xm_name = name, xm_categories = the (map_of menus name)\<rparr>) menu_order)"

text \<open>\<open>sum(reported) / len(reported)\<close>, only when every call reported a confidence.\<close>

definition overall_confidence :: "rat option list \<Rightarrow> rat option" where
  "overall_confidence confidences =
     (let reported = map the (filter (\<lambda>c. c \<noteq> None) confidences) in
      if reported \<noteq> [] \<and> length reported = length confidences
      then Some (sum_list reported / of_nat (length reported)) else None)"

text \<open>\<open>run_chunked_extraction\<close>. The calls per category run concurrently; when several fail, which
  of their errors is raised depends on timing, and the model takes the first in menu order.\<close>

definition run_chunked_extraction ::
  "ai_provider \<Rightarrow> string \<Rightarrow> string \<Rightarrow> exn + extraction_output provider_result" where
  "run_chunked_extraction provider system_prompt user_content =
     (case ai_discover provider (system_prompt @ discovery_instruction) user_content of
        Inl e \<Rightarrow> Inl e
      | Inr found \<Rightarrow>
          (let stubs = xy_categories (pr_output found) in
           case those_res (map (\<lambda>st. ai_category provider (system_prompt @ category_instruction st) user_content) stubs) of
             Inl e \<Rightarrow> Inl e
           | Inr results \<Rightarrow>
               (let categories = map (\<lambda>(st, r). \<lparr>xc_name = xs_category_name st, xc_dishes = pr_output r\<rparr>)
                      (zip stubs results)
                in Inr \<lparr>pr_output = \<lparr>xo_restaurant_profile = xy_restaurant_profile (pr_output found),
                                     xo_menus = assemble_menus stubs categories\<rparr>,
                        pr_model_name = pr_model_name found,
                        pr_overall_confidence =
                          overall_confidence (pr_overall_confidence found # map pr_overall_confidence results)\<rparr>)))"

section \<open>Bounds of the retries\<close>

lemma retry_after_le: "retry_after_seconds headers \<le> 60"
  by (auto simp: retry_after_seconds_def max_retry_after_seconds_def fallback_retry_after_seconds_def Let_def
      split: option.splits)

definition limited :: "'a call_outcome \<Rightarrow> bool" where
  "limited o' \<longleftrightarrow> (case o' of RateLimitError _ _ \<Rightarrow> True | _ \<Rightarrow> False)"

lemma retry_from_spec:
  assumes "retry_from answers attempt left = (waits, res)"
  shows "length waits \<le> left \<and> list_all (\<lambda>w. w \<le> 60) waits
    \<and> (\<forall>i < length waits. limited (answers (attempt + i)))
    \<and> (case answers (attempt + length waits) of
         Completion c \<Rightarrow> res = Inr c
       | OpenAIError e \<Rightarrow> res = Inl (AIProviderError [Txt ''OpenAI request failed: '', Txt e])
       | RateLimitError _ e \<Rightarrow> length waits = left \<and> res = Inl (AIProviderError [Txt ''OpenAI request failed: '', Txt e]))"
  using assms
proof (induction left arbitrary: attempt waits)
  case 0
  then show ?case by (subst (asm) retry_from.simps) (auto split: call_outcome.splits)
next
  case (Suc n)
  show ?case
  proof (cases "answers attempt")
    case (RateLimitError headers e)
    obtain ws where w: "retry_from answers (Suc attempt) n = (ws, res)" "waits = retry_after_seconds headers # ws"
      using Suc.prems RateLimitError by (subst (asm) retry_from.simps) (auto split: prod.splits)
    have "limited (answers (attempt + i))" if "i < length waits" for i
      using that Suc.IH [OF w(1)] RateLimitError w(2) by (cases i) (auto simp: limited_def)
    then show ?thesis using Suc.IH [OF w(1)] w(2) retry_after_le
      by (auto split: call_outcome.splits)
  next
    case (Completion c)
    then show ?thesis using Suc.prems by (subst (asm) retry_from.simps) auto
  next
    case (OpenAIError e)
    then show ?thesis using Suc.prems by (subst (asm) retry_from.simps) auto
  qed
qed

lemma sum_list_bounded: "list_all (\<lambda>w. w \<le> b) ws \<Longrightarrow> sum_list ws \<le> of_nat (length ws) * b" for b :: rat
  by (induction ws) (auto simp: algebra_simps)

text \<open>The retries are bounded and honest. Whatever the API answers, at most six calls are made,
  every wait is at most a minute and all of them together at most five; each wait follows a rate
  limit; and the outcome is that of the first call that is not rate limited, or the rate limit itself
  when the sixth call still is. No other error is ever retried.\<close>

theorem rate_limit_retries_bounded:
  "case parse_with_rate_limit_retry answers of (waits, res) \<Rightarrow>
     length waits \<le> 5 \<and> list_all (\<lambda>w. w \<le> 60) waits \<and> sum_list waits \<le> 300
     \<and> list_all (\<lambda>i. limited (answers i)) [0..<length waits]
     \<and> (case answers (length waits) of
          Completion c \<Rightarrow> res = Inr c
        | OpenAIError e \<Rightarrow> res = Inl (AIProviderError [Txt ''OpenAI request failed: '', Txt e])
        | RateLimitError _ e \<Rightarrow> length waits = 5
            \<and> res = Inl (AIProviderError [Txt ''OpenAI request failed: '', Txt e]))"
proof -
  obtain waits res where w: "retry_from answers 0 5 = (waits, res)" by (cases "retry_from answers 0 5")
  have s: "length waits \<le> 5" "list_all (\<lambda>w. w \<le> 60) waits" "\<forall>i < length waits. limited (answers i)"
    "case answers (length waits) of
         Completion c \<Rightarrow> res = Inr c
       | OpenAIError e \<Rightarrow> res = Inl (AIProviderError [Txt ''OpenAI request failed: '', Txt e])
       | RateLimitError _ e \<Rightarrow> length waits = 5 \<and> res = Inl (AIProviderError [Txt ''OpenAI request failed: '', Txt e])"
    using retry_from_spec [OF w] by simp_all
  have "sum_list waits \<le> of_nat (length waits) * 60" by (rule sum_list_bounded [OF s(2)])
  also have "\<dots> \<le> 300" using s(1) by simp
  finally have "sum_list waits \<le> 300" .
  then show ?thesis
    using s by (simp add: parse_with_rate_limit_retry_def max_rate_limit_retries_def w list_all_iff)
qed

section \<open>The assembly\<close>

lemma dict_fromkeys_from_append:
  "dict_fromkeys_from seen (xs @ [x]) =
     dict_fromkeys_from seen xs @ (if x \<in> set seen \<union> set xs then [] else [x])"
  by (induction xs arbitrary: seen) auto

lemma dict_fromkeys_append: "dict_fromkeys (xs @ [x]) = dict_fromkeys xs @ (if x \<in> set xs then [] else [x])"
  by (simp add: dict_fromkeys_def dict_fromkeys_from_append)

lemma fold_add_category:
  "case fold add_category ps ([], []) of (menus, menu_order) \<Rightarrow>
     menu_order = dict_fromkeys (map (\<lambda>p. xs_menu_name (fst p)) ps)
     \<and> (\<forall>name. map_of menus name =
          (if name \<in> set (map (\<lambda>p. xs_menu_name (fst p)) ps)
           then Some (map snd (filter (\<lambda>p. xs_menu_name (fst p) = name) ps)) else None))"
proof (induction ps rule: rev_induct)
  case Nil
  then show ?case by (simp add: dict_fromkeys_def)
next
  case (snoc p ps)
  obtain st c where p: "p = (st, c)" by (cases p)
  obtain menus menu_order where acc: "fold add_category ps ([], []) = (menus, menu_order)"
    by (cases "fold add_category ps ([], [])")
  have ih: "menu_order = dict_fromkeys (map (\<lambda>p. xs_menu_name (fst p)) ps)"
    "map_of menus name = (if name \<in> set (map (\<lambda>p. xs_menu_name (fst p)) ps)
       then Some (map snd (filter (\<lambda>p. xs_menu_name (fst p) = name) ps)) else None)" for name
    using snoc acc by auto
  have ps_none: "filter (\<lambda>p. xs_menu_name (fst p) = xs_menu_name st) ps = []"
    if "xs_menu_name st \<notin> set (map (\<lambda>p. xs_menu_name (fst p)) ps)"
    using that by (force simp: filter_empty_conv)
  show ?case
    unfolding fold_append comp_def acc
    using ps_none by (simp add: p acc add_category_def Let_def update_conv' ih dict_fromkeys_append)
qed

lemma assemble_menus_eq:
  "assemble_menus stubs categories =
     map (\<lambda>name. \<lparr>xm_name = name,
            xm_categories = map snd (filter (\<lambda>p. xs_menu_name (fst p) = name) (zip stubs categories))\<rparr>)
       (dict_fromkeys (map (\<lambda>p. xs_menu_name (fst p)) (zip stubs categories)))"
proof -
  obtain menus menu_order where acc: "fold add_category (zip stubs categories) ([], []) = (menus, menu_order)"
    by (cases "fold add_category (zip stubs categories) ([], [])")
  show ?thesis
    using fold_add_category [of "zip stubs categories"] unfolding assemble_menus_def acc prod.case
    by (intro map_cong) auto
qed

lemma those_res_Inl_iff: "(\<exists>e. those_res rs = Inl e) \<longleftrightarrow> (\<exists>e. Inl e \<in> set rs)"
proof -
  have "(\<exists>e. those_res rs = Inl e) \<longleftrightarrow> \<not> (\<exists>xs. those_res rs = Inr xs)"
    by (metis Inl_Inr_False sum.exhaust)
  also have "\<dots> \<longleftrightarrow> \<not> (\<exists>xs. rs = map Inr xs)" by (simp add: those_res_Inr_iff)
  also have "\<dots> \<longleftrightarrow> (\<exists>e. Inl e \<in> set rs)"
    unfolding ex_map_conv by (metis sum.exhaust Inl_Inr_False)
  finally show ?thesis .
qed

text \<open>The two phases are all or nothing: extraction fails exactly when the discovery call or the
  call for some discovered category fails, so no partial menu is ever assembled.\<close>

theorem extraction_all_or_nothing:
  "(\<exists>e. run_chunked_extraction provider sys content = Inl e) \<longleftrightarrow>
     (\<exists>e. ai_discover provider (sys @ discovery_instruction) content = Inl e)
     \<or> (\<exists>found. ai_discover provider (sys @ discovery_instruction) content = Inr found
          \<and> (\<exists>st \<in> set (xy_categories (pr_output found)). \<exists>e.
                ai_category provider (sys @ category_instruction st) content = Inl e))"
proof (cases "ai_discover provider (sys @ discovery_instruction) content")
  case (Inl e)
  then show ?thesis by (simp add: run_chunked_extraction_def)
next
  case (Inr found)
  have "(\<exists>e. run_chunked_extraction provider sys content = Inl e) \<longleftrightarrow>
      (\<exists>e. those_res (map (\<lambda>st. ai_category provider (sys @ category_instruction st) content)
              (xy_categories (pr_output found))) = Inl e)"
    using Inr by (auto simp: run_chunked_extraction_def Let_def split: sum.splits)
  moreover have "(\<exists>e. Inl e \<in> set (map f xs)) \<longleftrightarrow> (\<exists>x \<in> set xs. \<exists>e. f x = Inl e)"
    for f :: "category_stub \<Rightarrow> exn + extracted_dish list provider_result" and xs
  proof
    assume "\<exists>e. Inl e \<in> set (map f xs)"
    then obtain e where "Inl e \<in> f ` set xs" by auto
    then show "\<exists>x \<in> set xs. \<exists>e. f x = Inl e" by (metis imageE)
  next
    assume "\<exists>x \<in> set xs. \<exists>e. f x = Inl e"
    then show "\<exists>e. Inl e \<in> set (map f xs)" by (metis image_eqI set_map)
  qed
  ultimately show ?thesis using Inr unfolding those_res_Inl_iff by simp
qed

lemma run_chunked_extraction_Inr:
  assumes "run_chunked_extraction provider sys content = Inr res"
  shows "\<exists>found results. ai_discover provider (sys @ discovery_instruction) content = Inr found
    \<and> list_all2 (\<lambda>st r. ai_category provider (sys @ category_instruction st) content = Inr r)
        (xy_categories (pr_output found)) results
    \<and> pr_output res =
        \<lparr>xo_restaurant_profile = xy_restaurant_profile (pr_output found),
         xo_menus = assemble_menus (xy_categories (pr_output found))
           (map (\<lambda>(st, r). \<lparr>xc_name = xs_category_name st, xc_dishes = pr_output r\<rparr>)
              (zip (xy_categories (pr_output found)) results))\<rparr>
    \<and> pr_overall_confidence res =
        overall_confidence (pr_overall_confidence found # map pr_overall_confidence results)"
proof -
  obtain found where f: "ai_discover provider (sys @ discovery_instruction) content = Inr found"
    using assms by (auto simp: run_chunked_extraction_def split: sum.splits)
  obtain results where r: "those_res (map (\<lambda>st. ai_category provider (sys @ category_instruction st) content)
      (xy_categories (pr_output found))) = Inr results"
    using assms f by (auto simp: run_chunked_extraction_def Let_def split: sum.splits)
  then have "map (\<lambda>st. ai_category provider (sys @ category_instruction st) content)
      (xy_categories (pr_output found)) = map Inr results" by (simp add: those_res_Inr_iff)
  then have "list_all2 (\<lambda>st r. ai_category provider (sys @ category_instruction st) content = Inr r)
      (xy_categories (pr_output found)) results"
    by (auto simp: list_all2_conv_all_nth list_eq_iff_nth_eq)
  then show ?thesis using assms f r by (auto simp: run_chunked_extraction_def Let_def)
qed

text \<open>C36: The assembled menu is exactly what was discovered and extracted: the menus are the distinct
  menu names of the discovery in the order they first appear, and the categories of each are those
  discovered under its name, in order, each with the dishes its own call returned.\<close>

theorem extraction_assembly_exact:
  assumes "run_chunked_extraction provider sys content = Inr res"
  shows "\<exists>found results. ai_discover provider (sys @ discovery_instruction) content = Inr found
    \<and> list_all2 (\<lambda>st r. ai_category provider (sys @ category_instruction st) content = Inr r)
        (xy_categories (pr_output found)) results
    \<and> xo_menus (pr_output res) =
        map (\<lambda>name. \<lparr>xm_name = name, xm_categories =
              map (\<lambda>(st, r). \<lparr>xc_name = xs_category_name st, xc_dishes = pr_output r\<rparr>)
                (filter (\<lambda>(st, r). xs_menu_name st = name) (zip (xy_categories (pr_output found)) results))\<rparr>)
          (dict_fromkeys (map xs_menu_name (xy_categories (pr_output found))))"
proof -
  obtain found results where h:
    "ai_discover provider (sys @ discovery_instruction) content = Inr found"
    "list_all2 (\<lambda>st r. ai_category provider (sys @ category_instruction st) content = Inr r)
        (xy_categories (pr_output found)) results"
    "pr_output res =
        \<lparr>xo_restaurant_profile = xy_restaurant_profile (pr_output found),
         xo_menus = assemble_menus (xy_categories (pr_output found))
           (map (\<lambda>(st, r). \<lparr>xc_name = xs_category_name st, xc_dishes = pr_output r\<rparr>)
              (zip (xy_categories (pr_output found)) results))\<rparr>"
    using run_chunked_extraction_Inr [OF assms] by blast
  let ?stubs = "xy_categories (pr_output found)"
  let ?cat = "\<lambda>(st, r :: extracted_dish list provider_result).
      \<lparr>xc_name = xs_category_name st, xc_dishes = pr_output r\<rparr>"
  have len: "length ?stubs = length results" using h(2) by (rule list_all2_lengthD)
  have z: "zip ?stubs (map ?cat (zip ?stubs results)) = map (\<lambda>p. (fst p, ?cat p)) (zip ?stubs results)"
    by (rule nth_equalityI) (auto simp: len)
  have names: "map (\<lambda>p. xs_menu_name (fst p)) (zip ?stubs (map ?cat (zip ?stubs results))) = map xs_menu_name ?stubs"
    using len by (intro nth_equalityI) auto
  have cats: "map snd (filter (\<lambda>p. xs_menu_name (fst p) = name) (zip ?stubs (map ?cat (zip ?stubs results))))
      = map ?cat (filter (\<lambda>(st, r). xs_menu_name st = name) (zip ?stubs results))" for name
    unfolding z by (simp add: filter_map comp_def case_prod_unfold)
  show ?thesis
    using h(1,2) unfolding h(3) by (intro exI conjI) (auto simp: assemble_menus_eq names cats)
qed

definition empty_profile :: extracted_profile where
  "empty_profile = \<lparr>xp_description = None, xp_cuisine_types = [], xp_logo_url = None,
     xp_cover_image_url = None, xp_confidence = None, xp_source_snapshot_ids = []\<rparr>"

definition sample_extracted_dish :: extracted_dish where
  "sample_extracted_dish = \<lparr>xd_name = ''Soup'', xd_description = None, xd_image_url = None,
     xd_nutrition = \<lparr>xn_serving_size = None, xn_macros = empty_macros, xn_micronutrients = empty_micronutrients\<rparr>,
     xd_allergens = [], xd_ingredient_names = [''leek'', '' ''], xd_quantity = None, xd_price = Some 5,
     xd_currency = None, xd_confidence = None, xd_source_snapshot_ids = []\<rparr>"

definition sample_ai :: ai_provider where
  "sample_ai = \<lparr>ai_discover = (\<lambda>_ _. Inr \<lparr>pr_output = \<lparr>xy_restaurant_profile = empty_profile,
        xy_categories = [\<lparr>xs_menu_name = ''Lunch'', xs_category_name = ''Soups''\<rparr>,
          \<lparr>xs_menu_name = ''Dinner'', xs_category_name = ''Mains''\<rparr>,
          \<lparr>xs_menu_name = ''Lunch'', xs_category_name = ''Salads''\<rparr>]\<rparr>,
        pr_model_name = ''m'', pr_overall_confidence = Some 1\<rparr>),
      ai_category = (\<lambda>_ _. Inr \<lparr>pr_output = [sample_extracted_dish], pr_model_name = ''m'',
        pr_overall_confidence = Some (1/2)\<rparr>)\<rparr>"

theorem extraction_assembly_exact_witness:
  "\<exists>res. run_chunked_extraction sample_ai [] [] = Inr res
     \<and> map xm_name (xo_menus (pr_output res)) = [''Lunch'', ''Dinner'']"
proof -
  have "\<exists>res. run_chunked_extraction sample_ai [] [] = Inr res"
    by (simp add: run_chunked_extraction_def sample_ai_def)
  then obtain res where r: "run_chunked_extraction sample_ai [] [] = Inr res" by blast
  show ?thesis
    using extraction_assembly_exact [OF r] r
    by (auto simp: sample_ai_def dict_fromkeys_def comp_def)
qed

end
