(* ===== verification/Translation.thy ===== *)
theory Translation
  imports AI Fetch
begin

text \<open>
  From a model's answer to a restaurant: the mapping functions of
  \<open>src/workflows/collector_workflow/nodes/multimodal_translation.py\<close>, which the reviewer's
  re-extraction shares, and the material that is sent. A constructor call validates its arguments as
  \<open>model_validate\<close> does, so it is the validator on the same fields; every constructed object takes
  the next identifier of a supply that is threaded through.
\<close>

section \<open>Mapping\<close>

fun mapM :: "('a \<Rightarrow> uuid \<Rightarrow> exn + 'b \<times> uuid) \<Rightarrow> 'a list \<Rightarrow> uuid \<Rightarrow> exn + 'b list \<times> uuid" where
  "mapM f [] n = Inr ([], n)"
| "mapM f (x # xs) n =
     (case f x n of
        Inl e \<Rightarrow> Inl e
      | Inr (y, n') \<Rightarrow>
          (case mapM f xs n' of Inl e \<Rightarrow> Inl e | Inr (ys, n'') \<Rightarrow> Inr (y # ys, n'')))"

definition construct :: "'a vres \<Rightarrow> exn + 'a" where
  "construct r = (case r of Inl es \<Rightarrow> Inl (ValidationError es) | Inr x \<Rightarrow> Inr x)"

definition map_ingredients :: "string list \<Rightarrow> exn + ingredient list" where
  "map_ingredients names =
     those_res (map (\<lambda>name. construct (v_ingredient [] (JObj [(''name'', JStr name)])))
       (filter (\<lambda>name. py_strip name \<noteq> []) names))"

text \<open>\<open>_map_dish\<close>: the nutrition, whose fields the answer's schema already bounds, first, then the
  ingredients, then the dish.\<close>

definition map_dish :: "uuid \<Rightarrow> extracted_dish \<Rightarrow> uuid \<Rightarrow> exn + dish \<times> uuid" where
  "map_dish category_id extracted n =
     (let x = xd_nutrition extracted;
          nutrition = \<lparr>n_serving_size = xn_serving_size x, n_macros = xn_macros x,
            n_micronutrients = xn_micronutrients x\<rparr>
      in case construct (v_nutrition [] (dump_nutrition nutrition)) of
           Inl e \<Rightarrow> Inl e
         | Inr nutrition \<Rightarrow>
             (case map_ingredients (xd_ingredient_names extracted) of
                Inl e \<Rightarrow> Inl e
              | Inr ingredients \<Rightarrow>
                  (case construct (v_dish (\<lambda>_. n) [] (JObj
                     [(''category_id'', JStr (uuid_str category_id)),
                      (''name'', JStr (xd_name extracted)),
                      (''description'', j_opt JStr (xd_description extracted)),
                      (''image_url'', j_opt JStr (xd_image_url extracted)),
                      (''nutrition'', dump_nutrition nutrition),
                      (''allergens'', JList (map (\<lambda>a. JStr (allergen_value a)) (xd_allergens extracted))),
                      (''ingredients'', JList (map dump_ingredient ingredients)),
                      (''quantity'', j_opt JStr (xd_quantity extracted)),
                      (''price'', j_opt JFloat (xd_price extracted)),
                      (''currency'', JStr (case xd_currency extracted of
                          None \<Rightarrow> ''USD'' | Some c \<Rightarrow> if c = [] then ''USD'' else c))])) of
                     Inl e \<Rightarrow> Inl e
                   | Inr d \<Rightarrow> Inr (d, Suc n))))"

text \<open>\<open>_map_category\<close>: the dishes are assigned after construction.\<close>

definition map_category :: "extracted_category \<Rightarrow> uuid \<Rightarrow> exn + menu_category \<times> uuid" where
  "map_category extracted n =
     (case construct (v_category (\<lambda>_. n) [] (JObj [(''name'', JStr (xc_name extracted))])) of
        Inl e \<Rightarrow> Inl e
      | Inr category \<Rightarrow>
          (case mapM (map_dish (mc_id category)) (xc_dishes extracted) (Suc n) of
             Inl e \<Rightarrow> Inl e
           | Inr (dishes, n') \<Rightarrow>
               Inr (MenuCategory (mc_id category) (mc_name category) (mc_display_order category)
                      (mc_children category) dishes, n')))"

definition map_menu :: "extracted_menu \<Rightarrow> uuid \<Rightarrow> exn + menu \<times> uuid" where
  "map_menu m n =
     (case mapM map_category (xm_categories m) n of
        Inl e \<Rightarrow> Inl e
      | Inr (categories, n') \<Rightarrow>
          (case construct (v_name ''Menu name cannot be blank'' 255 [LKey ''name''] (JStr (xm_name m))) of
             Inl e \<Rightarrow> Inl e
           | Inr name \<Rightarrow> Inr (\<lparr>me_id = n', me_name = name, me_categories = categories\<rparr>, Suc n')))"

text \<open>\<open>x or y\<close> on optional strings.\<close>

definition or_else :: "string option \<Rightarrow> string option \<Rightarrow> string option" where
  "or_else x y = (case x of None \<Rightarrow> y | Some s \<Rightarrow> if s = [] then y else x)"

text \<open>\<open>_map_to_restaurant\<close>: a \<open>model_copy\<close> with new fields, which is not validated.\<close>

definition map_to_restaurant :: "extraction_output \<Rightarrow> restaurant \<Rightarrow> uuid \<Rightarrow> exn + restaurant \<times> uuid" where
  "map_to_restaurant out base n =
     (let profile = xo_restaurant_profile out in
      case mapM map_menu (xo_menus out) n of
        Inl e \<Rightarrow> Inl e
      | Inr (menus, n') \<Rightarrow>
          Inr (base\<lparr>r_description := or_else (xp_description profile) (r_description base),
                    r_cuisine_types := if xp_cuisine_types profile = [] then r_cuisine_types base
                                       else xp_cuisine_types profile,
                    r_logo_url := or_else (xp_logo_url profile) (r_logo_url base),
                    r_cover_image_url := or_else (xp_cover_image_url profile) (r_cover_image_url base),
                    r_menus := menus\<rparr>, n'))"

section \<open>The material\<close>

definition max_snapshot_chars :: nat where "max_snapshot_chars = 20000"

text \<open>\<open>_read_text_materials\<close>: the HTML snapshots with their text; a file that cannot be read
  raises. The text of a capture is its bytes here.\<close>

fun read_text_materials :: "files \<Rightarrow> snapshot list \<Rightarrow> exn + (snapshot \<times> string) list" where
  "read_text_materials fs [] = Inr []"
| "read_text_materials fs (sn # sns) =
     (if sn_content_type sn \<noteq> HTML then read_text_materials fs sns
      else
       (case storage_read (sn_storage_path sn) fs of
          None \<Rightarrow> Inl (OtherError [Txt ''No such file''])
        | Some content \<Rightarrow>
            (case read_text_materials fs sns of
               Inl e \<Rightarrow> Inl e | Inr ms \<Rightarrow> Inr ((sn, content) # ms))))"

definition build_user_content :: "(snapshot \<times> string) list \<Rightarrow> string" where
  "build_user_content materials =
     py_join ([CHR 0x0A, CHR 0x0A] @ ''---'' @ [CHR 0x0A, CHR 0x0A])
       (map (\<lambda>(sn, txt). ''[snapshot:'' @ uuid_str (sn_id sn) @ '']'' @ [CHR 0x0A]
          @ take max_snapshot_chars txt) materials)"

section \<open>What the mapping guarantees\<close>

lemma construct_Inr: "construct r = Inr x \<longleftrightarrow> r = Inr x"
  by (auto simp: construct_def split: sum.splits)

lemma v_dish_fields:
  assumes "v_dish uu loc (JObj kvs) = Inr d"
  shows "v_id uu kvs loc = Inr (d_id d)"
    and "fld kvs loc ''category_id'' (required loc ''category_id'') v_uuid = Inr (d_category_id d)"
    and "fld kvs loc ''name'' (required loc ''name'') (v_name ''Dish name cannot be blank'' 255) = Inr (d_name d)"
    and "opt_dec kvs loc ''price'' = Inr (d_price d)"
    and "fld kvs loc ''review_state'' (Inr PENDING) v_review_state = Inr (d_review_state d)"
proof -
  obtain kvs' where k: "JObj kvs = JObj kvs'" and v: "vap (vap (vap (vap (vap (vap (vap (vap (vap (vap (vap (vmap dish.make
       (v_id uu kvs' loc))
       (fld kvs' loc ''category_id'' (required loc ''category_id'') v_uuid))
       (fld kvs' loc ''name'' (required loc ''name'') (v_name ''Dish name cannot be blank'' 255)))
       (fld kvs' loc ''description'' (Inr None) (v_opt (v_str_len 0 2000))))
       (opt_str kvs' loc ''image_url''))
       (fld kvs' loc ''nutrition'' (Inr empty_nutrition) v_nutrition))
       (fld kvs' loc ''allergens'' (Inr []) (\<lambda>l x. vmap dict_fromkeys (v_list v_allergen l x))))
       (fld kvs' loc ''ingredients'' (Inr []) (v_list v_ingredient)))
       (opt_str kvs' loc ''quantity''))
       (opt_dec kvs' loc ''price''))
       (fld kvs' loc ''currency'' (Inr ''USD'') (v_str_len 3 3)))
       (fld kvs' loc ''review_state'' (Inr PENDING) v_review_state) = Inr d"
    using v_model_Inr [OF assms [unfolded v_dish_def]] by blast
  have kk: "kvs' = kvs" using k by simp
  show "v_id uu kvs loc = Inr (d_id d)"
    "fld kvs loc ''category_id'' (required loc ''category_id'') v_uuid = Inr (d_category_id d)"
    "fld kvs loc ''name'' (required loc ''name'') (v_name ''Dish name cannot be blank'' 255) = Inr (d_name d)"
    "opt_dec kvs loc ''price'' = Inr (d_price d)"
    "fld kvs loc ''review_state'' (Inr PENDING) v_review_state = Inr (d_review_state d)"
    using v unfolding kk vap_Inr_iff vmap_Inr_iff by (elim exE conjE, simp add: dish.make_def)+
qed

lemma v_name_Inr: "v_name msg hi loc (JStr s) = Inr x \<Longrightarrow> x = py_strip s"
  by (auto simp: v_name_def v_str_len_def v_str_def vthen_Inr_iff strip_and_require_non_blank_def Let_def
      split: if_splits)

lemma v_opt_dec_float: "v_opt v_dec_ge0 loc (j_opt JFloat p) = Inr q \<Longrightarrow> q = p"
  by (cases p) (auto simp: v_opt_def j_opt_def vmap_Inr_iff v_dec_ge0_def split: if_splits)

lemma map_dish_Inr:
  assumes "map_dish cid x n = Inr (d, n')"
  shows "d_id d = n \<and> d_category_id d = cid \<and> dish_ok d \<and> n' = Suc n \<and> d_price d = xd_price x
    \<and> d_review_state d = PENDING \<and> d_name d = py_strip (xd_name x)"
proof -
  obtain nutrition ingredients where v: "v_dish (\<lambda>_. n) [] (JObj
                     [(''category_id'', JStr (uuid_str cid)),
                      (''name'', JStr (xd_name x)),
                      (''description'', j_opt JStr (xd_description x)),
                      (''image_url'', j_opt JStr (xd_image_url x)),
                      (''nutrition'', dump_nutrition nutrition),
                      (''allergens'', JList (map (\<lambda>a. JStr (allergen_value a)) (xd_allergens x))),
                      (''ingredients'', JList (map dump_ingredient ingredients)),
                      (''quantity'', j_opt JStr (xd_quantity x)),
                      (''price'', j_opt JFloat (xd_price x)),
                      (''currency'', JStr (case xd_currency x of
                          None \<Rightarrow> ''USD'' | Some c \<Rightarrow> if c = [] then ''USD'' else c))]) = Inr d"
    and n': "n' = Suc n"
    using assms by (auto simp: map_dish_def Let_def construct_Inr split: sum.splits)
  have ok: "dish_ok d" by (rule vallD [OF vall_v_dish v])
  have "d_id d = n" using v_dish_fields(1) [OF v] by (simp add: v_id_def fld_def)
  moreover have "d_category_id d = cid" using v_dish_fields(2) [OF v] by (simp add: fld_def v_uuid_dump)
  moreover have "d_name d = py_strip (xd_name x)"
    using v_dish_fields(3) [OF v] by (auto simp: fld_def dest: v_name_Inr)
  moreover have "d_price d = xd_price x"
    using v_dish_fields(4) [OF v] by (auto simp: opt_dec_def fld_def dest: v_opt_dec_float)
  moreover have "d_review_state d = PENDING"
    using v_dish_fields(5) [OF v] by (simp add: fld_def)
  ultimately show ?thesis using ok n' by simp
qed

lemma mapM_spec:
  assumes "\<And>x n y n'. f x n = Inr (y, n') \<Longrightarrow> n \<le> n' \<and> distinct (I y) \<and> set (I y) \<subseteq> {n..<n'} \<and> R x y"
    and "mapM f xs n = Inr (ys, n')"
  shows "n \<le> n' \<and> distinct (concat (map I ys)) \<and> set (concat (map I ys)) \<subseteq> {n..<n'} \<and> list_all2 R xs ys"
  using assms(2)
proof (induction xs arbitrary: n ys)
  case Nil
  then show ?case by simp
next
  case (Cons x xs)
  obtain y n1 where f: "f x n = Inr (y, n1)" using Cons.prems by (auto split: sum.splits)
  obtain zs where g: "mapM f xs n1 = Inr (zs, n')" "ys = y # zs"
    using Cons.prems f by (auto split: sum.splits)
  have h: "n \<le> n1" "distinct (I y)" "set (I y) \<subseteq> {n..<n1}" "R x y" using assms(1) [OF f] by auto
  have t: "n1 \<le> n'" "distinct (concat (map I zs))" "set (concat (map I zs)) \<subseteq> {n1..<n'}" "list_all2 R xs zs"
    using Cons.IH [OF g(1)] by auto
  have "set (I y) \<inter> set (concat (map I zs)) = {}" using h(3) t(3) by fastforce
  then show ?case using h t g(2) by fastforce
qed

definition category_ids :: "menu_category \<Rightarrow> uuid list" where
  "category_ids c = mc_id c # map d_id (mc_dishes c)"

definition menu_ids :: "menu \<Rightarrow> uuid list" where
  "menu_ids m = concat (map category_ids (me_categories m)) @ [me_id m]"

text \<open>An instance built from an extracted dish, category or menu, part by part.\<close>

definition built_dish :: "uuid \<Rightarrow> extracted_dish \<Rightarrow> dish \<Rightarrow> bool" where
  "built_dish cid x d \<longleftrightarrow> d_category_id d = cid \<and> dish_ok d \<and> d_price d = xd_price x
     \<and> d_review_state d = PENDING \<and> d_name d = py_strip (xd_name x)"

definition built_category :: "extracted_category \<Rightarrow> menu_category \<Rightarrow> bool" where
  "built_category x c \<longleftrightarrow> category_ok c \<and> mc_name c = py_strip (xc_name x) \<and> mc_children c = []
     \<and> list_all2 (built_dish (mc_id c)) (xc_dishes x) (mc_dishes c)"

definition built_menu :: "extracted_menu \<Rightarrow> menu \<Rightarrow> bool" where
  "built_menu x m \<longleftrightarrow> menu_ok m \<and> me_name m = py_strip (xm_name x)
     \<and> list_all2 built_category (xm_categories x) (me_categories m)"

lemma v_category_new:
  assumes "v_category (\<lambda>_. n) [] (JObj [(''name'', JStr s)]) = Inr c"
  shows "c = MenuCategory n (py_strip s) 0 [] [] \<and> name_ok 255 (py_strip s)"
proof -
  obtain kvs where k: "JObj [(''name'', JStr s)] = JObj kvs" and v: "vap (vap (vap (vap (vmap MenuCategory
       (v_id (\<lambda>_. n) kvs []))
       (fld kvs [] ''name'' (required [] ''name'') (v_name ''Category name cannot be blank'' 255)))
       (fld kvs [] ''display_order'' (Inr 0) v_int))
       (fld kvs [] ''children'' (Inr []) (\<lambda>l x. v_list (\<lambda>l' c. v_category (\<lambda>_. n) l' c) l x)))
       (fld kvs [] ''dishes'' (Inr []) (v_list (v_dish (\<lambda>_. n)))) = Inr c"
    using v_model_Inr [OF assms [unfolded v_category.simps [of "\<lambda>_. n" "[]" "JObj [(''name'', JStr s)]"]]] by blast
  then obtain name where name: "v_name ''Category name cannot be blank'' 255 [LKey ''name''] (JStr s) = Inr name"
    and c: "c = MenuCategory n name 0 [] []"
    by (auto simp: vap_Inr_iff vmap_Inr_iff v_id_def fld_def)
  show ?thesis using c v_name_Inr [OF name] vallD [OF vall_v_name name] by simp
qed

lemma map_category_spec:
  assumes "map_category x n = Inr (c, n')"
  shows "n \<le> n' \<and> distinct (category_ids c) \<and> set (category_ids c) \<subseteq> {n..<n'} \<and> built_category x c"
proof -
  obtain c0 dishes where c0: "v_category (\<lambda>_. n) [] (JObj [(''name'', JStr (xc_name x))]) = Inr c0"
    and m: "mapM (map_dish (mc_id c0)) (xc_dishes x) (Suc n) = Inr (dishes, n')"
    and c: "c = MenuCategory (mc_id c0) (mc_name c0) (mc_display_order c0) (mc_children c0) dishes"
    using assms by (auto simp: map_category_def construct_Inr split: sum.splits)
  have e: "c0 = MenuCategory n (py_strip (xc_name x)) 0 [] []" "name_ok 255 (py_strip (xc_name x))"
    using v_category_new [OF c0] by auto
  have "Suc n \<le> n' \<and> distinct (concat (map (\<lambda>d. [d_id d]) dishes))
      \<and> set (concat (map (\<lambda>d. [d_id d]) dishes)) \<subseteq> {Suc n..<n'}
      \<and> list_all2 (built_dish n) (xc_dishes x) dishes"
    by (rule mapM_spec [OF _ m]) (auto simp: built_dish_def e(1) dest!: map_dish_Inr)
  moreover have "concat (map (\<lambda>d. [d_id d]) dishes) = map d_id dishes" by (induction dishes) auto
  ultimately have d: "Suc n \<le> n'" "distinct (map d_id dishes)" "set (map d_id dishes) \<subseteq> {Suc n..<n'}"
    "list_all2 (built_dish n) (xc_dishes x) dishes"
    by auto
  have "list_all dish_ok dishes"
    using d(4) by (auto simp: list_all_iff in_set_conv_nth list_all2_conv_all_nth built_dish_def)
  then show ?thesis
    using d e by (auto simp: c category_ids_def built_category_def)
qed

lemma map_menu_spec:
  assumes "map_menu x n = Inr (m, n')"
  shows "n \<le> n' \<and> distinct (menu_ids m) \<and> set (menu_ids m) \<subseteq> {n..<n'} \<and> built_menu x m"
proof -
  obtain cs n1 name where m: "mapM map_category (xm_categories x) n = Inr (cs, n1)"
    and name: "v_name ''Menu name cannot be blank'' 255 [LKey ''name''] (JStr (xm_name x)) = Inr name"
    and e: "m = \<lparr>me_id = n1, me_name = name, me_categories = cs\<rparr>" "n' = Suc n1"
    using assms by (auto simp: map_menu_def construct_Inr split: sum.splits)
  have c: "n \<le> n1" "distinct (concat (map category_ids cs))" "set (concat (map category_ids cs)) \<subseteq> {n..<n1}"
    "list_all2 built_category (xm_categories x) cs"
    using mapM_spec [OF map_category_spec m] by auto
  have "list_all category_ok cs"
    using c(4) by (auto simp: list_all_iff in_set_conv_nth list_all2_conv_all_nth built_category_def)
  moreover have "distinct (menu_ids m)" "set (menu_ids m) \<subseteq> {n..<n'}"
    using c e by (force simp: menu_ids_def)+
  moreover have "name_ok 255 name" using vallD [OF vall_v_name name] .
  ultimately show ?thesis
    using c(1,4) v_name_Inr [OF name] by (auto simp: e built_menu_def menu_ok_def)
qed


definition sample_output :: extraction_output where
  "sample_output = \<lparr>xo_restaurant_profile = empty_profile,
     xo_menus = [\<lparr>xm_name = ''Lunch'', xm_categories =
       [\<lparr>xc_name = ''Soups'', xc_dishes = [sample_extracted_dish]\<rparr>]\<rparr>]\<rparr>"

lemma sample_output_ok: "output_ok sample_output"
  by (simp add: output_ok_def sample_output_def profile_ok_def empty_profile_def extracted_menu_ok_def
      extracted_category_ok_def extracted_dish_ok_def sample_extracted_dish_def short_name_def
      macros_ok_def micronutrients_ok_def empty_macros_def empty_micronutrients_def opt_ge0_def
      opt_len_ok_def opt_between_def)

lemma sample_map: "\<exists>r. map_to_restaurant sample_output sample_restaurant 100 = Inr (r, 103)"
proof -
  have "case map_to_restaurant sample_output sample_restaurant 100 of
      Inr (r, n) \<Rightarrow> n = 103 | Inl _ \<Rightarrow> False"
    by code_simp
  then show ?thesis by (auto split: sum.splits)
qed


end
