(* ===== verification/Capture.thy ===== *)
theory Capture
  imports Fetch
begin

text \<open>
  Capturing the source material of a restaurant: the page fetchers and
  \<open>_capture_source_material\<close> of \<open>src/workflows/collector_workflow/nodes/extraction.py\<close>, with
  the rendered fetch of \<open>src/infrastructure/crawler/browser_fetcher.py\<close>. A capture runs in an
  environment that keeps the identifier supply, the clock, the files and the requests made so far,
  also when it fails.
\<close>

section \<open>Captures\<close>

record capture =
  cp_snapshot :: snapshot
  cp_html :: "string option"

record cap_env =
  ce_next :: uuid
  ce_now :: timestamp
  ce_files :: files
  ce_requests :: "request list"

type_synonym 'a cap = "cap_env \<Rightarrow> (exn + 'a) \<times> cap_env"

definition cap_return :: "'a \<Rightarrow> 'a cap" where
  "cap_return x env = (Inr x, env)"

definition cap_fail :: "exn \<Rightarrow> 'a cap" where
  "cap_fail e env = (Inl e, env)"

definition cap_bind :: "'a cap \<Rightarrow> ('a \<Rightarrow> 'b cap) \<Rightarrow> 'b cap" where
  "cap_bind m f env =
     (case m env of (Inl e, env') \<Rightarrow> (Inl e, env') | (Inr x, env') \<Rightarrow> f x env')"

text \<open>The protocol \<open>PageFetcher\<close>, as far as the node uses it.\<close>

record page_fetcher =
  pf_html_or_pdf :: "uuid \<Rightarrow> string \<Rightarrow> capture cap"
  pf_rendered :: "uuid \<Rightarrow> string \<Rightarrow> capture cap"

definition read_html_if_any :: "snapshot \<Rightarrow> files \<Rightarrow> string option" where
  "read_html_if_any sn fs = (if sn_content_type sn \<noteq> HTML then None else storage_read (sn_storage_path sn) fs)"

text \<open>\<open>BrowserFetcher.fetch_rendered_html\<close>: the browser answers with the rendered page and a
  status, or fails. The rendered fetch checks the domain only, not the addresses.\<close>

type_synonym browser = "string \<Rightarrow> (string \<times> nat option) option"

definition fetch_rendered_html :: "browser \<Rightarrow> string \<Rightarrow> string \<Rightarrow> request list \<times> (fetch_error + fetch_result)" where
  "fetch_rendered_html browse verified url =
     (if \<not> is_allowed verified url then ([], Inl DomainNotAllowedError)
      else (case browse url of
              None \<Rightarrow> ([Render url], Inl TransportFailure)
            | Some (html, status) \<Rightarrow>
                ([Render url], Inr \<lparr>fr_url = url, fr_content_type = HTML, fr_content = html,
                   fr_http_status = status, fr_content_length_bytes = length html\<rparr>)))"

text \<open>Storing what a fetch returned, in the environment.\<close>

definition capture_fetched ::
  "(string \<Rightarrow> string) \<Rightarrow> string list \<Rightarrow> uuid \<Rightarrow> request list \<times> (fetch_error + fetch_result) \<Rightarrow> capture cap" where
  "capture_fetched sha base source_id fetched env =
     (let env' = env\<lparr>ce_requests := ce_requests env @ fst fetched\<rparr> in
      case snd fetched of
        Inl e \<Rightarrow> (Inl (OtherError [Txt (fetch_error_name e)]), env')
      | Inr result \<Rightarrow>
          (case store_snapshot sha base source_id result (ce_next env) (ce_now env) (ce_files env) of
             Inl e \<Rightarrow> (Inl e, env')
           | Inr (sn, fs) \<Rightarrow>
               (Inr \<lparr>cp_snapshot = sn, cp_html = read_html_if_any sn fs\<rparr>,
                env'\<lparr>ce_next := Suc (ce_next env), ce_files := fs\<rparr>)))"

text \<open>\<open>CrawlerServicePageFetcher(verified_domain=...)\<close>, whose construction fails on a URL without
  a host.\<close>

definition crawler_page_fetcher ::
  "network \<Rightarrow> browser \<Rightarrow> (string \<Rightarrow> string) \<Rightarrow> string list \<Rightarrow> string \<Rightarrow> exn + page_fetcher" where
  "crawler_page_fetcher net browse sha base verified_domain =
     (case domain_verifier verified_domain of
        Inl e \<Rightarrow> Inl (OtherError [Txt e])
      | Inr verified \<Rightarrow>
          Inr \<lparr>pf_html_or_pdf = (\<lambda>i url. capture_fetched sha base i (fetch net verified url)),
               pf_rendered = (\<lambda>i url. capture_fetched sha base i (fetch_rendered_html browse verified url))\<rparr>)"

section \<open>The node's capture\<close>

definition thin_html_bytes_threshold :: nat where "thin_html_bytes_threshold = 8000"
definition menu_link_limit :: nat where "menu_link_limit = 10"

text \<open>The loop over the discovered links.\<close>

fun capture_links :: "page_fetcher \<Rightarrow> uuid \<Rightarrow> string option \<Rightarrow> string list \<Rightarrow> snapshot list \<Rightarrow> snapshot list cap" where
  "capture_links pf source_id nutrition_url [] snapshots = cap_return snapshots"
| "capture_links pf source_id nutrition_url (url # urls) snapshots =
     (if Some url = nutrition_url then capture_links pf source_id nutrition_url urls snapshots
      else cap_bind (pf_html_or_pdf pf source_id url)
             (\<lambda>c. capture_links pf source_id nutrition_url urls (snapshots @ [cp_snapshot c])))"

definition is_thin_html :: "capture \<Rightarrow> bool" where
  "is_thin_html c \<longleftrightarrow> sn_content_type (cp_snapshot c) = HTML
     \<and> (case cp_html c of None \<Rightarrow> False | Some html \<Rightarrow> length html < thin_html_bytes_threshold)"

text \<open>The rendered fallback: which snapshots there are, and which capture links are discovered on.\<close>

definition capture_root :: "page_fetcher \<Rightarrow> uuid \<Rightarrow> string \<Rightarrow> (snapshot list \<times> capture) cap" where
  "capture_root pf source_id source_url =
     cap_bind (pf_html_or_pdf pf source_id source_url) (\<lambda>root.
       if is_thin_html root
       then cap_bind (pf_rendered pf source_id source_url) (\<lambda>rendered.
              cap_return ([cp_snapshot root, cp_snapshot rendered],
                if cp_html rendered \<noteq> None \<and> cp_html rendered \<noteq> Some [] then rendered else root))
       else cap_return ([cp_snapshot root], root))"

definition capture_nutrition ::
  "page_fetcher \<Rightarrow> source \<Rightarrow> string option \<Rightarrow> snapshot list \<Rightarrow> snapshot list cap" where
  "capture_nutrition pf src nutrition_url snapshots =
     (case nutrition_url of
        None \<Rightarrow> cap_return snapshots
      | Some url \<Rightarrow>
          (case domain_verifier (so_url src) of
             Inl e \<Rightarrow> cap_fail (OtherError [Txt e])
           | Inr verified \<Rightarrow>
               if \<not> is_allowed verified url
               then cap_fail (OtherError [Txt (fetch_error_name DomainNotAllowedError)])
               else cap_bind (pf_html_or_pdf pf (so_id src) url)
                      (\<lambda>c. cap_return (snapshots @ [cp_snapshot c]))))"

text \<open>Link discovery on the capture chosen for it; a capture without HTML has no links.\<close>

definition capture_discovered ::
  "page_fetcher \<Rightarrow> (string \<Rightarrow> (string \<times> string) list) \<Rightarrow> source \<Rightarrow> string \<Rightarrow> string option \<Rightarrow> capture
     \<Rightarrow> snapshot list \<Rightarrow> snapshot list cap" where
  "capture_discovered pf links_of src source_url nutrition_url discovery snapshots =
     (if sn_content_type (cp_snapshot discovery) \<noteq> HTML \<or> cp_html discovery = None
      then cap_return snapshots
      else
       (case domain_verifier (so_url src) of
          Inl e \<Rightarrow> cap_fail (OtherError [Txt e])
        | Inr verified \<Rightarrow>
            (case find_menu_page_links links_of (the (cp_html discovery)) source_url verified menu_link_limit of
               Inl e \<Rightarrow> cap_fail (OtherError [Txt e])
             | Inr urls \<Rightarrow> capture_links pf (so_id src) nutrition_url urls snapshots)))"

definition capture_source_material ::
  "page_fetcher \<Rightarrow> (string \<Rightarrow> (string \<times> string) list) \<Rightarrow> source \<Rightarrow> string \<Rightarrow> string option
     \<Rightarrow> snapshot list cap" where
  "capture_source_material pf links_of src source_url nutrition_url =
     cap_bind (capture_root pf (so_id src) source_url) (\<lambda>(snapshots, discovery).
       cap_bind (capture_nutrition pf src nutrition_url snapshots)
         (capture_discovered pf links_of src source_url nutrition_url discovery))"

section \<open>What a fetcher promises\<close>

text \<open>The environment only grows: requests are appended, each satisfying the policy; identifiers
  are drawn upwards.\<close>

definition extends :: "(request \<Rightarrow> bool) \<Rightarrow> cap_env \<Rightarrow> cap_env \<Rightarrow> bool" where
  "extends ok env env' \<longleftrightarrow>
     ce_next env \<le> ce_next env' \<and> ce_now env' = ce_now env
     \<and> (\<exists>reqs. ce_requests env' = ce_requests env @ reqs \<and> list_all ok reqs)"

lemma extends_refl [simp]: "extends ok env env"
  by (simp add: extends_def)

lemma extends_trans: "extends ok a b \<Longrightarrow> extends ok b c \<Longrightarrow> extends ok a c"
  unfolding extends_def by force

text \<open>A computation that extends its environment and whose value satisfies a predicate of the
  environments before and after.\<close>

definition cap_spec :: "(request \<Rightarrow> bool) \<Rightarrow> 'a cap \<Rightarrow> ('a \<Rightarrow> bool) \<Rightarrow> bool" where
  "cap_spec ok m P \<longleftrightarrow> (\<forall>env r env'. m env = (r, env') \<longrightarrow> extends ok env env' \<and> (\<forall>x. r = Inr x \<longrightarrow> P x))"

lemma cap_spec_return [intro]: "P x \<Longrightarrow> cap_spec ok (cap_return x) P"
  by (simp add: cap_spec_def cap_return_def)

lemma cap_spec_fail [intro]: "cap_spec ok (cap_fail e) P"
  by (simp add: cap_spec_def cap_fail_def)

lemma cap_spec_bind [intro]:
  assumes "cap_spec ok m P" "\<And>x. P x \<Longrightarrow> cap_spec ok (f x) Q"
  shows "cap_spec ok (cap_bind m f) Q"
  unfolding cap_spec_def
proof (intro allI impI)
  fix env r env'' assume b: "cap_bind m f env = (r, env'')"
  obtain s env' where m: "m env = (s, env')" by (cases "m env")
  have ext: "extends ok env env'" using assms(1) m unfolding cap_spec_def by blast
  show "extends ok env env'' \<and> (\<forall>x. r = Inr x \<longrightarrow> Q x)"
  proof (cases s)
    case (Inl e)
    then show ?thesis using b m ext by (auto simp: cap_bind_def)
  next
    case (Inr x)
    then have "f x env' = (r, env'')" using b m by (simp add: cap_bind_def)
    moreover have "P x" using assms(1) m Inr unfolding cap_spec_def by blast
    ultimately show ?thesis using assms(2) ext extends_trans unfolding cap_spec_def by blast
  qed
qed

text \<open>What a list of snapshots of one capture satisfies.\<close>

definition of_source :: "uuid \<Rightarrow> nat \<Rightarrow> snapshot list \<Rightarrow> bool" where
  "of_source i k sns \<longleftrightarrow> sns \<noteq> [] \<and> length sns \<le> k \<and> (\<forall>sn \<in> set sns. sn_source_id sn = i)"

locale page_fetcher =
  fixes fetch_page :: "uuid \<Rightarrow> string \<Rightarrow> capture cap" and policy :: "request \<Rightarrow> bool"
  assumes captures: "cap_spec policy (fetch_page i url) (\<lambda>c. sn_source_id (cp_snapshot c) = i)"

locale page_fetchers =
  html: page_fetcher "pf_html_or_pdf pf" policy + rendered: page_fetcher "pf_rendered pf" policy
  for pf :: page_fetcher and policy :: "request \<Rightarrow> bool"
begin

lemma capture_links_spec:
  "of_source i k sns \<Longrightarrow> cap_spec policy (capture_links pf i nu urls sns) (of_source i (k + length urls))"
proof (induction urls arbitrary: k sns)
  case Nil
  then show ?case by auto
next
  case (Cons url urls)
  show ?case
  proof (cases "Some url = nu")
    case True
    have "of_source i (Suc k) sns" using Cons.prems by (simp add: of_source_def)
    from Cons.IH [OF this] show ?thesis using True by simp
  next
    case False
    have "cap_spec policy (capture_links pf i nu urls (sns @ [cp_snapshot c])) (of_source i (Suc k + length urls))"
      if "sn_source_id (cp_snapshot c) = i" for c
      using that Cons.prems by (intro Cons.IH) (simp add: of_source_def)
    then show ?thesis using False html.captures [of i url] by auto
  qed
qed

lemma capture_root_spec: "cap_spec policy (capture_root pf i url) (\<lambda>(sns, c). of_source i 2 sns)"
  unfolding capture_root_def
  by (rule cap_spec_bind [OF html.captures])
    (auto intro!: cap_spec_bind [OF rendered.captures] cap_spec_return simp: of_source_def)

lemma capture_nutrition_spec:
  "of_source (so_id src) 2 sns \<Longrightarrow> cap_spec policy (capture_nutrition pf src nu sns) (of_source (so_id src) 3)"
  unfolding capture_nutrition_def
  by (auto intro!: cap_spec_bind [OF html.captures] cap_spec_return cap_spec_fail simp: of_source_def
      split: option.splits sum.splits)

lemma capture_discovered_spec:
  assumes "of_source (so_id src) 3 sns"
  shows "cap_spec policy (capture_discovered pf links_of src url nu discovery sns) (of_source (so_id src) 13)"
proof -
  have w: "of_source i 3 x \<Longrightarrow> of_source i 13 x" for i x by (simp add: of_source_def)
  have "cap_spec policy (capture_links pf (so_id src) nu urls sns) (of_source (so_id src) 13)"
    if f: "find_menu_page_links links_of html url verified menu_link_limit = Inr urls" for html verified urls
  proof -
    have "3 + length urls \<le> 13" using menu_links_bounded [OF f] by (simp add: menu_link_limit_def)
    then have "of_source (so_id src) (3 + length urls) x \<Longrightarrow> of_source (so_id src) 13 x" for x
      by (auto simp: of_source_def)
    then show ?thesis using capture_links_spec [OF assms, of nu urls] unfolding cap_spec_def by blast
  qed
  then show ?thesis
    unfolding capture_discovered_def using w [OF assms] by (auto split: sum.splits)
qed

lemma capture_source_material_spec:
  "cap_spec policy (capture_source_material pf links_of src url nu) (of_source (so_id src) 13)"
  unfolding capture_source_material_def
  by (rule cap_spec_bind [OF capture_root_spec])
    (auto intro!: cap_spec_bind [OF capture_nutrition_spec] capture_discovered_spec)

end

section \<open>The crawler keeps the promise\<close>

text \<open>Requests on one domain; those made without a browser also passed the SSRF guard.\<close>

definition on_domain :: "network \<Rightarrow> string \<Rightarrow> request \<Rightarrow> bool" where
  "on_domain net verified q \<longleftrightarrow> extract_domain (request_url q) = Inr verified
     \<and> ((\<exists>u. q = Render u) \<or> assert_safe_host (nw_resolve net) verified = None)"

lemma capture_fetched_spec:
  assumes "list_all ok (fst fetched)"
  shows "cap_spec ok (capture_fetched sha base i fetched) (\<lambda>c. sn_source_id (cp_snapshot c) = i)"
  using assms
  by (auto simp: cap_spec_def capture_fetched_def extends_def store_snapshot_def Let_def
      split: sum.splits prod.splits)

lemma fetch_on_domain: "list_all (on_domain net verified) (fst (fetch net verified url))"
proof -
  obtain reqs res where f: "fetch net verified url = (reqs, res)" by (cases "fetch net verified url")
  show ?thesis
    using fetch_requests [OF f] by (simp add: f list_all_iff on_domain_def)
qed

lemma rendered_on_domain: "list_all (on_domain net verified) (fst (fetch_rendered_html browse verified url))"
  by (auto simp: fetch_rendered_html_def on_domain_def is_allowed_def split: option.splits sum.splits)

text \<open>The fetcher the code builds, for a verified domain.\<close>

definition crawler_for :: "network \<Rightarrow> browser \<Rightarrow> (string \<Rightarrow> string) \<Rightarrow> string list \<Rightarrow> string \<Rightarrow> page_fetcher" where
  "crawler_for net browse sha base verified =
     \<lparr>pf_html_or_pdf = (\<lambda>i url. capture_fetched sha base i (fetch net verified url)),
      pf_rendered = (\<lambda>i url. capture_fetched sha base i (fetch_rendered_html browse verified url))\<rparr>"

interpretation crawler: page_fetchers "crawler_for net browse sha base verified" "on_domain net verified"
  for net browse sha base verified
  by unfold_locales
    (simp_all add: crawler_for_def capture_fetched_spec fetch_on_domain rendered_on_domain)


definition sample_source :: source where
  "sample_source = \<lparr>so_id = 4, so_restaurant_id = 7, so_source_type = RESTAURANT_WEBSITE,
     so_url = ''https://joes.example/menu'', so_is_verified_domain = True, so_created_at = 0\<rparr>"

definition sample_env :: cap_env where
  "sample_env = \<lparr>ce_next = 50, ce_now = 0, ce_files = Map.empty, ce_requests = []\<rparr>"

definition sample_browser :: browser where
  "sample_browser = (\<lambda>_. Some (''<html>soup</html>'', Some 200))"

definition sample_crawler :: page_fetcher where
  "sample_crawler = crawler_for sample_network sample_browser (\<lambda>_. ''ab'') [''data''] ''joes.example''"

definition sample_capture :: "(exn + snapshot list) \<times> cap_env" where
  "sample_capture =
     capture_source_material sample_crawler (\<lambda>_. []) sample_source ''https://joes.example/menu'' None sample_env"

lemma sample_capture_requests:
  "ce_requests (snd sample_capture) =
     [Get ''https://joes.example/menu'', Get ''https://www.joes.example/m'', Render ''https://joes.example/menu'']"
  by code_simp


end
