(* ===== verification/Crawler.thy ===== *)
theory Crawler
  imports Capture
begin

text \<open>
  The parts of the crawler around a single fetch: \<open>src/infrastructure/crawler/robots.py\<close> over Python's
  \<open>urllib.robotparser\<close>, the fetcher of \<open>http_fetcher.py\<close> over its life, with the one robots checker it
  keeps, the page metadata of \<open>metadata.py\<close>, and the two entry points of \<open>crawler_service.py\<close>.
\<close>

section \<open>urllib.robotparser\<close>

definition line_break :: "char \<Rightarrow> bool" where
  "line_break c \<longleftrightarrow> (let n = (of_char c :: nat) in n \<in> {10, 11, 12, 13, 28, 29, 30})"

text \<open>\<open>str.splitlines\<close>; a carriage return takes a following line feed with it.\<close>

fun splitlines_acc :: "string \<Rightarrow> string \<Rightarrow> string list" where
  "splitlines_acc cur [] = (if cur = [] then [] else [rev cur])"
| "splitlines_acc cur (c # cs) =
     (if c = CHR 0x0D \<and> cs \<noteq> [] \<and> hd cs = CHR 0x0A then splitlines_acc cur cs
      else if line_break c then rev cur # splitlines_acc [] cs
      else splitlines_acc (c # cur) cs)"

definition splitlines :: "string \<Rightarrow> string list" where
  "splitlines s = splitlines_acc [] s"

text \<open>\<open>urllib.parse.quote\<close> and \<open>unquote\<close>.\<close>

definition py_quote :: "string \<Rightarrow> string" where
  "py_quote s = concat (map (\<lambda>c. if c = CHR ''/'' then ''/'' else if c = CHR '' '' then ''%20'' else quote_char c) s)"

fun py_unquote :: "string \<Rightarrow> string" where
  "py_unquote [] = []"
| "py_unquote (c # cs) =
     (if c = CHR ''%'' then
        (case cs of
           a # b # rest \<Rightarrow>
             (case (hex_val a, hex_val b) of
                (Some x, Some y) \<Rightarrow> char_of (16 * x + y) # py_unquote rest
              | _ \<Rightarrow> c # py_unquote cs)
         | _ \<Rightarrow> c # py_unquote cs)
      else c # py_unquote cs)"

text \<open>A rule line: its quoted path and whether it allows.\<close>

record robots_rule =
  rr_path :: string
  rr_allowance :: bool

record robots_entry =
  re_useragents :: "string list"
  re_rulelines :: "robots_rule list"

record robots_file =
  rf_entries :: "robots_entry list"
  rf_default_entry :: "robots_entry option"

definition empty_entry :: robots_entry where
  "empty_entry = \<lparr>re_useragents = [], re_rulelines = []\<rparr>"

definition empty_robots :: robots_file where
  "empty_robots = \<lparr>rf_entries = [], rf_default_entry = None\<rparr>"

text \<open>\<open>RuleLine\<close>; a path \<open>urlparse\<close> rejects raises its \<open>ValueError\<close>.\<close>

definition rule_line :: "string \<Rightarrow> bool \<Rightarrow> string + robots_rule" where
  "rule_line path allowance =
     (case urlparse path of
        Inl e \<Rightarrow> Inl e
      | Inr u \<Rightarrow> Inr \<lparr>rr_path = py_quote (urlunparse u), rr_allowance = (path = [] \<or> allowance)\<rparr>)"

definition rule_applies_to :: "string \<Rightarrow> robots_rule \<Rightarrow> bool" where
  "rule_applies_to filename r \<longleftrightarrow> rr_path r = ''*'' \<or> startswith filename (rr_path r)"

definition entry_applies_to :: "string \<Rightarrow> robots_entry \<Rightarrow> bool" where
  "entry_applies_to useragent e \<longleftrightarrow>
     (let token = py_lower (fst (partition1 (CHR ''/'') useragent)) in
      list_ex (\<lambda>agent. agent = ''*'' \<or> py_contains (py_lower agent) token) (re_useragents e))"

definition entry_allowance :: "string \<Rightarrow> robots_entry \<Rightarrow> bool" where
  "entry_allowance filename e =
     (case find (rule_applies_to filename) (re_rulelines e) of None \<Rightarrow> True | Some r \<Rightarrow> rr_allowance r)"

text \<open>The first entry for every agent wins.\<close>

definition add_entry :: "robots_entry \<Rightarrow> robots_file \<Rightarrow> robots_file" where
  "add_entry e f =
     (if ''*'' \<in> set (re_useragents e)
      then (if rf_default_entry f = None then f\<lparr>rf_default_entry := Some e\<rparr> else f)
      else f\<lparr>rf_entries := rf_entries f @ [e]\<rparr>)"

text \<open>The states of the parser: at the start of an entry, after an agent, after a rule.\<close>

datatype parse_state = At_start | Saw_agent | Saw_rule

type_synonym parse_acc = "parse_state \<times> robots_entry \<times> robots_file"

text \<open>An empty line ends the entry. A line of white space or a comment does not.\<close>

fun blank_line :: "parse_acc \<Rightarrow> parse_acc" where
  "blank_line (At_start, e, f) = (At_start, e, f)"
| "blank_line (Saw_agent, e, f) = (At_start, empty_entry, f)"
| "blank_line (Saw_rule, e, f) = (At_start, empty_entry, add_entry e f)"

text \<open>The delay and the request rate of an entry, which nothing in the program reads, only move the
  state; sitemaps are left out.\<close>

definition parse_field :: "string \<Rightarrow> string \<Rightarrow> parse_acc \<Rightarrow> string + parse_acc" where
  "parse_field field v acc =
     (case acc of (state, e, f) \<Rightarrow>
        if field = ''user-agent''
        then (let (e, f) = (if state = Saw_rule then (empty_entry, add_entry e f) else (e, f))
              in Inr (Saw_agent, e\<lparr>re_useragents := re_useragents e @ [v]\<rparr>, f))
        else if state = At_start then Inr acc
        else if field = ''disallow'' \<or> field = ''allow''
        then (case rule_line v (field = ''allow'') of
                Inl x \<Rightarrow> Inl x
              | Inr r \<Rightarrow> Inr (Saw_rule, e\<lparr>re_rulelines := re_rulelines e @ [r]\<rparr>, f))
        else if field = ''crawl-delay'' \<or> field = ''request-rate'' then Inr (Saw_rule, e, f)
        else Inr acc)"

definition parse_line :: "string \<Rightarrow> parse_acc \<Rightarrow> string + parse_acc" where
  "parse_line line acc =
     (let acc = (if line = [] then blank_line acc else acc);
          text = py_strip (takeWhile (\<lambda>c. c \<noteq> CHR ''#'') line)
      in case partition1 (CHR '':'') text of
           (name, colon, v) \<Rightarrow>
             if colon then parse_field (py_lower (py_strip name)) (py_unquote (py_strip v)) acc else Inr acc)"

fun parse_lines :: "string list \<Rightarrow> parse_acc \<Rightarrow> string + parse_acc" where
  "parse_lines [] acc = Inr acc"
| "parse_lines (l # ls) acc = (case parse_line l acc of Inl e \<Rightarrow> Inl e | Inr acc' \<Rightarrow> parse_lines ls acc')"

text \<open>\<open>RobotFileParser.parse\<close>.\<close>

definition parse_robots :: "string list \<Rightarrow> string + robots_file" where
  "parse_robots lines =
     (case parse_lines lines (At_start, empty_entry, empty_robots) of
        Inl e \<Rightarrow> Inl e
      | Inr (state, e, f) \<Rightarrow> Inr (if state = Saw_rule then add_entry e f else f))"

text \<open>\<open>RobotFileParser.can_fetch\<close> of a parser that has parsed.\<close>

definition can_fetch :: "robots_file \<Rightarrow> string \<Rightarrow> string \<Rightarrow> string + bool" where
  "can_fetch f useragent url =
     (case urlparse (py_unquote url) of
        Inl e \<Rightarrow> Inl e
      | Inr u \<Rightarrow>
          (let filename = py_quote (urlunparse (u\<lparr>pu_scheme := [], pu_netloc := []\<rparr>));
               filename = (if filename = [] then ''/'' else filename)
           in Inr (case find (entry_applies_to useragent) (rf_entries f) of
                     Some e \<Rightarrow> entry_allowance filename e
                   | None \<Rightarrow>
                       (case rf_default_entry f of Some e \<Rightarrow> entry_allowance filename e | None \<Rightarrow> True))))"

section \<open>RobotsChecker\<close>

text \<open>The parser is set once the file is loaded; loading counts as done as soon as it has begun.\<close>

record robots_checker =
  rb_robots_url :: string
  rb_user_agent :: string
  rb_parser :: "robots_file option"
  rb_loaded :: bool

datatype robots_error = Robots_ValueError string | Robots_AssertionError

definition robots_checker_init :: "string \<Rightarrow> string \<Rightarrow> string + robots_checker" where
  "robots_checker_init base_url user_agent =
     (case urljoin base_url ''/robots.txt'' of
        Inl e \<Rightarrow> Inl e
      | Inr url \<Rightarrow>
          Inr \<lparr>rb_robots_url = url, rb_user_agent = user_agent, rb_parser = None, rb_loaded = False\<rparr>)"

text \<open>\<open>_ensure_loaded\<close>: the requests made, the checker afterwards and the exception, if any. httpx fails
  with an \<open>HTTPError\<close> or answers, and redirects are not followed.\<close>

definition ensure_loaded ::
  "network \<Rightarrow> robots_checker \<Rightarrow> request list \<times> robots_checker \<times> robots_error option" where
  "ensure_loaded net c =
     (if rb_loaded c then ([], c, None)
      else
       (let c = c\<lparr>rb_loaded := True\<rparr>;
            allow_all = c\<lparr>rb_parser := Some empty_robots\<rparr>
        in ([Get (rb_robots_url c)],
            case nw_get net (rb_robots_url c) of
              TransportError \<Rightarrow> (allow_all, None)
            | HttpResponse r \<Rightarrow>
                if 400 \<le> hr_status r \<or> 300 \<le> hr_status r \<and> hr_status r \<le> 399 then (allow_all, None)
                else
                 (case parse_robots (splitlines (hr_body r)) of
                    Inl e \<Rightarrow> (c, Some (Robots_ValueError e))
                  | Inr f \<Rightarrow> (c\<lparr>rb_parser := Some f\<rparr>, None)))))"

text \<open>\<open>RobotsChecker.is_allowed\<close>.\<close>

definition robots_allowed ::
  "network \<Rightarrow> robots_checker \<Rightarrow> string \<Rightarrow> request list \<times> robots_checker \<times> (robots_error + bool)" where
  "robots_allowed net c url =
     (case ensure_loaded net c of
        (reqs, c, Some e) \<Rightarrow> (reqs, c, Inl e)
      | (reqs, c, None) \<Rightarrow>
          (reqs, c,
           case rb_parser c of
             None \<Rightarrow> Inl Robots_AssertionError
           | Some f \<Rightarrow>
               (case can_fetch f (rb_user_agent c) url of
                  Inl e \<Rightarrow> Inl (Robots_ValueError e) | Inr b \<Rightarrow> Inr b)))"

section \<open>A fetcher over its life\<close>

datatype http_error = Robots_failed robots_error | Fetch_failed fetch_error

text \<open>One call of \<open>fetch\<close>: its URL, the requests for robots.txt, the requests for the page and the
  result.\<close>

record fetch_call =
  fc_url :: string
  fc_robots :: "request list"
  fc_requests :: "request list"
  fc_result :: "http_error + fetch_result"

text \<open>\<open>_get_robots_checker\<close>: the dictionary of checkers only ever has the verified domain as a key.\<close>

definition get_robots_checker :: "string \<Rightarrow> robots_checker option \<Rightarrow> string \<Rightarrow> string + robots_checker" where
  "get_robots_checker user_agent st url =
     (case st of Some c \<Rightarrow> Inr c | None \<Rightarrow> robots_checker_init url user_agent)"

text \<open>\<open>HttpFetcher.fetch\<close> with \<open>respect_robots\<close>.\<close>

definition http_fetch ::
  "network \<Rightarrow> string \<Rightarrow> string \<Rightarrow> robots_checker option \<Rightarrow> string \<Rightarrow> robots_checker option \<times> fetch_call" where
  "http_fetch net user_agent verified st url =
     (let fail = (\<lambda>rreqs e. \<lparr>fc_url = url, fc_robots = rreqs, fc_requests = [], fc_result = Inl e\<rparr>) in
      case validate_target net verified url of
        Some e \<Rightarrow> (st, fail [] (Fetch_failed e))
      | None \<Rightarrow>
          (case get_robots_checker user_agent st url of
             Inl e \<Rightarrow> (st, fail [] (Fetch_failed (FetchValueError e)))
           | Inr c \<Rightarrow>
               (case robots_allowed net c url of
                  (rreqs, c, Inl e) \<Rightarrow> (Some c, fail rreqs (Robots_failed e))
                | (rreqs, c, Inr allowed) \<Rightarrow>
                    (Some c,
                     if \<not> allowed then fail rreqs (Fetch_failed RobotsDisallowedError)
                     else
                      (case fetch_loop net verified (max_redirects + 1) url of
                         (reqs, res) \<Rightarrow>
                           \<lparr>fc_url = url, fc_robots = rreqs, fc_requests = reqs,
                            fc_result = map_sum Fetch_failed id res\<rparr>)))))"

text \<open>The calls of \<open>fetch\<close> on one fetcher.\<close>

fun fetch_calls ::
  "network \<Rightarrow> string \<Rightarrow> string \<Rightarrow> robots_checker option \<Rightarrow> string list \<Rightarrow> robots_checker option \<times> fetch_call list" where
  "fetch_calls net user_agent verified st [] = (st, [])"
| "fetch_calls net user_agent verified st (url # urls) =
     (let (st', c) = http_fetch net user_agent verified st url;
          (st'', cs) = fetch_calls net user_agent verified st' urls
      in (st'', c # cs))"

section \<open>Page metadata and the crawler service\<close>

text \<open>What BeautifulSoup finds in a page: the stripped text of the first \<open>title\<close>, the first \<open>meta\<close> with
  an attribute of that name and value, and the first \<open>link\<close> of that relation; of a tag, its content or
  reference when that is a string.\<close>

record soup =
  sp_title :: "string option"
  sp_meta :: "string \<Rightarrow> string \<Rightarrow> string option option"
  sp_link :: "string \<Rightarrow> string option option"

record page_metadata =
  pm_title :: "string option"
  pm_description :: "string option"
  pm_canonical_url :: "string option"
  pm_og_title :: "string option"
  pm_og_description :: "string option"
  pm_og_image :: "string option"

definition tag_text :: "string option option \<Rightarrow> string option" where
  "tag_text tag = (case tag of Some (Some content) \<Rightarrow> Some (py_strip content) | _ \<Rightarrow> None)"

definition extract_page_metadata :: "(string \<Rightarrow> soup) \<Rightarrow> string \<Rightarrow> page_metadata" where
  "extract_page_metadata parse html =
     (let s = parse html in
      \<lparr>pm_title = sp_title s,
       pm_description = tag_text (sp_meta s ''name'' ''description''),
       pm_canonical_url = tag_text (sp_link s ''canonical''),
       pm_og_title = tag_text (sp_meta s ''property'' ''og:title''),
       pm_og_description = tag_text (sp_meta s ''property'' ''og:description''),
       pm_og_image = tag_text (sp_meta s ''property'' ''og:image'')\<rparr>)"

text \<open>\<open>BrowserFetcher.capture_screenshot\<close>: the browser answers with the image and a status, or fails.\<close>

definition capture_screenshot_page ::
  "(string \<Rightarrow> (string \<times> nat option) option) \<Rightarrow> string \<Rightarrow> string \<Rightarrow> request list \<times> (fetch_error + fetch_result)" where
  "capture_screenshot_page shoot verified url =
     (if \<not> is_allowed verified url then ([], Inl DomainNotAllowedError)
      else (case shoot url of
              None \<Rightarrow> ([Render url], Inl TransportFailure)
            | Some (png, status) \<Rightarrow>
                ([Render url], Inr \<lparr>fr_url = url, fr_content_type = SCREENSHOT, fr_content = png,
                   fr_http_status = status, fr_content_length_bytes = length png\<rparr>)))"

fun http_error_name :: "http_error \<Rightarrow> string" where
  "http_error_name (Fetch_failed e) = fetch_error_name e"
| "http_error_name (Robots_failed (Robots_ValueError e)) = ''ValueError: '' @ e"
| "http_error_name (Robots_failed Robots_AssertionError) = ''AssertionError''"

text \<open>\<open>CrawlerService.fetch_and_store\<close> with its page metadata. It opens a fetcher of its own for every
  page, and either kind of fetcher is closed afterwards.\<close>

definition crawl_page ::
  "network \<Rightarrow> browser \<Rightarrow> (string \<Rightarrow> soup) \<Rightarrow> (string \<Rightarrow> string) \<Rightarrow> string list \<Rightarrow> string \<Rightarrow> string \<Rightarrow> uuid \<Rightarrow> string
     \<Rightarrow> bool \<Rightarrow> uuid \<Rightarrow> timestamp \<Rightarrow> files \<Rightarrow> request list \<times> (exn + (snapshot \<times> page_metadata option) \<times> files)" where
  "crawl_page net browse parse sha base user_agent verified source_id url use_browser new_id now fs =
     (let (reqs, fetched) =
            (if use_browser
             then (case fetch_rendered_html browse verified url of (reqs, res) \<Rightarrow> (reqs, map_sum fetch_error_name id res))
             else (case http_fetch net user_agent verified None url of
                     (_, c) \<Rightarrow> (fc_robots c @ fc_requests c, map_sum http_error_name id (fc_result c))))
      in (reqs,
          case fetched of
            Inl e \<Rightarrow> Inl (OtherError [Txt e])
          | Inr result \<Rightarrow>
              (case store_snapshot sha base source_id result new_id now fs of
                 Inl e \<Rightarrow> Inl e
               | Inr (sn, fs') \<Rightarrow>
                   Inr ((sn, if fr_content_type result = HTML
                             then Some (extract_page_metadata parse (fr_content result)) else None), fs'))))"

definition capture_screenshot ::
  "(string \<Rightarrow> (string \<times> nat option) option) \<Rightarrow> (string \<Rightarrow> string) \<Rightarrow> string list \<Rightarrow> string \<Rightarrow> uuid \<Rightarrow> string
     \<Rightarrow> uuid \<Rightarrow> timestamp \<Rightarrow> files \<Rightarrow> request list \<times> (exn + snapshot \<times> files)" where
  "capture_screenshot shoot sha base verified source_id url new_id now fs =
     (case capture_screenshot_page shoot verified url of
        (reqs, Inl e) \<Rightarrow> (reqs, Inl (OtherError [Txt (fetch_error_name e)]))
      | (reqs, Inr result) \<Rightarrow> (reqs, store_snapshot sha base source_id result new_id now fs))"

section \<open>Robots files\<close>

lemma parse_no_lines: "parse_robots [] = Inr empty_robots"
  by (simp add: parse_robots_def)

lemma empty_robots_allow: "urlparse (py_unquote url) = Inr u \<Longrightarrow> can_fetch empty_robots ua url = Inr True"
  by (simp add: can_fetch_def empty_robots_def Let_def)

text \<open>The address of robots.txt has the authority of the page it is built from.\<close>

lemma robots_path: "urlparse ''/robots.txt'' =
    Inr \<lparr>pu_scheme = [], pu_netloc = [], pu_path = ''/robots.txt'', pu_params = [], pu_query = [], pu_fragment = []\<rparr>"
  by code_simp

lemma join_robots_path: "join_paths bpath ''/robots.txt'' = ''/robots.txt''"
  by (simp add: join_paths_def startswith_def resolve_segment_def Let_def)

definition plain_netloc :: "string \<Rightarrow> bool" where
  "plain_netloc n \<longleftrightarrow> list_all (\<lambda>c. c \<notin> set ''/?#'' \<and> c \<notin> {CHR 0x09, CHR 0x0A, CHR 0x0D}) n
     \<and> (CHR ''['' \<in> set n) = (CHR '']'' \<in> set n) \<and> (CHR ''['' \<in> set n \<longrightarrow> bracketed_host_ok n)"

lemma partition1_rest: "partition1 c s = (a, b, t) \<Longrightarrow> set t \<subseteq> set s"
  by (auto simp: partition1_def split: list.splits dest: arg_cong [where f = set] set_dropWhileD)
    (metis list.set_intros(2) set_dropWhileD)

lemma split_scheme_rest: "set (snd (split_scheme s)) \<subseteq> set s"
  using partition1_rest [of "CHR '':''" s] by (auto simp: split_scheme_def split: prod.splits if_splits)

lemma urlparse_netloc:
  assumes "urlparse url = Inr u"
  shows "plain_netloc (pu_netloc u)"
proof -
  define s where "s = filter (\<lambda>c. c \<notin> {CHR 0x09, CHR 0x0A, CHR 0x0D}) (dropWhile (\<lambda>c. (of_char c :: nat) \<le> 32) url)"
  define t where "t = snd (split_scheme s)"
  have n: "pu_netloc u = fst (split_netloc t)"
    "(CHR ''['' \<in> set (pu_netloc u)) = (CHR '']'' \<in> set (pu_netloc u))"
    "CHR ''['' \<in> set (pu_netloc u) \<longrightarrow> bracketed_host_ok (pu_netloc u)"
    using assms by (auto simp: urlparse_def t_def s_def Let_def split: prod.splits if_splits)
  have "c \<notin> {CHR 0x09, CHR 0x0A, CHR 0x0D}" if "c \<in> set t" for c
    using that split_scheme_rest [of s] by (auto simp: t_def s_def)
  moreover have "set (fst (split_netloc t)) \<subseteq> set t"
    by (auto simp: split_netloc_def Let_def dest!: set_takeWhileD in_set_dropD)
  moreover have "c \<notin> set ''/?#''" if "c \<in> set (fst (split_netloc t))" for c
    using that by (auto simp: split_netloc_def Let_def dest!: set_takeWhileD split: if_splits)
  ultimately show ?thesis using n by (auto simp: plain_netloc_def list_all_iff)
qed

lemma split_plain_netloc:
  assumes "plain_netloc n"
  shows "split_netloc (''//'' @ n @ ''/robots.txt'') = (n, ''/robots.txt'')"
proof -
  have "\<forall>c \<in> set n. c \<notin> set ''/?#''" using assms by (auto simp: plain_netloc_def list_all_iff)
  then have "takeWhile (\<lambda>c. c \<notin> set ''/?#'') (n @ ''/robots.txt'') = n"
    "dropWhile (\<lambda>c. c \<notin> set ''/?#'') (n @ ''/robots.txt'') = ''/robots.txt''"
    by (subst takeWhile_append2 dropWhile_append2; simp)+
  then show ?thesis by (simp add: split_netloc_def startswith_def Let_def)
qed

lemma split_web_scheme:
  assumes "scheme \<in> {''http'', ''https''}"
  shows "split_scheme (scheme @ '':'' @ s) = (scheme, s)"
  using assms
  by (auto simp: split_scheme_def partition1_def is_alpha_def scheme_char_def is_upper_def is_lower_def
      py_lower_def lower_char_def)

lemma urlparse_robots:
  assumes "plain_netloc n" "scheme \<in> {''http'', ''https''}"
  shows "\<exists>u. urlparse (scheme @ ''://'' @ n @ ''/robots.txt'') = Inr u \<and> pu_netloc u = n"
proof -
  define url where "url = scheme @ '':'' @ ''//'' @ n @ ''/robots.txt''"
  have "\<forall>c \<in> set n. c \<noteq> CHR 0x09 \<and> c \<noteq> CHR 0x0A \<and> c \<noteq> CHR 0x0D"
    using assms(1) by (auto simp: plain_netloc_def list_all_iff)
  then have n: "filter (\<lambda>c. c \<notin> {CHR 0x09, CHR 0x0A, CHR 0x0D}) n = n" by (simp add: filter_id_conv)
  have f: "filter (\<lambda>c. c \<notin> {CHR 0x09, CHR 0x0A, CHR 0x0D}) (dropWhile (\<lambda>c. (of_char c :: nat) \<le> 32) url) = url"
    using assms(2) n by (auto simp: url_def)
  have "split_scheme url = (scheme, ''//'' @ n @ ''/robots.txt'')"
    unfolding url_def by (rule split_web_scheme [OF assms(2)])
  then have "\<exists>u. urlparse url = Inr u \<and> pu_netloc u = n"
    unfolding urlparse_def f using assms split_plain_netloc [OF assms(1)]
    by (auto simp: Let_def plain_netloc_def simp del: append_Cons split: prod.splits)
  then show ?thesis by (simp add: url_def)
qed

definition web_url :: "string \<Rightarrow> bool" where
  "web_url url \<longleftrightarrow> (case urlparse url of Inl _ \<Rightarrow> False | Inr u \<Rightarrow> pu_scheme u \<in> {''http'', ''https''})"

lemma extract_domain_netloc:
  "urlparse url = Inr u \<Longrightarrow> urlparse url' = Inr u' \<Longrightarrow> pu_netloc u' = pu_netloc u
     \<Longrightarrow> extract_domain url' = extract_domain url"
  by (simp add: extract_domain_def hostname_def)

lemma robots_url_on_domain:
  assumes "web_url url" "extract_domain url = Inr d"
  shows "\<exists>r. urljoin url ''/robots.txt'' = Inr r \<and> extract_domain r = Inr d"
proof -
  obtain u where u: "urlparse url = Inr u" "pu_scheme u \<in> {''http'', ''https''}"
    using assms(1) by (auto simp: web_url_def split: sum.splits)
  have n: "pu_netloc u \<noteq> []"
    using assms(2) u by (auto simp: extract_domain_def hostname_def hostinfo_def after_last_def partition1_def)
  obtain w where w: "urlparse (pu_scheme u @ ''://'' @ pu_netloc u @ ''/robots.txt'') = Inr w" "pu_netloc w = pu_netloc u"
    using urlparse_robots [OF urlparse_netloc [OF u(1)] u(2)] by blast
  have e: "url \<noteq> []" using assms(2) by (auto simp: extract_domain_def urlparse_def hostname_def hostinfo_def
      after_last_def partition1_def split_scheme_def split_netloc_def startswith_def split: prod.splits if_splits sum.splits)
  have "urljoin url ''/robots.txt'' = Inr (pu_scheme u @ ''://'' @ pu_netloc u @ ''/robots.txt'')"
    unfolding urljoin_def u(1) robots_path using e n u(2)
    by (auto simp: urlunparse_def join_robots_path Let_def uses_relative_def)
  moreover have "extract_domain (pu_scheme u @ ''://'' @ pu_netloc u @ ''/robots.txt'') = Inr d"
    using extract_domain_netloc [OF u(1) w] assms(2) by simp
  ultimately show ?thesis by blast
qed

section \<open>What a fetcher requests\<close>

lemma validate_target_robots [simp]: "validate_target (net\<lparr>nw_robots := a\<rparr>) = validate_target net"
  by (intro ext) (simp add: validate_target_def cong: sum.case_cong)

lemma finish_response_robots [simp]: "finish_response (net\<lparr>nw_robots := a\<rparr>) = finish_response net"
  by (intro ext) (simp add: finish_response_def cong: sum.case_cong)

lemma fetch_loop_robots [simp]: "fetch_loop (net\<lparr>nw_robots := a\<rparr>) verified n url = fetch_loop net verified n url"
  by (induction n arbitrary: url) (simp_all cong: http_result.case_cong option.case_cong sum.case_cong)

definition checker_ok :: "string \<Rightarrow> robots_checker option \<Rightarrow> bool" where
  "checker_ok ua st \<longleftrightarrow> (case st of None \<Rightarrow> True | Some c \<Rightarrow> rb_loaded c \<and> rb_user_agent c = ua)"

lemma ensure_loaded_facts:
  "ensure_loaded net c = (reqs, c', e) \<Longrightarrow>
     rb_loaded c' \<and> rb_user_agent c' = rb_user_agent c
     \<and> (rb_loaded c \<longrightarrow> reqs = [] \<and> c' = c) \<and> (\<not> rb_loaded c \<longrightarrow> reqs = [Get (rb_robots_url c)])"
  by (auto simp: ensure_loaded_def Let_def split: if_splits http_result.splits sum.splits)

lemma robots_allowed_facts:
  assumes "robots_allowed net c url = (reqs, c', res)"
  shows "rb_loaded c' \<and> rb_user_agent c' = rb_user_agent c
     \<and> (rb_loaded c \<longrightarrow> reqs = [] \<and> c' = c) \<and> (\<not> rb_loaded c \<longrightarrow> reqs = [Get (rb_robots_url c)])
     \<and> (\<forall>b. res = Inr b \<longrightarrow> (\<exists>f. rb_parser c' = Some f \<and> can_fetch f (rb_user_agent c) url = Inr b))"
  using assms ensure_loaded_facts
  by (auto simp: robots_allowed_def split: prod.splits option.splits sum.splits)

text \<open>A call obeyed the rules of its fetcher: it left the domain with no request, and delivers what a
  fetch under the rules of the robots file delivers.\<close>

definition obeys :: "network \<Rightarrow> string \<Rightarrow> string \<Rightarrow> robots_checker option \<Rightarrow> fetch_call \<Rightarrow> bool" where
  "obeys net ua verified st c \<longleftrightarrow>
     list_all (\<lambda>q. validate_target net verified (request_url q) = None) (fc_robots c @ fc_requests c)
     \<and> (fc_requests c \<noteq> [] \<longrightarrow>
         (\<exists>k f. st = Some k \<and> rb_parser k = Some f \<and> can_fetch f ua (fc_url c) = Inr True
            \<and> fetch (net\<lparr>nw_robots := Some (\<lambda>u. can_fetch f ua u = Inr True)\<rparr>) verified (fc_url c)
                = (fc_requests c, case fc_result c of
                                    Inl (Fetch_failed e) \<Rightarrow> Inl e
                                  | Inl (Robots_failed _) \<Rightarrow> Inl RobotsDisallowedError
                                  | Inr r \<Rightarrow> Inr r)))
     \<and> (\<forall>r. fc_result c = Inr r \<longrightarrow> fc_requests c \<noteq> [])"

lemma fetch_loop_nonempty: "fetch_loop net verified (Suc n) url = (reqs, res) \<Longrightarrow> reqs \<noteq> []"
  by (auto split: http_result.splits option.splits sum.splits prod.splits)

lemma robots_checker_init_facts:
  assumes "robots_checker_init url ua = Inr k" "web_url url" "validate_target net verified url = None"
  shows "\<not> rb_loaded k \<and> rb_user_agent k = ua \<and> validate_target net verified (rb_robots_url k) = None"
proof -
  have "extract_domain url = Inr verified" "assert_safe_host (nw_resolve net) verified = None"
    using assms(3) by (auto simp: validate_target_None)
  then show ?thesis
    using assms(1) robots_url_on_domain [OF assms(2), of verified]
    by (auto simp: robots_checker_init_def validate_target_None split: sum.splits)
qed

lemma get_robots_checker_facts:
  assumes "get_robots_checker ua st url = Inr k" "checker_ok ua st" "web_url url"
    "validate_target net verified url = None"
  shows "rb_user_agent k = ua \<and> (rb_loaded k \<longleftrightarrow> st \<noteq> None) \<and> (st \<noteq> None \<longrightarrow> st = Some k)
    \<and> (st = None \<longrightarrow> validate_target net verified (rb_robots_url k) = None)"
  using assms robots_checker_init_facts [OF _ assms(3, 4)]
  by (auto simp: get_robots_checker_def checker_ok_def split: option.splits)

lemma http_fetch_spec:
  assumes "http_fetch net ua verified st url = (st', c)" "checker_ok ua st" "web_url url"
  shows "checker_ok ua st' \<and> (st \<noteq> None \<longrightarrow> st' = st \<and> fc_robots c = [])
    \<and> length (fc_robots c) \<le> 1 \<and> (fc_robots c \<noteq> [] \<longrightarrow> st' \<noteq> None) \<and> fc_url c = url \<and> obeys net ua verified st' c"
proof (cases "validate_target net verified url = None \<and> (\<exists>k. get_robots_checker ua st url = Inr k)")
  case False
  then show ?thesis
    using assms by (auto simp: http_fetch_def Let_def obeys_def split: option.splits sum.splits)
next
  case True
  then obtain k where v: "validate_target net verified url = None" and k: "get_robots_checker ua st url = Inr k"
    by blast
  note kf = get_robots_checker_facts [OF k assms(2, 3) v]
  obtain rreqs k' res where r: "robots_allowed net k url = (rreqs, k', res)" by (cases "robots_allowed net k url") auto
  note rf = robots_allowed_facts [OF r]
  have st': "st' = Some k'"
    using assms(1) v k r by (auto simp: http_fetch_def Let_def split: sum.splits prod.splits if_splits)
  have rr: "fc_robots c = rreqs" "fc_url c = url"
    using assms(1) v k r by (auto simp: http_fetch_def Let_def split: sum.splits prod.splits if_splits)
  have dom: "list_all (\<lambda>q. validate_target net verified (request_url q) = None) rreqs" "length rreqs \<le> 1"
    using kf rf by (cases "st = None"; auto)+
  have ok: "checker_ok ua st'" "st \<noteq> None \<Longrightarrow> st' = st \<and> rreqs = []"
    using kf rf st' by (auto simp: checker_ok_def)
  have "obeys net ua verified st' c"
  proof (cases "res = Inr True")
    case False
    then have "fc_requests c = []" "\<exists>e. fc_result c = Inl e"
      using assms(1) v k r by (auto simp: http_fetch_def Let_def split: sum.splits prod.splits if_splits)
    then show ?thesis using dom rr by (auto simp: obeys_def)
  next
    case True
    obtain reqs q where l: "fetch_loop net verified 11 url = (reqs, q)" by (cases "fetch_loop net verified 11 url")
    have c: "fc_requests c = reqs" "fc_result c = map_sum Fetch_failed id q"
      using assms(1) v k r l True by (auto simp: http_fetch_def Let_def max_redirects_def)
    have loop: "\<forall>q \<in> set reqs. validate_target net verified (request_url q) = None"
      using fetch_loop_requests [OF l v] by blast
    have ne: "reqs \<noteq> []" using fetch_loop_nonempty [of net verified 10 url reqs q] l by simp
    have "fetch (net\<lparr>nw_robots := Some (\<lambda>u. can_fetch f ua u = Inr True)\<rparr>) verified url = (reqs, q)"
      if "can_fetch f ua url = Inr True" for f
      using v l that by (simp add: fetch_def max_redirects_def)
    moreover have "(case fc_result c of Inl (Fetch_failed e) \<Rightarrow> Inl e
        | Inl (Robots_failed _) \<Rightarrow> Inl RobotsDisallowedError | Inr r \<Rightarrow> Inr r) = q"
      by (cases q) (simp_all add: c)
    moreover obtain f where "rb_parser k' = Some f" "can_fetch f ua url = Inr True"
      using rf kf True by auto
    ultimately show ?thesis
      unfolding obeys_def rr c(1) st' using loop dom(1) ne by (simp add: list_all_iff ball_Un)
  qed
  then show ?thesis using ok dom rr st' by auto
qed

lemma obeys_later: "obeys net ua verified st c \<Longrightarrow> st \<noteq> None \<longrightarrow> st' = st \<Longrightarrow> obeys net ua verified st' c"
  by (auto simp: obeys_def)

lemma fetch_calls_spec:
  assumes "fetch_calls net ua verified st urls = (st', cs)" "checker_ok ua st" "list_all web_url urls"
  shows "(st \<noteq> None \<longrightarrow> st' = st) \<and> length (concat (map fc_robots cs)) \<le> (if st = None then 1 else 0)
    \<and> map fc_url cs = urls \<and> list_all (obeys net ua verified st') cs"
  using assms
proof (induction urls arbitrary: st st' cs)
  case Nil
  then show ?case by simp
next
  case (Cons url urls)
  obtain st1 c where h: "http_fetch net ua verified st url = (st1, c)" by (cases "http_fetch net ua verified st url")
  obtain cs' where f: "fetch_calls net ua verified st1 urls = (st', cs')" "cs = c # cs'"
    using Cons.prems(1) h by (auto split: prod.splits)
  have w: "web_url url" "list_all web_url urls" using Cons.prems(3) by simp_all
  note hs = http_fetch_spec [OF h Cons.prems(2) w(1)]
  note ih = Cons.IH [OF f(1) conjunct1 [OF hs] w(2)]
  have "obeys net ua verified st' c" using hs ih by (blast intro: obeys_later)
  moreover have "length (concat (map fc_robots cs)) \<le> (if st = None then 1 else 0)"
  proof -
    define n where "n = length (concat (map fc_robots cs'))"
    have "n \<le> (if st1 = None then 1 else 0)" using ih by (simp only: n_def)
    moreover have "length (concat (map fc_robots cs)) = length (fc_robots c) + n" by (simp add: f(2) n_def)
    moreover have "fc_robots c = [] \<or> st = None \<and> st1 \<noteq> None \<and> length (fc_robots c) \<le> 1" using hs by blast
    ultimately show ?thesis using hs by (cases "st = None") (auto split: if_splits)
  qed
  ultimately show ?case using hs ih f(2) by auto
qed


definition robots_network :: "string \<Rightarrow> network" where
  "robots_network robots =
     \<lparr>nw_get = (\<lambda>url. HttpResponse \<lparr>hr_status = 200, hr_headers = [],
        hr_body = if url = ''https://joes.example/robots.txt'' then robots else ''soup''\<rparr>),
      nw_resolve = (\<lambda>_. Some [''93.184.216.34'']), nw_solver = None, nw_robots = None\<rparr>"

definition sample_robots :: string where
  "sample_robots = ''User-agent: *'' @ CHR 0x0A # ''Disallow: /admin # staff'' @ CHR 0x0D # CHR 0x0A # ''Allow: /'' @ [CHR 0x0A]"

lemma sample_fetch_calls:
  "map (\<lambda>c. (length (fc_robots c), length (fc_requests c), fc_result c = Inl (Fetch_failed RobotsDisallowedError)))
     (snd (fetch_calls (robots_network sample_robots) ''HungrXBot/1.0'' ''joes.example'' None
        [''https://joes.example/menu'', ''https://joes.example/admin/x'', ''https://other.example/'']))
   = [(1, 1, False), (0, 0, True), (0, 0, False)]
   \<and> list_all web_url [''https://joes.example/menu'', ''https://joes.example/admin/x'', ''https://other.example/'']"
  by code_simp


text \<open>A file that is missing, redirected or out of reach allows everything.\<close>

lemma missing_robots_allow:
  assumes "nw_get net (rb_robots_url c) = TransportError
      \<or> (\<exists>r. nw_get net (rb_robots_url c) = HttpResponse r \<and> 300 \<le> hr_status r)"
    "\<not> rb_loaded c" "urlparse (py_unquote url) = Inr u"
  shows "\<exists>c'. robots_allowed net c url = ([Get (rb_robots_url c)], c', Inr True)"
  using assms empty_robots_allow [OF assms(3)]
  by (auto simp: robots_allowed_def ensure_loaded_def Let_def)

text \<open>A rule whose path \<open>urlparse\<close> rejects makes the parser raise: the first fetch fails with its
  \<open>ValueError\<close>, every later one with the assertion on the parser that was never set, and no page of the
  website is ever requested.\<close>

lemma malformed_robots_block_the_site:
  "map (\<lambda>c. (fc_requests c, fc_result c))
     (snd (fetch_calls (robots_network (''User-agent: *'' @ CHR 0x0A # ''Disallow: //['')) ''HungrXBot/1.0'' ''joes.example''
        None [''https://joes.example/menu'', ''https://joes.example/lunch'']))
   = [([], Inl (Robots_failed (Robots_ValueError ''Invalid IPv6 URL''))), ([], Inl (Robots_failed Robots_AssertionError))]"
  by code_simp

end
