(* ===== verification/Workflow.thy ===== *)
theory Workflow
  imports Catalog
begin

text \<open>
  What the two LangGraph workflows share: the entries of their \<open>errors\<close> list, the validation result
  kept on state (\<open>src/workflows/collector_workflow/state.py\<close>), the decision a reviewer resumes a
  run with, and the contract of the two review nodes. A node that calls \<open>interrupt()\<close> is entered
  without a resume value first and pauses; LangGraph replays it from the top with one.
\<close>

section \<open>Errors and validation results on state\<close>

record workflow_error =
  we_node :: string
  we_message :: message

record state_issue =
  si_field_path :: string
  si_message :: message
  si_severity :: severity

record validation_result =
  vr_is_valid :: bool
  vr_issues :: "state_issue list"

definition to_state_issue :: "validation_issue \<Rightarrow> state_issue" where
  "to_state_issue i =
     \<lparr>si_field_path = vi_field_path i, si_message = vi_message i, si_severity = vi_severity i\<rparr>"

text \<open>The result as the JSON column of a \<open>ProposedChange\<close>; a message stays a list of pieces.\<close>

fun piece_json :: "piece \<Rightarrow> json" where
  "piece_json (Txt s) = JStr s"
| "piece_json (Dec d) = JDec d"
| "piece_json (Dec0 d) = JDec d"
| "piece_json (Num n) = JInt (int n)"
| "piece_json (Repr ss) = JList (map JStr ss)"
| "piece_json (Cut n ps) = JList (JInt (int n) # map piece_json ps)"

definition dump_state_issue :: "state_issue \<Rightarrow> json" where
  "dump_state_issue i = JObj
     [(''field_path'', JStr (si_field_path i)), (''message'', JList (map piece_json (si_message i))),
      (''severity'', JStr (case si_severity i of ERROR \<Rightarrow> ''error'' | WARNING \<Rightarrow> ''warning''))]"

definition dump_validation_result :: "validation_result option \<Rightarrow> json" where
  "dump_validation_result vr =
     (case vr of
        None \<Rightarrow> JObj []
      | Some v \<Rightarrow> JObj [(''is_valid'', JBool (vr_is_valid v)), (''issues'', JList (map dump_state_issue (vr_issues v)))])"

text \<open>\<open>str(exc)\<close>.\<close>

fun exn_message :: "exn \<Rightarrow> message" where
  "exn_message IntegrityError = [Txt ''IntegrityError'']"
| "exn_message DataError = [Txt ''DataError'']"
| "exn_message MultipleResultsFound = [Txt ''Multiple rows were found when one or none was required'']"
| "exn_message RecursionError = [Txt ''maximum recursion depth exceeded'']"
| "exn_message (ValidationError es) = Txt ''validation error'' # map (Txt \<circ> snd) es"
| "exn_message (AIProviderError m) = m"
| "exn_message (OtherError m) = m"

fun join_messages :: "string \<Rightarrow> message list \<Rightarrow> message" where
  "join_messages sep [] = []"
| "join_messages sep [m] = m"
| "join_messages sep (m # n # ms) = m @ Txt sep # join_messages sep (n # ms)"

section \<open>Decisions\<close>

text \<open>A resume value: not a non-empty dictionary, or the entries a node reads of it.\<close>

datatype decision =
    Unusable
  | Decision "string option" "json option"

text \<open>A node that may pause: its review task, or what it returns.\<close>

datatype ('t, 'u) outcome = Paused 't | Returned 'u

definition interrupt :: "'t \<Rightarrow> (decision \<Rightarrow> 'u) \<Rightarrow> decision option \<Rightarrow> ('t, 'u) outcome" where
  "interrupt task k resume = (case resume of None \<Rightarrow> Paused task | Some d \<Rightarrow> Returned (k d))"

section \<open>The contract of a review node\<close>

definition changes_of_thread :: "uuid \<Rightarrow> db \<Rightarrow> proposed_change list" where
  "changes_of_thread th s = filter (\<lambda>c. pc_thread_id c = Some th) (db_proposed_changes s)"

lemma get_change_by_thread_eq: "get_change_by_thread s th = scalar_one_or_none (changes_of_thread th s)"
  by (simp add: get_change_by_thread_def changes_of_thread_def)

text \<open>A node that looks its record up by the thread, creates it when there is none, and then calls
  \<open>interrupt\<close>. The laws: once it has paused, every later entry finds the record, changes nothing
  and only depends on the resume value.\<close>

locale review_node =
  fixes enter :: "'st \<Rightarrow> decision option \<Rightarrow> db \<Rightarrow> exn + ('t, 'u) outcome \<times> db"
    and thread :: "'st \<Rightarrow> uuid option"
    and decide :: "'st \<Rightarrow> 't \<Rightarrow> decision \<Rightarrow> 'u"
    and change_of :: "'t \<Rightarrow> uuid"
  assumes replay: "enter st None s = Inr (Paused t, s') \<Longrightarrow> enter st d s' = Inr (interrupt t (decide st t) d, s')"
    and one_record: "enter st None s = Inr (Paused t, s') \<Longrightarrow>
      \<exists>th c. thread st = Some th \<and> changes_of_thread th s' = [c] \<and> pc_id c = change_of t"
begin

text \<open>Any number of further entries without a decision, then one with it.\<close>

fun enter_again :: "'st \<Rightarrow> nat \<Rightarrow> decision \<Rightarrow> db \<Rightarrow> exn + ('t, 'u) outcome \<times> db" where
  "enter_again st 0 d s = enter st (Some d) s"
| "enter_again st (Suc n) d s =
     (case enter st None s of Inl e \<Rightarrow> Inl e | Inr (_, s') \<Rightarrow> enter_again st n d s')"

lemma replays_are_idempotent:
  assumes "enter st None s = Inr (Paused t, s')"
  shows "enter_again st n d s' = Inr (Returned (decide st t d), s')"
  by (induction n) (simp_all add: replay [OF assms] interrupt_def)

lemma one_record_after_replays:
  assumes "enter st None s = Inr (Paused t, s')" "enter_again st n d s' = Inr (out, s'')"
  shows "\<exists>th c. thread st = Some th \<and> changes_of_thread th s'' = [c] \<and> pc_id c = change_of t"
  using assms(2) one_record [OF assms(1)] unfolding replays_are_idempotent [OF assms(1)] by simp

end

section \<open>Production data\<close>

text \<open>The production tables, and the tables a review works on, of a database.\<close>

definition production :: "db \<Rightarrow> restaurant_row list \<times> location_row list \<times> menu_row list \<times> category_row list \<times> dish_row list" where
  "production s = (db_restaurants s, db_locations s, db_menus s, db_categories s, db_dishes s)"

lemma production_unchanged [simp, frame_simps]:
  "production (snd (create_run wt ri s)) = production s"
  "production (mark_succeeded i s) = production s"
  "production (mark_failed i m s) = production s"
  "production (update_metrics i kvs s) = production s"
  "production (audit a aet ei actor email meta s) = production s"
  "production (update_change_status i st oj s) = production s"
  "production (create_approval i st u why s) = production s"
  "production (snd (create_proposed_change et eid j vr run src th ou s)) = production s"
  "production (s\<lparr>db_next := n\<rparr>) = production s"
  by (simp_all add: production_def create_run_def mark_succeeded_def mark_failed_def update_metrics_def
      audit_def create_audit_log_def update_change_status_def create_approval_def
      create_proposed_change_def Let_def)

lemma changes_unchanged [simp, frame_simps]:
  "db_proposed_changes (snd (create_run wt ri s)) = db_proposed_changes s"
  "db_proposed_changes (mark_succeeded i s) = db_proposed_changes s"
  "db_proposed_changes (mark_failed i m s) = db_proposed_changes s"
  "db_proposed_changes (update_metrics i kvs s) = db_proposed_changes s"
  "db_proposed_changes (audit a aet ei actor email meta s) = db_proposed_changes s"
  "db_proposed_changes (create_approval i st u why s) = db_proposed_changes s"
  by (simp_all add: create_run_def mark_succeeded_def mark_failed_def update_metrics_def audit_def
      create_audit_log_def create_approval_def Let_def)

lemma runs_unchanged [simp, frame_simps]:
  "db_agent_runs (audit a aet ei actor email meta s) = db_agent_runs s"
  "db_agent_runs (update_change_status i st oj s) = db_agent_runs s"
  "db_agent_runs (create_approval i st u why s) = db_agent_runs s"
  "db_agent_runs (snd (create_proposed_change et eid j vr run src th ou s)) = db_agent_runs s"
  by (simp_all add: audit_def create_audit_log_def update_change_status_def create_approval_def
      create_proposed_change_def Let_def)

lemma create_source_frame [frame_simps]:
  "create_source i ty url v s = Inr (src, s') \<Longrightarrow>
     production s' = production s \<and> db_proposed_changes s' = db_proposed_changes s
     \<and> db_agent_runs s' = db_agent_runs s \<and> get_source s' (so_id src) \<noteq> None"
  by (auto simp: create_source_def production_def get_source_def row_by_None Let_def split: if_splits)

end
