(* ===== verification/Collector.thy ===== *)
theory Collector
  imports Workflow SourceAuthority Translation Capture
begin

text \<open>
  The collector workflow, \<open>src/workflows/collector_workflow/\<close>: its state (\<open>state.py\<close>), its six
  nodes (\<open>nodes/\<close>) and the graph that routes between them (\<open>graph.py\<close>). A node takes the state
  and returns the partial update of it; the graph merges the update, appending to \<open>errors\<close> and
  replacing every other field. An exception a node does not catch aborts the run.
\<close>

section \<open>State\<close>

record extraction_result =
  xr_output :: extraction_output
  xr_model_name :: string
  xr_confidence :: "rat option"

record collector_state =
  cs_agent_run_id :: "uuid option"
  cs_restaurant :: "restaurant option"
  cs_source_url :: "string option"
  cs_source :: "source option"
  cs_nutrition_url :: "string option"
  cs_source_snapshots :: "snapshot list option"
  cs_extraction_result :: "extraction_result option"
  cs_structured_json :: "json option"
  cs_validation_result :: "validation_result option"
  cs_proposed_change_id :: "uuid option"
  cs_human_approval_status :: "change_status option"
  cs_published_restaurant_id :: "uuid option"
  cs_errors :: "workflow_error list"

definition initial_state :: "restaurant \<Rightarrow> string option \<Rightarrow> collector_state" where
  "initial_state r nutrition_url =
     \<lparr>cs_agent_run_id = None, cs_restaurant = Some r, cs_source_url = None, cs_source = None,
      cs_nutrition_url = nutrition_url, cs_source_snapshots = None, cs_extraction_result = None,
      cs_structured_json = None, cs_validation_result = None, cs_proposed_change_id = None,
      cs_human_approval_status = None, cs_published_restaurant_id = None, cs_errors = []\<rparr>"

text \<open>A partial update, entry by entry; \<open>source_snapshot\<close> is the first of
  \<open>source_snapshots\<close>, the two being set together.\<close>

datatype field_update =
    U_agent_run_id uuid
  | U_source_url string
  | U_source source
  | U_source_snapshots "snapshot list"
  | U_extraction_result extraction_result
  | U_structured_json json
  | U_validation_result validation_result
  | U_proposed_change_id uuid
  | U_human_approval_status change_status
  | U_published_restaurant_id uuid
  | U_errors "workflow_error list"

fun merge_field :: "field_update \<Rightarrow> collector_state \<Rightarrow> collector_state" where
  "merge_field (U_agent_run_id v) st = st\<lparr>cs_agent_run_id := Some v\<rparr>"
| "merge_field (U_source_url v) st = st\<lparr>cs_source_url := Some v\<rparr>"
| "merge_field (U_source v) st = st\<lparr>cs_source := Some v\<rparr>"
| "merge_field (U_source_snapshots v) st = st\<lparr>cs_source_snapshots := Some v\<rparr>"
| "merge_field (U_extraction_result v) st = st\<lparr>cs_extraction_result := Some v\<rparr>"
| "merge_field (U_structured_json v) st = st\<lparr>cs_structured_json := Some v\<rparr>"
| "merge_field (U_validation_result v) st = st\<lparr>cs_validation_result := Some v\<rparr>"
| "merge_field (U_proposed_change_id v) st = st\<lparr>cs_proposed_change_id := Some v\<rparr>"
| "merge_field (U_human_approval_status v) st = st\<lparr>cs_human_approval_status := Some v\<rparr>"
| "merge_field (U_published_restaurant_id v) st = st\<lparr>cs_published_restaurant_id := Some v\<rparr>"
| "merge_field (U_errors v) st = st\<lparr>cs_errors := cs_errors st @ v\<rparr>"

definition merge :: "field_update list \<Rightarrow> collector_state \<Rightarrow> collector_state" where
  "merge us st = fold merge_field us st"

definition node_error :: "string \<Rightarrow> message \<Rightarrow> field_update" where
  "node_error name msg = U_errors [\<lparr>we_node = name, we_message = msg\<rparr>]"

text \<open>What a graph is built with: the provider, the page fetcher of a domain, the HTML link parser,
  the AI provider and the draws of \<open>uuid4\<close> for identifiers missing in a JSON payload.\<close>

record services =
  sv_provider :: provider
  sv_fetcher :: "string \<Rightarrow> exn + page_fetcher"
  sv_links_of :: "string \<Rightarrow> (string \<times> string) list"
  sv_ai :: ai_provider
  sv_uuid4 :: "loc \<Rightarrow> uuid"

record world =
  w_db :: db
  w_files :: files

section \<open>Source authority\<close>

definition query_from_state :: "restaurant \<Rightarrow> entity_query" where
  "query_from_state r =
     (let first = (case r_locations r of [] \<Rightarrow> None | l # _ \<Rightarrow> Some l) in
      \<lparr>eq_restaurant_id = r_id r, eq_name = r_name r,
       eq_city = map_option l_city first,
       eq_state = Option.bind first l_state,
       eq_country = map_option l_country first,
       eq_phone = Option.bind first l_phone\<rparr>)"

definition source_authority_node ::
  "services \<Rightarrow> collector_state \<Rightarrow> db \<Rightarrow> exn + field_update list \<times> db" where
  "source_authority_node sv st s =
     (case cs_restaurant st of
        None \<Rightarrow> Inr ([node_error ''source_authority''
                 [Txt ''CollectorState.restaurant is required before the source_authority node runs'']], s)
      | Some r \<Rightarrow>
          (let query = query_from_state r;
               (run, s) = create_run COLLECTOR (Some (eq_restaurant_id query)) s
           in case resolve_official_website (sv_provider sv) query s of
                Inl e \<Rightarrow> Inl e
              | Inr (result, s) \<Rightarrow>
                  if sr_status result = RS_VERIFIED
                  then Inr ([U_agent_run_id (ar_id run), U_source_url (the (sr_resolved_url result)),
                             U_source (the (get_source s (the (sr_source_id result))))], s)
                  else
                   (let failure_message =
                      [Txt ''source_authority could not verify an official website for restaurant_id='',
                       Num (eq_restaurant_id query), Txt '' (status='',
                       Txt (resolution_status_value (sr_status result)), Txt ''): '',
                       Txt (case sr_reason result of None \<Rightarrow> ''no reason given'' | Some why \<Rightarrow> why)];
                        s = audit AGENT_RUN_TRIGGER AE_AGENT_RUN (uuid_str (ar_id run)) None None
                          [(''node'', [Txt ''source_authority'']), (''restaurant_id'', [Num (eq_restaurant_id query)]),
                           (''status'', [Txt (resolution_status_value (sr_status result))]),
                           (''reason'', [Txt (case sr_reason result of None \<Rightarrow> [] | Some why \<Rightarrow> why)]),
                           (''rejected_candidates'', [Repr (sr_rejected_candidates result)])] s;
                        s = mark_failed (ar_id run) failure_message s
                    in Inr ([U_agent_run_id (ar_id run), node_error ''source_authority'' failure_message], s))))"

section \<open>Extraction\<close>

text \<open>A capture in the world: identifiers and files are kept also when it fails.\<close>

definition run_capture :: "'a cap \<Rightarrow> world \<Rightarrow> (exn + 'a) \<times> world" where
  "run_capture m w =
     (case m \<lparr>ce_next = db_next (w_db w), ce_now = db_now (w_db w), ce_files = w_files w, ce_requests = []\<rparr> of
        (r, env) \<Rightarrow> (r, \<lparr>w_db = (w_db w)\<lparr>db_next := ce_next env\<rparr>, w_files = ce_files env\<rparr>))"

text \<open>What a node does with its run when it fails: audit and mark the run, if there is one.\<close>

definition fail_run_audited ::
  "uuid option \<Rightarrow> audit_action \<Rightarrow> (string \<times> message) list \<Rightarrow> message \<Rightarrow> db \<Rightarrow> db" where
  "fail_run_audited run_id action metadata failure_message s =
     (case run_id of
        None \<Rightarrow> s
      | Some i \<Rightarrow> mark_failed i failure_message (audit action AE_AGENT_RUN (uuid_str i) None None metadata s))"

definition extraction_node ::
  "services \<Rightarrow> collector_state \<Rightarrow> world \<Rightarrow> exn + field_update list \<times> world" where
  "extraction_node sv st w =
     (case (cs_source st, cs_source_url st) of
        (Some src, Some (c # url)) \<Rightarrow>
          (case sv_fetcher sv (so_url src) of
             Inl e \<Rightarrow> Inl e
           | Inr fetcher \<Rightarrow>
               (case run_capture (capture_source_material fetcher (sv_links_of sv) src (c # url) (cs_nutrition_url st)) w of
                  (Inl e, w) \<Rightarrow>
                    (let failure_message =
                       [Txt ''extraction failed to capture source material for source_id='', Num (so_id src), Txt '': '']
                         @ exn_message e
                     in Inr ([node_error ''extraction'' failure_message],
                             w\<lparr>w_db := fail_run_audited (cs_agent_run_id st) AGENT_RUN_TRIGGER
                               [(''node'', [Txt ''extraction'']), (''source_id'', [Num (so_id src)]),
                                (''error'', exn_message e)] failure_message (w_db w)\<rparr>))
                | (Inr [], w) \<Rightarrow>
                    Inr ([node_error ''extraction''
                      [Txt ''extraction captured no snapshots for source_id='', Num (so_id src)]], w)
                | (Inr snapshots, w) \<Rightarrow> Inr ([U_source_snapshots snapshots], w)))
      | _ \<Rightarrow> Inr ([node_error ''extraction''
               [Txt ''CollectorState.source/source_url is required before the extraction node runs'']], w))"

section \<open>Multimodal translation\<close>

definition system_prompt :: string where
  "system_prompt =
     ''You extract restaurant menu and nutrition data from raw crawled ''
     @ ''website/PDF content. Only report information that is actually ''
     @ ''present in the provided material - never infer, guess, or fill in ''
     @ ''plausible-sounding values. Leave a field unset (null/empty) rather ''
     @ ''than fabricate it. For every dish and for the restaurant profile, ''
     @ ''report which source documents (by the [snapshot:<id>] markers in ''
     @ ''the material) the information came from, and a confidence score ''
     @ ''between 0 and 1 reflecting how clearly the material supports the ''
     @ ''extracted values.''"

definition confidence_piece :: "rat option \<Rightarrow> piece" where
  "confidence_piece c = (case c of None \<Rightarrow> Txt ''None'' | Some x \<Rightarrow> Dec x)"

definition extraction_metadata :: "extraction_output \<Rightarrow> (string \<times> message) list" where
  "extraction_metadata out =
     [(''restaurant_profile_confidence'', [confidence_piece (xp_confidence (xo_restaurant_profile out))]),
      (''restaurant_profile_source_snapshot_ids'', [Repr (xp_source_snapshot_ids (xo_restaurant_profile out))]),
      (''dishes'', concat (map (\<lambda>d. [Txt (xd_name d), confidence_piece (xd_confidence d), Repr (xd_source_snapshot_ids d)])
         [d. m \<leftarrow> xo_menus out, c \<leftarrow> xm_categories m, d \<leftarrow> xc_dishes c]))]"

text \<open>The part of the node inside its \<open>try\<close>: material, then extraction.\<close>

definition translate :: "services \<Rightarrow> files \<Rightarrow> snapshot list \<Rightarrow> exn + extraction_output provider_result" where
  "translate sv fs snapshots =
     (case read_text_materials fs snapshots of
        Inl e \<Rightarrow> Inl e
      | Inr materials \<Rightarrow>
          if materials = []
          then Inl (AIProviderError [Txt ''no text-readable source material available to translate''])
          else run_chunked_extraction (sv_ai sv) system_prompt (build_user_content materials))"

definition multimodal_translation_node ::
  "services \<Rightarrow> collector_state \<Rightarrow> world \<Rightarrow> exn + field_update list \<times> world" where
  "multimodal_translation_node sv st w =
     (case (cs_restaurant st, cs_source_snapshots st) of
        (Some r, Some (sn # sns)) \<Rightarrow>
          (case translate sv (w_files w) (sn # sns) of
             Inl (AIProviderError m) \<Rightarrow>
               (let failure_message =
                  [Txt ''multimodal_translation failed for restaurant_id='', Num (r_id r), Txt '': ''] @ m
                in Inr ([node_error ''multimodal_translation'' failure_message],
                        w\<lparr>w_db := fail_run_audited (cs_agent_run_id st) AI_EXTRACTION
                          [(''node'', [Txt ''multimodal_translation'']), (''restaurant_id'', [Num (r_id r)]),
                           (''error'', m)] failure_message (w_db w)\<rparr>))
           | Inl e \<Rightarrow> Inl e
           | Inr result \<Rightarrow>
               (case map_to_restaurant (pr_output result) r (db_next (w_db w)) of
                  Inl e \<Rightarrow> Inl e
                | Inr (mapped, n) \<Rightarrow>
                    (let s = (w_db w)\<lparr>db_next := n\<rparr>;
                         s = (case cs_agent_run_id st of
                                None \<Rightarrow> s
                              | Some i \<Rightarrow> audit AI_EXTRACTION AE_AGENT_RUN (uuid_str i) None None
                                  ([(''node'', [Txt ''multimodal_translation'']), (''restaurant_id'', [Num (r_id r)]),
                                    (''model_name'', [Txt (pr_model_name result)])]
                                   @ extraction_metadata (pr_output result)) s)
                     in Inr ([U_extraction_result \<lparr>xr_output = pr_output result, xr_model_name = pr_model_name result,
                                xr_confidence = pr_overall_confidence result\<rparr>,
                              U_structured_json (dump_restaurant mapped)], w\<lparr>w_db := s\<rparr>))))
      | _ \<Rightarrow> Inr ([node_error ''multimodal_translation''
               [Txt ''CollectorState.restaurant/source_snapshots are required before the multimodal_translation node runs'']], w))"

section \<open>Deterministic validation\<close>

definition deterministic_validation_node ::
  "services \<Rightarrow> collector_state \<Rightarrow> db \<Rightarrow> exn + field_update list \<times> db" where
  "deterministic_validation_node sv st s =
     (case cs_structured_json st of
        None \<Rightarrow> Inr ([node_error ''deterministic_validation''
                 [Txt ''CollectorState.structured_json is required before the deterministic_validation node runs'']], s)
      | Some j \<Rightarrow>
          (let outcome = validate (sv_uuid4 sv) j;
               update = [U_validation_result \<lparr>vr_is_valid = is_valid outcome,
                           vr_issues = map to_state_issue (vo_errors outcome @ vo_warnings outcome)\<rparr>]
                 @ (case vo_corrected_restaurant outcome of
                      Some corrected \<Rightarrow>
                        if vo_corrected_fields outcome \<noteq> [] then [U_structured_json (dump_restaurant corrected)] else []
                    | None \<Rightarrow> []);
               error_issues = filter (\<lambda>i. vi_severity i = ERROR) (vo_errors outcome);
               s = (case cs_agent_run_id st of
                      Some i \<Rightarrow>
                        if error_issues \<noteq> [] \<or> vo_corrected_fields outcome \<noteq> []
                        then audit AGENT_RUN_TRIGGER AE_AGENT_RUN (uuid_str i) None None
                          [(''node'', [Txt ''deterministic_validation'']),
                           (''is_valid'', [Txt (if is_valid outcome then ''True'' else ''False'')]),
                           (''error_count'', [Num (length (vo_errors outcome))]),
                           (''warning_count'', [Num (length (vo_warnings outcome))]),
                           (''corrected_fields'', [Repr (map cf_field_path (vo_corrected_fields outcome))])] s
                        else s
                    | None \<Rightarrow> s)
           in if \<not> is_valid outcome
              then
               (let failure_message =
                  [Txt ''deterministic_validation found '', Num (length (vo_errors outcome)), Txt '' error(s): '']
                    @ join_messages ''; '' (map vi_message (take 5 (vo_errors outcome)));
                    s = (case cs_agent_run_id st of Some i \<Rightarrow> mark_failed i failure_message s | None \<Rightarrow> s)
                in Inr (update @ [node_error ''deterministic_validation'' failure_message], s))
              else Inr (update, s)))"

section \<open>Human review\<close>

record review_task =
  rt_proposed_change_id :: uuid
  rt_restaurant_id :: uuid
  rt_restaurant_name :: string
  rt_is_valid :: "bool option"
  rt_issue_count :: nat

definition review_task_for :: "proposed_change \<Rightarrow> restaurant \<Rightarrow> validation_result option \<Rightarrow> review_task" where
  "review_task_for record r vr =
     \<lparr>rt_proposed_change_id = pc_id record, rt_restaurant_id = r_id r, rt_restaurant_name = r_name r,
      rt_is_valid = map_option vr_is_valid vr,
      rt_issue_count = (case vr of None \<Rightarrow> 0 | Some v \<Rightarrow> length (vr_issues v))\<rparr>"

text \<open>\<open>_apply_decision\<close>.\<close>

definition apply_decision :: "uuid \<Rightarrow> decision \<Rightarrow> field_update list" where
  "apply_decision record_id decision =
     (case decision of
        Unusable \<Rightarrow> [node_error ''human_review'' [Txt ''human_review resumed with no usable decision'']]
      | Decision action edited \<Rightarrow>
          if action = Some ''approve''
          then [U_proposed_change_id record_id, U_human_approval_status APPROVED]
          else if action = Some ''edit_then_approve''
          then [U_proposed_change_id record_id, U_human_approval_status APPROVED]
            @ (case edited of Some j \<Rightarrow> [U_structured_json j] | None \<Rightarrow> [])
          else if action = Some ''reject''
          then [U_proposed_change_id record_id, U_human_approval_status REJECTED_CHANGE]
          else [node_error ''human_review'' [Txt ''human_review received an unrecognized decision action: '',
                  Txt (case action of None \<Rightarrow> ''None'' | Some a \<Rightarrow> a)]])"

definition human_review_node ::
  "collector_state \<Rightarrow> decision option \<Rightarrow> db \<Rightarrow> exn + (review_task, field_update list) outcome \<times> db" where
  "human_review_node st resume s =
     (case (cs_structured_json st, cs_restaurant st, cs_agent_run_id st) of
        (Some j, Some r, Some run_id) \<Rightarrow>
          (case get_change_by_thread s run_id of
             Inl e \<Rightarrow> Inl e
           | Inr found \<Rightarrow>
               (let (record, s) =
                  (case found of
                     Some record \<Rightarrow> (record, s)
                   | None \<Rightarrow>
                       (let (record, s) = create_proposed_change PC_RESTAURANT (r_id r) j
                              (dump_validation_result (cs_validation_result st)) (Some run_id)
                              (map_option so_id (cs_source st)) (Some run_id) None s
                        in (record, audit PROPOSED_CHANGE_CREATE AE_PROPOSED_CHANGE (uuid_str (pc_id record)) None None
                              [(''node'', [Txt ''human_review'']), (''restaurant_id'', [Num (r_id r)])] s)));
                    task = review_task_for record r (cs_validation_result st)
                in Inr (interrupt task (apply_decision (pc_id record)) resume, s)))
      | _ \<Rightarrow> Inr (Returned [node_error ''human_review''
               [Txt ''CollectorState.structured_json/restaurant/agent_run_id are required before the human_review node runs'']], s))"

section \<open>Publish\<close>

definition publish_fail :: "collector_state \<Rightarrow> message \<Rightarrow> db \<Rightarrow> exn + field_update list \<times> db" where
  "publish_fail st msg s =
     Inr ([node_error ''publish'' msg],
          (case cs_agent_run_id st of Some i \<Rightarrow> mark_failed i msg s | None \<Rightarrow> s))"

text \<open>The writes of a publish that passed its checks.\<close>

definition publish_write :: "collector_state \<Rightarrow> uuid \<Rightarrow> restaurant \<Rightarrow> db \<Rightarrow> exn + field_update list \<times> db" where
  "publish_write st change_id r s =
     (case persist_tree r s of
        Inl e \<Rightarrow> Inl e
      | Inr s \<Rightarrow>
          (let s = update_change_status change_id PUBLISHED None s;
               s = audit PROPOSED_CHANGE_PUBLISH AE_PROPOSED_CHANGE (uuid_str change_id) None None
                 [(''node'', [Txt ''publish'']), (''restaurant_id'', [Num (r_id r)])] s;
               s = (case cs_agent_run_id st of Some i \<Rightarrow> mark_succeeded i s | None \<Rightarrow> s)
           in Inr ([U_published_restaurant_id (r_id r)], s)))"

definition publish_node ::
  "services \<Rightarrow> collector_state \<Rightarrow> db \<Rightarrow> exn + field_update list \<times> db" where
  "publish_node sv st s =
     (if cs_human_approval_status st \<noteq> Some APPROVED
      then publish_fail st [Txt ''publish node reached without human_approval_status == APPROVED; refusing to write''] s
      else
       (case (cs_structured_json st, cs_proposed_change_id st) of
          (Some j, Some change_id) \<Rightarrow>
            (let outcome = validate (sv_uuid4 sv) j in
             if \<not> is_valid outcome
             then publish_fail st
               (Txt ''re-validation failed immediately before publish; refusing to write: ''
                 # join_messages ''; '' (map (\<lambda>i. [Txt (vi_field_path i), Txt '': ''] @ vi_message i) (vo_errors outcome))) s
             else
              (case v_restaurant (sv_uuid4 sv) [] j of
                 Inl es \<Rightarrow> Inl (ValidationError es)
               | Inr r \<Rightarrow>
                   (case get_published_for_entity s (r_id r) of
                      Some existing \<Rightarrow>
                        if pc_id existing \<noteq> change_id
                        then publish_fail st
                          [Txt ''restaurant '', Num (r_id r), Txt '' already has a published change ('',
                           Num (pc_id existing), Txt ''); refusing to republish over it''] s
                        else publish_write st change_id r s
                    | None \<Rightarrow> publish_write st change_id r s)))
        | _ \<Rightarrow> publish_fail st [Txt ''CollectorState.structured_json/proposed_change_id are required before publish runs''] s))"

section \<open>The graph\<close>

datatype collector_node =
    SOURCE_AUTHORITY | EXTRACTION | MULTIMODAL_TRANSLATION | DETERMINISTIC_VALIDATION | HUMAN_REVIEW | PUBLISH

text \<open>\<open>_route_if_no_errors\<close> and \<open>_route_after_human_review\<close>; \<open>None\<close> is \<open>END\<close>.\<close>

definition route_if_no_errors :: "collector_node \<Rightarrow> collector_state \<Rightarrow> collector_node option" where
  "route_if_no_errors next_node st = (if cs_errors st \<noteq> [] then None else Some next_node)"

definition route_after_human_review :: "collector_state \<Rightarrow> collector_node option" where
  "route_after_human_review st = (if cs_human_approval_status st = Some APPROVED then Some PUBLISH else None)"

fun route :: "collector_node \<Rightarrow> collector_state \<Rightarrow> collector_node option" where
  "route SOURCE_AUTHORITY st = route_if_no_errors EXTRACTION st"
| "route EXTRACTION st = route_if_no_errors MULTIMODAL_TRANSLATION st"
| "route MULTIMODAL_TRANSLATION st = route_if_no_errors DETERMINISTIC_VALIDATION st"
| "route DETERMINISTIC_VALIDATION st = route_if_no_errors HUMAN_REVIEW st"
| "route HUMAN_REVIEW st = route_after_human_review st"
| "route PUBLISH st = None"

definition on_db :: "(db \<Rightarrow> exn + 'u \<times> db) \<Rightarrow> world \<Rightarrow> exn + (review_task, 'u) outcome \<times> world" where
  "on_db f w = (case f (w_db w) of Inl e \<Rightarrow> Inl e | Inr (u, s) \<Rightarrow> Inr (Returned u, w\<lparr>w_db := s\<rparr>))"

text \<open>One node; only the review node reads the resume value.\<close>

fun exec_node ::
  "services \<Rightarrow> collector_node \<Rightarrow> collector_state \<Rightarrow> decision option \<Rightarrow> world
     \<Rightarrow> exn + (review_task, field_update list) outcome \<times> world" where
  "exec_node sv SOURCE_AUTHORITY st resume w = on_db (source_authority_node sv st) w"
| "exec_node sv EXTRACTION st resume w =
     (case extraction_node sv st w of Inl e \<Rightarrow> Inl e | Inr (u, w') \<Rightarrow> Inr (Returned u, w'))"
| "exec_node sv MULTIMODAL_TRANSLATION st resume w =
     (case multimodal_translation_node sv st w of Inl e \<Rightarrow> Inl e | Inr (u, w') \<Rightarrow> Inr (Returned u, w'))"
| "exec_node sv DETERMINISTIC_VALIDATION st resume w = on_db (deterministic_validation_node sv st) w"
| "exec_node sv HUMAN_REVIEW st resume w =
     (case human_review_node st resume (w_db w) of
        Inl e \<Rightarrow> Inl e | Inr (out, s) \<Rightarrow> Inr (out, w\<lparr>w_db := s\<rparr>))"
| "exec_node sv PUBLISH st resume w = on_db (publish_node sv st) w"

datatype run_result =
    Finished collector_state world
  | Interrupted review_task collector_state world
  | Raised exn

fun rank :: "collector_node \<Rightarrow> nat" where
  "rank SOURCE_AUTHORITY = 6"
| "rank EXTRACTION = 5"
| "rank MULTIMODAL_TRANSLATION = 4"
| "rank DETERMINISTIC_VALIDATION = 3"
| "rank HUMAN_REVIEW = 2"
| "rank PUBLISH = 1"

lemma route_rank: "route n st = Some m \<Longrightarrow> rank m < rank n"
  by (cases n) (auto simp: route_if_no_errors_def route_after_human_review_def split: if_splits)

text \<open>The compiled graph from a node on. The resume value is consumed by the node it is meant for.\<close>

function run_from ::
  "services \<Rightarrow> collector_node \<Rightarrow> collector_state \<Rightarrow> decision option \<Rightarrow> world \<Rightarrow> run_result" where
  "run_from sv n st resume w =
     (case exec_node sv n st resume w of
        Inl e \<Rightarrow> Raised e
      | Inr (Paused task, w') \<Rightarrow> Interrupted task st w'
      | Inr (Returned us, w') \<Rightarrow>
          (let st' = merge us st in
           case route n st' of
             None \<Rightarrow> Finished st' w'
           | Some m \<Rightarrow> run_from sv m st' None w'))"
  by pat_completeness auto
termination
  by (relation "measure (\<lambda>(sv, n, st, resume, w). rank n)") (auto dest: route_rank)

declare run_from.simps [simp del]

definition start_collector :: "services \<Rightarrow> restaurant \<Rightarrow> string option \<Rightarrow> world \<Rightarrow> run_result" where
  "start_collector sv r nutrition_url w = run_from sv SOURCE_AUTHORITY (initial_state r nutrition_url) None w"

text \<open>\<open>graph.ainvoke(Command(resume=...))\<close>: from the state saved at the interrupt.\<close>

definition resume_collector :: "services \<Rightarrow> collector_state \<Rightarrow> decision \<Rightarrow> world \<Rightarrow> run_result" where
  "resume_collector sv st d w = run_from sv HUMAN_REVIEW st (Some d) w"

section \<open>The review node keeps its contract\<close>

lemma scalar_one_or_none_iff:
  "scalar_one_or_none rs = Inr None \<longleftrightarrow> rs = []"
  "scalar_one_or_none rs = Inr (Some r) \<longleftrightarrow> rs = [r]"
  by (cases rs rule: list.exhaust; cases "tl rs"; simp add: scalar_one_or_none_def; fail)+

lemma changes_of_thread_frame [simp]:
  "changes_of_thread th (audit a aet ei actor email meta s) = changes_of_thread th s"
  by (simp add: changes_of_thread_def)

lemma create_change_thread:
  "create_proposed_change et eid j vr run src (Some th) ou s = (record, s') \<Longrightarrow>
     changes_of_thread th s' = changes_of_thread th s @ [record] \<and> pc_thread_id record = Some th
     \<and> db_proposed_changes s' = db_proposed_changes s @ [record] \<and> pc_structured_json record = j
     \<and> pc_status record = PC_PENDING \<and> production s' = production s \<and> db_agent_runs s' = db_agent_runs s
     \<and> pc_id record = db_next s"
  by (auto simp: create_proposed_change_def changes_of_thread_def production_def Let_def)

lemma human_review_pauses:
  assumes "human_review_node st None s = Inr (Paused t, s')"
  obtains j r run_id rec where
    "cs_structured_json st = Some j" "cs_restaurant st = Some r" "cs_agent_run_id st = Some run_id"
    "changes_of_thread run_id s' = [rec]" "t = review_task_for rec r (cs_validation_result st)"
    "production s' = production s" "db_agent_runs s' = db_agent_runs s"
    "changes_of_thread run_id s = [rec] \<and> s' = s
      \<or> changes_of_thread run_id s = [] \<and> pc_structured_json rec = j \<and> pc_status rec = PC_PENDING
        \<and> pc_entity_id rec = r_id r \<and> pc_id rec = db_next s
        \<and> db_proposed_changes s' = db_proposed_changes s @ [rec]"
proof -
  obtain j r run_id where st: "cs_structured_json st = Some j" "cs_restaurant st = Some r"
    "cs_agent_run_id st = Some run_id"
    using assms by (auto simp: human_review_node_def split: option.splits)
  show ?thesis
  proof (cases "scalar_one_or_none (changes_of_thread run_id s)")
    case (Inl e)
    then show ?thesis using assms st by (simp add: human_review_node_def get_change_by_thread_eq)
  next
    case (Inr found)
    show ?thesis
    proof (cases found)
      case (Some rec)
      then have "changes_of_thread run_id s = [rec]" using Inr by (simp add: scalar_one_or_none_iff)
      then show ?thesis using that [OF st, of rec] assms st Inr Some
        by (simp add: human_review_node_def get_change_by_thread_eq interrupt_def)
    next
      case None
      then have none: "changes_of_thread run_id s = []" using Inr by (simp add: scalar_one_or_none_iff)
      obtain rec s1 where c: "create_proposed_change PC_RESTAURANT (r_id r) j
          (dump_validation_result (cs_validation_result st)) (Some run_id)
          (map_option so_id (cs_source st)) (Some run_id) None s = (rec, s1)"
        by (cases "create_proposed_change PC_RESTAURANT (r_id r) j
          (dump_validation_result (cs_validation_result st)) (Some run_id)
          (map_option so_id (cs_source st)) (Some run_id) None s")
      have "pc_entity_id rec = r_id r" using c by (auto simp: create_proposed_change_def Let_def)
      then show ?thesis
        using that [OF st, of rec] assms st Inr None none create_change_thread [OF c] c
        by (auto simp: human_review_node_def get_change_by_thread_eq interrupt_def Let_def)
    qed
  qed
qed

lemma human_review_found:
  assumes "cs_structured_json st = Some j" "cs_restaurant st = Some r" "cs_agent_run_id st = Some run_id"
    "changes_of_thread run_id s = [rec]"
  shows "human_review_node st resume s =
    Inr (interrupt (review_task_for rec r (cs_validation_result st)) (apply_decision (pc_id rec)) resume, s)"
  using assms by (simp add: human_review_node_def get_change_by_thread_eq scalar_one_or_none_def)

interpretation human_review: review_node human_review_node cs_agent_run_id
  "\<lambda>st t. apply_decision (rt_proposed_change_id t)" rt_proposed_change_id
proof
  fix st s t s' d
  assume p: "human_review_node st None s = Inr (Paused t, s')"
  obtain j r run_id rec where h: "cs_structured_json st = Some j" "cs_restaurant st = Some r"
    "cs_agent_run_id st = Some run_id" "changes_of_thread run_id s' = [rec]"
    "t = review_task_for rec r (cs_validation_result st)"
    by (rule human_review_pauses [OF p])
  show "human_review_node st d s' = Inr (interrupt t (apply_decision (rt_proposed_change_id t)) d, s')"
    using human_review_found [OF h(1-4), of d] by (simp add: h(5) review_task_for_def)
  show "\<exists>th c. cs_agent_run_id st = Some th \<and> changes_of_thread th s' = [c] \<and> pc_id c = rt_proposed_change_id t"
    using h by (auto simp: review_task_for_def)
qed

end
