(* ===== verification/CollectorRuns.thy ===== *)
theory CollectorRuns
  imports Collector
begin

text \<open>
  What a run of the collector graph does as a whole: what each node leaves alone, what it leaves for
  the next one, what holds when a run ends or pauses without a decision, and what a decision publishes.
\<close>

section \<open>What each node leaves alone\<close>

definition run_status_of :: "db \<Rightarrow> uuid \<Rightarrow> run_status option" where
  "run_status_of s i = map_option ar_status (get_run s i)"

lemma create_run_status [frame_simps]:
  assumes "create_run wt ri s = (run, s')" "get_run s (db_next s) = None"
  shows "ar_id run = db_next s" "run_status_of s' (db_next s) = Some RUN_RUNNING"
    "production s' = production s" "db_proposed_changes s' = db_proposed_changes s"
proof -
  have new: "row_by ar_id (ar_id r) [r] = Some r" for r :: agent_run by (simp add: row_by_def)
  show "ar_id run = db_next s" "run_status_of s' (db_next s) = Some RUN_RUNNING"
    "production s' = production s" "db_proposed_changes s' = db_proposed_changes s"
    using assms new [of run] by (auto simp: create_run_def get_run_def run_status_of_def row_by_append production_def Let_def)
qed

lemma mark_run_status [simp, frame_simps]:
  "run_status_of (mark_failed i m s) i = map_option (\<lambda>_. RUN_FAILED) (run_status_of s i)"
  "run_status_of (mark_succeeded i s) i = map_option (\<lambda>_. RUN_SUCCEEDED) (run_status_of s i)"
  by (simp_all add: run_status_of_def get_run_def mark_failed_def mark_succeeded_def run_fails.get_updated run_succeeds.get_updated
      option.map_comp comp_def fail_run_def succeed_run_def)

lemma run_status_frame: "db_agent_runs s' = db_agent_runs s \<Longrightarrow> run_status_of s' i = run_status_of s i"
  by (simp add: run_status_of_def get_run_def)

lemma run_status_unchanged [simp, frame_simps]:
  "run_status_of (audit a aet ei actor email meta s) i = run_status_of s i"
  "run_status_of (s\<lparr>db_next := n\<rparr>) i = run_status_of s i"
  by (simp_all add: run_status_of_def get_run_def)

lemma merge_simps [simp]: "merge [] st = st" "merge (u # us) st = merge us (merge_field u st)"
  "merge (us @ vs) st = merge vs (merge us st)"
  by (simp_all add: merge_def)

lemma try_candidates_frame:
  "try_candidates query cs rejected s = Inr (result, s') \<Longrightarrow>
     production s' = production s \<and> db_proposed_changes s' = db_proposed_changes s \<and> db_agent_runs s' = db_agent_runs s
     \<and> (sr_status result = RS_VERIFIED \<longrightarrow> (\<exists>i u. sr_source_id result = Some i \<and> sr_resolved_url result = Some u
          \<and> u \<noteq> [] \<and> get_source s' i \<noteq> None))"
proof (induction cs arbitrary: rejected)
  case Nil
  then show ?case by auto
next
  case (Cons c cs)
  have ne: "u \<noteq> []" if "try_accept c = Inr (Some (u, conf))" for u conf
  proof
    assume "u = []"
    then have "\<exists>d. extract_domain [] = Inr d"
      using that by (auto simp: try_accept_def validate_official_domain_def split: sum.splits domain_error.splits
          url_error.splits if_splits)
    moreover have "\<not> (case extract_domain [] of Inl e \<Rightarrow> False | Inr d \<Rightarrow> True)" by code_simp
    ultimately show False by (auto split: sum.splits)
  qed
  show ?case
    using Cons ne
    by (auto simp: finalize_def dest!: create_source_frame split: sum.splits option.splits if_splits prod.splits)
qed

lemma resolve_frame:
  "resolve_official_website p query s = Inr (result, s') \<Longrightarrow>
     production s' = production s \<and> db_proposed_changes s' = db_proposed_changes s \<and> db_agent_runs s' = db_agent_runs s
     \<and> (sr_status result = RS_VERIFIED \<longrightarrow> (\<exists>i u. sr_source_id result = Some i \<and> sr_resolved_url result = Some u
          \<and> u \<noteq> [] \<and> get_source s' i \<noteq> None))"
  unfolding resolve_official_website_def Let_def
  by (auto dest: try_candidates_frame split: if_splits)

lemma fail_run_audited_frame [simp, frame_simps]:
  "production (fail_run_audited i a kvs m s) = production s"
  "db_proposed_changes (fail_run_audited i a kvs m s) = db_proposed_changes s"
  "run_status_of (fail_run_audited (Some j) a kvs m s) j = map_option (\<lambda>_. RUN_FAILED) (run_status_of s j)"
  by (simp_all add: fail_run_audited_def split: option.splits)

lemma run_capture_frame:
  "run_capture m w = (r, w') \<Longrightarrow> production (w_db w') = production (w_db w)
     \<and> db_proposed_changes (w_db w') = db_proposed_changes (w_db w) \<and> db_agent_runs (w_db w') = db_agent_runs (w_db w)
     \<and> (\<exists>env. fst (m env) = r)"
  by (auto simp: run_capture_def production_def split: prod.splits) (metis fst_conv)

text \<open>A capture that succeeds has captured something.\<close>

definition yields_some :: "'a list cap \<Rightarrow> bool" where
  "yields_some m \<longleftrightarrow> (\<forall>env xs. fst (m env) = Inr xs \<longrightarrow> xs \<noteq> [])"

lemma capture_links_some: "sns \<noteq> [] \<Longrightarrow> yields_some (capture_links pf i nu urls sns)"
  by (induction urls arbitrary: sns)
    (auto simp: yields_some_def cap_return_def cap_bind_def split: prod.splits sum.splits)

lemma capture_source_material_some: "yields_some (capture_source_material pf links_of src url nu)"
proof -
  have root: "sns \<noteq> []" if "fst (capture_root pf i url env) = Inr (sns, d)" for i env sns d
    using that by (auto simp: capture_root_def cap_bind_def cap_return_def split: prod.splits sum.splits if_splits)
  have nut: "sns' \<noteq> []" if "fst (capture_nutrition pf src nu sns env) = Inr sns'" "sns \<noteq> []" for sns sns' env
    using that by (auto simp: capture_nutrition_def cap_bind_def cap_return_def cap_fail_def
        split: prod.splits sum.splits if_splits option.splits)
  have disc: "sns' \<noteq> []" if "fst (capture_discovered pf links_of src url nu d sns env) = Inr sns'" "sns \<noteq> []"
    for sns sns' env d
    using that capture_links_some [OF that(2)]
    by (auto simp: capture_discovered_def cap_return_def cap_fail_def yields_some_def
        split: prod.splits sum.splits if_splits option.splits)
  show ?thesis
    unfolding yields_some_def capture_source_material_def cap_bind_def
    using root nut disc by (auto split: prod.splits sum.splits) (metis fst_conv)+
qed

section \<open>What each node leaves for the next\<close>

definition reviewable :: "services \<Rightarrow> collector_state \<Rightarrow> bool" where
  "reviewable sv st \<longleftrightarrow> (\<exists>j. cs_structured_json st = Some j \<and> is_valid (validate (sv_uuid4 sv) j))"

text \<open>What a node requires of the state it is entered with.\<close>

fun ready :: "services \<Rightarrow> collector_node \<Rightarrow> collector_state \<Rightarrow> bool" where
  "ready sv SOURCE_AUTHORITY st \<longleftrightarrow> True"
| "ready sv EXTRACTION st \<longleftrightarrow> cs_source st \<noteq> None \<and> (\<exists>u. cs_source_url st = Some u \<and> u \<noteq> [])"
| "ready sv MULTIMODAL_TRANSLATION st \<longleftrightarrow> (\<exists>sns. cs_source_snapshots st = Some sns \<and> sns \<noteq> [])"
| "ready sv DETERMINISTIC_VALIDATION st \<longleftrightarrow> cs_structured_json st \<noteq> None"
| "ready sv HUMAN_REVIEW st \<longleftrightarrow> reviewable sv st"
| "ready sv PUBLISH st \<longleftrightarrow> False"

text \<open>A step of run \<open>i\<close> on the way to \<open>next\<close>: nothing of production or of the changes is touched,
  restaurant, run and approval stay, and either the run still runs and \<open>next\<close> finds what it requires,
  or there is an error and the run is recorded as failed.\<close>

definition step_ok ::
  "services \<Rightarrow> uuid \<Rightarrow> collector_node \<Rightarrow> collector_state \<Rightarrow> db \<Rightarrow> field_update list \<Rightarrow> db \<Rightarrow> bool" where
  "step_ok sv i nxt st s us s' \<longleftrightarrow>
     production s' = production s \<and> db_proposed_changes s' = db_proposed_changes s
     \<and> cs_human_approval_status (merge us st) = cs_human_approval_status st
     \<and> cs_restaurant (merge us st) = cs_restaurant st \<and> cs_agent_run_id (merge us st) = Some i
     \<and> (if cs_errors (merge us st) = [] then run_status_of s' i = Some RUN_RUNNING \<and> ready sv nxt (merge us st)
        else run_status_of s' i = Some RUN_FAILED)"

lemma source_authority_step:
  assumes "source_authority_node sv st s = Inr (us, s')" "cs_restaurant st = Some r" "cs_errors st = []"
    "get_run s (db_next s) = None"
  shows "step_ok sv (db_next s) EXTRACTION st s us s'"
proof -
  obtain run s1 where run: "create_run COLLECTOR (Some (eq_restaurant_id (query_from_state r))) s = (run, s1)"
    by (cases "create_run COLLECTOR (Some (eq_restaurant_id (query_from_state r))) s")
  note run' = create_run_status [OF run assms(4)]
  obtain result s2 where res: "resolve_official_website (sv_provider sv) (query_from_state r) s1 = Inr (result, s2)"
    using assms(1,2) run by (auto simp: source_authority_node_def Let_def split: sum.splits)
  note fr = resolve_frame [OF res]
  have st2: "run_status_of s2 (db_next s) = Some RUN_RUNNING"
    using run'(2) fr run_status_frame by metis
  show ?thesis
    using assms run run' res fr st2
    by (auto simp: source_authority_node_def step_ok_def node_error_def Let_def split: if_splits)
qed

lemma extraction_step:
  assumes "extraction_node sv st w = Inr (us, w')" "ready sv EXTRACTION st" "cs_errors st = []"
    "cs_agent_run_id st = Some i" "run_status_of (w_db w) i = Some RUN_RUNNING"
  shows "step_ok sv i MULTIMODAL_TRANSLATION st (w_db w) us (w_db w')"
proof -
  obtain src c url where st: "cs_source st = Some src" "cs_source_url st = Some (c # url)"
    using assms(2) by (auto simp: neq_Nil_conv)
  obtain pf where pf: "sv_fetcher sv (so_url src) = Inr pf"
    using assms(1) st by (auto simp: extraction_node_def split: sum.splits)
  obtain res w1 where cap: "run_capture (capture_source_material pf (sv_links_of sv) src (c # url)
      (cs_nutrition_url st)) w = (res, w1)"
    by fastforce
  note fr = run_capture_frame [OF cap]
  have "run_status_of (w_db w1) i = Some RUN_RUNNING" using fr assms(5) run_status_frame by metis
  moreover have "res \<noteq> Inr []"
    using fr capture_source_material_some [unfolded yields_some_def] by metis
  ultimately show ?thesis
    using assms st pf cap fr
    by (auto simp: extraction_node_def step_ok_def node_error_def Let_def split: sum.splits list.splits)
qed

lemma translation_step:
  assumes "multimodal_translation_node sv st w = Inr (us, w')" "ready sv MULTIMODAL_TRANSLATION st"
    "cs_errors st = []" "cs_restaurant st = Some r" "cs_agent_run_id st = Some i"
    "run_status_of (w_db w) i = Some RUN_RUNNING"
  shows "step_ok sv i DETERMINISTIC_VALIDATION st (w_db w) us (w_db w')"
proof -
  obtain sn sns where st: "cs_source_snapshots st = Some (sn # sns)"
    using assms(2) by (auto simp: neq_Nil_conv)
  show ?thesis
  proof (cases "translate sv (w_files w) (sn # sns)")
    case (Inl e)
    then show ?thesis using assms st
      by (cases e) (auto simp: multimodal_translation_node_def step_ok_def node_error_def Let_def)
  next
    case (Inr result)
    then show ?thesis using assms st
      by (auto simp: multimodal_translation_node_def step_ok_def node_error_def Let_def split: sum.splits)
  qed
qed

lemma is_valid_corrected:
  assumes "is_valid (validate uu j)" "vo_corrected_restaurant (validate uu j) = Some c"
  shows "is_valid (validate uu (dump_restaurant c))"
proof (cases "v_restaurant uu [] j")
  case (Inl errs)
  then show ?thesis using assms by (simp add: validate_cases split_issues_def)
next
  case (Inr r)
  have c: "c = corrected_restaurant r"
    using assms(2) Inr by (simp add: validate_cases validate_restaurant_def split_issues_def case_prod_beta)
  have ok: "restaurant_ok c" unfolding c by (intro corrected_restaurant_ok vallD [OF vall_v_restaurant Inr])
  show ?thesis
    using assms(1) unfolding validate_dump [OF ok] by (simp add: c validate_cases Inr validate_restaurant_valid
        restaurant_dishes_corrected case_prod_beta)
qed

lemma validation_step:
  assumes "deterministic_validation_node sv st s = Inr (us, s')" "ready sv DETERMINISTIC_VALIDATION st"
    "cs_errors st = []" "cs_agent_run_id st = Some i" "run_status_of s i = Some RUN_RUNNING"
  shows "step_ok sv i HUMAN_REVIEW st s us s'"
proof -
  obtain j where j: "cs_structured_json st = Some j" using assms(2) by auto
  let ?out = "validate (sv_uuid4 sv) j"
  show ?thesis
  proof (cases "is_valid ?out")
    case True
    then show ?thesis
      using assms j is_valid_corrected [OF True]
      by (auto simp: deterministic_validation_node_def step_ok_def reviewable_def Let_def split: option.splits if_splits)
  next
    case False
    then show ?thesis
      using assms j
      by (auto simp: deterministic_validation_node_def step_ok_def node_error_def Let_def
          split: option.splits if_splits)
  qed
qed

text \<open>A node before the review does a step on the way to the node after it.\<close>

fun next_node :: "collector_node \<Rightarrow> collector_node" where
  "next_node SOURCE_AUTHORITY = EXTRACTION"
| "next_node EXTRACTION = MULTIMODAL_TRANSLATION"
| "next_node MULTIMODAL_TRANSLATION = DETERMINISTIC_VALIDATION"
| "next_node DETERMINISTIC_VALIDATION = HUMAN_REVIEW"
| "next_node HUMAN_REVIEW = PUBLISH"
| "next_node PUBLISH = PUBLISH"

lemma exec_node_before_review:
  assumes "exec_node sv n st resume w = Inr (out, w')" "n \<notin> {SOURCE_AUTHORITY, HUMAN_REVIEW, PUBLISH}"
    "ready sv n st" "cs_errors st = []" "cs_restaurant st = Some r" "cs_agent_run_id st = Some i"
    "run_status_of (w_db w) i = Some RUN_RUNNING"
  shows "\<exists>us. out = Returned us \<and> step_ok sv i (next_node n) st (w_db w) us (w_db w')"
  using assms by (cases n)
    (auto simp: on_db_def simp del: ready.simps intro: extraction_step translation_step validation_step split: sum.splits)

lemma route_before_review:
  "n \<notin> {HUMAN_REVIEW, PUBLISH} \<Longrightarrow> route n st = (if cs_errors st = [] then Some (next_node n) else None)"
  by (cases n) (auto simp: route_if_no_errors_def)

section \<open>Runs without a decision\<close>

text \<open>What a run without a decision leads to.\<close>

definition undecided_result :: "services \<Rightarrow> restaurant \<Rightarrow> uuid \<Rightarrow> db \<Rightarrow> run_result \<Rightarrow> bool" where
  "undecided_result sv r i s res \<longleftrightarrow>
     (case res of
        Raised e \<Rightarrow> True
      | Finished st' w' \<Rightarrow> production (w_db w') = production s \<and> db_proposed_changes (w_db w') = db_proposed_changes s
          \<and> cs_errors st' \<noteq> [] \<and> run_status_of (w_db w') i = Some RUN_FAILED
      | Interrupted task st' w' \<Rightarrow> production (w_db w') = production s \<and> reviewable sv st'
          \<and> cs_human_approval_status st' = None \<and> run_status_of (w_db w') i = Some RUN_RUNNING
          \<and> cs_agent_run_id st' = Some i \<and> cs_restaurant st' = Some r
          \<and> (\<exists>s1. db_proposed_changes s1 = db_proposed_changes s
               \<and> human_review_node st' None s1 = Inr (Paused task, w_db w')))"

lemma undecided_result_cong:
  "production s1 = production s2 \<Longrightarrow> db_proposed_changes s1 = db_proposed_changes s2 \<Longrightarrow>
     undecided_result sv r i s1 res = undecided_result sv r i s2 res"
  by (simp add: undecided_result_def split: run_result.splits)

lemma run_review:
  assumes "ready sv HUMAN_REVIEW st" "cs_human_approval_status st = None" "cs_restaurant st = Some r"
    "cs_agent_run_id st = Some i" "run_status_of (w_db w) i = Some RUN_RUNNING"
  shows "undecided_result sv r i (w_db w) (run_from sv HUMAN_REVIEW st None w)"
proof (cases "human_review_node st None (w_db w)")
  case (Inl e)
  then show ?thesis by (subst run_from.simps) (simp add: undecided_result_def)
next
  case (Inr os)
  then obtain t s' where hr: "human_review_node st None (w_db w) = Inr (Paused t, s')"
    using assms by (auto simp: human_review_node_def reviewable_def interrupt_def Let_def split: sum.splits prod.splits)
  have "production s' = production (w_db w) \<and> db_agent_runs s' = db_agent_runs (w_db w)"
    by (rule human_review_pauses [OF hr]) blast
  then show ?thesis
    using hr assms run_status_frame [of s' "w_db w" i]
    by (subst run_from.simps) (auto simp: undecided_result_def)
qed

lemma run_before_review:
  assumes "n \<noteq> SOURCE_AUTHORITY" "n \<noteq> PUBLISH" "ready sv n st" "cs_errors st = []"
    "cs_human_approval_status st = None" "cs_restaurant st = Some r"
    "cs_agent_run_id st = Some i" "run_status_of (w_db w) i = Some RUN_RUNNING"
  shows "undecided_result sv r i (w_db w) (run_from sv n st None w)"
  using assms
proof (induction "rank n" arbitrary: n st w rule: less_induct)
  case less
  show ?case
  proof (cases "n = HUMAN_REVIEW")
    case True
    then show ?thesis using run_review less.prems by blast
  next
    case False
    show ?thesis
    proof (cases "exec_node sv n st None w")
      case (Inl e)
      then show ?thesis by (subst run_from.simps) (simp add: undecided_result_def)
    next
      case (Inr ow)
      obtain out w' where ow: "exec_node sv n st None w = Inr (out, w')" using Inr by (cases ow) auto
      have n: "n \<notin> {SOURCE_AUTHORITY, HUMAN_REVIEW, PUBLISH}" using False less.prems(1,2) by blast
      obtain us where out: "out = Returned us" and ok: "step_ok sv i (next_node n) st (w_db w) us (w_db w')"
        using exec_node_before_review [OF ow n less.prems(3,4,6-8)] by blast
      note ok' = ok [unfolded step_ok_def]
      show ?thesis
      proof (cases "cs_errors (merge us st) = []")
        case True
        have rt: "route n (merge us st) = Some (next_node n)" using True n by (simp add: route_before_review)
        have "undecided_result sv r i (w_db w') (run_from sv (next_node n) (merge us st) None w')"
          using less.hyps [OF route_rank [OF rt]] ok' True less.prems n by (cases n) simp_all
        then show ?thesis
          using ow out rt ok' undecided_result_cong [of "w_db w'" "w_db w"]
          by (subst run_from.simps) (simp add: Let_def)
      next
        case False
        then show ?thesis
          using ow out ok' n by (subst run_from.simps) (simp add: Let_def undecided_result_def route_before_review)
      qed
    qed
  qed
qed

lemma start_undecided:
  assumes "get_run (w_db w) (db_next (w_db w)) = None"
  shows "undecided_result sv r (db_next (w_db w)) (w_db w) (start_collector sv r nutrition_url w)"
proof -
  let ?st = "initial_state r nutrition_url" and ?i = "db_next (w_db w)"
  have init: "cs_restaurant ?st = Some r" "cs_errors ?st = []" "cs_human_approval_status ?st = None"
    by (simp_all add: initial_state_def)
  show ?thesis
  proof (cases "source_authority_node sv ?st (w_db w)")
    case (Inl e)
    then show ?thesis
      by (subst start_collector_def, subst run_from.simps) (simp add: on_db_def undecided_result_def)
  next
    case (Inr us')
    obtain us s' where us: "source_authority_node sv ?st (w_db w) = Inr (us, s')" using Inr by (cases us') auto
    note ok = source_authority_step [OF us init(1,2) assms, unfolded step_ok_def]
    show ?thesis
    proof (cases "cs_errors (merge us ?st) = []")
      case True
      have "undecided_result sv r ?i s' (run_from sv EXTRACTION (merge us ?st) None (w\<lparr>w_db := s'\<rparr>))"
        using run_before_review [of EXTRACTION sv "merge us ?st" r ?i "w\<lparr>w_db := s'\<rparr>"] ok True init by simp
      then show ?thesis
        using us ok True undecided_result_cong [of s' "w_db w"]
        by (subst start_collector_def, subst run_from.simps) (simp add: on_db_def Let_def route_if_no_errors_def)
    next
      case False
      then show ?thesis
        using us ok by (subst start_collector_def, subst run_from.simps)
          (simp add: on_db_def Let_def route_if_no_errors_def undecided_result_def)
    qed
  qed
qed

section \<open>What a decision publishes\<close>

text \<open>The specification of a decided review: the payload the decision stands for, and the restaurant
  that may be published for it, if any.\<close>

definition decided_payload :: "collector_state \<Rightarrow> decision \<Rightarrow> json option" where
  "decided_payload st d =
     (case d of
        Decision (Some action) edited \<Rightarrow>
          if action = ''approve'' then cs_structured_json st
          else if action = ''edit_then_approve'' then (if edited = None then cs_structured_json st else edited)
          else None
      | _ \<Rightarrow> None)"

definition publishable :: "services \<Rightarrow> json option \<Rightarrow> uuid \<Rightarrow> db \<Rightarrow> restaurant option" where
  "publishable sv payload change_id s =
     (case payload of
        None \<Rightarrow> None
      | Some j \<Rightarrow>
          if \<not> is_valid (validate (sv_uuid4 sv) j) then None
          else
           (case v_restaurant (sv_uuid4 sv) [] j of
              Inl _ \<Rightarrow> None
            | Inr r \<Rightarrow>
                (case get_published_for_entity s (r_id r) of
                   None \<Rightarrow> Some r
                 | Some existing \<Rightarrow> if pc_id existing = change_id then Some r else None)))"

lemma publish_node_spec:
  assumes "cs_human_approval_status st = Some APPROVED" "cs_structured_json st = Some j"
    "cs_proposed_change_id st = Some change_id"
  shows "(case publishable sv (Some j) change_id s of
            None \<Rightarrow> \<exists>msg. publish_node sv st s = publish_fail st msg s
          | Some r \<Rightarrow> publish_node sv st s = publish_write st change_id r s)"
proof (cases "is_valid (validate (sv_uuid4 sv) j)")
  case True
  then obtain r where "v_restaurant (sv_uuid4 sv) [] j = Inr r" unfolding valid_iff by blast
  then show ?thesis using assms True by (auto simp: publish_node_def publishable_def Let_def split: option.splits)
next
  case False
  then show ?thesis using assms by (auto simp: publish_node_def publishable_def Let_def)
qed

lemma publish_write_Inr:
  assumes "publish_write st change_id r s = Inr (us, s')"
  shows "\<exists>s1. persist_tree r s = Inr s1 \<and> production s' = production s1 \<and> us = [U_published_restaurant_id (r_id r)]
    \<and> db_proposed_changes s' = update_by pc_id change_id (set_change_status PUBLISHED None) (db_proposed_changes s1)
    \<and> (\<forall>i. cs_agent_run_id st = Some i \<longrightarrow> run_status_of s' i = map_option (\<lambda>_. RUN_SUCCEEDED) (run_status_of s1 i))"
proof -
  have "run_status_of (update_change_status c x j s1) i = run_status_of s1 i" for c x j s1 i
    by (rule run_status_frame) simp
  then show ?thesis
    using assms by (auto simp: publish_write_def Let_def split: sum.splits option.splits)
      (simp_all add: update_change_status_def)
qed

lemma persist_tree_frame:
  "persist_tree r s = Inr s' \<Longrightarrow> db_proposed_changes s' = db_proposed_changes s \<and> db_agent_runs s' = db_agent_runs s"
  by (auto simp: persist_tree_def Let_def split: if_splits)

text \<open>Resuming a paused run: the decision is applied, and only an approval leads to the publish node.\<close>

lemma resume_steps:
  assumes "human_review_node st None s0 = Inr (Paused t, w_db w)" "cs_human_approval_status st = None"
  shows "resume_collector sv st d w =
    (let st' = merge (apply_decision (rt_proposed_change_id t) d) st in
     if cs_human_approval_status st' = Some APPROVED
     then (case publish_node sv st' (w_db w) of
             Inl e \<Rightarrow> Raised e
           | Inr (us, s') \<Rightarrow> Finished (merge us st') (w\<lparr>w_db := s'\<rparr>))
     else Finished st' w)"
proof -
  let ?st = "merge (apply_decision (rt_proposed_change_id t) d) st"
  have "human_review_node st (Some d) (w_db w) = Inr (Returned (apply_decision (rt_proposed_change_id t) d), w_db w)"
    using human_review.replay [OF assms(1), of "Some d"] by (simp add: interrupt_def)
  then have "resume_collector sv st d w =
      (if cs_human_approval_status ?st = Some APPROVED then run_from sv PUBLISH ?st None w else Finished ?st w)"
    by (subst resume_collector_def, subst run_from.simps) (simp add: Let_def route_after_human_review_def)
  moreover have "run_from sv PUBLISH ?st None w =
      (case publish_node sv ?st (w_db w) of
         Inl e \<Rightarrow> Raised e
       | Inr (us, s') \<Rightarrow> Finished (merge us ?st) (w\<lparr>w_db := s'\<rparr>))"
    by (subst run_from.simps) (simp add: on_db_def split: sum.splits)
  ultimately show ?thesis by (simp add: Let_def)
qed

lemma decided:
  assumes "cs_human_approval_status st = None" "cs_structured_json st \<noteq> None"
  shows "case decided_payload st d of
      None \<Rightarrow> cs_human_approval_status (merge (apply_decision i d) st) \<noteq> Some APPROVED
        \<and> cs_published_restaurant_id (merge (apply_decision i d) st) = cs_published_restaurant_id st
    | Some j \<Rightarrow> merge (apply_decision i d) st = st\<lparr>cs_proposed_change_id := Some i,
        cs_human_approval_status := Some APPROVED, cs_structured_json := Some j\<rparr>"
proof (cases d)
  case Unusable
  then show ?thesis using assms by (simp add: decided_payload_def apply_decision_def node_error_def)
next
  case (Decision action edited)
  have ne: "''edit_then_approve'' \<noteq> ''approve''" by simp
  consider "action = Some ''approve''" | "action = Some ''edit_then_approve''"
    | "action \<noteq> Some ''approve''" "action \<noteq> Some ''edit_then_approve''" by blast
  then show ?thesis
  proof cases
    case 1
    then show ?thesis using assms by (auto simp: decided_payload_def apply_decision_def Decision)
  next
    case 2
    then show ?thesis using assms ne by (cases edited) (auto simp: decided_payload_def apply_decision_def Decision)
  next
    case 3
    then have "decided_payload st d = None" by (cases action) (auto simp: decided_payload_def Decision)
    moreover have "apply_decision i d = [U_proposed_change_id i, U_human_approval_status REJECTED_CHANGE]
        \<or> (\<exists>msg. apply_decision i d = [node_error ''human_review'' msg])"
      using 3 by (auto simp: apply_decision_def Decision)
    ultimately show ?thesis using assms(1) by (auto simp: node_error_def)
  qed
qed

lemma get_full_tree_production:
  assumes "production s' = production s"
  shows "get_full_tree i s' = get_full_tree i s" "stored s' r = stored s r" "fk_ok s' = fk_ok s"
proof -
  have eq: "db_restaurants s' = db_restaurants s" "db_locations s' = db_locations s" "db_menus s' = db_menus s"
    "db_categories s' = db_categories s" "db_dishes s' = db_dishes s"
    using assms by (simp_all add: production_def)
  have m: "menu_to_schema s' = menu_to_schema s" by (rule ext) (simp add: menu_to_schema_def eq)
  have t: "to_schema s' = to_schema s" unfolding to_schema_def eq m by (rule refl)
  show "get_full_tree i s' = get_full_tree i s" unfolding get_full_tree_def eq t by (rule refl)
  have "covers s' = covers s" by (intro ext) (simp add: covers_def eq)
  then show "stored s' r = stored s r" by (simp add: stored_def eq)
  show "fk_ok s' = fk_ok s" by (simp add: fk_ok_def eq)
qed

text \<open>A decided run, against its specification.\<close>

definition decided_result ::
  "services \<Rightarrow> collector_state \<Rightarrow> decision \<Rightarrow> uuid \<Rightarrow> db \<Rightarrow> run_result \<Rightarrow> bool" where
  "decided_result sv st d change_id s res \<longleftrightarrow>
     (case publishable sv (decided_payload st d) change_id s of
        None \<Rightarrow> \<exists>st' w'. res = Finished st' w' \<and> production (w_db w') = production s
          \<and> db_proposed_changes (w_db w') = db_proposed_changes s
          \<and> cs_published_restaurant_id st' = cs_published_restaurant_id st
      | Some r \<Rightarrow>
          (case persist_tree r s of
             Inl e \<Rightarrow> res = Raised e
           | Inr s1 \<Rightarrow> \<exists>st' w'. res = Finished st' w' \<and> production (w_db w') = production s1
               \<and> db_proposed_changes (w_db w') = update_by pc_id change_id (set_change_status PUBLISHED None) (db_proposed_changes s)
               \<and> cs_published_restaurant_id st' = Some (r_id r) \<and> cs_errors st' = cs_errors st))"

lemma publish_fail_frame:
  "publish_fail st msg s = Inr (us, s') \<Longrightarrow>
     production s' = production s \<and> db_proposed_changes s' = db_proposed_changes s
     \<and> cs_published_restaurant_id (merge us st2) = cs_published_restaurant_id st2"
  by (auto simp: publish_fail_def node_error_def split: option.splits)

lemma resume_decided:
  assumes "human_review_node st None s0 = Inr (Paused t, w_db w)" "cs_human_approval_status st = None"
  shows "decided_result sv st d (rt_proposed_change_id t) (w_db w) (resume_collector sv st d w)"
proof -
  let ?i = "rt_proposed_change_id t"
  let ?st = "merge (apply_decision ?i d) st"
  have "cs_structured_json st \<noteq> None" by (rule human_review_pauses [OF assms(1)]) simp
  note dec = decided [OF assms(2) this, of ?i d]
  note res = resume_steps [OF assms, of sv d]
  show ?thesis
  proof (cases "decided_payload st d")
    case None
    then show ?thesis using dec res by (simp add: decided_result_def publishable_def Let_def)
  next
    case (Some j)
    then have st: "?st = st\<lparr>cs_proposed_change_id := Some ?i, cs_human_approval_status := Some APPROVED,
        cs_structured_json := Some j\<rparr>"
      using dec by simp
    have pub: "case publishable sv (Some j) ?i (w_db w) of
        None \<Rightarrow> \<exists>msg. publish_node sv ?st (w_db w) = publish_fail ?st msg (w_db w)
      | Some r \<Rightarrow> publish_node sv ?st (w_db w) = publish_write ?st ?i r (w_db w)"
      by (rule publish_node_spec) (simp_all add: st)
    show ?thesis
    proof (cases "publishable sv (Some j) ?i (w_db w)")
      case None
      then obtain msg us s' where p: "publish_node sv ?st (w_db w) = publish_fail ?st msg (w_db w)"
        "publish_fail ?st msg (w_db w) = Inr (us, s')"
        using pub by (auto simp: publish_fail_def)
      then show ?thesis
        using None Some res publish_fail_frame [OF p(2), of ?st] by (simp add: decided_result_def st Let_def)
    next
      case (Some r)
      then have p: "publish_node sv ?st (w_db w) = publish_write ?st ?i r (w_db w)" using pub by simp
      show ?thesis
      proof (cases "publish_write ?st ?i r (w_db w)")
        case (Inl e)
        then show ?thesis
          using p Some \<open>decided_payload st d = Some j\<close> res
          by (auto simp: decided_result_def st Let_def publish_write_def split: sum.splits)
      next
        case (Inr us')
        then obtain us s' where w: "publish_write ?st ?i r (w_db w) = Inr (us, s')" by (cases us') auto
        from publish_write_Inr [OF w] obtain s1 where s1: "persist_tree r (w_db w) = Inr s1"
          "production s' = production s1" "us = [U_published_restaurant_id (r_id r)]"
          "db_proposed_changes s' = update_by pc_id ?i (set_change_status PUBLISHED None) (db_proposed_changes s1)"
          by blast
        show ?thesis
          using p Some \<open>decided_payload st d = Some j\<close> res w s1 persist_tree_frame [OF s1(1)]
          by (simp add: decided_result_def st Let_def)
      qed
    qed
  qed
qed

section \<open>Properties\<close>


text \<open>C4: The decision is carried out as specified. Resume a run that paused with any decision: if the
  decision is an approval whose payload (the edited one, when there is one) passes validation and whose
  restaurant has no other published change, then that restaurant and nothing else is written to the
  production tables and exactly the reviewed change becomes published, or the database refuses the
  write and the run raises; in every other case production and the review queue are left as they
  were.\<close>

theorem decisions_are_carried_out:
  assumes "human_review_node st None s0 = Inr (Paused t, w_db w)" "cs_human_approval_status st = None"
  shows "decided_result sv st d (rt_proposed_change_id t) (w_db w) (resume_collector sv st d w)"
  by (rule resume_decided [OF assms])


text \<open>Replays of the review node are harmless. Once the node has paused, entering it any number of
  further times without a decision and then with one returns what the decision says for the very same
  change and leaves the database as it was, with one change for the run.\<close>

theorem collector_review_replays:
  assumes "human_review_node st None s = Inr (Paused t, s')"
  shows "human_review.enter_again st n d s' = Inr (Returned (apply_decision (rt_proposed_change_id t) d), s')
    \<and> (\<exists>run_id c. cs_agent_run_id st = Some run_id \<and> changes_of_thread run_id s' = [c]
          \<and> pc_id c = rt_proposed_change_id t)"
  using human_review.replays_are_idempotent [OF assms] human_review.one_record_after_replays [OF assms] by blast

section \<open>A run\<close>

text \<open>A restaurant without a menu, one page of soup, and an AI that reads it.\<close>

definition soup_ai :: ai_provider where
  "soup_ai = \<lparr>ai_discover = (\<lambda>_ _. Inr \<lparr>pr_output = \<lparr>xy_restaurant_profile = empty_profile,
        xy_categories = [\<lparr>xs_menu_name = ''Lunch'', xs_category_name = ''Soups''\<rparr>]\<rparr>,
        pr_model_name = ''m'', pr_overall_confidence = None\<rparr>),
      ai_category = (\<lambda>_ _. Inr \<lparr>pr_output = [sample_extracted_dish], pr_model_name = ''m'',
        pr_overall_confidence = None\<rparr>)\<rparr>"

definition sample_services :: services where
  "sample_services =
     \<lparr>sv_provider = manual_provider ''https://joes.example/menu'',
      sv_fetcher = crawler_page_fetcher sample_network sample_browser (\<lambda>_. ''ab'') [''data''],
      sv_links_of = (\<lambda>_. []), sv_ai = soup_ai, sv_uuid4 = (\<lambda>_. 0)\<rparr>"

definition sample_start :: run_result where
  "sample_start = start_collector sample_services (sample_restaurant\<lparr>r_menus := []\<rparr>) None
     \<lparr>w_db = empty_db, w_files = Map.empty\<rparr>"

lemma sample_start_pauses:
  "case sample_start of Interrupted t st w \<Rightarrow>
     cs_published_restaurant_id st = None \<and>
     (case publishable sample_services (decided_payload st (Decision (Some ''approve'') None)) (rt_proposed_change_id t) (w_db w) of
        Some r \<Rightarrow> r_id r = 0 \<and> restaurant_storable r \<and> (case persist_tree r (w_db w) of Inl e \<Rightarrow> False | Inr s \<Rightarrow> True)
      | None \<Rightarrow> False)
    | _ \<Rightarrow> False"
  by code_simp

lemma empty_db_fresh: "get_run empty_db i = None" "changes_of_thread i empty_db = []" "fk_ok empty_db"
  by (simp_all add: get_run_def changes_of_thread_def row_by_def empty_db_def fk_ok_def)

lemma sample_paused:
  obtains t st w s0 r s1 where "sample_start = Interrupted t st w"
    "human_review_node st None s0 = Inr (Paused t, w_db w)" "cs_human_approval_status st = None"
    "fk_ok (w_db w)" "cs_published_restaurant_id st = None"
    "publishable sample_services (decided_payload st (Decision (Some ''approve'') None)) (rt_proposed_change_id t) (w_db w) = Some r"
    "r_id r = 0" "restaurant_storable r" "persist_tree r (w_db w) = Inr s1"
proof -
  obtain t st w where s: "sample_start = Interrupted t st w"
    using sample_start_pauses by (auto split: run_result.splits)
  obtain r s1 where r: "publishable sample_services (decided_payload st (Decision (Some ''approve'') None)) (rt_proposed_change_id t) (w_db w) = Some r"
    "r_id r = 0" "restaurant_storable r" "persist_tree r (w_db w) = Inr s1" "cs_published_restaurant_id st = None"
    using sample_start_pauses unfolding s by (auto split: option.splits sum.splits)
  have "undecided_result sample_services (sample_restaurant\<lparr>r_menus := []\<rparr>) (db_next empty_db) empty_db sample_start"
    using start_undecided [of "\<lparr>w_db = empty_db, w_files = Map.empty\<rparr>"] by (simp add: sample_start_def empty_db_fresh)
  then obtain s0 where u: "human_review_node st None s0 = Inr (Paused t, w_db w)" "cs_human_approval_status st = None"
    "production (w_db w) = production empty_db"
    unfolding s undecided_result_def by auto
  have "fk_ok (w_db w)" using get_full_tree_production(3) [OF u(3)] empty_db_fresh(3) by simp
  then show thesis using that s u r by blast
qed


theorem decisions_are_carried_out_witness:
  "\<exists>t st w. sample_start = Interrupted t st w
     \<and> (\<exists>st' w'. resume_collector sample_services st (Decision (Some ''approve'') None) w = Finished st' w'
          \<and> cs_published_restaurant_id st' = Some 0)"
proof -
  obtain t st w s0 r s1 where p: "sample_start = Interrupted t st w"
    "human_review_node st None s0 = Inr (Paused t, w_db w)" "cs_human_approval_status st = None"
    "publishable sample_services (decided_payload st (Decision (Some ''approve'') None)) (rt_proposed_change_id t) (w_db w) = Some r"
    "r_id r = 0" "persist_tree r (w_db w) = Inr s1"
    by (rule sample_paused)
  have "decided_result sample_services st (Decision (Some ''approve'') None) (rt_proposed_change_id t) (w_db w)
      (resume_collector sample_services st (Decision (Some ''approve'') None) w)"
    by (rule decisions_are_carried_out [OF p(2,3)])
  then obtain st' w' where "resume_collector sample_services st (Decision (Some ''approve'') None) w = Finished st' w'"
    "cs_published_restaurant_id st' = Some 0"
    using p(4-6) by (auto simp: decided_result_def)
  then show ?thesis using p(1) by blast
qed


theorem collector_review_replays_witness:
  "\<exists>t st w. sample_start = Interrupted t st w
     \<and> human_review.enter_again st 2 Unusable (w_db w)
         = Inr (Returned [node_error ''human_review'' [Txt ''human_review resumed with no usable decision'']], w_db w)"
proof -
  obtain t st w s0 where p: "sample_start = Interrupted t st w" "human_review_node st None s0 = Inr (Paused t, w_db w)"
    using sample_paused by metis
  then show ?thesis
    using collector_review_replays [OF p(2), of 2 Unusable] by (auto simp: apply_decision_def)
qed

end
