(* ===== verification/Delta.thy ===== *)
theory Delta
  imports Workflow
begin

text \<open>
  Field-level deltas of the reviewer workflow: \<open>src/core/schemas/diff.py\<close> and
  \<open>src/workflows/reviewer_workflow/nodes/json_delta_generation.py\<close>. DeepDiff is a parameter: what
  \<open>diff.to_dict()\<close> holds, kind by kind, each kind a list of paths with their change (none when the
  kind is a set of paths). The paths are strings in DeepDiff's grammar, and the code's own parsers of
  them are modelled character by character.
\<close>

section \<open>Deltas\<close>

datatype delta_op = OP_ADDED | OP_REMOVED | OP_CHANGED

record field_delta =
  fd_path :: string
  fd_op :: delta_op
  fd_old_value :: json
  fd_new_value :: json
  fd_source_snapshot_ids :: "string list"

type_synonym json_delta = "field_delta list"

type_synonym deep_diff = "json \<Rightarrow> json \<Rightarrow> (string \<times> (string \<times> json option) list) list"

definition ignored_top_level_fields :: "string list" where
  "ignored_top_level_fields = [''id'', ''created_at'', ''updated_at'']"

definition op_for :: "string \<Rightarrow> delta_op option" where
  "op_for diff_kind =
     (if diff_kind \<in> {''dictionary_item_added'', ''iterable_item_added''} then Some OP_ADDED
      else if diff_kind \<in> {''dictionary_item_removed'', ''iterable_item_removed''} then Some OP_REMOVED
      else if diff_kind \<in> {''values_changed'', ''type_changes''} then Some OP_CHANGED
      else None)"

section \<open>Paths\<close>

definition flush :: "string \<Rightarrow> string list" where
  "flush token = (if token = [] then [] else [token])"

definition is_quoted :: "string \<Rightarrow> bool" where
  "is_quoted key \<longleftrightarrow> key \<noteq> [] \<and> hd key = CHR 0x27 \<and> last key = CHR 0x27"

definition unquote :: "string \<Rightarrow> string" where
  "unquote key = butlast (tl key)"

definition not_close :: "char \<Rightarrow> bool" where
  "not_close c \<longleftrightarrow> c \<noteq> CHR '']''"

text \<open>The scanning loop of \<open>_dotted_path\<close>. A bracket that is not closed raises. An index does not
  flush the token before it.\<close>

function dotted_parts :: "string \<Rightarrow> string \<Rightarrow> string list option" where
  "dotted_parts token [] = Some (flush token)"
| "dotted_parts token (c # cs) =
     (if c = CHR ''['' then
        (case dropWhile not_close cs of
           [] \<Rightarrow> None
         | _ # rest \<Rightarrow>
             (let key = takeWhile not_close cs in
              if is_quoted key
              then map_option (\<lambda>ps. flush token @ unquote key # ps) (dotted_parts [] rest)
              else map_option (\<lambda>ps. (''['' @ key @ '']'') # ps) (dotted_parts token rest)))
      else dotted_parts (token @ [c]) cs)"
  by pat_completeness auto
termination
proof (relation "measure (\<lambda>(token, s). length s)", goal_cases)
  case (2 token c cs x rest key)
  then show ?case using length_dropWhile_le [of not_close cs] by simp
next
  case (3 token c cs x rest key)
  then show ?case using length_dropWhile_le [of not_close cs] by simp
qed simp_all

definition join_part :: "string \<Rightarrow> string \<Rightarrow> string" where
  "join_part result part =
     (if prefix ''['' part then result @ part
      else if result \<noteq> [] then result @ ''.'' @ part
      else part)"

definition remove_prefix :: "string \<Rightarrow> string \<Rightarrow> string" where
  "remove_prefix p s = (if prefix p s then drop (length p) s else s)"

definition dotted_path :: "string \<Rightarrow> string option" where
  "dotted_path deepdiff_path =
     map_option (foldl join_part []) (dotted_parts [] (remove_prefix ''root'' deepdiff_path))"

text \<open>The scanning loop of \<open>_lookup\<close>.\<close>

function path_tokens :: "string \<Rightarrow> string \<Rightarrow> string list option" where
  "path_tokens token [] = Some (flush token)"
| "path_tokens token (c # cs) =
     (if c = CHR ''.'' then map_option (\<lambda>ts. flush token @ ts) (path_tokens [] cs)
      else if c = CHR ''['' then
        (case dropWhile not_close cs of
           [] \<Rightarrow> None
         | _ # rest \<Rightarrow>
             map_option (\<lambda>ts. flush token @ takeWhile not_close cs # ts) (path_tokens [] rest))
      else path_tokens (token @ [c]) cs)"
  by pat_completeness auto
termination
proof (relation "measure (\<lambda>(token, s). length s)", goal_cases)
  case (3 token c cs x rest)
  then show ?case using length_dropWhile_le [of not_close cs] by simp
qed simp_all

text \<open>\<open>int(s)\<close>: white space around it, a sign, and single underscores between digits.\<close>

definition py_int :: "string \<Rightarrow> int option" where
  "py_int s =
     (let t = py_strip s;
          neg = (t \<noteq> [] \<and> hd t = CHR ''-'');
          u = (if t \<noteq> [] \<and> hd t \<in> {CHR ''-'', CHR ''+''} then tl t else t);
          groups = py_split_on (CHR ''_'') u
      in if list_all (\<lambda>g. g \<noteq> [] \<and> list_all is_digit g) groups
         then map_option (\<lambda>n. if neg then - int n else int n) (read_nat (concat groups))
         else None)"

text \<open>One step of the walk; \<open>None\<close> is a \<open>KeyError\<close>, \<open>IndexError\<close>, \<open>TypeError\<close> or
  \<open>ValueError\<close>. A negative index counts from the end.\<close>

definition list_item :: "'a list \<Rightarrow> int \<Rightarrow> 'a option" where
  "list_item xs i =
     (let k = (if i < 0 then i + int (length xs) else i)
      in if 0 \<le> k \<and> k < int (length xs) then Some (xs ! nat k) else None)"

fun lookup_token :: "json \<Rightarrow> string \<Rightarrow> json option" where
  "lookup_token (JList js) tok = Option.bind (py_int tok) (list_item js)"
| "lookup_token (JObj kvs) tok = map_of kvs tok"
| "lookup_token _ tok = None"

fun walk :: "json \<Rightarrow> string list \<Rightarrow> json option" where
  "walk j [] = Some j"
| "walk j (t # ts) = Option.bind (lookup_token j t) (\<lambda>j'. walk j' ts)"

text \<open>\<open>_lookup\<close>: its own scan may raise, the walk answers \<open>None\<close>.\<close>

definition lookup_path :: "json \<Rightarrow> string \<Rightarrow> json option" where
  "lookup_path data dotted =
     map_option (\<lambda>ts. case walk data ts of None \<Rightarrow> JNull | Some j \<Rightarrow> j) (path_tokens [] dotted)"

text \<open>\<open>_compare_by_id\<close>, given to DeepDiff.\<close>

definition compare_by_id :: "json \<Rightarrow> json \<Rightarrow> bool" where
  "compare_by_id item1 item2 =
     (case (item1, item2) of
        (JObj a, JObj b) \<Rightarrow>
          (case (map_of a ''id'', map_of b ''id'') of
             (Some i, Some j) \<Rightarrow> i = j
           | _ \<Rightarrow> item1 = item2)
      | _ \<Rightarrow> item1 = item2)"

section \<open>Source references\<close>

definition restaurant_profile_ref_key :: string where
  "restaurant_profile_ref_key = ''restaurant_profile''"

definition top_level :: "string \<Rightarrow> string" where
  "top_level dotted = hd (py_split_on (CHR ''['') (hd (py_split_on (CHR ''.'') dotted)))"

text \<open>The refs of a dish-shaped value, if it has some. Identifiers in a dump are strings.\<close>

definition dish_refs :: "(string \<times> string list) list \<Rightarrow> json option \<Rightarrow> string list option" where
  "dish_refs source_refs cursor =
     (case cursor of
        Some (JObj kvs) \<Rightarrow>
          (case (map_of kvs ''id'', map_of kvs ''category_id'') of
             (Some (JStr i), Some _) \<Rightarrow> map_of source_refs i
           | _ \<Rightarrow> None)
      | _ \<Rightarrow> None)"

text \<open>One step of the cursor; a token like \<open>--1\<close> passes the digit test and makes \<open>int\<close> raise.\<close>

definition move_cursor :: "json option \<Rightarrow> string \<Rightarrow> exn + json option" where
  "move_cursor cursor token =
     (case cursor of
        Some (JObj kvs) \<Rightarrow> Inr (map_of kvs token)
      | Some (JList js) \<Rightarrow>
          (let digits = dropWhile (\<lambda>c. c = CHR ''-'') token in
           if digits \<noteq> [] \<and> list_all is_digit digits
           then (case py_int token of
                   None \<Rightarrow> Inl (OtherError [Txt ''invalid literal for int()''])
                 | Some i \<Rightarrow> Inr (if 0 \<le> i \<and> i < int (length js) then Some (js ! nat i) else None))
           else Inr None)
      | _ \<Rightarrow> Inr None)"

fun refs_along :: "(string \<times> string list) list \<Rightarrow> json option \<Rightarrow> string list \<Rightarrow> exn + string list option" where
  "refs_along source_refs cursor [] = Inr None"
| "refs_along source_refs cursor (token # tokens) =
     (if token = [] then refs_along source_refs cursor tokens
      else
       (case move_cursor cursor token of
          Inl e \<Rightarrow> Inl e
        | Inr cursor' \<Rightarrow>
            (case dish_refs source_refs cursor' of
               Some refs \<Rightarrow> Inr (Some refs)
             | None \<Rightarrow> refs_along source_refs cursor' tokens)))"

definition ref_tokens :: "string \<Rightarrow> string list" where
  "ref_tokens dotted =
     py_split_on (CHR ''.'')
       (map (\<lambda>c. if c = CHR ''['' then CHR ''.'' else c) (filter (\<lambda>c. c \<noteq> CHR '']'') dotted))"

definition resolve_source_refs :: "string \<Rightarrow> json \<Rightarrow> (string \<times> string list) list \<Rightarrow> exn + string list" where
  "resolve_source_refs dotted reextracted source_refs =
     (if source_refs = [] then Inr []
      else
       (case refs_along source_refs (Some reextracted) (ref_tokens dotted) of
          Inl e \<Rightarrow> Inl e
        | Inr (Some refs) \<Rightarrow> Inr refs
        | Inr None \<Rightarrow>
            if top_level dotted \<in> {''description'', ''cuisine_types'', ''logo_url'', ''cover_image_url''}
            then Inr (case map_of source_refs restaurant_profile_ref_key of None \<Rightarrow> [] | Some refs \<Rightarrow> refs)
            else Inr []))"

section \<open>The delta\<close>

definition value_error :: exn where
  "value_error = OtherError [Txt ''substring not found'']"

text \<open>The values of one reported change: \<open>(old_value, new_value)\<close>.\<close>

definition delta_values :: "json \<Rightarrow> json \<Rightarrow> delta_op \<Rightarrow> string \<Rightarrow> json option \<Rightarrow> exn + json \<times> json" where
  "delta_values current reextracted op dotted change =
     (case op of
        OP_CHANGED \<Rightarrow>
          (case change of
             Some (JObj kvs) \<Rightarrow>
               Inr (case map_of kvs ''old_value'' of None \<Rightarrow> JNull | Some j \<Rightarrow> j,
                    case map_of kvs ''new_value'' of None \<Rightarrow> JNull | Some j \<Rightarrow> j)
           | _ \<Rightarrow> Inr (JNull, JNull))
      | OP_ADDED \<Rightarrow>
          (case lookup_path reextracted dotted of None \<Rightarrow> Inl value_error | Some j \<Rightarrow> Inr (JNull, j))
      | OP_REMOVED \<Rightarrow>
          (case lookup_path current dotted of None \<Rightarrow> Inl value_error | Some j \<Rightarrow> Inr (j, JNull)))"

text \<open>One reported path: no field for an ignored one.\<close>

definition delta_field ::
  "json \<Rightarrow> json \<Rightarrow> (string \<times> string list) list \<Rightarrow> delta_op \<Rightarrow> string \<times> json option \<Rightarrow> exn + field_delta list" where
  "delta_field current reextracted source_refs op item =
     (case dotted_path (fst item) of
        None \<Rightarrow> Inl value_error
      | Some dotted \<Rightarrow>
          if top_level dotted \<in> set ignored_top_level_fields then Inr []
          else
           (case delta_values current reextracted op dotted (snd item) of
              Inl e \<Rightarrow> Inl e
            | Inr (old_value, new_value) \<Rightarrow>
                (case (if op = OP_REMOVED then Inr [] else resolve_source_refs dotted reextracted source_refs) of
                   Inl e \<Rightarrow> Inl e
                 | Inr refs \<Rightarrow>
                     Inr [\<lparr>fd_path = dotted, fd_op = op, fd_old_value = old_value, fd_new_value = new_value,
                           fd_source_snapshot_ids = refs\<rparr>])))"

text \<open>The reported paths of the kinds that are read, in order.\<close>

definition delta_items ::
  "(string \<times> (string \<times> json option) list) list \<Rightarrow> (delta_op \<times> string \<times> json option) list" where
  "delta_items diff =
     concat (map (\<lambda>(kind, changes). case op_for kind of None \<Rightarrow> [] | Some op \<Rightarrow> map (Pair op) changes) diff)"

definition compute_delta ::
  "deep_diff \<Rightarrow> restaurant \<Rightarrow> restaurant \<Rightarrow> (string \<times> string list) list \<Rightarrow> exn + json_delta" where
  "compute_delta deep_diff current reextracted source_refs =
     (let current_dict = dump_restaurant current;
          reextracted_dict = dump_restaurant reextracted
      in case those_res (map (\<lambda>(op, item). delta_field current_dict reextracted_dict source_refs op item)
                (delta_items (deep_diff current_dict reextracted_dict))) of
           Inl e \<Rightarrow> Inl e
         | Inr fss \<Rightarrow> Inr (concat fss))"

section \<open>Paths through a tree\<close>

text \<open>DeepDiff's rendering of a path of keys and indices, the code's dotted rendering of it, and the
  value at a path.\<close>

definition is_word :: "char \<Rightarrow> bool" where
  "is_word c \<longleftrightarrow> is_lower c \<or> is_upper c \<or> is_digit c \<or> c = CHR ''_''"

definition plain_key :: "string \<Rightarrow> bool" where
  "plain_key k \<longleftrightarrow> k \<noteq> [] \<and> \<not> is_digit (hd k) \<and> list_all is_word k"

definition plain_path :: "loc \<Rightarrow> bool" where
  "plain_path p \<longleftrightarrow> list_all (\<lambda>x. case x of LKey k \<Rightarrow> plain_key k | LIdx i \<Rightarrow> True) p"

fun deep_segment :: "loc_part \<Rightarrow> string" where
  "deep_segment (LKey k) = CHR ''['' # CHR 0x27 # k @ [CHR 0x27, CHR '']'']"
| "deep_segment (LIdx i) = CHR ''['' # show_nat i @ [CHR '']'']"

definition deepdiff_path :: "loc \<Rightarrow> string" where
  "deepdiff_path p = ''root'' @ concat (map deep_segment p)"

fun dotted_segment :: "loc_part \<Rightarrow> string" where
  "dotted_segment (LKey k) = CHR ''.'' # k"
| "dotted_segment (LIdx i) = CHR ''['' # show_nat i @ [CHR '']'']"

fun dotted :: "loc \<Rightarrow> string" where
  "dotted (LKey k # p) = k @ concat (map dotted_segment p)"
| "dotted p = concat (map dotted_segment p)"

fun get_path :: "json \<Rightarrow> loc \<Rightarrow> json option" where
  "get_path j [] = Some j"
| "get_path (JObj kvs) (LKey k # p) = Option.bind (map_of kvs k) (\<lambda>j. get_path j p)"
| "get_path (JList js) (LIdx i # p) = (if i < length js then get_path (js ! i) p else None)"
| "get_path _ _ = None"

fun token_of :: "loc_part \<Rightarrow> string" where
  "token_of (LKey k) = k"
| "token_of (LIdx i) = show_nat i"

lemma is_word_plain: "is_word c \<Longrightarrow> c \<noteq> CHR ''.'' \<and> c \<noteq> CHR ''['' \<and> c \<noteq> CHR '']'' \<and> c \<noteq> CHR 0x27"
  by (auto simp: is_word_def is_lower_def is_upper_def is_digit_def)

lemma not_word [simp]: "\<not> is_word (CHR ''.'')" "\<not> is_word (CHR ''['')" "\<not> is_word (CHR '']'')" "\<not> is_word (CHR 0x27)"
  using is_word_plain by blast+

lemma plain_pathD: "plain_path (LKey k # p) \<Longrightarrow> (\<forall>c \<in> set k. is_word c) \<and> k \<noteq> [] \<and> \<not> is_digit (hd k) \<and> plain_path p"
  by (simp add: plain_path_def plain_key_def list_all_iff)

lemma plain_word: "plain_key k \<Longrightarrow> c \<in> set k \<Longrightarrow> is_word c"
  by (simp add: plain_key_def list_all_iff)

lemma digits_word: "c \<in> set (show_nat i) \<Longrightarrow> is_word c"
  using show_nat_digits [of i] by (auto simp: is_word_def list_all_iff)

lemma word_free [simp]:
  "is_word c \<Longrightarrow> not_close c" "is_word c \<Longrightarrow> c \<noteq> CHR ''.''" "is_word c \<Longrightarrow> c \<noteq> CHR ''[''"
  using is_word_plain by (auto simp: not_close_def)

lemma close_words:
  assumes "\<forall>c \<in> set w. not_close c"
  shows "takeWhile not_close (w @ CHR '']'' # rest) = w" "dropWhile not_close (w @ CHR '']'' # rest) = CHR '']'' # rest"
proof -
  have "\<not> not_close (CHR '']'')" by (simp add: not_close_def)
  then show "takeWhile not_close (w @ CHR '']'' # rest) = w" "dropWhile not_close (w @ CHR '']'' # rest) = CHR '']'' # rest"
    using assms by (simp_all add: takeWhile_append2 dropWhile_append2)
qed

fun part_of :: "loc_part \<Rightarrow> string" where
  "part_of (LKey k) = k"
| "part_of (LIdx i) = CHR ''['' # show_nat i @ [CHR '']'']"

lemma dotted_parts_segments:
  "plain_path p \<Longrightarrow> dotted_parts [] (concat (map deep_segment p)) = Some (map part_of p)"
proof (induction p)
  case Nil
  then show ?case by (simp add: flush_def)
next
  case (Cons x p)
  let ?rest = "concat (map deep_segment p)"
  have IH: "dotted_parts [] ?rest = Some (map part_of p)" using Cons by (simp add: plain_path_def)
  show ?case
  proof (cases x)
    case (LKey k)
    let ?w = "CHR 0x27 # k @ [CHR 0x27]"
    have "\<forall>c \<in> set ?w. not_close c"
      using Cons.prems plain_word LKey by (auto simp: plain_path_def not_close_def dest: is_word_plain)
    from close_words [OF this, of ?rest] show ?thesis
      using IH by (simp add: LKey is_quoted_def unquote_def flush_def)
  next
    case (LIdx i)
    have d: "\<forall>c \<in> set (show_nat i). not_close c" by (simp add: digits_word)
    have "\<not> is_quoted (show_nat i)"
      using digits_word [of "hd (show_nat i)" i] is_word_plain by (auto simp: is_quoted_def)
    with close_words [OF d, of ?rest] show ?thesis using IH by (simp add: LIdx)
  qed
qed

lemma join_segments:
  assumes "plain_path p" "acc \<noteq> []"
  shows "foldl join_part acc (map part_of p) = acc @ concat (map dotted_segment p)"
  using assms
proof (induction p arbitrary: acc)
  case Nil
  then show ?case by simp
next
  case (Cons x p)
  have "join_part acc (part_of x) = acc @ dotted_segment x"
  proof (cases x)
    case (LKey k)
    then have k: "k \<noteq> []" "hd k \<noteq> CHR ''[''"
      using Cons.prems plain_word [of k "hd k"] by (auto simp: plain_path_def plain_key_def)
    then show ?thesis using Cons.prems LKey by (cases k) (auto simp: join_part_def)
  qed (simp add: join_part_def)
  then show ?case using Cons by (simp add: plain_path_def)
qed

lemma dotted_path_deepdiff:
  assumes "plain_path p"
  shows "dotted_path (deepdiff_path p) = Some (dotted p)"
proof -
  have "remove_prefix ''root'' (deepdiff_path p) = concat (map deep_segment p)"
    by (simp add: remove_prefix_def deepdiff_path_def)
  moreover have "foldl join_part [] (map part_of p) = dotted p"
  proof (cases p)
    case (Cons x q)
    have "join_part [] (part_of x) = part_of x" by (simp add: join_part_def)
    moreover have "part_of x \<noteq> []" using assms Cons by (cases x) (auto simp: plain_path_def plain_key_def)
    ultimately show ?thesis
      using join_segments [of q "part_of x"] assms Cons by (cases x) (simp_all add: plain_path_def)
  qed simp
  ultimately show ?thesis using dotted_parts_segments [OF assms] by (simp add: dotted_path_def)
qed

lemma path_tokens_word:
  "\<forall>c \<in> set w. is_word c \<Longrightarrow> path_tokens tk (w @ rest) = path_tokens (tk @ w) rest"
  by (induction w arbitrary: tk) (auto dest: word_free)

lemma path_tokens_segments:
  assumes "plain_path p"
  shows "path_tokens tk (concat (map dotted_segment p)) = Some (flush tk @ map token_of p)"
  using assms
proof (induction p arbitrary: tk)
  case Nil
  then show ?case by simp
next
  case (Cons x p)
  then have IH: "path_tokens tk (concat (map dotted_segment p)) = Some (flush tk @ map token_of p)" for tk
    by (simp add: plain_path_def)
  show ?case
  proof (cases x)
    case (LKey k)
    then have "\<forall>c \<in> set k. is_word c" "k \<noteq> []"
      using Cons.prems plain_word by (auto simp: plain_path_def plain_key_def)
    then show ?thesis by (simp add: LKey path_tokens_word IH) (simp add: flush_def)
  next
    case (LIdx i)
    have "\<forall>c \<in> set (show_nat i). not_close c" by (simp add: digits_word)
    from close_words [OF this] show ?thesis by (simp add: LIdx IH) (simp add: flush_def)
  qed
qed

lemma path_tokens_dotted:
  assumes "plain_path p"
  shows "path_tokens [] (dotted p) = Some (map token_of p)"
proof (cases p)
  case Nil
  then show ?thesis by (simp add: flush_def)
next
  case (Cons x q)
  show ?thesis
  proof (cases x)
    case (LKey k)
    then have "\<forall>c \<in> set k. is_word c" "k \<noteq> []" "plain_path q"
      using assms Cons plain_word by (auto simp: plain_path_def plain_key_def)
    then show ?thesis by (simp add: Cons LKey path_tokens_word path_tokens_segments) (simp add: flush_def)
  next
    case (LIdx i)
    then show ?thesis using path_tokens_segments [OF assms, of "[]"] by (simp add: Cons flush_def)
  qed
qed

lemma py_strip_digits: "py_strip (show_nat i) = show_nat i"
proof -
  have nd: "\<not> is_ws c" if "is_digit c" for c
    using that by (auto simp: is_digit_def is_ws_def Let_def)
  have d: "\<forall>c \<in> set (show_nat i). \<not> is_ws c" using show_nat_digits [of i] nd by (auto simp: list_all_iff)
  have "dropWhile is_ws (show_nat i) = show_nat i" by (rule dropWhile_id) (use d in auto)
  moreover have "dropWhile is_ws (rev (show_nat i)) = rev (show_nat i)"
    by (rule dropWhile_id) (use d in \<open>auto simp: hd_rev\<close>)
  ultimately show ?thesis by (simp add: py_strip_def)
qed

lemma py_split_on_absent: "ch \<notin> set s \<Longrightarrow> py_split_on ch s = [s]"
  by (induction s) auto

lemma py_int_show_nat [simp]: "py_int (show_nat i) = Some (int i)"
proof -
  have h: "is_digit (hd (show_nat i))" using show_nat_digits [of i] by (cases "show_nat i") auto
  then have "hd (show_nat i) \<noteq> CHR ''-''" "hd (show_nat i) \<noteq> CHR ''+''" by (auto simp: is_digit_def)
  moreover have "CHR ''_'' \<notin> set (show_nat i)"
    using show_nat_digits [of i] by (auto simp: list_all_iff is_digit_def)
  ultimately show ?thesis
    by (simp add: py_int_def Let_def py_strip_digits py_split_on_absent show_nat_digits)
qed

lemma walk_get_path: "get_path data p = Some j \<Longrightarrow> walk data (map token_of p) = Some j"
proof (induction data p rule: get_path.induct)
  case (2 kvs k p)
  then show ?case by (cases "map_of kvs k") auto
next
  case (3 js i p)
  then show ?case by (auto simp: list_item_def split: if_splits)
qed auto

lemma lookup_path_dotted:
  "plain_path p \<Longrightarrow> get_path data p = Some j \<Longrightarrow> lookup_path data (dotted p) = Some j"
  by (simp add: lookup_path_def path_tokens_dotted walk_get_path)

section \<open>References along a path\<close>

lemma py_split_on_sep: "ch \<notin> set w \<Longrightarrow> py_split_on ch (w @ ch # rest) = w # py_split_on ch rest"
  by (induction w) auto

definition ref_text :: "string \<Rightarrow> string" where
  "ref_text s = map (\<lambda>c. if c = CHR ''['' then CHR ''.'' else c) (filter (\<lambda>c. c \<noteq> CHR '']'') s)"

lemma ref_text_append [simp]: "ref_text (a @ b) = ref_text a @ ref_text b"
  by (simp add: ref_text_def)

lemma ref_text_word: "\<forall>c \<in> set w. is_word c \<Longrightarrow> ref_text w = w"
  by (induction w) (auto simp: ref_text_def dest: is_word_plain)

lemma token_word: "plain_path [x] \<Longrightarrow> c \<in> set (token_of x) \<Longrightarrow> is_word c"
  by (cases x) (auto simp: plain_path_def plain_word digits_word)

lemma ref_text_segment: "plain_path [x] \<Longrightarrow> ref_text (dotted_segment x) = CHR ''.'' # token_of x"
  using ref_text_word [of "token_of x"] token_word [of x]
  by (cases x) (auto simp: ref_text_def)

lemma ref_text_segments:
  "plain_path p \<Longrightarrow> ref_text (concat (map dotted_segment p)) = concat (map (\<lambda>x. CHR ''.'' # token_of x) p)"
  by (induction p) (auto simp: ref_text_segment plain_path_def ref_text_def [of "[]"])

lemma split_tokens:
  "plain_path p \<Longrightarrow> CHR ''.'' \<notin> set w \<Longrightarrow>
     py_split_on (CHR ''.'') (w @ concat (map (\<lambda>x. CHR ''.'' # token_of x) p)) = w # map token_of p"
proof (induction p arbitrary: w)
  case Nil
  then show ?case by (simp add: py_split_on_absent)
next
  case (Cons x p)
  have "CHR ''.'' \<notin> set (token_of x)"
    using token_word [of x "CHR ''.''"] Cons.prems(1) not_word(1) by (auto simp: plain_path_def)
  then show ?case using Cons by (simp add: py_split_on_sep plain_path_def)
qed

lemma ref_tokens_dotted:
  assumes "plain_path p"
  shows "filter (\<lambda>t. t \<noteq> []) (ref_tokens (dotted p)) = map token_of p"
proof -
  have ne: "filter (\<lambda>t. t \<noteq> []) (map token_of q) = map token_of q" if "plain_path q" for q
    using that by (induction q) (auto simp: plain_path_def plain_key_def split: loc_part.splits)
  have r: "ref_tokens s = py_split_on (CHR ''.'') (ref_text s)" for s by (simp add: ref_tokens_def ref_text_def)
  show ?thesis
  proof (cases p)
    case (Cons x q)
    show ?thesis
    proof (cases x)
      case (LKey k)
      then have k: "\<forall>c \<in> set k. is_word c" "k \<noteq> []" "plain_path q" "CHR ''.'' \<notin> set k"
        using plain_pathD [of k q] assms Cons not_word(1) by blast+
      then show ?thesis
        using split_tokens [OF k(3,4)] ne [OF k(3)] by (simp add: Cons LKey r ref_text_word ref_text_segments)
    next
      case (LIdx i)
      have "dotted p = concat (map dotted_segment p)" by (simp add: Cons LIdx)
      then show ?thesis
        using split_tokens [OF assms, of "[]"] ne [OF assms] by (simp add: r ref_text_segments [OF assms])
    qed
  qed (simp add: r ref_text_def)
qed

lemma refs_along_nonempty: "refs_along refs cursor ts = refs_along refs cursor (filter (\<lambda>t. t \<noteq> []) ts)"
  by (induction ts arbitrary: cursor) (auto split: sum.splits option.splits)

lemma move_cursor_total: "plain_path [x] \<Longrightarrow> \<exists>c'. move_cursor c (token_of x) = Inr c'"
proof -
  assume x: "plain_path [x]"
  have "\<not> (dropWhile (\<lambda>c. c = CHR ''-'') (token_of x) \<noteq> []
      \<and> list_all is_digit (dropWhile (\<lambda>c. c = CHR ''-'') (token_of x))) \<or> (\<exists>i. x = LIdx i)"
  proof (cases x)
    case (LKey k)
    then have k: "k \<noteq> []" "\<not> is_digit (hd k)" "hd k \<noteq> CHR ''-''"
      using x plain_word [of k "hd k"]
      by (auto simp: plain_path_def plain_key_def is_word_def is_lower_def is_upper_def is_digit_def)
    then show ?thesis by (cases k) (auto simp: LKey)
  qed simp
  then show ?thesis by (auto simp: move_cursor_def Let_def split: option.splits json.splits)
qed

lemma refs_along_total: "plain_path p \<Longrightarrow> \<exists>r. refs_along refs c (map token_of p) = Inr r"
proof (induction p arbitrary: c)
  case (Cons x p)
  obtain c' where c': "move_cursor c (token_of x) = Inr c'"
    using move_cursor_total [of x c] Cons.prems by (auto simp: plain_path_def)
  have "plain_path p" using Cons.prems by (simp add: plain_path_def)
  then show ?case using Cons.IH c' by (auto split: option.splits)
qed simp

lemma resolve_total: "plain_path p \<Longrightarrow> \<exists>ids. resolve_source_refs (dotted p) re refs = Inr ids"
  using refs_along_total [of p refs "Some re"] refs_along_nonempty [of refs "Some re" "ref_tokens (dotted p)"]
  by (auto simp: resolve_source_refs_def ref_tokens_dotted split: option.splits)

lemma move_cursor_get:
  "get_path j [x] = Some j' \<Longrightarrow> move_cursor (Some j) (token_of x) = Inr (Some j')"
proof (cases x)
  case (LIdx i)
  assume g: "get_path j [x] = Some j'"
  have d: "dropWhile (\<lambda>c. c = CHR ''-'') (show_nat i) = show_nat i"
  proof (rule dropWhile_id)
    have "is_digit (hd (show_nat i))" using show_nat_digits [of i] by (cases "show_nat i") auto
    then show "show_nat i = [] \<or> hd (show_nat i) \<noteq> CHR ''-''" by (auto simp: is_digit_def)
  qed
  show ?thesis using g
    by (cases j) (auto simp: LIdx move_cursor_def d show_nat_digits split: if_splits)
qed (cases j; auto simp: move_cursor_def)

text \<open>Below a dish with references, when nothing above it has some, the dish's own are found.\<close>

lemma get_path_append: "get_path j (p @ q) = Option.bind (get_path j p) (\<lambda>j'. get_path j' q)"
  by (induction j p rule: get_path.induct) (auto simp: bind_assoc split: option.splits bind_splits)

lemma refs_along_dish:
  assumes "get_path j p = Some d" "dish_refs refs (Some d) = Some rs" "plain_path p" "p \<noteq> []"
    "\<forall>q r. p = q @ r \<and> q \<noteq> [] \<and> r \<noteq> [] \<longrightarrow> dish_refs refs (get_path j q) = None"
  shows "refs_along refs (Some j) (map token_of (p @ below)) = Inr (Some rs)"
  using assms
proof (induction p arbitrary: j)
  case (Cons x p)
  obtain j' where j': "get_path j [x] = Some j'" "get_path j' p = Some d"
    using Cons.prems(1) get_path_append [of j "[x]" p] by (cases "get_path j [x]") auto
  have ne: "token_of x \<noteq> []" using Cons.prems(3) by (cases x) (auto simp: plain_path_def plain_key_def)
  show ?case
  proof (cases "p = []")
    case True
    then show ?thesis using move_cursor_get [OF j'(1)] j'(2) Cons.prems(2) ne by simp
  next
    case False
    have "dish_refs refs (Some j') = None" using Cons.prems(5) False j'(1) by (metis append_Cons append_Nil list.distinct(1))
    moreover have "refs_along refs (Some j') (map token_of (p @ below)) = Inr (Some rs)"
    proof (rule Cons.IH [OF j'(2) Cons.prems(2) _ False])
      show "plain_path p" using Cons.prems(3) by (simp add: plain_path_def)
      show "\<forall>q r. p = q @ r \<and> q \<noteq> [] \<and> r \<noteq> [] \<longrightarrow> dish_refs refs (get_path j' q) = None"
      proof (intro allI impI)
        fix q r assume "p = q @ r \<and> q \<noteq> [] \<and> r \<noteq> []"
        then have "dish_refs refs (get_path j (x # q)) = None" using Cons.prems(5) by (metis append_Cons list.distinct(1))
        then show "dish_refs refs (get_path j' q) = None" using get_path_append [of j "[x]" q] j'(1) by simp
      qed
    qed
    ultimately show ?thesis using move_cursor_get [OF j'(1)] ne by simp
  qed
qed simp

section \<open>Properties\<close>

text \<open>What DeepDiff reports, as it documents it: every path it names is a path of keys and indices, an
  added one leads to a value of the second tree, a removed one to a value of the first.\<close>

definition reports_paths :: "json \<Rightarrow> json \<Rightarrow> delta_op \<times> string \<times> json option \<Rightarrow> bool" where
  "reports_paths current reextracted item \<longleftrightarrow>
     (case item of (op, path, change) \<Rightarrow>
        \<exists>p. plain_path p \<and> path = deepdiff_path p
          \<and> (case op of
               OP_ADDED \<Rightarrow> get_path reextracted p \<noteq> None
             | OP_REMOVED \<Rightarrow> get_path current p \<noteq> None
             | OP_CHANGED \<Rightarrow> True))"

text \<open>A field that says what is in the two trees at its path.\<close>

definition true_field :: "json \<Rightarrow> json \<Rightarrow> field_delta \<Rightarrow> bool" where
  "true_field current reextracted f \<longleftrightarrow>
     (\<exists>p. plain_path p \<and> fd_path f = dotted p
        \<and> (case fd_op f of
             OP_ADDED \<Rightarrow> fd_old_value f = JNull \<and> get_path reextracted p = Some (fd_new_value f)
           | OP_REMOVED \<Rightarrow> get_path current p = Some (fd_old_value f) \<and> fd_new_value f = JNull
               \<and> fd_source_snapshot_ids f = []
           | OP_CHANGED \<Rightarrow> True))"

lemma delta_field_real:
  assumes "reports_paths current reextracted (op, item)"
  shows "\<exists>d fs. dotted_path (fst item) = Some d \<and> delta_field current reextracted refs op item = Inr fs
    \<and> (if top_level d \<in> set ignored_top_level_fields then fs = []
       else \<exists>f. fs = [f] \<and> fd_path f = d \<and> fd_op f = op \<and> true_field current reextracted f)"
proof -
  obtain p where p: "plain_path p" "fst item = deepdiff_path p"
    "case op of OP_ADDED \<Rightarrow> get_path reextracted p \<noteq> None | OP_REMOVED \<Rightarrow> get_path current p \<noteq> None | OP_CHANGED \<Rightarrow> True"
    using assms by (cases item) (auto simp: reports_paths_def)
  note d = dotted_path_deepdiff [OF p(1)]
  obtain rs where rs: "resolve_source_refs (dotted p) reextracted refs = Inr rs"
    using resolve_total [OF p(1)] by blast
  note look = lookup_path_dotted [OF p(1)]
  show ?thesis
  proof (cases op)
    case OP_ADDED
    then obtain j where "get_path reextracted p = Some j" using p(3) by auto
    with look [OF this] show ?thesis
      using p OP_ADDED by (auto simp: delta_field_def d rs delta_values_def true_field_def)
  next
    case OP_REMOVED
    then obtain j where "get_path current p = Some j" using p(3) by auto
    with look [OF this] show ?thesis
      using p OP_REMOVED by (auto simp: delta_field_def d delta_values_def true_field_def)
  next
    case OP_CHANGED
    have "\<exists>v w. delta_values current reextracted OP_CHANGED (dotted p) (snd item) = Inr (v, w)"
      by (auto simp: delta_values_def split: option.splits json.splits)
    then show ?thesis
      using p OP_CHANGED by (auto simp: delta_field_def d rs true_field_def)
  qed
qed

text \<open>The paths of a delta lead where they say. For every path of keys and indices that leads to a
  value of a tree, the code's rendering of DeepDiff's form of it succeeds, and looking the rendered
  path up in the tree returns exactly that value.\<close>

theorem delta_paths_resolve:
  assumes "plain_path p" "get_path data p = Some j"
  shows "\<exists>d. dotted_path (deepdiff_path p) = Some d \<and> lookup_path data d = Some j"
  using dotted_path_deepdiff [OF assms(1)] lookup_path_dotted [OF assms] by blast

theorem delta_paths_resolve_witness:
  "\<exists>d. dotted_path ''root['menus'][1]['name']'' = Some d
     \<and> lookup_path (JObj [(''menus'', JList [JNull, JObj [(''name'', JStr ''Lunch'')]])]) d = Some (JStr ''Lunch'')"
proof -
  have p: "plain_path [LKey ''menus'', LIdx 1, LKey ''name'']" by code_simp
  have s: "deepdiff_path [LKey ''menus'', LIdx 1, LKey ''name''] = ''root['menus'][1]['name']''" by code_simp
  show ?thesis
    using delta_paths_resolve [OF p, of "JObj [(''menus'', JList [JNull, JObj [(''name'', JStr ''Lunch'')]])]"]
    unfolding s by simp
qed


text \<open>A change is attributed to the dish it is in. For any value at or below a dish that has source
  references and lies below nothing else that has some, the delta's references are those of the
  dish.\<close>

theorem references_of_the_dish:
  assumes "get_path reextracted p = Some d" "dish_refs refs (Some d) = Some rs" "plain_path (p @ below)" "p \<noteq> []"
    and "\<forall>q r. p = q @ r \<and> q \<noteq> [] \<and> r \<noteq> [] \<longrightarrow> dish_refs refs (get_path reextracted q) = None"
  shows "resolve_source_refs (dotted (p @ below)) reextracted refs = Inr rs"
proof -
  have "plain_path p" using assms(3) by (simp add: plain_path_def)
  then have "refs_along refs (Some reextracted) (ref_tokens (dotted (p @ below))) = Inr (Some rs)"
    using refs_along_dish [OF assms(1,2) _ assms(4,5), of below]
    by (subst refs_along_nonempty) (simp add: ref_tokens_dotted [OF assms(3)])
  moreover have "refs \<noteq> []" using assms(2) by (auto simp: dish_refs_def split: json.splits option.splits)
  ultimately show ?thesis by (simp add: resolve_source_refs_def)
qed

text \<open>A report of one dish added to the sample restaurant.\<close>

definition sample_refs :: "(string \<times> string list) list" where
  "sample_refs = [(''3'', [''50''])]"

definition sample_diff :: deep_diff where
  "sample_diff _ _ = [(''iterable_item_added'', [(''root['menus'][0]['categories'][0]['dishes'][0]'', None)]),
     (''values_changed'', [(''root['id']'', Some (JObj []))])]"

definition sample_dish_path :: loc where
  "sample_dish_path = [LKey ''menus'', LIdx 0, LKey ''categories'', LIdx 0, LKey ''dishes'', LIdx 0]"

lemma sample_report:
  "delta_items (sample_diff cur re) = [(OP_ADDED, deepdiff_path sample_dish_path, None),
     (OP_CHANGED, deepdiff_path [LKey ''id''], Some (JObj []))]"
  "plain_path sample_dish_path" "plain_path [LKey ''id'']"
  by (code_simp, code_simp, code_simp)

lemma sample_dish_there:
  "get_path (dump_restaurant sample_restaurant) sample_dish_path = Some (dump_dish sample_dish)"
  "dish_refs sample_refs (Some (dump_dish sample_dish)) = Some [''50'']"
  by (code_simp, code_simp)


theorem references_of_the_dish_witness:
  "resolve_source_refs (dotted (sample_dish_path @ [LKey ''price'']))
     (dump_restaurant sample_restaurant) sample_refs = Inr [''50'']"
proof (rule references_of_the_dish [OF sample_dish_there])
  show "plain_path (sample_dish_path @ [LKey ''price''])" "sample_dish_path \<noteq> []" by (code_simp, code_simp)
  have n: "dish_refs sample_refs (get_path (dump_restaurant sample_restaurant) (take k sample_dish_path)) = None"
    if "k \<in> {1, 2, 3, 4, 5}" for k
  proof -
    have "list_all (\<lambda>k. dish_refs sample_refs (get_path (dump_restaurant sample_restaurant) (take k sample_dish_path)) = None)
        [1, 2, 3, 4, 5]"
      by code_simp
    then show ?thesis using that by (auto simp: list_all_iff)
  qed
  show "\<forall>q r. sample_dish_path = q @ r \<and> q \<noteq> [] \<and> r \<noteq> [] \<longrightarrow>
      dish_refs sample_refs (get_path (dump_restaurant sample_restaurant) q) = None"
  proof (intro allI impI)
    fix q r assume q: "sample_dish_path = q @ r \<and> q \<noteq> [] \<and> r \<noteq> []"
    then have "q = take (length q) sample_dish_path" by (metis append_eq_conv_conj)
    moreover have "length q + length r = 6"
    proof -
      have "length sample_dish_path = 6" by code_simp
      then show ?thesis using q by (metis length_append)
    qed
    then have "length q \<in> {1, 2, 3, 4, 5}"
      using q length_greater_0_conv [of q] length_greater_0_conv [of r] unfolding insert_iff empty_iff by presburger
    ultimately show "dish_refs sample_refs (get_path (dump_restaurant sample_restaurant) q) = None"
      using n by metis
  qed
qed

end
