(* ===== verification/Patch.thy ===== *)
theory Patch
  imports Delta
begin

text \<open>
  Applying an approved delta to the production rows,
  \<open>src/workflows/reviewer_workflow/nodes/delta_patch.py\<close>: the pattern of a dish path, which rows a
  delta touches, and the in-place update, insertion or deletion of those rows. Every \<open>session.get\<close>
  of a row that is not loaded flushes what is pending, so the operations take effect in order; a row
  deleted just before is still the loaded object until the next flush.
\<close>

section \<open>The pattern of a dish path\<close>

definition strip_lit :: "string \<Rightarrow> string \<Rightarrow> string option" where
  "strip_lit lit s = (if prefix lit s then Some (drop (length lit) s) else None)"

text \<open>\<open>name\[(\d+)\]\<close> at the start of a string: the number and what follows.\<close>

definition index_segment :: "string \<Rightarrow> string \<Rightarrow> (nat \<times> string) option" where
  "index_segment name s =
     Option.bind (strip_lit (name @ ''['') s) (\<lambda>t.
       Option.bind (read_nat (takeWhile is_digit t)) (\<lambda>n.
         map_option (Pair n) (strip_lit '']'' (dropWhile is_digit t))))"

lemma index_segment_shorter: "index_segment name s = Some (n, t) \<Longrightarrow> length t < length s"
  using length_dropWhile_le [of is_digit "drop (Suc (length name)) s"]
  by (auto simp: index_segment_def strip_lit_def split: if_splits bind_splits dest!: prefix_length_le)

text \<open>\<open>(?:\.children\[\d+\])*\<close>.\<close>

function skip_children :: "string \<Rightarrow> string" where
  "skip_children s =
     (case index_segment ''.children'' s of
        None \<Rightarrow> s
      | Some (_, t) \<Rightarrow> skip_children t)"
  by pat_completeness auto
termination
  by (relation "measure length") (auto dest: index_segment_shorter)

declare skip_children.simps [simp del]

text \<open>The three indices and what follows the match.\<close>

definition match_dish_path :: "string \<Rightarrow> ((nat \<times> nat \<times> nat) \<times> string) option" where
  "match_dish_path path =
     Option.bind (index_segment ''menus'' path) (\<lambda>(m, s).
       Option.bind (index_segment ''.categories'' s) (\<lambda>(c, s).
         map_option (\<lambda>(d, s). ((m, c, d), s)) (index_segment ''.dishes'' (skip_children s))))"

definition dish_key :: "string \<Rightarrow> (nat \<times> nat \<times> nat) option" where
  "dish_key path = map_option fst (match_dish_path path)"

definition restaurant_scalar_fields :: "string list" where
  "restaurant_scalar_fields =
     [''description'', ''logo_url'', ''cover_image_url'', ''cuisine_types'', ''website_url'', ''gallery_image_urls'']"

section \<open>What a delta touches\<close>

text \<open>A dish-shaped value carries its identifier.\<close>

definition dish_id_from_value :: "json \<Rightarrow> uuid option" where
  "dish_id_from_value value =
     (case value of
        JObj kvs \<Rightarrow>
          (case (map_of kvs ''id'', map_of kvs ''category_id'') of
             (Some (JStr i), Some _) \<Rightarrow> parse_uuid i
           | _ \<Rightarrow> None)
      | _ \<Rightarrow> None)"

definition find_dish_in_target :: "restaurant \<Rightarrow> nat \<Rightarrow> nat \<Rightarrow> dish list" where
  "find_dish_in_target target menu_index category_index =
     (if length (r_menus target) \<le> menu_index then []
      else
       (let categories = me_categories (r_menus target ! menu_index) in
        if length categories \<le> category_index then [] else mc_dishes (categories ! category_index)))"

type_synonym touched = "((nat \<times> nat \<times> nat) \<times> delta_op) list"

text \<open>One field of the delta: restaurant fields go to the one set, dishes to the other; a removal wins.\<close>

definition touch_field :: "field_delta \<Rightarrow> touched \<times> string list \<Rightarrow> touched \<times> string list" where
  "touch_field f acc =
     (case acc of (dishes, scalars) \<Rightarrow>
        if top_level (fd_path f) \<in> set restaurant_scalar_fields
        then (dishes, if top_level (fd_path f) \<in> set scalars then scalars else scalars @ [top_level (fd_path f)])
        else
         (case dish_key (fd_path f) of
            None \<Rightarrow> (dishes, scalars)
          | Some key \<Rightarrow>
              (if map_of dishes key = None \<or> fd_op f = OP_REMOVED then AList.update key (fd_op f) dishes else dishes,
               scalars)))"

definition touched_by :: "json_delta \<Rightarrow> touched \<times> string list" where
  "touched_by delta = fold touch_field delta ([], [])"

section \<open>Rows\<close>

text \<open>\<open>_apply_dish_row_fields\<close>: every column but the keys.\<close>

definition apply_dish_row_fields :: "dish \<Rightarrow> dish_row \<Rightarrow> dish_row" where
  "apply_dish_row_fields d row =
     row\<lparr>dr_name := d_name d, dr_description := d_description d, dr_image_url := d_image_url d,
         dr_nutrition := dump_nutrition (d_nutrition d),
         dr_allergens := JList (map (\<lambda>a. JStr (allergen_value a)) (d_allergens d)),
         dr_ingredients := JList (map dump_ingredient (d_ingredients d)),
         dr_quantity := d_quantity d, dr_price := map_option numeric_2 (d_price d),
         dr_currency := d_currency d, dr_review_state := d_review_state d\<rparr>"

definition set_scalar :: "restaurant \<Rightarrow> string \<Rightarrow> restaurant_row \<Rightarrow> restaurant_row" where
  "set_scalar target field row =
     (if field = ''description'' then row\<lparr>rr_description := r_description target\<rparr>
      else if field = ''logo_url'' then row\<lparr>rr_logo_url := r_logo_url target\<rparr>
      else if field = ''cover_image_url'' then row\<lparr>rr_cover_image_url := r_cover_image_url target\<rparr>
      else if field = ''cuisine_types'' then row\<lparr>rr_cuisine_types := r_cuisine_types target\<rparr>
      else if field = ''website_url'' then row\<lparr>rr_website_url := r_website_url target\<rparr>
      else if field = ''gallery_image_urls'' then row\<lparr>rr_gallery_image_urls := r_gallery_image_urls target\<rparr>
      else row)"

text \<open>The open transaction: the database and the row deleted since the last flush.\<close>

type_synonym patch_state = "db \<times> uuid option"

definition delete_dish :: "uuid \<Rightarrow> patch_state \<Rightarrow> patch_state" where
  "delete_dish i ps =
     (case ps of (s, pending) \<Rightarrow>
        if pending = Some i then ps
        else if row_by dr_id i (db_dishes s) = None then (s, None)
        else (s\<lparr>db_dishes := filter (\<lambda>r. dr_id r \<noteq> i) (db_dishes s)\<rparr>, Some i))"

definition put_dish :: "dish \<Rightarrow> patch_state \<Rightarrow> exn + patch_state" where
  "put_dish d ps =
     (case ps of (s, pending) \<Rightarrow>
        if pending = Some (d_id d) then Inr ps
        else
         (case row_by dr_id (d_id d) (db_dishes s) of
            Some row \<Rightarrow>
              if \<not> dish_fits (apply_dish_row_fields d row) then Inl DataError
              else Inr (s\<lparr>db_dishes := update_by dr_id (d_id d) (apply_dish_row_fields d) (db_dishes s)\<rparr>, None)
          | None \<Rightarrow>
              if \<not> dish_fits (dish_to_row (d_category_id d) d) then Inl DataError
              else if d_category_id d \<notin> cr_id ` set (db_categories s) then Inl IntegrityError
              else Inr (s\<lparr>db_dishes := db_dishes s @ [dish_to_row (d_category_id d) d]\<rparr>, None)))"

definition removed_dish_id :: "json_delta \<Rightarrow> nat \<times> nat \<times> nat \<Rightarrow> uuid option" where
  "removed_dish_id delta key =
     (case List.find (\<lambda>f. fd_op f = OP_REMOVED \<and> dish_key (fd_path f) = Some key) delta of
        None \<Rightarrow> None
      | Some f \<Rightarrow> dish_id_from_value (fd_old_value f))"

text \<open>One touched dish.\<close>

definition patch_dish ::
  "restaurant \<Rightarrow> json_delta \<Rightarrow> (nat \<times> nat \<times> nat) \<times> delta_op \<Rightarrow> patch_state \<Rightarrow> exn + patch_state" where
  "patch_dish target delta entry ps =
     (case entry of ((m, c, d), op) \<Rightarrow>
        if op = OP_REMOVED
        then Inr (case removed_dish_id delta (m, c, d) of None \<Rightarrow> ps | Some i \<Rightarrow> delete_dish i ps)
        else
         (let dishes = find_dish_in_target target m c in
          if length dishes \<le> d then Inr ps else put_dish (dishes ! d) ps))"

fun patch_dishes ::
  "restaurant \<Rightarrow> json_delta \<Rightarrow> touched \<Rightarrow> patch_state \<Rightarrow> exn + patch_state" where
  "patch_dishes target delta [] ps = Inr ps"
| "patch_dishes target delta (e # es) ps =
     (case patch_dish target delta e ps of Inl x \<Rightarrow> Inl x | Inr ps' \<Rightarrow> patch_dishes target delta es ps')"

text \<open>\<open>apply_patch\<close> on the row of restaurant \<open>restaurant_id\<close>.\<close>

definition apply_patch :: "uuid \<Rightarrow> restaurant \<Rightarrow> json_delta \<Rightarrow> db \<Rightarrow> exn + db" where
  "apply_patch restaurant_id target delta s =
     (let (dishes, scalars) = touched_by delta;
          set_all = fold (set_scalar target) scalars;
          s = s\<lparr>db_restaurants := update_by rr_id restaurant_id set_all (db_restaurants s)\<rparr>
      in if \<not> list_all restaurant_fits (filter (\<lambda>r. rr_id r = restaurant_id) (db_restaurants s)) then Inl DataError
         else map_sum id fst (patch_dishes target delta dishes (s, None)))"

section \<open>Dish paths\<close>

definition dish_loc :: "nat \<Rightarrow> nat \<Rightarrow> nat list \<Rightarrow> nat \<Rightarrow> loc" where
  "dish_loc m c children d =
     [LKey ''menus'', LIdx m, LKey ''categories'', LIdx c]
       @ concat (map (\<lambda>k. [LKey ''children'', LIdx k]) children) @ [LKey ''dishes'', LIdx d]"

lemma index_segment_show: "index_segment name (name @ CHR ''['' # show_nat i @ CHR '']'' # rest) = Some (i, rest)"
proof -
  have "\<forall>c \<in> set (show_nat i). is_digit c" using show_nat_digits [of i] by (simp add: list_all_iff)
  moreover have "\<not> is_digit (CHR '']'')" by (simp add: is_digit_def)
  ultimately have "takeWhile is_digit (show_nat i @ CHR '']'' # rest) = show_nat i"
    "dropWhile is_digit (show_nat i @ CHR '']'' # rest) = CHR '']'' # rest"
    by (simp_all add: takeWhile_append2 dropWhile_append2)
  then show ?thesis by (simp add: index_segment_def strip_lit_def)
qed

lemma skip_children_rendered:
  "skip_children (concat (map (\<lambda>k. ''.children['' @ show_nat k @ '']'') children) @ ''.dishes['' @ rest)
     = ''.dishes['' @ rest"
proof (induction children)
  case Nil
  have "index_segment ''.children'' (''.dishes['' @ rest) = None"
    by (simp add: index_segment_def strip_lit_def)
  then show ?case by (subst skip_children.simps) simp
next
  case (Cons k ks)
  let ?t = "concat (map (\<lambda>k. ''.children['' @ show_nat k @ '']'') ks) @ ''.dishes['' @ rest"
  have "index_segment ''.children'' (concat (map (\<lambda>k. ''.children['' @ show_nat k @ '']'') (k # ks)) @ ''.dishes['' @ rest)
      = Some (k, ?t)"
    using index_segment_show [of "''.children''" k ?t] by simp
  then show ?case using Cons by (subst skip_children.simps) simp
qed

lemma dotted_dish_loc:
  "dotted (dish_loc m c children d @ below) =
     ''menus'' @ CHR ''['' # show_nat m @ CHR '']'' # ''.categories'' @ CHR ''['' # show_nat c @ CHR '']'' #
       concat (map (\<lambda>k. ''.children['' @ show_nat k @ '']'') children)
       @ ''.dishes['' @ show_nat d @ CHR '']'' # concat (map dotted_segment below)"
proof -
  have "concat (map dotted_segment (concat (map (\<lambda>k. [LKey ''children'', LIdx k]) children)))
      = concat (map (\<lambda>k. ''.children['' @ show_nat k @ '']'') children)"
    by (induction children) simp_all
  then show ?thesis by (simp add: dish_loc_def)
qed

lemma match_dish_loc:
  "match_dish_path (dotted (dish_loc m c children d @ below)) = Some ((m, c, d), concat (map dotted_segment below))"
proof -
  let ?below = "concat (map dotted_segment below)"
  let ?s2 = "concat (map (\<lambda>k. ''.children['' @ show_nat k @ '']'') children) @ ''.dishes['' @ show_nat d @ CHR '']'' # ?below"
  let ?s1 = "''.categories'' @ CHR ''['' # show_nat c @ CHR '']'' # ?s2"
  have "index_segment ''menus'' (''menus'' @ CHR ''['' # show_nat m @ CHR '']'' # ?s1) = Some (m, ?s1)"
    by (rule index_segment_show)
  moreover have "index_segment ''.categories'' ?s1 = Some (c, ?s2)" by (rule index_segment_show)
  moreover have "skip_children ?s2 = ''.dishes'' @ CHR ''['' # show_nat d @ CHR '']'' # ?below"
    using skip_children_rendered [of children "show_nat d @ CHR '']'' # ?below"] by simp
  moreover have "index_segment ''.dishes'' (''.dishes'' @ CHR ''['' # show_nat d @ CHR '']'' # ?below) = Some (d, ?below)"
    by (rule index_segment_show)
  ultimately show ?thesis unfolding match_dish_path_def dotted_dish_loc by (simp only: bind.bind_lunit prod.case option.map)
qed

section \<open>The plan of a patch\<close>

text \<open>What an entry stands for: a dish row to delete, or one to write.\<close>

definition entry_plan ::
  "restaurant \<Rightarrow> json_delta \<Rightarrow> (nat \<times> nat \<times> nat) \<times> delta_op \<Rightarrow> (uuid \<times> dish option) option" where
  "entry_plan target delta entry =
     (case entry of ((m, c, d), op) \<Rightarrow>
        if op = OP_REMOVED then map_option (\<lambda>i. (i, None)) (removed_dish_id delta (m, c, d))
        else
         (let dishes = find_dish_in_target target m c in
          if length dishes \<le> d then None else Some (d_id (dishes ! d), Some (dishes ! d))))"

definition patch_plan :: "restaurant \<Rightarrow> json_delta \<Rightarrow> (uuid \<times> dish option) list" where
  "patch_plan target delta = List.map_filter (entry_plan target delta) (fst (touched_by delta))"

fun plan_step :: "uuid \<times> dish option \<Rightarrow> patch_state \<Rightarrow> exn + patch_state" where
  "plan_step (i, None) ps = Inr (delete_dish i ps)"
| "plan_step (i, Some d) ps = put_dish d ps"

fun plan_steps :: "(uuid \<times> dish option) list \<Rightarrow> patch_state \<Rightarrow> exn + patch_state" where
  "plan_steps [] ps = Inr ps"
| "plan_steps (e # es) ps = (case plan_step e ps of Inl x \<Rightarrow> Inl x | Inr ps' \<Rightarrow> plan_steps es ps')"

lemma patch_dishes_plan:
  "patch_dishes target delta es ps = plan_steps (List.map_filter (entry_plan target delta) es) ps"
proof (induction es arbitrary: ps)
  case (Cons e es)
  have "patch_dish target delta e ps =
      (case entry_plan target delta e of None \<Rightarrow> Inr ps | Some p \<Rightarrow> plan_step p ps)"
  proof -
    obtain m c d op where "e = ((m, c, d), op)" by (cases e) auto
    then show ?thesis
      by (cases "removed_dish_id delta (m, c, d)"; cases "op = OP_REMOVED";
          cases "length (find_dish_in_target target m c) \<le> d")
        (simp_all add: patch_dish_def entry_plan_def Let_def)
  qed
  moreover have "patch_dishes target delta es = plan_steps (List.map_filter (entry_plan target delta) es)"
    by (rule ext) (rule Cons.IH)
  ultimately show ?case by (auto simp: map_filter_simps split: option.splits sum.splits)
qed (simp add: map_filter_simps)

text \<open>The specification: the dish rows as a map, and what a plan makes of it.\<close>

abbreviation dish_map :: "db \<Rightarrow> uuid \<Rightarrow> dish_row option" where
  "dish_map s i \<equiv> row_by dr_id i (db_dishes s)"

definition planned_row :: "dish option \<Rightarrow> dish_row option \<Rightarrow> dish_row option" where
  "planned_row change old =
     (case change of
        None \<Rightarrow> None
      | Some d \<Rightarrow> Some (dish_to_row (case old of None \<Rightarrow> d_category_id d | Some row \<Rightarrow> dr_category_id row) d))"

definition planned_map :: "(uuid \<times> dish option) list \<Rightarrow> (uuid \<Rightarrow> dish_row option) \<Rightarrow> uuid \<Rightarrow> dish_row option" where
  "planned_map plan rows i = (case map_of plan i of None \<Rightarrow> rows i | Some change \<Rightarrow> planned_row change (rows i))"

definition plan_names_dishes :: "(uuid \<times> dish option) list \<Rightarrow> bool" where
  "plan_names_dishes plan \<longleftrightarrow> list_all (\<lambda>(i, change). case change of None \<Rightarrow> True | Some d \<Rightarrow> d_id d = i) plan"

lemma patch_plan_names: "plan_names_dishes (patch_plan target delta)"
  by (auto simp: plan_names_dishes_def patch_plan_def List.map_filter_def list_all_iff entry_plan_def Let_def
      split: if_splits)

lemma apply_dish_row_fields_row: "dr_id row = d_id d \<Longrightarrow> apply_dish_row_fields d row = dish_to_row (dr_category_id row) d"
  by (simp add: apply_dish_row_fields_def dish_to_row_def)

interpretation dish_fields: row_update dr_id "apply_dish_row_fields d" for d
  by unfold_locales (simp add: apply_dish_row_fields_def)

lemma dish_fits_category: "dish_fits (dish_to_row c d) = dish_fits (dish_to_row c' d)"
  by (simp add: dish_fits_def dish_to_row_def)

text \<open>A database that differs in the dish table only.\<close>

definition only_dishes :: "db \<Rightarrow> db \<Rightarrow> bool" where
  "only_dishes s s' \<longleftrightarrow> (\<exists>rows. s' = s\<lparr>db_dishes := rows\<rparr>)"

lemma only_dishes_refl: "only_dishes s s"
  unfolding only_dishes_def by (rule exI [of _ "db_dishes s"]) simp

lemma only_dishes_update: "only_dishes s (s\<lparr>db_dishes := rows\<rparr>)"
  unfolding only_dishes_def by blast

lemma only_dishes_trans: "only_dishes s s1 \<Longrightarrow> only_dishes s1 s2 \<Longrightarrow> only_dishes s s2"
  unfolding only_dishes_def by auto

lemma only_dishes_tables:
  assumes "only_dishes s s'"
  shows "db_categories s' = db_categories s" "db_restaurants s' = db_restaurants s" "db_menus s' = db_menus s"
    "db_locations s' = db_locations s" "db_proposed_changes s' = db_proposed_changes s"
    "db_agent_runs s' = db_agent_runs s"
  using assms unfolding only_dishes_def by auto

text \<open>When a planned step is accepted, and what it does.\<close>

definition accepts :: "db \<Rightarrow> uuid \<times> dish option \<Rightarrow> bool" where
  "accepts s e \<longleftrightarrow>
     (case e of
        (i, None) \<Rightarrow> True
      | (i, Some d) \<Rightarrow> dish_fits (dish_to_row 0 d)
          \<and> (dish_map s i \<noteq> None \<or> d_category_id d \<in> cr_id ` set (db_categories s)))"

lemma filter_update_by:
  "\<not> P k \<Longrightarrow> (\<And>r. key (f r) = key r) \<Longrightarrow> filter (\<lambda>r. P (key r)) (update_by key k f rows) = filter (\<lambda>r. P (key r)) rows"
  by (induction rows) (auto simp: update_by_def)

lemma row_by_filter: "row_by key i (filter (\<lambda>r. key r \<noteq> k) rows) = (if i = k then None else row_by key i rows)"
  by (induction rows) (auto simp: row_by_def)

lemma row_by_single [simp]: "row_by key i [r] = (if key r = i then Some r else None)"
  by (simp add: row_by_def)

lemma dr_id_dish_to_row [simp]: "dr_id (dish_to_row c d) = d_id d"
  by (simp add: dish_to_row_def)

lemma plan_step_spec:
  assumes "plan_names_dishes [e]" "pending \<noteq> Some (fst e)"
  shows "(case plan_step e (s, pending) of
      Inl x \<Rightarrow> \<not> accepts s e
    | Inr (s', pending') \<Rightarrow> accepts s e \<and> pending' \<in> {None, Some (fst e)}
        \<and> only_dishes s s'
        \<and> (\<forall>i. dish_map s' i = (if i = fst e then planned_row (snd e) (dish_map s i) else dish_map s i))
        \<and> (\<forall>P. \<not> P (fst e) \<longrightarrow> filter (\<lambda>r. P (dr_id r)) (db_dishes s') = filter (\<lambda>r. P (dr_id r)) (db_dishes s)))"
proof (cases e)
  case (Pair k change)
  show ?thesis
  proof (cases change)
    case None
    have "filter (\<lambda>r. P (dr_id r)) (filter (\<lambda>r. dr_id r \<noteq> k) rows) = filter (\<lambda>r. P (dr_id r)) rows"
      if "\<not> P k" for P and rows :: "dish_row list"
      using that by (induction rows) auto
    then show ?thesis
      using assms(2) by (auto simp: Pair None delete_dish_def accepts_def planned_row_def row_by_filter
          only_dishes_refl only_dishes_update)
  next
    case (Some d)
    have k: "k = d_id d" using assms(1) by (simp add: Pair Some plan_names_dishes_def)
    show ?thesis
    proof (cases "dish_map s k")
      case None
      then show ?thesis
        using assms(2) k dish_fits_category [of "d_category_id d" d 0]
        by (auto simp: Pair Some put_dish_def accepts_def planned_row_def row_by_append only_dishes_update
            split: option.splits)
    next
      case row: (Some row)
      then have f: "apply_dish_row_fields d row = dish_to_row (dr_category_id row) d"
        using row_by_SomeD [OF row] k by (simp add: apply_dish_row_fields_row)
      show ?thesis
        using assms(2) k row f dish_fits_category [of "dr_category_id row" d 0]
          filter_update_by [of _ k dr_id "apply_dish_row_fields d" "db_dishes s"]
        by (auto simp: Pair Some put_dish_def accepts_def planned_row_def dish_fields.get_updated
            dish_fields.get_other dish_fields.keeps_key only_dishes_update)
    qed
  qed
qed

lemma plan_steps_spec:
  assumes "plan_names_dishes plan" "distinct (map fst plan)" "\<forall>k. pending = Some k \<longrightarrow> k \<notin> fst ` set plan"
  shows "(case plan_steps plan (s, pending) of
      Inl x \<Rightarrow> \<not> list_all (accepts s) plan
    | Inr (s', pending') \<Rightarrow> list_all (accepts s) plan
        \<and> only_dishes s s'
        \<and> (\<forall>i. dish_map s' i = planned_map plan (dish_map s) i)
        \<and> (\<forall>P. (\<forall>k \<in> fst ` set plan. \<not> P k) \<longrightarrow>
             filter (\<lambda>r. P (dr_id r)) (db_dishes s') = filter (\<lambda>r. P (dr_id r)) (db_dishes s)))"
  using assms
proof (induction plan arbitrary: s pending)
  case Nil
  then show ?case by (simp add: planned_map_def only_dishes_refl)
next
  case (Cons e plan)
  have e: "plan_names_dishes [e]" "pending \<noteq> Some (fst e)" using Cons.prems by (auto simp: plan_names_dishes_def)
  note step = plan_step_spec [OF e, of s]
  show ?case
  proof (cases "plan_step e (s, pending)")
    case (Inl x)
    then show ?thesis using step by simp
  next
    case (Inr ps)
    obtain s1 p1 where s1: "plan_step e (s, pending) = Inr (s1, p1)" using Inr by (cases ps) auto
    have step1: "accepts s e" "p1 \<in> {None, Some (fst e)}" "only_dishes s s1"
      "\<And>i. dish_map s1 i = (if i = fst e then planned_row (snd e) (dish_map s i) else dish_map s i)"
      "\<And>P. \<not> P (fst e) \<Longrightarrow> filter (\<lambda>r. P (dr_id r)) (db_dishes s1) = filter (\<lambda>r. P (dr_id r)) (db_dishes s)"
      using step unfolding s1 by auto
    have rest: "plan_names_dishes plan" "distinct (map fst plan)" "\<forall>k. p1 = Some k \<longrightarrow> k \<notin> fst ` set plan"
      using Cons.prems(1,2) step1(2) by (auto simp: plan_names_dishes_def rev_image_eqI)
    note cats = only_dishes_tables(1) [OF step1(3)]
    have acc: "list_all (accepts s1) plan \<longleftrightarrow> list_all (accepts s) plan"
    proof (rule list_all_cong [OF refl])
      fix x assume "x \<in> set plan"
      then have "fst x \<noteq> fst e" using Cons.prems(2) by (metis distinct.simps(2) image_eqI list.map(2) set_map)
      then have "dish_map s1 (fst x) = dish_map s (fst x)" by (simp add: step1(4))
      then show "accepts s1 x = accepts s x" by (simp add: accepts_def cats case_prod_beta)
    qed
    have map: "planned_map plan (dish_map s1) i = planned_map (e # plan) (dish_map s) i" for i
    proof (cases "i = fst e")
      case True
      then have "map_of plan i = None" using Cons.prems(2) by (auto simp: map_of_eq_None_iff)
      then show ?thesis using True by (cases e) (simp add: planned_map_def step1(4))
    next
      case False
      then show ?thesis by (cases e) (simp add: planned_map_def step1(4))
    qed
    show ?thesis
    proof (cases "plan_steps plan (s1, p1)")
      case (Inl x)
      then have "\<not> list_all (accepts s1) plan" using Cons.IH [OF rest, of s1] by simp
      then show ?thesis using acc s1 Inl by simp
    next
      case (Inr ps')
      obtain s2 p2 where s2: "plan_steps plan (s1, p1) = Inr (s2, p2)" using Inr by (cases ps') auto
      have IH: "list_all (accepts s1) plan" "only_dishes s1 s2" "\<And>i. dish_map s2 i = planned_map plan (dish_map s1) i"
        "\<And>P. \<forall>k \<in> fst ` set plan. \<not> P k \<Longrightarrow>
           filter (\<lambda>r. P (dr_id r)) (db_dishes s2) = filter (\<lambda>r. P (dr_id r)) (db_dishes s1)"
        using Cons.IH [OF rest, of s1] unfolding s2 by auto
      have run: "plan_steps (e # plan) (s, pending) = Inr (s2, p2)" using s1 s2 by simp
      have frame: "filter (\<lambda>r. P (dr_id r)) (db_dishes s2) = filter (\<lambda>r. P (dr_id r)) (db_dishes s)"
        if "\<forall>k \<in> fst ` set (e # plan). \<not> P k" for P
        using IH(4) [of P] step1(5) [of P] that by simp
      show ?thesis
        unfolding run sum.case prod.case
        using acc IH(1) step1(1) only_dishes_trans [OF step1(3) IH(2)] IH(3) map frame by auto
    qed
  qed
qed

lemma apply_patch_plan:
  "apply_patch restaurant_id target delta s =
     (let rows = update_by rr_id restaurant_id (fold (set_scalar target) (snd (touched_by delta))) (db_restaurants s)
      in if \<not> list_all restaurant_fits (filter (\<lambda>r. rr_id r = restaurant_id) rows) then Inl DataError
         else map_sum id fst (plan_steps (patch_plan target delta) (s\<lparr>db_restaurants := rows\<rparr>, None)))"
  by (cases "touched_by delta") (simp add: apply_patch_def patch_dishes_plan patch_plan_def Let_def)

section \<open>Properties\<close>

definition patched_restaurants :: "uuid \<Rightarrow> restaurant \<Rightarrow> json_delta \<Rightarrow> db \<Rightarrow> restaurant_row list" where
  "patched_restaurants restaurant_id target delta s =
     update_by rr_id restaurant_id (fold (set_scalar target) (snd (touched_by delta))) (db_restaurants s)"

lemma accepts_restaurants [simp]: "accepts (s\<lparr>db_restaurants := rows\<rparr>) = accepts s"
  by (rule ext) (simp add: accepts_def split: prod.splits option.splits)

definition patch_spec :: "uuid \<Rightarrow> restaurant \<Rightarrow> json_delta \<Rightarrow> db \<Rightarrow> db \<Rightarrow> bool" where
  "patch_spec restaurant_id target delta s s' \<longleftrightarrow>
     (let plan = patch_plan target delta in
      only_dishes (s\<lparr>db_restaurants := patched_restaurants restaurant_id target delta s\<rparr>) s'
      \<and> (\<forall>i. dish_map s' i = planned_map plan (dish_map s) i)
      \<and> filter (\<lambda>r. dr_id r \<notin> fst ` set plan) (db_dishes s') = filter (\<lambda>r. dr_id r \<notin> fst ` set plan) (db_dishes s))"

definition patch_acceptable :: "uuid \<Rightarrow> restaurant \<Rightarrow> json_delta \<Rightarrow> db \<Rightarrow> bool" where
  "patch_acceptable restaurant_id target delta s \<longleftrightarrow>
     list_all restaurant_fits (filter (\<lambda>r. rr_id r = restaurant_id) (patched_restaurants restaurant_id target delta s))
     \<and> list_all (accepts s) (patch_plan target delta)"

lemma apply_patch_cases:
  assumes "distinct (map fst (patch_plan target delta))"
  shows "(case apply_patch restaurant_id target delta s of
      Inl x \<Rightarrow> \<not> patch_acceptable restaurant_id target delta s
    | Inr s' \<Rightarrow> patch_acceptable restaurant_id target delta s \<and> patch_spec restaurant_id target delta s s')"
proof -
  let ?plan = "patch_plan target delta"
  let ?s = "s\<lparr>db_restaurants := patched_restaurants restaurant_id target delta s\<rparr>"
  note spec = plan_steps_spec [OF patch_plan_names assms, of None ?s]
  show ?thesis
  proof (cases "plan_steps ?plan (?s, None)")
    case (Inl x)
    then have "\<not> list_all (accepts s) ?plan" using spec by simp
    then show ?thesis using Inl by (simp add: apply_patch_plan Let_def patch_acceptable_def flip: patched_restaurants_def)
  next
    case (Inr sp)
    obtain s' p where s': "plan_steps ?plan (?s, None) = Inr (s', p)" using Inr by (cases sp) auto
    have r: "list_all (accepts s) ?plan" "only_dishes ?s s'" "\<And>i. dish_map s' i = planned_map ?plan (dish_map s) i"
      "\<And>P. \<forall>k \<in> fst ` set ?plan. \<not> P k \<Longrightarrow>
         filter (\<lambda>r. P (dr_id r)) (db_dishes s') = filter (\<lambda>r. P (dr_id r)) (db_dishes s)"
      using spec unfolding s' by auto
    have "patch_spec restaurant_id target delta s s'"
      using r(2,3) r(4) [of "\<lambda>i. i \<notin> fst ` set ?plan"] by (simp add: patch_spec_def)
    then show ?thesis
      using s' r(1) by (simp add: apply_patch_plan Let_def patch_acceptable_def flip: patched_restaurants_def)
  qed
qed

lemma apply_patch_Inr:
  assumes "apply_patch restaurant_id target delta s = Inr s'" "distinct (map fst (patch_plan target delta))"
  shows "patch_acceptable restaurant_id target delta s" "patch_spec restaurant_id target delta s s'"
  using apply_patch_cases [OF assms(2), of restaurant_id s] assms(1) by simp_all


text \<open>C22: A patch is accepted or refused as a whole, for a stated reason: it succeeds exactly when the
  patched restaurant row fits its columns and every dish to be written fits its columns and is either
  there already or names a category that is. In particular a new dish of a category that is not in
  production makes the whole patch fail.\<close>

theorem patch_accepted_iff:
  assumes "distinct (map fst (patch_plan target delta))"
  shows "(\<exists>s'. apply_patch restaurant_id target delta s = Inr s') \<longleftrightarrow>
    list_all restaurant_fits (filter (\<lambda>r. rr_id r = restaurant_id) (patched_restaurants restaurant_id target delta s))
    \<and> list_all (\<lambda>(i, change). case change of
         None \<Rightarrow> True
       | Some d \<Rightarrow> dish_fits (dish_to_row 0 d)
           \<and> (row_by dr_id i (db_dishes s) \<noteq> None \<or> d_category_id d \<in> cr_id ` set (db_categories s)))
       (patch_plan target delta)"
proof -
  have acc: "accepts s = (\<lambda>(i, change). case change of
         None \<Rightarrow> True
       | Some d \<Rightarrow> dish_fits (dish_to_row 0 d)
           \<and> (row_by dr_id i (db_dishes s) \<noteq> None \<or> d_category_id d \<in> cr_id ` set (db_categories s)))"
    by (rule ext) (simp add: accepts_def)
  show ?thesis
    unfolding acc [symmetric] patch_acceptable_def [symmetric]
    using apply_patch_cases [OF assms, of restaurant_id s] by (cases "apply_patch restaurant_id target delta s") simp_all
qed


section \<open>A patch\<close>

text \<open>The sample restaurant in production, its one dish at a new price, and the delta that says so.\<close>

definition sample_production :: db where
  "sample_production = (case persist_tree sample_restaurant empty_db of Inl e \<Rightarrow> empty_db | Inr s \<Rightarrow> s)"

definition dearer_dish :: dish where
  "dearer_dish = sample_dish\<lparr>d_price := Some 5\<rparr>"

definition dearer_restaurant :: restaurant where
  "dearer_restaurant = sample_restaurant\<lparr>r_menus :=
     [\<lparr>me_id = 1, me_name = ''Main'', me_categories = [MenuCategory 2 ''Mains'' 0 [] [dearer_dish]]\<rparr>]\<rparr>"

definition price_delta :: json_delta where
  "price_delta = [\<lparr>fd_path = ''menus[0].categories[0].dishes[0].price'', fd_op = OP_CHANGED,
     fd_old_value = JNull, fd_new_value = JDec 5, fd_source_snapshot_ids = []\<rparr>]"

lemma price_delta_plan: "patch_plan dearer_restaurant price_delta = [(3, Some dearer_dish)]"
  by code_simp

lemma price_delta_applies: "\<exists>s'. apply_patch 0 dearer_restaurant price_delta sample_production = Inr s'"
proof -
  have "case apply_patch 0 dearer_restaurant price_delta sample_production of Inl e \<Rightarrow> False | Inr s' \<Rightarrow> True"
    by code_simp
  then show ?thesis by (auto split: sum.splits)
qed


text \<open>Moving the dish to a category that production does not have.\<close>

definition stray_restaurant :: restaurant where
  "stray_restaurant = dearer_restaurant\<lparr>r_menus :=
     [\<lparr>me_id = 1, me_name = ''Main'', me_categories =
        [MenuCategory 9 ''Mains'' 0 [] [dearer_dish\<lparr>d_id := 8, d_category_id := 9\<rparr>]]\<rparr>]\<rparr>"

theorem patch_accepted_iff_witness:
  "\<not> (\<exists>s'. apply_patch 0 stray_restaurant price_delta sample_production = Inr s')"
proof -
  have "distinct (map fst (patch_plan stray_restaurant price_delta))" by code_simp
  moreover have "\<not> list_all (\<lambda>(i, change). case change of
         None \<Rightarrow> True
       | Some d \<Rightarrow> dish_fits (dish_to_row 0 d)
           \<and> (row_by dr_id i (db_dishes sample_production) \<noteq> None
              \<or> d_category_id d \<in> cr_id ` set (db_categories sample_production)))
       (patch_plan stray_restaurant price_delta)"
    by code_simp
  ultimately show ?thesis using patch_accepted_iff by blast
qed


section \<open>What a patch does not do\<close>

text \<open>The pattern forgets which subcategory a dish is in.\<close>

lemma nested_dish_paths_collide:
  "dish_key (dotted (dish_loc m c children d @ below)) = dish_key (dotted (dish_loc m c [] d))"
  using match_dish_loc [of m c children d below] match_dish_loc [of m c "[]" d "[]"] by (simp add: dish_key_def)

text \<open>A delta above the dishes, such as a replaced menu, is dropped, and the patch succeeds.\<close>

lemma touched_by_unresolved:
  "\<forall>f \<in> set delta. dish_key (fd_path f) = None \<and> top_level (fd_path f) \<notin> set restaurant_scalar_fields \<Longrightarrow>
     fold touch_field delta acc = acc"
  by (induction delta arbitrary: acc) (auto simp: touch_field_def split: prod.splits)

lemma unresolved_changes_are_dropped:
  assumes "\<forall>f \<in> set delta. dish_key (fd_path f) = None \<and> top_level (fd_path f) \<notin> set restaurant_scalar_fields"
    "list_all restaurant_fits (db_restaurants s)"
  shows "apply_patch restaurant_id target delta s = Inr s"
proof -
  have "update_by rr_id restaurant_id (\<lambda>r. r) (db_restaurants s) = db_restaurants s"
    by (simp add: update_by_def map_idI)
  then show ?thesis
    using touched_by_unresolved [OF assms(1)] assms(2)
    by (simp add: apply_patch_def touched_by_def id_def list_all_iff)
qed

text \<open>A removal below a dish, such as of one allergen, keeps the dish from being written at all.\<close>

lemma leaf_removal_drops_the_dish:
  "patch_plan dearer_restaurant (price_delta @ [\<lparr>fd_path = ''menus[0].categories[0].dishes[0].allergens[1]'',
     fd_op = OP_REMOVED, fd_old_value = JStr ''milk'', fd_new_value = JNull, fd_source_snapshot_ids = []\<rparr>]) = []"
  by code_simp

end
