(* ===== verification/Reviewer.thy ===== *)
theory Reviewer
  imports Collector Patch
begin

text \<open>
  The reviewer workflow, \<open>src/workflows/reviewer_workflow/\<close>: its state (\<open>state.py\<close>), its six nodes
  (\<open>nodes/\<close>) and the graph that routes between them (\<open>graph.py\<close>). Unlike the collector's, only
  the first and the review node are followed by a choice; every other edge is unconditional, so a node
  that fails is followed by the next one all the same.
\<close>

section \<open>State\<close>

record reviewer_state =
  vs_agent_run_id :: "uuid option"
  vs_restaurant :: "restaurant option"
  vs_source :: "source option"
  vs_previous_content_hash :: "string option"
  vs_current_content_hash :: "string option"
  vs_hash_changed :: "bool option"
  vs_polled_snapshot :: "snapshot option"
  vs_reextraction_snapshots :: "snapshot list option"
  vs_reextracted_json :: "json option"
  vs_source_refs :: "(string \<times> string list) list option"
  vs_delta :: "json_delta option"
  vs_validation_result :: "validation_result option"
  vs_validated_json :: "json option"
  vs_proposed_change_id :: "uuid option"
  vs_human_approval_status :: "change_status option"
  vs_published_restaurant_id :: "uuid option"
  vs_errors :: "workflow_error list"

definition initial_review :: "restaurant option \<Rightarrow> source option \<Rightarrow> reviewer_state" where
  "initial_review r src =
     \<lparr>vs_agent_run_id = None, vs_restaurant = r, vs_source = src, vs_previous_content_hash = None,
      vs_current_content_hash = None, vs_hash_changed = None, vs_polled_snapshot = None,
      vs_reextraction_snapshots = None, vs_reextracted_json = None, vs_source_refs = None, vs_delta = None,
      vs_validation_result = None, vs_validated_json = None, vs_proposed_change_id = None,
      vs_human_approval_status = None, vs_published_restaurant_id = None, vs_errors = []\<rparr>"

datatype review_update =
    V_agent_run_id uuid
  | V_source source
  | V_hashes "string option" string bool snapshot
  | V_reextraction_snapshots "snapshot list"
  | V_reextracted_json json
  | V_source_refs "(string \<times> string list) list"
  | V_delta json_delta
  | V_validation_result validation_result
  | V_validated_json json
  | V_proposed_change_id uuid
  | V_human_approval_status change_status
  | V_published_restaurant_id uuid
  | V_errors "workflow_error list"

fun review_merge_field :: "review_update \<Rightarrow> reviewer_state \<Rightarrow> reviewer_state" where
  "review_merge_field (V_agent_run_id v) st = st\<lparr>vs_agent_run_id := Some v\<rparr>"
| "review_merge_field (V_source v) st = st\<lparr>vs_source := Some v\<rparr>"
| "review_merge_field (V_hashes p c h sn) st = st\<lparr>vs_previous_content_hash := p, vs_current_content_hash := Some c,
     vs_hash_changed := Some h, vs_polled_snapshot := Some sn\<rparr>"
| "review_merge_field (V_reextraction_snapshots v) st = st\<lparr>vs_reextraction_snapshots := Some v\<rparr>"
| "review_merge_field (V_reextracted_json v) st = st\<lparr>vs_reextracted_json := Some v\<rparr>"
| "review_merge_field (V_source_refs v) st = st\<lparr>vs_source_refs := Some v\<rparr>"
| "review_merge_field (V_delta v) st = st\<lparr>vs_delta := Some v\<rparr>"
| "review_merge_field (V_validation_result v) st = st\<lparr>vs_validation_result := Some v\<rparr>"
| "review_merge_field (V_validated_json v) st = st\<lparr>vs_validated_json := Some v\<rparr>"
| "review_merge_field (V_proposed_change_id v) st = st\<lparr>vs_proposed_change_id := Some v\<rparr>"
| "review_merge_field (V_human_approval_status v) st = st\<lparr>vs_human_approval_status := Some v\<rparr>"
| "review_merge_field (V_published_restaurant_id v) st = st\<lparr>vs_published_restaurant_id := Some v\<rparr>"
| "review_merge_field (V_errors v) st = st\<lparr>vs_errors := vs_errors st @ v\<rparr>"

definition review_merge :: "review_update list \<Rightarrow> reviewer_state \<Rightarrow> reviewer_state" where
  "review_merge us st = fold review_merge_field us st"

definition review_error :: "string \<Rightarrow> message \<Rightarrow> review_update" where
  "review_error name msg = V_errors [\<lparr>we_node = name, we_message = msg\<rparr>]"

text \<open>What a reviewer graph is built with; \<open>rv_fetch_ms\<close> is the measured duration of the poll.\<close>

record reviewer_services =
  rv_root :: "string \<Rightarrow> exn + (uuid \<Rightarrow> string \<Rightarrow> snapshot cap)"
  rv_fetcher :: "string \<Rightarrow> exn + page_fetcher"
  rv_links_of :: "string \<Rightarrow> (string \<times> string) list"
  rv_ai :: ai_provider
  rv_deep_diff :: deep_diff
  rv_uuid4 :: "loc \<Rightarrow> uuid"
  rv_fetch_ms :: rat

section \<open>Temporal hash polling\<close>

text \<open>\<open>CrawlerServiceRootPageFetcher\<close>: the capture of the root page, its metadata unused.\<close>

definition crawler_root_fetcher ::
  "network \<Rightarrow> (string \<Rightarrow> string) \<Rightarrow> string list \<Rightarrow> string \<Rightarrow> exn + (uuid \<Rightarrow> string \<Rightarrow> snapshot cap)" where
  "crawler_root_fetcher net sha base verified_domain =
     (case domain_verifier verified_domain of
        Inl e \<Rightarrow> Inl (OtherError [Txt e])
      | Inr verified \<Rightarrow>
          Inr (\<lambda>i url. cap_bind (capture_fetched sha base i (fetch net verified url)) (\<lambda>c. cap_return (cp_snapshot c))))"

text \<open>The website on record, or else a verified one handed in.\<close>

definition active_source :: "restaurant \<Rightarrow> source option \<Rightarrow> db \<Rightarrow> source option" where
  "active_source r fallback s =
     (case get_verified_website (r_id r) s of
        Some row \<Rightarrow> Some row
      | None \<Rightarrow> (case fallback of None \<Rightarrow> None | Some f \<Rightarrow> if so_is_verified_domain f then Some f else None))"

definition poll_failed ::
  "reviewer_services \<Rightarrow> agent_run \<Rightarrow> source \<Rightarrow> exn \<Rightarrow> db \<Rightarrow> review_update list \<times> db" where
  "poll_failed sv run src e s =
     (let failure_message =
        [Txt ''temporal_hash_polling failed to re-fetch source_id='', Num (so_id src), Txt '': ''] @ exn_message e;
          s = audit AGENT_RUN_TRIGGER AE_AGENT_RUN (uuid_str (ar_id run)) None None
            [(''node'', [Txt ''temporal_hash_polling'']), (''source_id'', [Num (so_id src)]), (''error'', exn_message e)] s;
          s = update_metrics (ar_id run) [(''node'', JStr ''temporal_hash_polling''),
            (''fetch_duration_ms'', JFloat (rv_fetch_ms sv)), (''outcome'', JStr ''fetch_failed'')] s;
          s = mark_failed (ar_id run) failure_message s
      in ([V_agent_run_id (ar_id run), V_source src, review_error ''temporal_hash_polling'' failure_message], s))"

text \<open>After a successful fetch: the snapshot is recorded, the hashes compared.\<close>

definition poll_compared ::
  "reviewer_services \<Rightarrow> agent_run \<Rightarrow> source \<Rightarrow> string option \<Rightarrow> snapshot \<Rightarrow> db \<Rightarrow> exn + review_update list \<times> db" where
  "poll_compared sv run src previous_hash fresh s =
     (case create_snapshot fresh s of
        Inl e \<Rightarrow> Inl e
      | Inr s \<Rightarrow>
          (let hash_changed = (previous_hash = None \<or> previous_hash \<noteq> Some (sn_content_hash fresh));
               s = update_metrics (ar_id run) [(''node'', JStr ''temporal_hash_polling''),
                 (''fetch_duration_ms'', JFloat (rv_fetch_ms sv)),
                 (''content_length_bytes'', j_opt (\<lambda>n. JInt (int n)) (sn_content_length_bytes fresh)),
                 (''hash_changed'', JBool hash_changed),
                 (''outcome'', JStr (if hash_changed then ''changed'' else ''unchanged''))] s;
               s = (if hash_changed then s
                    else mark_succeeded (ar_id run)
                      (audit AGENT_RUN_TRIGGER AE_AGENT_RUN (uuid_str (ar_id run)) None None
                        [(''node'', [Txt ''temporal_hash_polling'']), (''source_id'', [Num (so_id src)]),
                         (''outcome'', [Txt ''unchanged'']), (''content_hash'', [Txt (sn_content_hash fresh)])] s))
           in Inr ([V_agent_run_id (ar_id run), V_source src,
                    V_hashes previous_hash (sn_content_hash fresh) hash_changed fresh], s)))"

definition temporal_hash_polling_node ::
  "reviewer_services \<Rightarrow> reviewer_state \<Rightarrow> world \<Rightarrow> exn + review_update list \<times> world" where
  "temporal_hash_polling_node sv st w =
     (case vs_restaurant st of
        None \<Rightarrow> Inr ([review_error ''temporal_hash_polling''
                 [Txt ''ReviewerState.restaurant is required before temporal_hash_polling runs'']], w)
      | Some r \<Rightarrow>
          (case active_source r (vs_source st) (w_db w) of
             None \<Rightarrow> Inr ([review_error ''temporal_hash_polling''
                      [Txt ''no verified active source found for restaurant_id='', Num (r_id r)]], w)
           | Some src \<Rightarrow>
               (let (run, s) = create_run REVIEWER (Some (r_id r)) (w_db w);
                    previous_hash = map_option sn_content_hash (latest_snapshot (so_id src) None s)
                in case rv_root sv (so_url src) of
                     Inl e \<Rightarrow> Inl e
                   | Inr fetch_root \<Rightarrow>
                       (case run_capture (fetch_root (so_id src) (so_url src)) (w\<lparr>w_db := s\<rparr>) of
                          (Inl e, w) \<Rightarrow>
                            (case poll_failed sv run src e (w_db w) of (us, s) \<Rightarrow> Inr (us, w\<lparr>w_db := s\<rparr>))
                        | (Inr fresh, w) \<Rightarrow>
                            (case poll_compared sv run src previous_hash fresh (w_db w) of
                               Inl e \<Rightarrow> Inl e
                             | Inr (us, s) \<Rightarrow> Inr (us, w\<lparr>w_db := s\<rparr>))))))"

section \<open>Targeted re-extraction\<close>

text \<open>\<open>_capture_source_material\<close> of this node.\<close>

definition capture_links_of_page ::
  "page_fetcher \<Rightarrow> (string \<Rightarrow> (string \<times> string) list) \<Rightarrow> source \<Rightarrow> string \<Rightarrow> snapshot list \<Rightarrow> snapshot list cap" where
  "capture_links_of_page pf links_of src html snapshots =
     (case domain_verifier (so_url src) of
        Inl e \<Rightarrow> cap_fail (OtherError [Txt e])
      | Inr verified \<Rightarrow>
          (case find_menu_page_links links_of html (so_url src) verified menu_link_limit of
             Inl e \<Rightarrow> cap_fail (OtherError [Txt e])
           | Inr urls \<Rightarrow> capture_links pf (so_id src) None urls snapshots))"

definition targeted_capture ::
  "page_fetcher \<Rightarrow> (string \<Rightarrow> (string \<times> string) list) \<Rightarrow> source \<Rightarrow> snapshot list cap" where
  "targeted_capture pf links_of src =
     cap_bind (pf_html_or_pdf pf (so_id src) (so_url src)) (\<lambda>root.
       case (if sn_content_type (cp_snapshot root) \<noteq> HTML then None else cp_html root) of
         None \<Rightarrow> cap_return [cp_snapshot root]
       | Some html \<Rightarrow>
           if length html < thin_html_bytes_threshold
           then cap_bind (pf_rendered pf (so_id src) (so_url src)) (\<lambda>rendered.
                  capture_links_of_page pf links_of src
                    (case cp_html rendered of None \<Rightarrow> html | Some t \<Rightarrow> if t = [] then html else t)
                    [cp_snapshot root, cp_snapshot rendered])
           else capture_links_of_page pf links_of src html [cp_snapshot root])"

text \<open>The references collected while mapping: the profile's, then each dish's that has some.\<close>

definition output_dishes :: "extraction_output \<Rightarrow> extracted_dish list" where
  "output_dishes out = [d. m \<leftarrow> xo_menus out, c \<leftarrow> xm_categories m, d \<leftarrow> xc_dishes c]"

definition mapped_dishes :: "menu list \<Rightarrow> dish list" where
  "mapped_dishes menus = [d. m \<leftarrow> menus, c \<leftarrow> me_categories m, d \<leftarrow> mc_dishes c]"

definition collect_source_refs :: "extraction_output \<Rightarrow> menu list \<Rightarrow> (string \<times> string list) list" where
  "collect_source_refs out menus =
     fold (\<lambda>(x, d) refs. if xd_source_snapshot_ids x = [] then refs
             else AList.update (uuid_str (d_id d)) (xd_source_snapshot_ids x) refs)
       (zip (output_dishes out) (mapped_dishes menus))
       (if xp_source_snapshot_ids (xo_restaurant_profile out) = [] then []
        else [(restaurant_profile_ref_key, xp_source_snapshot_ids (xo_restaurant_profile out))])"

text \<open>\<open>_map_onto_current\<close>: as the collector's mapping, but no menus keep the current ones.\<close>

definition map_onto_current ::
  "extraction_output \<Rightarrow> restaurant \<Rightarrow> uuid \<Rightarrow> exn + (restaurant \<times> (string \<times> string list) list) \<times> uuid" where
  "map_onto_current out current n =
     (case map_to_restaurant out current n of
        Inl e \<Rightarrow> Inl e
      | Inr (mapped, n') \<Rightarrow>
          Inr ((if r_menus mapped = [] then mapped\<lparr>r_menus := r_menus current\<rparr> else mapped,
                collect_source_refs out (r_menus mapped)), n'))"

text \<open>After the capture: read, extract, map.\<close>

definition reextract ::
  "reviewer_services \<Rightarrow> source \<Rightarrow> restaurant \<Rightarrow> uuid option \<Rightarrow> snapshot list \<Rightarrow> world
     \<Rightarrow> exn + review_update list \<times> world" where
  "reextract sv src r run_id snapshots w =
     (case read_text_materials (w_files w) snapshots of
        Inl e \<Rightarrow> Inl e
      | Inr [] \<Rightarrow> Inr ([review_error ''targeted_reextraction''
                 [Txt ''targeted_reextraction found no text-readable material to send to the AI provider'']], w)
      | Inr materials \<Rightarrow>
          (case run_chunked_extraction (rv_ai sv) system_prompt (build_user_content materials) of
             Inl (AIProviderError m) \<Rightarrow>
               (let failure_message =
                  [Txt ''targeted_reextraction AI call failed for restaurant_id='', Num (r_id r), Txt '': ''] @ m
                in Inr ([review_error ''targeted_reextraction'' failure_message],
                        w\<lparr>w_db := fail_run_audited run_id AI_EXTRACTION
                          [(''node'', [Txt ''targeted_reextraction'']), (''restaurant_id'', [Num (r_id r)]),
                           (''error'', m)] failure_message (w_db w)\<rparr>))
           | Inl e \<Rightarrow> Inl e
           | Inr result \<Rightarrow>
               (case map_onto_current (pr_output result) r (db_next (w_db w)) of
                  Inl e \<Rightarrow> Inl e
                | Inr ((mapped, refs), n) \<Rightarrow>
                    (let s = (w_db w)\<lparr>db_next := n\<rparr>;
                         s = (case run_id of
                                None \<Rightarrow> s
                              | Some i \<Rightarrow> audit AI_EXTRACTION AE_AGENT_RUN (uuid_str i) None None
                                  [(''node'', [Txt ''targeted_reextraction'']), (''restaurant_id'', [Num (r_id r)]),
                                   (''model_name'', [Txt (pr_model_name result)]), (''source_id'', [Num (so_id src)])] s)
                     in Inr ([V_reextraction_snapshots snapshots, V_reextracted_json (dump_restaurant mapped),
                              V_source_refs refs], w\<lparr>w_db := s\<rparr>)))))"

definition targeted_reextraction_node ::
  "reviewer_services \<Rightarrow> reviewer_state \<Rightarrow> world \<Rightarrow> exn + review_update list \<times> world" where
  "targeted_reextraction_node sv st w =
     (case (vs_source st, vs_restaurant st) of
        (Some src, Some r) \<Rightarrow>
          (case rv_fetcher sv (so_url src) of
             Inl e \<Rightarrow> Inl e
           | Inr fetcher \<Rightarrow>
               (case run_capture (targeted_capture fetcher (rv_links_of sv) src) w of
                  (Inl e, w) \<Rightarrow>
                    (let failure_message =
                       [Txt ''targeted_reextraction failed to capture source material for source_id='',
                        Num (so_id src), Txt '': ''] @ exn_message e
                     in Inr ([review_error ''targeted_reextraction'' failure_message],
                             w\<lparr>w_db := fail_run_audited (vs_agent_run_id st) AGENT_RUN_TRIGGER
                               [(''node'', [Txt ''targeted_reextraction'']), (''source_id'', [Num (so_id src)]),
                                (''error'', exn_message e)] failure_message (w_db w)\<rparr>))
                | (Inr [], w) \<Rightarrow> Inr ([review_error ''targeted_reextraction''
                         [Txt ''targeted_reextraction captured no snapshots for source_id='', Num (so_id src)]], w)
                | (Inr snapshots, w) \<Rightarrow> reextract sv src r (vs_agent_run_id st) snapshots w))
      | _ \<Rightarrow> Inr ([review_error ''targeted_reextraction''
               [Txt ''ReviewerState.source/restaurant are required before targeted_reextraction runs'']], w))"

section \<open>Delta generation\<close>

definition json_delta_generation_node ::
  "reviewer_services \<Rightarrow> reviewer_state \<Rightarrow> db \<Rightarrow> exn + review_update list \<times> db" where
  "json_delta_generation_node sv st s =
     (case (vs_restaurant st, vs_reextracted_json st) of
        (Some r, Some j) \<Rightarrow>
          (case get_full_tree (r_id r) s of
             Inl e \<Rightarrow> Inl e
           | Inr None \<Rightarrow> Inr ([review_error ''json_delta_generation''
                    [Txt ''json_delta_generation: no production restaurant found for restaurant_id='', Num (r_id r),
                     Txt '' - nothing published to compare against'']], s)
           | Inr (Some production_restaurant) \<Rightarrow>
               (case v_restaurant (rv_uuid4 sv) [] j of
                  Inl es \<Rightarrow> Inl (ValidationError es)
                | Inr reextracted \<Rightarrow>
                    (case compute_delta (rv_deep_diff sv) production_restaurant reextracted
                            (case vs_source_refs st of None \<Rightarrow> [] | Some refs \<Rightarrow> refs) of
                       Inl e \<Rightarrow> Inl e
                     | Inr delta \<Rightarrow> Inr ([V_delta delta], s))))
      | _ \<Rightarrow> Inr ([review_error ''json_delta_generation''
               [Txt ''ReviewerState.restaurant/reextracted_structured_json are required before json_delta_generation runs (targeted_reextraction must succeed first)'']], s))"

section \<open>Delta validation\<close>

text \<open>The dish a path is in, as the matched text.\<close>

definition dish_prefix :: "string \<Rightarrow> string option" where
  "dish_prefix path = map_option (\<lambda>(key, rest). take (length path - length rest) path) (match_dish_path path)"

definition touched_dish_prefixes :: "json_delta option \<Rightarrow> string list option" where
  "touched_dish_prefixes delta =
     map_option (\<lambda>fs. List.map_filter (\<lambda>f. if fd_op f \<in> {OP_ADDED, OP_CHANGED} then dish_prefix (fd_path f) else None) fs)
       delta"

definition is_reportable :: "string list option \<Rightarrow> validation_issue \<Rightarrow> bool" where
  "is_reportable touched i =
     (case touched of
        None \<Rightarrow> True
      | Some ps \<Rightarrow>
          (case dish_prefix (vi_field_path i) of None \<Rightarrow> True | Some p \<Rightarrow> p \<in> set ps))"

definition delta_validation_node ::
  "reviewer_services \<Rightarrow> reviewer_state \<Rightarrow> db \<Rightarrow> exn + review_update list \<times> db" where
  "delta_validation_node sv st s =
     (case vs_reextracted_json st of
        None \<Rightarrow> Inr ([review_error ''delta_validation''
                 [Txt ''ReviewerState.reextracted_structured_json is required before delta_validation runs (targeted_reextraction must succeed first)'']], s)
      | Some j \<Rightarrow>
          (let outcome = validate (rv_uuid4 sv) j;
               validated_json = (case vo_corrected_restaurant outcome of None \<Rightarrow> j | Some c \<Rightarrow> dump_restaurant c);
               reportable = filter (is_reportable (touched_dish_prefixes (vs_delta st))) (vo_errors outcome @ vo_warnings outcome);
               update = [V_validation_result \<lparr>vr_is_valid = is_valid outcome, vr_issues = map to_state_issue reportable\<rparr>,
                         V_validated_json validated_json];
               s = (case vs_agent_run_id st of
                      None \<Rightarrow> s
                    | Some i \<Rightarrow>
                        if \<not> is_valid outcome \<or> vo_corrected_fields outcome \<noteq> []
                        then
                         (let s = audit AGENT_RUN_TRIGGER AE_AGENT_RUN (uuid_str i) None None
                            [(''node'', [Txt ''delta_validation'']),
                             (''is_valid'', [Txt (if is_valid outcome then ''True'' else ''False'')]),
                             (''error_count'', [Num (length (vo_errors outcome))]),
                             (''warning_count'', [Num (length (vo_warnings outcome))]),
                             (''reported_issue_count'', [Num (length reportable)]),
                             (''corrected_fields'', [Repr (map cf_field_path (vo_corrected_fields outcome))])] s
                          in if \<not> is_valid outcome
                             then mark_failed i [Txt ''delta_validation found '', Num (length (vo_errors outcome)),
                                    Txt '' error(s) in the re-extracted data''] s
                             else s)
                        else s)
           in Inr (update, s)))"

section \<open>Human final sync\<close>

record sync_task = review_task +
  rt_delta :: json_delta

definition sync_task_for :: "proposed_change \<Rightarrow> restaurant \<Rightarrow> validation_result option \<Rightarrow> json_delta option \<Rightarrow> sync_task" where
  "sync_task_for record r vr delta =
     \<lparr>rt_proposed_change_id = pc_id record, rt_restaurant_id = r_id r, rt_restaurant_name = r_name r,
      rt_is_valid = map_option vr_is_valid vr,
      rt_issue_count = (case vr of None \<Rightarrow> 0 | Some v \<Rightarrow> length (vr_issues v)),
      rt_delta = (case delta of None \<Rightarrow> [] | Some fs \<Rightarrow> fs)\<rparr>"

definition apply_sync_decision :: "uuid \<Rightarrow> decision \<Rightarrow> review_update list" where
  "apply_sync_decision record_id decision =
     (case decision of
        Unusable \<Rightarrow> [review_error ''human_final_sync'' [Txt ''human_final_sync resumed with no usable decision'']]
      | Decision action edited \<Rightarrow>
          if action = Some ''approve''
          then [V_proposed_change_id record_id, V_human_approval_status APPROVED]
          else if action = Some ''edit_then_approve''
          then [V_proposed_change_id record_id, V_human_approval_status APPROVED]
            @ (case edited of Some j \<Rightarrow> [V_validated_json j] | None \<Rightarrow> [])
          else if action = Some ''reject''
          then [V_proposed_change_id record_id, V_human_approval_status REJECTED_CHANGE]
          else [review_error ''human_final_sync'' [Txt ''human_final_sync received an unrecognized decision action: '',
                  Txt (case action of None \<Rightarrow> ''None'' | Some a \<Rightarrow> a)]])"

definition human_final_sync_node ::
  "reviewer_state \<Rightarrow> decision option \<Rightarrow> db \<Rightarrow> exn + (sync_task, review_update list) outcome \<times> db" where
  "human_final_sync_node st resume s =
     (case (vs_restaurant st, vs_validated_json st, vs_agent_run_id st) of
        (Some r, Some j, Some run_id) \<Rightarrow>
          (case get_change_by_thread s run_id of
             Inl e \<Rightarrow> Inl e
           | Inr found \<Rightarrow>
               (let (record, s) =
                  (case found of
                     Some record \<Rightarrow> (record, s)
                   | None \<Rightarrow>
                       (let (record, s) = create_proposed_change PC_RESTAURANT (r_id r) j
                              (dump_validation_result (vs_validation_result st)) (Some run_id)
                              (map_option so_id (vs_source st)) (Some run_id) None s
                        in (record, audit PROPOSED_CHANGE_CREATE AE_PROPOSED_CHANGE (uuid_str (pc_id record)) None None
                              [(''node'', [Txt ''human_final_sync'']), (''restaurant_id'', [Num (r_id r)]),
                               (''delta_field_count'', [case vs_delta st of None \<Rightarrow> Txt ''None'' | Some fs \<Rightarrow> Num (length fs)])] s)));
                    task = sync_task_for record r (vs_validation_result st) (vs_delta st)
                in Inr (interrupt task (apply_sync_decision (pc_id record)) resume, s)))
      | _ \<Rightarrow> Inr (Returned [review_error ''human_final_sync''
               [Txt ''ReviewerState.restaurant/validated_structured_json/agent_run_id are required before human_final_sync runs (delta_validation must succeed first, and agent_run_id doubles as the checkpoint thread identity this node depends on)'']], s))"

section \<open>Publish\<close>

definition sync_publish_fail :: "reviewer_state \<Rightarrow> message \<Rightarrow> db \<Rightarrow> exn + review_update list \<times> db" where
  "sync_publish_fail st msg s =
     Inr ([review_error ''publish'' msg],
          (case vs_agent_run_id st of Some i \<Rightarrow> mark_failed i msg s | None \<Rightarrow> s))"

definition sync_publish_write ::
  "reviewer_state \<Rightarrow> uuid \<Rightarrow> restaurant \<Rightarrow> json_delta \<Rightarrow> db \<Rightarrow> exn + review_update list \<times> db" where
  "sync_publish_write st change_id r delta s =
     (case apply_patch (r_id r) r delta s of
        Inl e \<Rightarrow> Inl e
      | Inr s \<Rightarrow>
          (let s = update_change_status change_id PUBLISHED None s;
               s = audit PROPOSED_CHANGE_PUBLISH AE_PROPOSED_CHANGE (uuid_str change_id) None None
                 [(''node'', [Txt ''publish'']), (''restaurant_id'', [Num (r_id r)]), (''workflow'', [Txt ''reviewer''])] s;
               s = (case vs_agent_run_id st of Some i \<Rightarrow> mark_succeeded i s | None \<Rightarrow> s)
           in Inr ([V_published_restaurant_id (r_id r)], s)))"

definition sync_publish_node ::
  "reviewer_services \<Rightarrow> reviewer_state \<Rightarrow> db \<Rightarrow> exn + review_update list \<times> db" where
  "sync_publish_node sv st s =
     (if vs_human_approval_status st \<noteq> Some APPROVED
      then sync_publish_fail st [Txt ''publish node reached without human_approval_status == APPROVED; refusing to write''] s
      else
       (case (vs_validated_json st, vs_proposed_change_id st, vs_delta st) of
          (Some j, Some change_id, Some delta) \<Rightarrow>
            (let outcome = validate (rv_uuid4 sv) j in
             if \<not> is_valid outcome
             then sync_publish_fail st
               (Txt ''re-validation failed immediately before publish; refusing to write: ''
                 # join_messages ''; '' (map (\<lambda>i. [Txt (vi_field_path i), Txt '': ''] @ vi_message i) (vo_errors outcome))) s
             else
              (case v_restaurant (rv_uuid4 sv) [] j of
                 Inl es \<Rightarrow> Inl (ValidationError es)
               | Inr r \<Rightarrow>
                   if row_by rr_id (r_id r) (db_restaurants s) = None
                   then sync_publish_fail st
                     [Txt ''restaurant '', Num (r_id r), Txt '' has no existing production row; the reviewer workflow only updates an already-published restaurant, it never creates one''] s
                   else sync_publish_write st change_id r delta s))
        | _ \<Rightarrow> sync_publish_fail st
            [Txt ''ReviewerState.validated_structured_json/proposed_change_id/delta are required before publish runs''] s))"

section \<open>The graph\<close>

datatype reviewer_node =
    TEMPORAL_HASH_POLLING | TARGETED_REEXTRACTION | JSON_DELTA_GENERATION | DELTA_VALIDATION
  | HUMAN_FINAL_SYNC | SYNC_PUBLISH

definition route_after_hash_polling :: "reviewer_state \<Rightarrow> reviewer_node option" where
  "route_after_hash_polling st = (if vs_hash_changed st = Some True then Some TARGETED_REEXTRACTION else None)"

definition route_after_human_final_sync :: "reviewer_state \<Rightarrow> reviewer_node option" where
  "route_after_human_final_sync st =
     (if vs_human_approval_status st = Some APPROVED then Some SYNC_PUBLISH else None)"

fun review_route :: "reviewer_node \<Rightarrow> reviewer_state \<Rightarrow> reviewer_node option" where
  "review_route TEMPORAL_HASH_POLLING st = route_after_hash_polling st"
| "review_route TARGETED_REEXTRACTION st = Some JSON_DELTA_GENERATION"
| "review_route JSON_DELTA_GENERATION st = Some DELTA_VALIDATION"
| "review_route DELTA_VALIDATION st = Some HUMAN_FINAL_SYNC"
| "review_route HUMAN_FINAL_SYNC st = route_after_human_final_sync st"
| "review_route SYNC_PUBLISH st = None"

definition returned_db :: "(db \<Rightarrow> exn + 'u \<times> db) \<Rightarrow> world \<Rightarrow> exn + ('t, 'u) outcome \<times> world" where
  "returned_db f w = (case f (w_db w) of Inl e \<Rightarrow> Inl e | Inr (u, s) \<Rightarrow> Inr (Returned u, w\<lparr>w_db := s\<rparr>))"

fun review_exec ::
  "reviewer_services \<Rightarrow> reviewer_node \<Rightarrow> reviewer_state \<Rightarrow> decision option \<Rightarrow> world
     \<Rightarrow> exn + (sync_task, review_update list) outcome \<times> world" where
  "review_exec sv TEMPORAL_HASH_POLLING st resume w =
     (case temporal_hash_polling_node sv st w of Inl e \<Rightarrow> Inl e | Inr (u, w') \<Rightarrow> Inr (Returned u, w'))"
| "review_exec sv TARGETED_REEXTRACTION st resume w =
     (case targeted_reextraction_node sv st w of Inl e \<Rightarrow> Inl e | Inr (u, w') \<Rightarrow> Inr (Returned u, w'))"
| "review_exec sv JSON_DELTA_GENERATION st resume w = returned_db (json_delta_generation_node sv st) w"
| "review_exec sv DELTA_VALIDATION st resume w = returned_db (delta_validation_node sv st) w"
| "review_exec sv HUMAN_FINAL_SYNC st resume w =
     (case human_final_sync_node st resume (w_db w) of
        Inl e \<Rightarrow> Inl e | Inr (out, s) \<Rightarrow> Inr (out, w\<lparr>w_db := s\<rparr>))"
| "review_exec sv SYNC_PUBLISH st resume w = returned_db (sync_publish_node sv st) w"

datatype review_result =
    Review_finished reviewer_state world
  | Review_interrupted sync_task reviewer_state world
  | Review_raised exn

fun review_rank :: "reviewer_node \<Rightarrow> nat" where
  "review_rank TEMPORAL_HASH_POLLING = 6"
| "review_rank TARGETED_REEXTRACTION = 5"
| "review_rank JSON_DELTA_GENERATION = 4"
| "review_rank DELTA_VALIDATION = 3"
| "review_rank HUMAN_FINAL_SYNC = 2"
| "review_rank SYNC_PUBLISH = 1"

lemma review_route_rank: "review_route n st = Some m \<Longrightarrow> review_rank m < review_rank n"
  by (cases n) (auto simp: route_after_hash_polling_def route_after_human_final_sync_def split: if_splits)

function review_from ::
  "reviewer_services \<Rightarrow> reviewer_node \<Rightarrow> reviewer_state \<Rightarrow> decision option \<Rightarrow> world \<Rightarrow> review_result" where
  "review_from sv n st resume w =
     (case review_exec sv n st resume w of
        Inl e \<Rightarrow> Review_raised e
      | Inr (Paused task, w') \<Rightarrow> Review_interrupted task st w'
      | Inr (Returned us, w') \<Rightarrow>
          (let st' = review_merge us st in
           case review_route n st' of
             None \<Rightarrow> Review_finished st' w'
           | Some m \<Rightarrow> review_from sv m st' None w'))"
  by pat_completeness auto
termination
  by (relation "measure (\<lambda>(sv, n, st, resume, w). review_rank n)") (auto dest: review_route_rank)

declare review_from.simps [simp del]

definition start_review :: "reviewer_services \<Rightarrow> restaurant option \<Rightarrow> source option \<Rightarrow> world \<Rightarrow> review_result" where
  "start_review sv r src w = review_from sv TEMPORAL_HASH_POLLING (initial_review r src) None w"

definition resume_review :: "reviewer_services \<Rightarrow> reviewer_state \<Rightarrow> decision \<Rightarrow> world \<Rightarrow> review_result" where
  "resume_review sv st d w = review_from sv HUMAN_FINAL_SYNC st (Some d) w"

end
