(* ===== verification/ReviewerRuns.thy ===== *)
theory ReviewerRuns
  imports Reviewer CollectorRuns
begin

text \<open>
  What a run of the reviewer graph does as a whole: its capture agrees with the collector's, an unchanged
  source ends the run, nothing is published without a decision, and a decision applies exactly the
  delta that was reviewed.
\<close>

section \<open>The capture is the collector's\<close>

lemma rendered_is_html:
  assumes "crawler_page_fetcher net browse sha base url = Inr pf" "pf_rendered pf i u env = (Inr c, env')"
  shows "sn_content_type (cp_snapshot c) = HTML"
proof -
  obtain verified where "pf_rendered pf = (\<lambda>i url. capture_fetched sha base i (fetch_rendered_html browse verified url))"
    using assms(1) by (auto simp: crawler_page_fetcher_def split: sum.splits)
  then have "capture_fetched sha base i (fetch_rendered_html browse verified u) env = (Inr c, env')"
    using assms(2) by simp
  then show ?thesis
    by (auto simp: capture_fetched_def fetch_rendered_html_def store_snapshot_def Let_def
        split: if_splits option.splits sum.splits)
qed

lemma capture_discovered_page:
  assumes "sn_content_type (cp_snapshot d) = HTML" "cp_html d = Some html"
  shows "capture_discovered pf links_of src (so_url src) None d sns = capture_links_of_page pf links_of src html sns"
  unfolding capture_discovered_def capture_links_of_page_def assms option.sel by simp

lemma capture_agrees_normal:
  assumes "pf_html_or_pdf pf (so_id src) (so_url src) env = (Inr home, env1)" "\<not> is_thin_html home"
  shows "targeted_capture pf links_of src env = capture_source_material pf links_of src (so_url src) None env"
  using assms
  by (auto simp: targeted_capture_def capture_source_material_def capture_root_def cap_bind_def cap_return_def
      capture_nutrition_def capture_discovered_page is_thin_html_def split: option.splits)
    (simp_all add: capture_discovered_def cap_return_def)

lemma capture_agrees_thin:
  assumes "crawler_page_fetcher net browse sha base url = Inr pf"
    and page: "pf_html_or_pdf pf (so_id src) (so_url src) env = (Inr home, env1)" and thin: "is_thin_html home"
  shows "targeted_capture pf links_of src env = capture_source_material pf links_of src (so_url src) None env"
proof -
  obtain html where html: "sn_content_type (cp_snapshot home) = HTML" "cp_html home = Some html"
    "length html < thin_html_bytes_threshold"
    using thin by (auto simp: is_thin_html_def split: option.splits)
  obtain res env2 where re: "pf_rendered pf (so_id src) (so_url src) env1 = (res, env2)"
    by (cases "pf_rendered pf (so_id src) (so_url src) env1")
  show ?thesis
  proof (cases res)
    case (Inl e)
    then show ?thesis using page thin html re
      by (simp add: targeted_capture_def capture_source_material_def capture_root_def cap_bind_def)
  next
    case (Inr rendered)
    note r = rendered_is_html [OF assms(1) re [unfolded Inr]]
    show ?thesis using page thin html re Inr r
      by (auto simp: targeted_capture_def capture_source_material_def capture_root_def cap_bind_def cap_return_def
          capture_nutrition_def capture_discovered_page split: option.splits)
  qed
qed

text \<open>C39: Targeted re-extraction captures exactly what the extraction node captures. With the production
  fetcher, on every source, web, browser and state of storage, the two captures make the same requests,
  store the same snapshots in the same order and fail alike; only the nutrition page, which a review
  does not have, is left out.\<close>

theorem targeted_capture_is_extraction:
  assumes "crawler_page_fetcher net browse sha base url = Inr pf"
  shows "targeted_capture pf links_of src = capture_source_material pf links_of src (so_url src) None"
proof (rule ext)
  fix env
  obtain res env1 where page: "pf_html_or_pdf pf (so_id src) (so_url src) env = (res, env1)"
    by (cases "pf_html_or_pdf pf (so_id src) (so_url src) env")
  show "targeted_capture pf links_of src env = capture_source_material pf links_of src (so_url src) None env"
  proof (cases res)
    case (Inl e)
    then show ?thesis using page
      by (simp add: targeted_capture_def capture_source_material_def capture_root_def cap_bind_def)
  next
    case (Inr root)
    then show ?thesis using page capture_agrees_normal capture_agrees_thin [OF assms] by (cases "is_thin_html root") simp_all
  qed
qed

theorem targeted_capture_is_extraction_witness:
  "targeted_capture sample_crawler (\<lambda>_. []) sample_source
     = capture_source_material sample_crawler (\<lambda>_. []) sample_source (so_url sample_source) None"
proof -
  have "domain_verifier ''https://joes.example/menu'' = Inr ''joes.example''" by code_simp
  then have "crawler_page_fetcher sample_network sample_browser (\<lambda>_. ''ab'') [''data''] ''https://joes.example/menu''
      = Inr sample_crawler"
    by (simp add: crawler_page_fetcher_def sample_crawler_def crawler_for_def)
  then show ?thesis by (rule targeted_capture_is_extraction)
qed

section \<open>The review node keeps its contract\<close>

lemma human_final_sync_pauses:
  assumes "human_final_sync_node st None s = Inr (Paused t, s')"
  obtains j r run_id rec where
    "vs_validated_json st = Some j" "vs_restaurant st = Some r" "vs_agent_run_id st = Some run_id"
    "changes_of_thread run_id s' = [rec]" "t = sync_task_for rec r (vs_validation_result st) (vs_delta st)"
    "production s' = production s" "db_agent_runs s' = db_agent_runs s"
    "changes_of_thread run_id s = [rec] \<and> s' = s
      \<or> changes_of_thread run_id s = [] \<and> pc_structured_json rec = j \<and> pc_status rec = PC_PENDING
        \<and> pc_entity_id rec = r_id r \<and> db_proposed_changes s' = db_proposed_changes s @ [rec]"
proof -
  obtain j r run_id where st: "vs_validated_json st = Some j" "vs_restaurant st = Some r"
    "vs_agent_run_id st = Some run_id"
    using assms by (auto simp: human_final_sync_node_def split: option.splits)
  show ?thesis
  proof (cases "scalar_one_or_none (changes_of_thread run_id s)")
    case (Inl e)
    then show ?thesis using assms st by (simp add: human_final_sync_node_def get_change_by_thread_eq)
  next
    case (Inr found)
    show ?thesis
    proof (cases found)
      case (Some rec)
      then have "changes_of_thread run_id s = [rec]" using Inr by (simp add: scalar_one_or_none_iff)
      then show ?thesis using that [OF st, of rec] assms st Inr Some
        by (simp add: human_final_sync_node_def get_change_by_thread_eq interrupt_def)
    next
      case None
      then have none: "changes_of_thread run_id s = []" using Inr by (simp add: scalar_one_or_none_iff)
      obtain rec s1 where c: "create_proposed_change PC_RESTAURANT (r_id r) j
          (dump_validation_result (vs_validation_result st)) (Some run_id)
          (map_option so_id (vs_source st)) (Some run_id) None s = (rec, s1)"
        by (cases "create_proposed_change PC_RESTAURANT (r_id r) j
          (dump_validation_result (vs_validation_result st)) (Some run_id)
          (map_option so_id (vs_source st)) (Some run_id) None s")
      have "pc_entity_id rec = r_id r" using c by (auto simp: create_proposed_change_def Let_def)
      then show ?thesis
        using that [OF st, of rec] assms st Inr None none create_change_thread [OF c] c
        by (auto simp: human_final_sync_node_def get_change_by_thread_eq interrupt_def Let_def)
    qed
  qed
qed

lemma human_final_sync_found:
  assumes "vs_validated_json st = Some j" "vs_restaurant st = Some r" "vs_agent_run_id st = Some run_id"
    "changes_of_thread run_id s = [rec]"
  shows "human_final_sync_node st resume s =
    Inr (interrupt (sync_task_for rec r (vs_validation_result st) (vs_delta st)) (apply_sync_decision (pc_id rec)) resume, s)"
  using assms by (simp add: human_final_sync_node_def get_change_by_thread_eq scalar_one_or_none_def)

interpretation final_sync: review_node human_final_sync_node vs_agent_run_id
  "\<lambda>st t. apply_sync_decision (rt_proposed_change_id t)" rt_proposed_change_id
proof
  fix st s t s' d
  assume p: "human_final_sync_node st None s = Inr (Paused t, s')"
  obtain j r run_id rec where h: "vs_validated_json st = Some j" "vs_restaurant st = Some r"
    "vs_agent_run_id st = Some run_id" "changes_of_thread run_id s' = [rec]"
    "t = sync_task_for rec r (vs_validation_result st) (vs_delta st)"
    by (rule human_final_sync_pauses [OF p])
  show "human_final_sync_node st d s' = Inr (interrupt t (apply_sync_decision (rt_proposed_change_id t)) d, s')"
    using human_final_sync_found [OF h(1-4), of d] by (simp add: h(5) sync_task_for_def)
  show "\<exists>th c. vs_agent_run_id st = Some th \<and> changes_of_thread th s' = [c] \<and> pc_id c = rt_proposed_change_id t"
    using h by (auto simp: sync_task_for_def)
qed

section \<open>What each node leaves alone\<close>

definition quiet :: "db \<Rightarrow> db \<Rightarrow> bool" where
  "quiet s s' \<longleftrightarrow> production s' = production s \<and> db_proposed_changes s' = db_proposed_changes s"

lemma quiet_refl [simp]: "quiet s s"
  by (simp add: quiet_def)

lemma quiet_trans: "quiet s s1 \<Longrightarrow> quiet s1 s2 \<Longrightarrow> quiet s s2"
  by (simp add: quiet_def)

lemma review_merge_simps [simp]: "review_merge [] st = st"
  "review_merge (u # us) st = review_merge us (review_merge_field u st)"
  by (simp_all add: review_merge_def)

lemma update_metrics_status [simp, frame_simps]: "run_status_of (update_metrics i kvs s) j = run_status_of s j"
  unfolding run_status_of_def get_run_def update_metrics_def
  by (cases "i = j") (simp_all add: run_metrics.get_updated run_metrics.get_other option.map_comp comp_def
      merge_metrics_def)

lemma create_snapshot_frame:
  "create_snapshot sn s = Inr s' \<Longrightarrow> quiet s s' \<and> db_agent_runs s' = db_agent_runs s"
  by (auto simp: create_snapshot_def quiet_def production_def split: if_splits)

lemma quiet_updates [simp, frame_simps]:
  "quiet s (audit a aet ei actor email meta s') = quiet s s'" "quiet s (mark_failed i m s') = quiet s s'"
  "quiet s (mark_succeeded i s') = quiet s s'" "quiet s (update_metrics i kvs s') = quiet s s'"
  "quiet s (fail_run_audited j a meta m s') = quiet s s'" "quiet s (s'\<lparr>db_next := n\<rparr>) = quiet s s'"
  by (simp_all add: quiet_def)

lemma poll_compared_step:
  assumes "poll_compared sv run src prev fresh s = Inr (us, s')" "ar_id run = i" "run_status_of s i = Some RUN_RUNNING"
  shows "us = [V_agent_run_id i, V_source src,
      V_hashes prev (sn_content_hash fresh) (prev \<noteq> Some (sn_content_hash fresh)) fresh]
    \<and> quiet s s' \<and> run_status_of s' i = Some (if prev \<noteq> Some (sn_content_hash fresh) then RUN_RUNNING else RUN_SUCCEEDED)"
proof -
  obtain s3 where s3: "create_snapshot fresh s = Inr s3"
    using assms(1) by (auto simp: poll_compared_def split: sum.splits)
  note s3' = create_snapshot_frame [OF s3]
  have st3: "run_status_of s3 i = Some RUN_RUNNING" using s3' assms(3) run_status_frame by metis
  show ?thesis
    using assms(1,2) s3 st3 s3' by (cases "prev = Some (sn_content_hash fresh)") (auto simp: poll_compared_def Let_def)
qed

lemma poll_failed_step:
  assumes "poll_failed sv run src e s = (us, s')"
  shows "\<exists>msg. us = [V_agent_run_id (ar_id run), V_source src, review_error ''temporal_hash_polling'' msg] \<and> quiet s s'"
  using assms by (auto simp: poll_failed_def Let_def)

text \<open>The poll: it fails, or the run goes on or has succeeded as the hashes differ or agree.\<close>

lemma polling_step:
  assumes "temporal_hash_polling_node sv st w = Inr (us, w')" "vs_errors st = []" "vs_hash_changed st = None"
    "get_run (w_db w) i = None" "i = db_next (w_db w)"
  shows "quiet (w_db w) (w_db w')
    \<and> vs_human_approval_status (review_merge us st) = vs_human_approval_status st
    \<and> vs_validated_json (review_merge us st) = vs_validated_json st
    \<and> (vs_errors (review_merge us st) \<noteq> [] \<and> vs_hash_changed (review_merge us st) = None
       \<or> vs_errors (review_merge us st) = [] \<and> vs_agent_run_id (review_merge us st) = Some i
         \<and> vs_restaurant (review_merge us st) = vs_restaurant st \<and> vs_restaurant st \<noteq> None
         \<and> (\<exists>b. vs_hash_changed (review_merge us st) = Some b
              \<and> b = (vs_previous_content_hash (review_merge us st) \<noteq> vs_current_content_hash (review_merge us st))
              \<and> vs_current_content_hash (review_merge us st) \<noteq> None
              \<and> run_status_of (w_db w') i = Some (if b then RUN_RUNNING else RUN_SUCCEEDED)))"
proof (cases "vs_restaurant st")
  case None
  then show ?thesis using assms by (auto simp: temporal_hash_polling_node_def review_error_def)
next
  case (Some r)
  note rs = Some
  show ?thesis
  proof (cases "active_source r (vs_source st) (w_db w)")
    case None
    then show ?thesis using assms rs by (auto simp: temporal_hash_polling_node_def review_error_def)
  next
    case (Some src)
    obtain run s1 where run: "create_run REVIEWER (Some (r_id r)) (w_db w) = (run, s1)"
      by (cases "create_run REVIEWER (Some (r_id r)) (w_db w)")
    note run' = create_run_status [OF run assms(4) [unfolded assms(5)]]
    obtain fetch_root where root: "rv_root sv (so_url src) = Inr fetch_root"
      using assms(1) rs Some run by (auto simp: temporal_hash_polling_node_def Let_def split: sum.splits)
    obtain res w1 where cap: "run_capture (fetch_root (so_id src) (so_url src)) (w\<lparr>w_db := s1\<rparr>) = (res, w1)"
      by fastforce
    note fr = run_capture_frame [OF cap, simplified]
    have q1: "quiet (w_db w) (w_db w1)" using fr run' by (simp add: quiet_def)
    have st1: "run_status_of (w_db w1) i = Some RUN_RUNNING"
      using fr run'(2) run_status_frame assms(5) by metis
    show ?thesis
    proof (cases res)
      case (Inl e)
      obtain us' s2 where f: "poll_failed sv run src e (w_db w1) = (us', s2)"
        by (cases "poll_failed sv run src e (w_db w1)")
      then have "us = us'" "w' = w1\<lparr>w_db := s2\<rparr>"
        using assms(1) rs Some run root cap Inl by (simp_all add: temporal_hash_polling_node_def Let_def)
      then show ?thesis
        using poll_failed_step [OF f] quiet_trans [OF q1] assms(2,3) by (auto simp: review_error_def)
    next
      case (Inr fresh)
      let ?prev = "map_option sn_content_hash (latest_snapshot (so_id src) None s1)"
      obtain s2 where c: "poll_compared sv run src ?prev fresh (w_db w1) = Inr (us, s2)" "w' = w1\<lparr>w_db := s2\<rparr>"
        using assms(1) rs Some run root cap Inr
        by (auto simp: temporal_hash_polling_node_def Let_def split: sum.splits)
      have i: "ar_id run = i" using run'(1) assms(5) by simp
      note p = poll_compared_step [OF c(1) i st1]
      then have us: "us = [V_agent_run_id i, V_source src,
          V_hashes ?prev (sn_content_hash fresh) (?prev \<noteq> Some (sn_content_hash fresh)) fresh]" by blast
      have "quiet (w_db w) (w_db w')" using p quiet_trans [OF q1] c(2) by simp
      then show ?thesis using p assms(2,3) rs c(2) unfolding us by simp
    qed
  qed
qed

text \<open>The three nodes between the poll and the review.\<close>

definition truthful_result :: "(loc \<Rightarrow> uuid) \<Rightarrow> json option \<Rightarrow> validation_result option \<Rightarrow> bool" where
  "truthful_result uu payload result \<longleftrightarrow>
     (case payload of
        None \<Rightarrow> True
      | Some j \<Rightarrow> (case result of None \<Rightarrow> False | Some v \<Rightarrow> (vr_is_valid v \<longrightarrow> is_valid (validate uu j))))"

definition truthful :: "reviewer_services \<Rightarrow> reviewer_state \<Rightarrow> bool" where
  "truthful sv st \<longleftrightarrow> truthful_result (rv_uuid4 sv) (vs_validated_json st) (vs_validation_result st)"

definition review_step_ok ::
  "reviewer_services \<Rightarrow> reviewer_state \<Rightarrow> db \<Rightarrow> review_update list \<Rightarrow> db \<Rightarrow> bool" where
  "review_step_ok sv st s us s' \<longleftrightarrow> quiet s s'
     \<and> vs_human_approval_status (review_merge us st) = vs_human_approval_status st
     \<and> vs_agent_run_id (review_merge us st) = vs_agent_run_id st
     \<and> vs_restaurant (review_merge us st) = vs_restaurant st
     \<and> vs_hash_changed (review_merge us st) = vs_hash_changed st
     \<and> (truthful sv st \<longrightarrow> truthful sv (review_merge us st))"

lemma review_step_error [simp]:
  "review_step_ok sv st s [review_error n m] s' = quiet s s'"
  by (auto simp: review_step_ok_def review_error_def truthful_def)

lemma reextract_step:
  assumes "reextract sv src r run_id snapshots w = Inr (us, w')"
  shows "review_step_ok sv st (w_db w) us (w_db w')"
proof (cases "read_text_materials (w_files w) snapshots")
  case (Inl e)
  then show ?thesis using assms by (simp add: reextract_def)
next
  case (Inr ms)
  show ?thesis
  proof (cases ms)
    case Nil
    then show ?thesis using assms Inr by (auto simp: reextract_def)
  next
    case (Cons m ms')
    show ?thesis
    proof (cases "run_chunked_extraction (rv_ai sv) system_prompt (build_user_content ms)")
      case (Inl e)
      then show ?thesis using assms Inr Cons by (cases e) (auto simp: reextract_def Let_def)
    next
      case result: (Inr result)
      then show ?thesis using assms Inr Cons
        by (auto simp: reextract_def Let_def review_step_ok_def truthful_def split: sum.splits option.splits)
    qed
  qed
qed

lemma reextraction_step:
  assumes "targeted_reextraction_node sv st w = Inr (us, w')"
  shows "review_step_ok sv st (w_db w) us (w_db w')"
proof (cases "vs_source st = None \<or> vs_restaurant st = None")
  case True
  then show ?thesis using assms by (auto simp: targeted_reextraction_node_def split: option.splits)
next
  case False
  then obtain src r where st: "vs_source st = Some src" "vs_restaurant st = Some r" by auto
  obtain pf where pf: "rv_fetcher sv (so_url src) = Inr pf"
    using assms st by (auto simp: targeted_reextraction_node_def split: sum.splits)
  obtain res w1 where cap: "run_capture (targeted_capture pf (rv_links_of sv) src) w = (res, w1)" by fastforce
  have q: "quiet (w_db w) (w_db w1)" using run_capture_frame [OF cap] by (simp add: quiet_def)
  show ?thesis
  proof (cases res)
    case (Inl e)
    then show ?thesis using assms st pf cap q by (auto simp: targeted_reextraction_node_def Let_def)
  next
    case (Inr sns)
    show ?thesis
    proof (cases sns)
      case Nil
      then show ?thesis using assms st pf cap q Inr by (auto simp: targeted_reextraction_node_def)
    next
      case (Cons sn sns')
      then have "reextract sv src r (vs_agent_run_id st) sns w1 = Inr (us, w')"
        using assms st pf cap Inr by (simp add: targeted_reextraction_node_def)
      from reextract_step [OF this, of st] show ?thesis
        using quiet_trans [OF q] by (simp add: review_step_ok_def)
    qed
  qed
qed

lemma delta_generation_step:
  assumes "json_delta_generation_node sv st s = Inr (us, s')"
  shows "review_step_ok sv st s us s'"
  using assms
  by (auto simp: json_delta_generation_node_def review_step_ok_def review_error_def truthful_def
      split: option.splits sum.splits)

lemma delta_validation_step:
  assumes "delta_validation_node sv st s = Inr (us, s')"
  shows "review_step_ok sv st s us s'"
proof (cases "vs_reextracted_json st")
  case None
  then show ?thesis using assms by (auto simp: delta_validation_node_def)
next
  case (Some j)
  let ?out = "validate (rv_uuid4 sv) j"
  let ?j = "case vo_corrected_restaurant ?out of None \<Rightarrow> j | Some c \<Rightarrow> dump_restaurant c"
  have v: "is_valid ?out \<Longrightarrow> is_valid (validate (rv_uuid4 sv) ?j)"
    using is_valid_corrected by (auto split: option.splits)
  obtain issues where us: "us = [V_validation_result \<lparr>vr_is_valid = is_valid ?out, vr_issues = issues\<rparr>, V_validated_json ?j]"
    using assms Some by (auto simp: delta_validation_node_def Let_def)
  have "quiet s s'"
    using assms Some by (cases "vs_agent_run_id st"; cases "is_valid ?out"; cases "vo_corrected_fields ?out = []")
      (auto simp: delta_validation_node_def Let_def)
  then show ?thesis using v unfolding us by (simp add: review_step_ok_def truthful_def truthful_result_def)
qed

lemma review_exec_between:
  assumes "review_exec sv n st resume w = Inr (out, w')" "n \<notin> {TEMPORAL_HASH_POLLING, HUMAN_FINAL_SYNC, SYNC_PUBLISH}"
  shows "\<exists>us. out = Returned us \<and> review_step_ok sv st (w_db w) us (w_db w')"
  using assms by (cases n)
    (auto simp: returned_db_def intro: reextraction_step delta_generation_step delta_validation_step split: sum.splits)

section \<open>Runs without a decision\<close>

definition undecided_review :: "reviewer_services \<Rightarrow> restaurant \<Rightarrow> uuid \<Rightarrow> db \<Rightarrow> review_result \<Rightarrow> bool" where
  "undecided_review sv r i s res \<longleftrightarrow>
     (case res of
        Review_raised e \<Rightarrow> True
      | Review_finished st' w' \<Rightarrow> quiet s (w_db w') \<and> vs_errors st' \<noteq> []
      | Review_interrupted task st' w' \<Rightarrow> production (w_db w') = production s \<and> truthful sv st'
          \<and> vs_human_approval_status st' = None \<and> vs_agent_run_id st' = Some i \<and> vs_restaurant st' = Some r
          \<and> vs_hash_changed st' = Some True
          \<and> (\<exists>s1. db_proposed_changes s1 = db_proposed_changes s
               \<and> human_final_sync_node st' None s1 = Inr (Paused task, w_db w')))"

lemma undecided_review_cong: "quiet s1 s2 \<Longrightarrow> undecided_review sv r i s2 res = undecided_review sv r i s1 res"
  by (simp add: undecided_review_def quiet_def split: review_result.splits)

lemma run_sync:
  assumes "truthful sv st" "vs_human_approval_status st = None" "vs_restaurant st = Some r"
    "vs_agent_run_id st = Some i" "vs_hash_changed st = Some True"
  shows "undecided_review sv r i (w_db w) (review_from sv HUMAN_FINAL_SYNC st None w)"
proof (cases "human_final_sync_node st None (w_db w)")
  case (Inl e)
  then show ?thesis by (subst review_from.simps) (simp add: undecided_review_def)
next
  case (Inr os)
  show ?thesis
  proof (cases "vs_validated_json st")
    case None
    then show ?thesis using assms
      by (subst review_from.simps)
        (simp add: human_final_sync_node_def undecided_review_def route_after_human_final_sync_def review_error_def Let_def)
  next
    case (Some j)
    then obtain t s' where hr: "human_final_sync_node st None (w_db w) = Inr (Paused t, s')"
      using Inr assms by (auto simp: human_final_sync_node_def interrupt_def Let_def split: sum.splits prod.splits)
    have "production s' = production (w_db w)" by (rule human_final_sync_pauses [OF hr])
    then show ?thesis using hr assms by (subst review_from.simps) (auto simp: undecided_review_def)
  qed
qed

lemma run_after_poll:
  assumes "n \<notin> {TEMPORAL_HASH_POLLING, SYNC_PUBLISH}" "truthful sv st" "vs_human_approval_status st = None"
    "vs_restaurant st = Some r" "vs_agent_run_id st = Some i" "vs_hash_changed st = Some True"
  shows "undecided_review sv r i (w_db w) (review_from sv n st None w)"
  using assms
proof (induction "review_rank n" arbitrary: n st w rule: less_induct)
  case less
  show ?case
  proof (cases "n = HUMAN_FINAL_SYNC")
    case True
    then show ?thesis using run_sync less.prems by blast
  next
    case False
    show ?thesis
    proof (cases "review_exec sv n st None w")
      case (Inl e)
      then show ?thesis by (subst review_from.simps) (simp add: undecided_review_def)
    next
      case (Inr ow)
      obtain out w' where ow: "review_exec sv n st None w = Inr (out, w')" using Inr by (cases ow) auto
      have n: "n \<notin> {TEMPORAL_HASH_POLLING, HUMAN_FINAL_SYNC, SYNC_PUBLISH}" using False less.prems(1) by blast
      obtain us where out: "out = Returned us" and ok: "review_step_ok sv st (w_db w) us (w_db w')"
        using review_exec_between [OF ow n] by blast
      note ok' = ok [unfolded review_step_ok_def]
      obtain m where rt: "review_route n (review_merge us st) = Some m" "m \<notin> {TEMPORAL_HASH_POLLING, SYNC_PUBLISH}"
        using n by (cases n) auto
      have "undecided_review sv r i (w_db w') (review_from sv m (review_merge us st) None w')"
        using less.hyps [OF review_route_rank [OF rt(1)] rt(2)] ok' less.prems by simp
      then show ?thesis
        using ow out rt ok' undecided_review_cong [of "w_db w" "w_db w'"]
        by (subst review_from.simps) (simp add: Let_def)
    qed
  qed
qed

section \<open>What a decision applies\<close>

definition decided_sync_payload :: "reviewer_state \<Rightarrow> decision \<Rightarrow> json option" where
  "decided_sync_payload st d =
     (case d of
        Decision (Some action) edited \<Rightarrow>
          if action = ''approve'' then vs_validated_json st
          else if action = ''edit_then_approve'' then (if edited = None then vs_validated_json st else edited)
          else None
      | _ \<Rightarrow> None)"

text \<open>The restaurant and the delta that may be applied, if any.\<close>

definition applicable :: "reviewer_services \<Rightarrow> json option \<Rightarrow> json_delta option \<Rightarrow> db \<Rightarrow> (restaurant \<times> json_delta) option" where
  "applicable sv payload delta s =
     (case (payload, delta) of
        (Some j, Some dl) \<Rightarrow>
          if \<not> is_valid (validate (rv_uuid4 sv) j) then None
          else
           (case v_restaurant (rv_uuid4 sv) [] j of
              Inl _ \<Rightarrow> None
            | Inr r \<Rightarrow> if row_by rr_id (r_id r) (db_restaurants s) = None then None else Some (r, dl))
      | _ \<Rightarrow> None)"

definition synced_result ::
  "reviewer_services \<Rightarrow> reviewer_state \<Rightarrow> decision \<Rightarrow> uuid \<Rightarrow> db \<Rightarrow> review_result \<Rightarrow> bool" where
  "synced_result sv st d change_id s res \<longleftrightarrow>
     (case applicable sv (decided_sync_payload st d) (vs_delta st) s of
        None \<Rightarrow> \<exists>st' w'. res = Review_finished st' w' \<and> production (w_db w') = production s
          \<and> db_proposed_changes (w_db w') = db_proposed_changes s
          \<and> vs_published_restaurant_id st' = vs_published_restaurant_id st
      | Some (r, delta) \<Rightarrow>
          (case apply_patch (r_id r) r delta s of
             Inl e \<Rightarrow> res = Review_raised e
           | Inr s1 \<Rightarrow> \<exists>st' w'. res = Review_finished st' w' \<and> production (w_db w') = production s1
               \<and> db_proposed_changes (w_db w') = update_by pc_id change_id (set_change_status PUBLISHED None) (db_proposed_changes s1)
               \<and> vs_published_restaurant_id st' = Some (r_id r) \<and> vs_errors st' = vs_errors st))"

lemma sync_publish_spec:
  assumes "vs_human_approval_status st = Some APPROVED" "vs_validated_json st = Some j"
    "vs_proposed_change_id st = Some change_id"
  shows "(case applicable sv (Some j) (vs_delta st) s of
            None \<Rightarrow> \<exists>msg. sync_publish_node sv st s = sync_publish_fail st msg s
          | Some (r, delta) \<Rightarrow> sync_publish_node sv st s = sync_publish_write st change_id r delta s)"
proof (cases "vs_delta st")
  case None
  then show ?thesis using assms by (auto simp: sync_publish_node_def applicable_def)
next
  case (Some dl)
  show ?thesis
  proof (cases "is_valid (validate (rv_uuid4 sv) j)")
    case True
    then obtain r where "v_restaurant (rv_uuid4 sv) [] j = Inr r" unfolding valid_iff by blast
    then show ?thesis using assms Some True by (auto simp: sync_publish_node_def applicable_def Let_def)
  next
    case False
    then show ?thesis using assms Some by (auto simp: sync_publish_node_def applicable_def Let_def)
  qed
qed

lemma sync_publish_fail_frame:
  "sync_publish_fail st msg s = Inr (us, s') \<Longrightarrow>
     production s' = production s \<and> db_proposed_changes s' = db_proposed_changes s
     \<and> vs_published_restaurant_id (review_merge us st2) = vs_published_restaurant_id st2"
  by (auto simp: sync_publish_fail_def review_error_def split: option.splits)

lemma sync_publish_write_Inr:
  assumes "sync_publish_write st change_id r delta s = Inr (us, s')"
  shows "\<exists>s1. apply_patch (r_id r) r delta s = Inr s1 \<and> production s' = production s1 \<and> us = [V_published_restaurant_id (r_id r)]
    \<and> db_proposed_changes s' = update_by pc_id change_id (set_change_status PUBLISHED None) (db_proposed_changes s1)"
  using assms
  by (auto simp: sync_publish_write_def Let_def split: sum.splits option.splits) (simp_all add: update_change_status_def)

lemma review_resume_steps:
  assumes "human_final_sync_node st None s0 = Inr (Paused t, w_db w)" "vs_human_approval_status st = None"
  shows "resume_review sv st d w =
    (let st' = review_merge (apply_sync_decision (rt_proposed_change_id t) d) st in
     if vs_human_approval_status st' = Some APPROVED
     then (case sync_publish_node sv st' (w_db w) of
             Inl e \<Rightarrow> Review_raised e
           | Inr (us, s') \<Rightarrow> Review_finished (review_merge us st') (w\<lparr>w_db := s'\<rparr>))
     else Review_finished st' w)"
proof -
  let ?st = "review_merge (apply_sync_decision (rt_proposed_change_id t) d) st"
  have "human_final_sync_node st (Some d) (w_db w)
      = Inr (Returned (apply_sync_decision (rt_proposed_change_id t) d), w_db w)"
    using final_sync.replay [OF assms(1), of "Some d"] by (simp add: interrupt_def)
  then have "resume_review sv st d w =
      (if vs_human_approval_status ?st = Some APPROVED then review_from sv SYNC_PUBLISH ?st None w else Review_finished ?st w)"
    by (subst resume_review_def, subst review_from.simps) (simp add: Let_def route_after_human_final_sync_def)
  moreover have "review_from sv SYNC_PUBLISH ?st None w =
      (case sync_publish_node sv ?st (w_db w) of
         Inl e \<Rightarrow> Review_raised e
       | Inr (us, s') \<Rightarrow> Review_finished (review_merge us ?st) (w\<lparr>w_db := s'\<rparr>))"
    by (subst review_from.simps) (simp add: returned_db_def split: sum.splits)
  ultimately show ?thesis by (simp add: Let_def)
qed

lemma sync_decided:
  assumes "vs_human_approval_status st = None" "vs_validated_json st \<noteq> None"
  shows "case decided_sync_payload st d of
      None \<Rightarrow> vs_human_approval_status (review_merge (apply_sync_decision i d) st) \<noteq> Some APPROVED
        \<and> vs_published_restaurant_id (review_merge (apply_sync_decision i d) st) = vs_published_restaurant_id st
    | Some j \<Rightarrow> review_merge (apply_sync_decision i d) st = st\<lparr>vs_proposed_change_id := Some i,
        vs_human_approval_status := Some APPROVED, vs_validated_json := Some j\<rparr>"
proof (cases d)
  case Unusable
  then show ?thesis using assms by (simp add: decided_sync_payload_def apply_sync_decision_def review_error_def)
next
  case (Decision action edited)
  have ne: "''edit_then_approve'' \<noteq> ''approve''" by simp
  consider "action = Some ''approve''" | "action = Some ''edit_then_approve''"
    | "action \<noteq> Some ''approve''" "action \<noteq> Some ''edit_then_approve''" by blast
  then show ?thesis
  proof cases
    case 1
    then show ?thesis using assms by (auto simp: decided_sync_payload_def apply_sync_decision_def Decision)
  next
    case 2
    then show ?thesis using assms ne
      by (cases edited) (auto simp: decided_sync_payload_def apply_sync_decision_def Decision)
  next
    case 3
    then have "decided_sync_payload st d = None" by (cases action) (auto simp: decided_sync_payload_def Decision)
    moreover have "apply_sync_decision i d = [V_proposed_change_id i, V_human_approval_status REJECTED_CHANGE]
        \<or> (\<exists>msg. apply_sync_decision i d = [review_error ''human_final_sync'' msg])"
      using 3 by (auto simp: apply_sync_decision_def Decision)
    ultimately show ?thesis using assms(1) by (auto simp: review_error_def)
  qed
qed

lemma resume_synced:
  assumes "human_final_sync_node st None s0 = Inr (Paused t, w_db w)" "vs_human_approval_status st = None"
  shows "synced_result sv st d (rt_proposed_change_id t) (w_db w) (resume_review sv st d w)"
proof -
  let ?i = "rt_proposed_change_id t"
  let ?st = "review_merge (apply_sync_decision ?i d) st"
  have "vs_validated_json st \<noteq> None" by (rule human_final_sync_pauses [OF assms(1)]) simp
  note dec = sync_decided [OF assms(2) this, of ?i d]
  note res = review_resume_steps [OF assms, of sv d]
  show ?thesis
  proof (cases "decided_sync_payload st d")
    case None
    then show ?thesis using dec res by (simp add: synced_result_def applicable_def Let_def)
  next
    case (Some j)
    note some_j = Some
    then have st: "?st = st\<lparr>vs_proposed_change_id := Some ?i, vs_human_approval_status := Some APPROVED,
        vs_validated_json := Some j\<rparr>"
      using dec by simp
    have pub: "case applicable sv (Some j) (vs_delta st) (w_db w) of
        None \<Rightarrow> \<exists>msg. sync_publish_node sv ?st (w_db w) = sync_publish_fail ?st msg (w_db w)
      | Some (r, delta) \<Rightarrow> sync_publish_node sv ?st (w_db w) = sync_publish_write ?st ?i r delta (w_db w)"
      using sync_publish_spec [of ?st j ?i sv "w_db w"] by (simp add: st)
    show ?thesis
    proof (cases "applicable sv (Some j) (vs_delta st) (w_db w)")
      case None
      then obtain msg us s' where p: "sync_publish_node sv ?st (w_db w) = sync_publish_fail ?st msg (w_db w)"
        "sync_publish_fail ?st msg (w_db w) = Inr (us, s')"
        using pub by (auto simp: sync_publish_fail_def)
      then show ?thesis
        using None some_j res sync_publish_fail_frame [OF p(2), of ?st] by (simp add: synced_result_def st Let_def)
    next
      case (Some rd)
      obtain r delta where rd: "rd = (r, delta)" by (cases rd)
      have p: "sync_publish_node sv ?st (w_db w) = sync_publish_write ?st ?i r delta (w_db w)"
        using pub Some rd by simp
      show ?thesis
      proof (cases "sync_publish_write ?st ?i r delta (w_db w)")
        case (Inl e)
        then show ?thesis
          using p Some rd some_j res
          by (auto simp: synced_result_def st Let_def sync_publish_write_def split: sum.splits)
      next
        case (Inr us')
        then obtain us s' where w: "sync_publish_write ?st ?i r delta (w_db w) = Inr (us, s')" by (cases us') auto
        from sync_publish_write_Inr [OF w] show ?thesis
          using p Some rd some_j res w by (auto simp: synced_result_def st Let_def)
      qed
    qed
  qed
qed

section \<open>Starting a review\<close>

text \<open>The change a pausing review leaves in the queue.\<close>

lemma undecided_review_change:
  assumes u: "undecided_review sv rr i s (Review_interrupted task st' w')" and "changes_of_thread i s = []"
  shows "\<exists>c. db_proposed_changes (w_db w') = db_proposed_changes s @ [c]
    \<and> pc_id c = rt_proposed_change_id task \<and> pc_status c = PC_PENDING \<and> pc_thread_id c = Some i \<and> pc_entity_id c = r_id rr
    \<and> (rt_is_valid task \<noteq> Some True \<or> is_valid (validate (rv_uuid4 sv) (pc_structured_json c)))"
proof -
  note u' = u [unfolded undecided_review_def, simplified]
  then obtain s1 where s1: "db_proposed_changes s1 = db_proposed_changes s"
    "human_final_sync_node st' None s1 = Inr (Paused task, w_db w')" by blast
  obtain j r i' c where h: "vs_validated_json st' = Some j" "vs_restaurant st' = Some r" "vs_agent_run_id st' = Some i'"
    "changes_of_thread i' (w_db w') = [c]" "task = sync_task_for c r (vs_validation_result st') (vs_delta st')"
    "changes_of_thread i' s1 = [c] \<and> w_db w' = s1
      \<or> changes_of_thread i' s1 = [] \<and> pc_structured_json c = j \<and> pc_status c = PC_PENDING
        \<and> pc_entity_id c = r_id r \<and> db_proposed_changes (w_db w') = db_proposed_changes s1 @ [c]"
    by (rule human_final_sync_pauses [OF s1(2)])
  have i: "i' = i" "r = rr" using u' h(2,3) by simp_all
  have "changes_of_thread i' s1 = []" using i s1(1) assms(2) by (simp add: changes_of_thread_def)
  then have c: "db_proposed_changes (w_db w') = db_proposed_changes s @ [c]" "pc_status c = PC_PENDING"
    "pc_entity_id c = r_id rr" "pc_structured_json c = j"
    using h(6) s1(1) i by auto
  have "c \<in> set (changes_of_thread i (w_db w'))" using h(4) i by simp
  then have th: "pc_thread_id c = Some i" by (simp add: changes_of_thread_def)
  have v: "rt_is_valid task \<noteq> Some True \<or> is_valid (validate (rv_uuid4 sv) j)"
    using u' h(1,5) by (auto simp: truthful_def truthful_result_def sync_task_for_def split: option.splits)
  have "pc_id c = rt_proposed_change_id task" using h(5) by (simp add: sync_task_for_def)
  then show ?thesis using c th v by auto
qed

text \<open>A review raises while polling, ends after polling, or goes on behind a changed hash.\<close>

lemma review_starts:
  assumes "get_run (w_db w) (db_next (w_db w)) = None"
  obtains (raised) e where "start_review sv r src w = Review_raised e"
  | (ended) st1 w1 where "start_review sv r src w = Review_finished st1 w1" "quiet (w_db w) (w_db w1)"
      "vs_errors st1 \<noteq> []
        \<or> vs_hash_changed st1 = Some False \<and> vs_previous_content_hash st1 = vs_current_content_hash st1
          \<and> vs_current_content_hash st1 \<noteq> None \<and> run_status_of (w_db w1) (db_next (w_db w)) = Some RUN_SUCCEEDED"
  | (changed) rr and w1 :: world and res where "start_review sv r src w = res" "r = Some rr" "quiet (w_db w) (w_db w1)"
      "undecided_review sv rr (db_next (w_db w)) (w_db w1) res"
proof (cases "temporal_hash_polling_node sv (initial_review r src) w")
  case (Inl e)
  then show ?thesis using raised by (simp add: start_review_def review_from.simps [of sv TEMPORAL_HASH_POLLING])
next
  case (Inr uw)
  let ?st = "initial_review r src"
  have init: "vs_errors ?st = []" "vs_hash_changed ?st = None" "vs_human_approval_status ?st = None"
    "vs_validated_json ?st = None" "vs_restaurant ?st = r"
    by (simp_all add: initial_review_def)
  obtain us w1 where us: "temporal_hash_polling_node sv ?st w = Inr (us, w1)" using Inr by (cases uw) auto
  let ?st1 = "review_merge us ?st"
  note poll = polling_step [OF us init(1,2) assms refl]
  have run: "start_review sv r src w =
      (if vs_hash_changed ?st1 = Some True then review_from sv TARGETED_REEXTRACTION ?st1 None w1 else Review_finished ?st1 w1)"
    by (subst start_review_def, subst review_from.simps) (simp add: us Let_def route_after_hash_polling_def)
  show ?thesis
  proof (cases "vs_hash_changed ?st1 = Some True")
    case False
    show ?thesis by (rule ended [of ?st1 w1]) (use run False poll in auto)
  next
    case True
    then obtain rr where st1: "vs_restaurant ?st1 = Some rr" "r = Some rr" "vs_agent_run_id ?st1 = Some (db_next (w_db w))"
      using poll init(5) by auto
    have tr: "truthful sv ?st1" using poll init(4) by (simp add: truthful_def truthful_result_def)
    have "undecided_review sv rr (db_next (w_db w)) (w_db w1) (review_from sv TARGETED_REEXTRACTION ?st1 None w1)"
      by (rule run_after_poll) (use tr st1 True poll init(3) in simp_all)
    then show ?thesis using changed [of "review_from sv TARGETED_REEXTRACTION ?st1 None w1" rr w1] run True poll st1(2) by simp
  qed
qed

section \<open>Properties of runs\<close>

text \<open>C7: A review publishes nothing by itself, and stops at an unchanged source. Start a review on any
  restaurant, web, AI and database (whose next identifier is new): if it ends without a decision then
  production and the review queue are as before, and either it ended with errors, or the hash of the
  page just polled is the last one recorded and the run is recorded as succeeded; if it pauses then the
  hash did change, production is untouched, and exactly one change was added to the queue, pending and
  for this run, whose payload is valid whenever the reviewer is told so.\<close>

theorem undecided_reviews_publish_nothing:
  assumes "get_run (w_db w) (db_next (w_db w)) = None" "changes_of_thread (db_next (w_db w)) (w_db w) = []"
  shows "case start_review sv r src w of
      Review_raised e \<Rightarrow> True
    | Review_finished st' w' \<Rightarrow> production (w_db w') = production (w_db w)
        \<and> db_proposed_changes (w_db w') = db_proposed_changes (w_db w)
        \<and> (vs_errors st' \<noteq> []
           \<or> vs_hash_changed st' = Some False \<and> vs_previous_content_hash st' = vs_current_content_hash st'
             \<and> vs_current_content_hash st' \<noteq> None \<and> run_status_of (w_db w') (db_next (w_db w)) = Some RUN_SUCCEEDED)
    | Review_interrupted task st' w' \<Rightarrow> production (w_db w') = production (w_db w)
        \<and> vs_hash_changed st' = Some True
        \<and> (\<exists>c. db_proposed_changes (w_db w') = db_proposed_changes (w_db w) @ [c]
             \<and> pc_id c = rt_proposed_change_id task \<and> pc_status c = PC_PENDING
             \<and> pc_thread_id c = Some (db_next (w_db w)) \<and> map_option r_id r = Some (pc_entity_id c)
             \<and> (rt_is_valid task \<noteq> Some True \<or> is_valid (validate (rv_uuid4 sv) (pc_structured_json c))))"
proof (cases rule: review_starts [OF assms(1), of sv r src, case_names raised ended changed])
  case (changed rr w1 res)
  then have frame: "changes_of_thread (db_next (w_db w)) (w_db w1) = []" "db_proposed_changes (w_db w1) = db_proposed_changes (w_db w)"
    using assms(2) by (simp_all add: changes_of_thread_def quiet_def)
  show ?thesis
  proof (cases res)
    case (Review_interrupted task st' w')
    show ?thesis
      using undecided_review_change [OF changed(4) [unfolded Review_interrupted] frame(1)] changed frame(2) Review_interrupted
      by (auto simp: undecided_review_def quiet_def)
  qed (use changed in \<open>auto simp: undecided_review_def quiet_def\<close>)
qed (simp_all add: quiet_def)


section \<open>A review\<close>

text \<open>The sample restaurant in production with its website, a page that was never polled before, and an
  extraction that finds what is known (nothing to report).\<close>

definition sample_reviewer :: reviewer_services where
  "sample_reviewer =
     \<lparr>rv_root = crawler_root_fetcher sample_network (\<lambda>_. ''ab'') [''data''],
      rv_fetcher = crawler_page_fetcher sample_network sample_browser (\<lambda>_. ''ab'') [''data''],
      rv_links_of = (\<lambda>_. []), rv_ai = soup_ai, rv_deep_diff = (\<lambda>_ _. []), rv_uuid4 = (\<lambda>_. 0),
      rv_fetch_ms = 12\<rparr>"

definition sample_review_world :: world where
  "sample_review_world =
     \<lparr>w_db = sample_production\<lparr>db_sources := [sample_source\<lparr>so_restaurant_id := 0\<rparr>]\<rparr>, w_files = Map.empty\<rparr>"

definition sample_review :: review_result where
  "sample_review = start_review sample_reviewer (Some sample_restaurant) None sample_review_world"

abbreviation approve :: decision where
  "approve \<equiv> Decision (Some ''approve'') None"

lemma sample_review_pauses:
  "case sample_review of Review_interrupted t st w \<Rightarrow>
     vs_human_approval_status st = None \<and>
     (case applicable sample_reviewer (decided_sync_payload st approve) (vs_delta st) (w_db w) of
        Some (r, delta) \<Rightarrow> r_id r = 0 \<and> (case apply_patch 0 r delta (w_db w) of Inl e \<Rightarrow> False | Inr s \<Rightarrow> True)
      | None \<Rightarrow> False)
   | _ \<Rightarrow> False"
  by code_simp

lemma sample_review_fresh:
  "get_run (w_db sample_review_world) (db_next (w_db sample_review_world)) = None"
  "changes_of_thread (db_next (w_db sample_review_world)) (w_db sample_review_world) = []"
  by (code_simp, code_simp)

theorem undecided_reviews_publish_nothing_witness:
  "\<exists>t st w. sample_review = Review_interrupted t st w \<and> vs_hash_changed st = Some True
     \<and> production (w_db w) = production (w_db sample_review_world)"
proof -
  obtain t st w where s: "sample_review = Review_interrupted t st w"
    using sample_review_pauses by (auto split: review_result.splits)
  have "vs_hash_changed st = Some True \<and> production (w_db w) = production (w_db sample_review_world)"
    using undecided_reviews_publish_nothing [OF sample_review_fresh, of "Some sample_restaurant" sample_reviewer None]
    unfolding sample_review_def [symmetric] s by simp
  then show ?thesis using s by blast
qed

lemma sample_review_paused:
  obtains t st w s0 r delta s1 where "sample_review = Review_interrupted t st w"
    "human_final_sync_node st None s0 = Inr (Paused t, w_db w)" "vs_human_approval_status st = None"
    "applicable sample_reviewer (decided_sync_payload st approve) (vs_delta st) (w_db w) = Some (r, delta)"
    "r_id r = 0" "apply_patch 0 r delta (w_db w) = Inr s1"
proof -
  obtain t st w where s: "sample_review = Review_interrupted t st w"
    using sample_review_pauses by (auto split: review_result.splits)
  obtain r delta where r0: "vs_human_approval_status st = None"
    "applicable sample_reviewer (decided_sync_payload st approve) (vs_delta st) (w_db w) = Some (r, delta)"
    "r_id r = 0" "case apply_patch 0 r delta (w_db w) of Inl e \<Rightarrow> False | Inr s \<Rightarrow> True"
    using sample_review_pauses unfolding s by (auto split: option.splits)
  obtain s1 where s1: "apply_patch 0 r delta (w_db w) = Inr s1"
    using r0(4) by (cases "apply_patch 0 r delta (w_db w)") simp_all
  note r = r0(1-3) s1
  obtain us w1 where p: "temporal_hash_polling_node sample_reviewer (initial_review (Some sample_restaurant) None)
      sample_review_world = Inr (us, w1)"
    using s unfolding sample_review_def start_review_def
    by (subst (asm) review_from.simps) (auto split: sum.splits)
  let ?st1 = "review_merge us (initial_review (Some sample_restaurant) None)"
  note poll = polling_step [OF p _ _ sample_review_fresh(1) refl]
  have branch: "sample_review = (if vs_hash_changed ?st1 = Some True
      then review_from sample_reviewer TARGETED_REEXTRACTION ?st1 None w1 else Review_finished ?st1 w1)"
    unfolding sample_review_def start_review_def
    by (subst review_from.simps) (simp add: p Let_def route_after_hash_polling_def)
  have c: "vs_hash_changed ?st1 = Some True"
  proof (rule ccontr)
    assume "vs_hash_changed ?st1 \<noteq> Some True"
    then show False using branch unfolding s by simp
  qed
  have c2: "sample_review = review_from sample_reviewer TARGETED_REEXTRACTION ?st1 None w1" using branch c by simp
  have "undecided_review sample_reviewer sample_restaurant (db_next (w_db sample_review_world)) (w_db w1) sample_review"
    unfolding c2 by (rule run_after_poll)
      (use poll c in \<open>simp_all add: initial_review_def truthful_def truthful_result_def\<close>)
  then obtain s0 where "human_final_sync_node st None s0 = Inr (Paused t, w_db w)"
    unfolding s undecided_review_def by auto
  then show thesis using that s r by blast
qed


section \<open>What an approval may lose\<close>

text \<open>An approved delta that only names things above the dishes is marked as published while the
  production tables stay as they are.\<close>

lemma approved_menu_change_is_lost:
  assumes "human_final_sync_node st None s0 = Inr (Paused t, w_db w)" "vs_human_approval_status st = None"
    and "applicable sv (decided_sync_payload st d) (vs_delta st) (w_db w) = Some (r, delta)"
    and "\<forall>f \<in> set delta. dish_key (fd_path f) = None \<and> top_level (fd_path f) \<notin> set restaurant_scalar_fields"
    and "list_all restaurant_fits (db_restaurants (w_db w))"
  shows "\<exists>st' w'. resume_review sv st d w = Review_finished st' w' \<and> production (w_db w') = production (w_db w)
    \<and> vs_published_restaurant_id st' = Some (r_id r)"
  using resume_synced [OF assms(1,2), of sv d] assms(3) unresolved_changes_are_dropped [OF assms(4,5)]
  by (auto simp: synced_result_def)

end
