(* ===== verification/Auth.thy ===== *)
theory Auth
  imports Settings
begin

text \<open>
  Authentication and authorization: roles and permissions (\<open>src/core/schemas/auth.py\<close>), the users
  and refresh-token tables with their repositories, password and token handling
  (\<open>src/apps/api/app/core/security.py\<close>), \<open>AuthService\<close>, the route guards
  (\<open>dependencies/auth.py\<close>), the fixed-window rate limiter (\<open>core/rate_limit.py\<close>) and the routes
  of \<open>routers/v1/auth\<close>. bcrypt, SHA-256, \<open>secrets\<close> and PyJWT are parameters, the fields of
  \<open>auth_services\<close>; a random draw is indexed by the fresh-identifier supply of the database. A route
  returns what it answers and the database after its commit; a route that raises before its commit
  leaves the database as it was. Strings are ASCII, so their bytes are their characters.
\<close>

section \<open>Roles and permissions\<close>

datatype permission =
    RESTAURANT_READ | RESTAURANT_WRITE | RESTAURANT_DELETE_PERM
  | REVIEW_READ | REVIEW_WRITE
  | INGESTION_TRIGGER | INGESTION_READ
  | AGENT_RUN_READ | AGENT_RUN_TRIGGER_PERM
  | USER_READ | USER_WRITE
  | AUDIT_LOG_READ
  | SETTINGS_READ | SETTINGS_WRITE

definition all_permissions :: "permission list" where
  "all_permissions =
     [RESTAURANT_READ, RESTAURANT_WRITE, RESTAURANT_DELETE_PERM, REVIEW_READ, REVIEW_WRITE, INGESTION_TRIGGER,
      INGESTION_READ, AGENT_RUN_READ, AGENT_RUN_TRIGGER_PERM, USER_READ, USER_WRITE, AUDIT_LOG_READ,
      SETTINGS_READ, SETTINGS_WRITE]"

fun permissions_for_role :: "role \<Rightarrow> permission list" where
  "permissions_for_role SUPER_ADMIN = all_permissions"
| "permissions_for_role DATA_MANAGER =
     [RESTAURANT_READ, RESTAURANT_WRITE, RESTAURANT_DELETE_PERM, REVIEW_READ, REVIEW_WRITE, INGESTION_TRIGGER,
      INGESTION_READ, AGENT_RUN_READ, AGENT_RUN_TRIGGER_PERM, AUDIT_LOG_READ, SETTINGS_READ]"
| "permissions_for_role REVIEWER_ROLE =
     [RESTAURANT_READ, REVIEW_READ, REVIEW_WRITE, INGESTION_READ, AGENT_RUN_READ]"
| "permissions_for_role VIEWER =
     [RESTAURANT_READ, REVIEW_READ, INGESTION_READ, AGENT_RUN_READ, AUDIT_LOG_READ]"

fun role_value :: "role \<Rightarrow> string" where
  "role_value SUPER_ADMIN = ''SUPER_ADMIN''"
| "role_value DATA_MANAGER = ''DATA_MANAGER''"
| "role_value REVIEWER_ROLE = ''REVIEWER''"
| "role_value VIEWER = ''VIEWER''"

lemma super_admin_everything: "p \<in> set (permissions_for_role SUPER_ADMIN)"
  by (cases p) (simp_all add: all_permissions_def)

lemma user_management_super_admin_only:
  "USER_READ \<in> set (permissions_for_role r) \<or> USER_WRITE \<in> set (permissions_for_role r)
     \<or> SETTINGS_WRITE \<in> set (permissions_for_role r) \<longleftrightarrow> r = SUPER_ADMIN"
  by (cases r) (simp_all add: all_permissions_def)

lemma reviewers:
  "REVIEW_WRITE \<in> set (permissions_for_role r) \<longleftrightarrow> r \<in> {SUPER_ADMIN, DATA_MANAGER, REVIEWER_ROLE}"
  by (cases r) (simp_all add: all_permissions_def)

lemma ingesters:
  "INGESTION_TRIGGER \<in> set (permissions_for_role r) \<longleftrightarrow> r \<in> {SUPER_ADMIN, DATA_MANAGER}"
  by (cases r) (simp_all add: all_permissions_def)

section \<open>Third-party services\<close>

type_synonym payload = "(string \<times> json) list"

datatype jwt_error = ExpiredSignatureError | InvalidTokenError

record auth_services =
  as_checkpw :: "string \<Rightarrow> string \<Rightarrow> exn + bool"
  as_hashpw :: "string \<Rightarrow> string \<Rightarrow> string"
  as_sha256 :: "string \<Rightarrow> string"
  as_urlsafe :: "nat \<Rightarrow> nat \<Rightarrow> string"
  as_jwt_encode :: "payload \<Rightarrow> string \<Rightarrow> string \<Rightarrow> string"
  as_jwt_decode :: "timestamp \<Rightarrow> string \<Rightarrow> string \<Rightarrow> string \<Rightarrow> jwt_error + payload"

section \<open>Passwords and tokens\<close>

definition max_password_bytes :: nat where
  "max_password_bytes = 72"

definition hash_password :: "auth_services \<Rightarrow> string \<Rightarrow> string \<Rightarrow> exn + string" where
  "hash_password sv salt plain_password =
     (if max_password_bytes < length plain_password
      then Inl (OtherError [Txt ''Password must be at most '', Num max_password_bytes, Txt '' bytes''])
      else Inr (as_hashpw sv plain_password salt))"

definition verify_password :: "auth_services \<Rightarrow> string \<Rightarrow> string \<Rightarrow> exn + bool" where
  "verify_password sv plain_password hashed_password =
     (if max_password_bytes < length plain_password then Inr False
      else as_checkpw sv plain_password hashed_password)"

definition hash_token :: "auth_services \<Rightarrow> string \<Rightarrow> string" where
  "hash_token sv raw_token = as_sha256 sv raw_token"

datatype token_type = ACCESS_TOKEN | REFRESH_TOKEN

text \<open>The clock counts seconds.\<close>

definition token_expiry :: "token_type \<Rightarrow> settings \<Rightarrow> nat" where
  "token_expiry tt st =
     (case tt of
        ACCESS_TOKEN \<Rightarrow> se_jwt_access_token_expire_minutes st * 60
      | REFRESH_TOKEN \<Rightarrow> se_jwt_refresh_token_expire_minutes st * 60)"

definition access_payload :: "auth_services \<Rightarrow> settings \<Rightarrow> string \<Rightarrow> string \<Rightarrow> db \<Rightarrow> payload" where
  "access_payload sv st subject role s =
     [(''sub'', JStr subject), (''type'', JStr ''access''), (''role'', JStr role),
      (''jti'', JStr (as_urlsafe sv 16 (db_next s))), (''iat'', JTime (db_now s)),
      (''exp'', JTime (db_now s + token_expiry ACCESS_TOKEN st))]"

definition create_access_token :: "auth_services \<Rightarrow> settings \<Rightarrow> string \<Rightarrow> string \<Rightarrow> db \<Rightarrow> string \<times> db" where
  "create_access_token sv st subject role s =
     (as_jwt_encode sv (access_payload sv st subject role s) (se_api_secret_key st) (se_jwt_algorithm st),
      s\<lparr>db_next := Suc (db_next s)\<rparr>)"

definition refresh_payload :: "auth_services \<Rightarrow> settings \<Rightarrow> string \<Rightarrow> db \<Rightarrow> payload" where
  "refresh_payload sv st subject s =
     [(''sub'', JStr subject), (''type'', JStr ''refresh''), (''jti'', JStr (as_urlsafe sv 32 (db_next s))),
      (''iat'', JTime (db_now s)), (''exp'', JTime (db_now s + token_expiry REFRESH_TOKEN st))]"

definition create_refresh_token ::
  "auth_services \<Rightarrow> settings \<Rightarrow> string \<Rightarrow> db \<Rightarrow> (string \<times> string \<times> timestamp) \<times> db" where
  "create_refresh_token sv st subject s =
     (let raw_token = as_jwt_encode sv (refresh_payload sv st subject s) (se_api_secret_key st) (se_jwt_algorithm st)
      in ((raw_token, hash_token sv raw_token, db_now s + token_expiry REFRESH_TOKEN st),
          s\<lparr>db_next := Suc (db_next s)\<rparr>))"

definition decode_token :: "auth_services \<Rightarrow> settings \<Rightarrow> db \<Rightarrow> string \<Rightarrow> jwt_error + payload" where
  "decode_token sv st s token =
     as_jwt_decode sv (db_now s) token (se_api_secret_key st) (se_jwt_algorithm st)"

section \<open>Users and refresh tokens\<close>

definition get_user :: "db \<Rightarrow> uuid \<Rightarrow> user option" where
  "get_user s i = row_by us_id i (db_users s)"

definition get_user_by_email :: "db \<Rightarrow> string \<Rightarrow> exn + user option" where
  "get_user_by_email s email = scalar_one_or_none (filter (\<lambda>u. us_email u = py_lower email) (db_users s))"

definition create_user :: "user \<Rightarrow> db \<Rightarrow> exn + db" where
  "create_user u s =
     (if us_id u \<in> us_id ` set (db_users s) \<or> us_email u \<in> us_email ` set (db_users s) then Inl IntegrityError
      else if 320 < length (us_email u) \<or> 255 < length (us_hashed_password u) \<or> 255 < length (us_full_name u)
      then Inl DataError
      else Inr (s\<lparr>db_users := db_users s @ [u]\<rparr>))"

definition create_refresh_row :: "uuid \<Rightarrow> string \<Rightarrow> timestamp \<Rightarrow> db \<Rightarrow> exn + db" where
  "create_refresh_row user_id token_hash expires_at s =
     (if token_hash \<in> tk_token_hash ` set (db_refresh_tokens s) \<or> user_id \<notin> us_id ` set (db_users s)
      then Inl IntegrityError
      else if 64 < length token_hash then Inl DataError
      else Inr (s\<lparr>db_next := Suc (db_next s),
             db_refresh_tokens := db_refresh_tokens s @
               [\<lparr>tk_id = db_next s, tk_user_id = user_id, tk_token_hash = token_hash, tk_revoked = False,
                 tk_created_at = db_now s, tk_expires_at = expires_at\<rparr>]\<rparr>))"

definition tokens_of_hash :: "string \<Rightarrow> db \<Rightarrow> refresh_token list" where
  "tokens_of_hash h s = filter (\<lambda>r. tk_token_hash r = h) (db_refresh_tokens s)"

definition get_refresh_by_hash :: "db \<Rightarrow> string \<Rightarrow> exn + refresh_token option" where
  "get_refresh_by_hash s h = scalar_one_or_none (tokens_of_hash h s)"

definition revoke :: "string \<Rightarrow> db \<Rightarrow> db" where
  "revoke h s =
     s\<lparr>db_refresh_tokens :=
         map (\<lambda>r. if tk_token_hash r = h then r\<lparr>tk_revoked := True\<rparr> else r) (db_refresh_tokens s)\<rparr>"

definition revoke_all_for_user :: "uuid \<Rightarrow> db \<Rightarrow> db" where
  "revoke_all_for_user i s =
     s\<lparr>db_refresh_tokens :=
         map (\<lambda>r. if tk_user_id r = i \<and> \<not> tk_revoked r then r\<lparr>tk_revoked := True\<rparr> else r) (db_refresh_tokens s)\<rparr>"

text \<open>\<open>src/database/seed.py\<close>: the first account, once.\<close>

definition seed_super_admin :: "auth_services \<Rightarrow> string \<Rightarrow> string \<Rightarrow> string \<Rightarrow> db \<Rightarrow> exn + db" where
  "seed_super_admin sv salt email password s =
     (case get_user_by_email s email of
        Inl e \<Rightarrow> Inl e
      | Inr (Some _) \<Rightarrow> Inr s
      | Inr None \<Rightarrow>
          (case hash_password sv salt password of
             Inl e \<Rightarrow> Inl e
           | Inr h \<Rightarrow>
               create_user \<lparr>us_id = db_next s, us_email = py_lower email, us_hashed_password = h,
                 us_full_name = ''Super Admin'', us_role = SUPER_ADMIN, us_is_active = True,
                 us_created_at = db_now s\<rparr> (s\<lparr>db_next := Suc (db_next s)\<rparr>)))"

section \<open>The authentication service\<close>

record token_pair =
  tp_access_token :: string
  tp_refresh_token :: string
  tp_user :: user

definition dummy_hash :: string where
  "dummy_hash = ''$2b$12$CwTycUXWue0Thq9StjUM0uJ8i7C.QoJ.9E.4mIYW8O7bH8YQb1x.G''"

definition unauthorized :: "string \<Rightarrow> failure" where
  "unauthorized msg = App (UnauthorizedError [Txt msg])"

definition authenticate :: "auth_services \<Rightarrow> string \<Rightarrow> string \<Rightarrow> db \<Rightarrow> failure + user" where
  "authenticate sv email password s =
     (case get_user_by_email s email of
        Inl e \<Rightarrow> Inl (Uncaught e)
      | Inr None \<Rightarrow>
          (case verify_password sv password dummy_hash of
             Inl e \<Rightarrow> Inl (Uncaught e)
           | Inr _ \<Rightarrow> Inl (unauthorized ''Incorrect email or password''))
      | Inr (Some u) \<Rightarrow>
          (case verify_password sv password (us_hashed_password u) of
             Inl e \<Rightarrow> Inl (Uncaught e)
           | Inr False \<Rightarrow> Inl (unauthorized ''Incorrect email or password'')
           | Inr True \<Rightarrow>
               if \<not> us_is_active u then Inl (unauthorized ''This account has been deactivated'') else Inr u))"

definition issue_tokens :: "auth_services \<Rightarrow> settings \<Rightarrow> user \<Rightarrow> db \<Rightarrow> failure + token_pair \<times> db" where
  "issue_tokens sv st u s =
     (let (access_token, s1) = create_access_token sv st (uuid_str (us_id u)) (role_value (us_role u)) s;
          ((raw_refresh, refresh_hash, expires_at), s2) = create_refresh_token sv st (uuid_str (us_id u)) s1
      in case create_refresh_row (us_id u) refresh_hash expires_at s2 of
           Inl e \<Rightarrow> Inl (Uncaught e)
         | Inr s3 \<Rightarrow>
             Inr (\<lparr>tp_access_token = access_token, tp_refresh_token = raw_refresh, tp_user = u\<rparr>, s3))"

definition refresh :: "auth_services \<Rightarrow> settings \<Rightarrow> string \<Rightarrow> db \<Rightarrow> failure + token_pair \<times> db" where
  "refresh sv st raw_refresh_token s =
     (case decode_token sv st s raw_refresh_token of
        Inl _ \<Rightarrow> Inl (unauthorized ''Invalid refresh token'')
      | Inr payload \<Rightarrow>
          if map_of payload ''type'' \<noteq> Some (JStr ''refresh'') then Inl (unauthorized ''Refresh token required'')
          else
            (let h = hash_token sv raw_refresh_token in
             case get_refresh_by_hash s h of
               Inl e \<Rightarrow> Inl (Uncaught e)
             | Inr None \<Rightarrow> Inl (unauthorized ''Refresh token has been revoked'')
             | Inr (Some r) \<Rightarrow>
                 if tk_revoked r then Inl (unauthorized ''Refresh token has been revoked'')
                 else if tk_expires_at r < db_now s then Inl (unauthorized ''Refresh token has expired'')
                 else
                   (case get_user s (tk_user_id r) of
                      None \<Rightarrow> Inl (unauthorized ''Account is no longer active'')
                    | Some u \<Rightarrow>
                        if \<not> us_is_active u then Inl (unauthorized ''Account is no longer active'')
                        else issue_tokens sv st u (revoke h s))))"

definition logout_service :: "auth_services \<Rightarrow> string \<Rightarrow> db \<Rightarrow> failure + user option \<times> db" where
  "logout_service sv raw_refresh_token s =
     (let h = hash_token sv raw_refresh_token in
      case get_refresh_by_hash s h of
        Inl e \<Rightarrow> Inl (Uncaught e)
      | Inr None \<Rightarrow> Inr (None, revoke h s)
      | Inr (Some r) \<Rightarrow> Inr (get_user (revoke h s) (tk_user_id r), revoke h s))"

definition logout_all_sessions :: "uuid \<Rightarrow> db \<Rightarrow> db" where
  "logout_all_sessions i s = revoke_all_for_user i s"

section \<open>Route guards\<close>

definition get_current_user ::
  "auth_services \<Rightarrow> settings \<Rightarrow> string option \<Rightarrow> db \<Rightarrow> failure + user" where
  "get_current_user sv st credentials s =
     (case credentials of
        None \<Rightarrow> Inl (unauthorized ''Missing bearer token'')
      | Some token \<Rightarrow>
          (case decode_token sv st s token of
             Inl ExpiredSignatureError \<Rightarrow> Inl (unauthorized ''Token has expired'')
           | Inl InvalidTokenError \<Rightarrow> Inl (unauthorized ''Invalid token'')
           | Inr payload \<Rightarrow>
               if map_of payload ''type'' \<noteq> Some (JStr ''access'') then Inl (unauthorized ''Access token required'')
               else
                 (case map_of payload ''sub'' of
                    None \<Rightarrow> Inl (unauthorized ''Invalid token subject'')
                  | Some (JStr sub) \<Rightarrow>
                      (case parse_uuid sub of
                         None \<Rightarrow> Inl (unauthorized ''Invalid token subject'')
                       | Some i \<Rightarrow>
                           (case get_user s i of
                              None \<Rightarrow> Inl (unauthorized ''Account is no longer active'')
                            | Some u \<Rightarrow>
                                if \<not> us_is_active u then Inl (unauthorized ''Account is no longer active'')
                                else Inr u))
                  | Some _ \<Rightarrow> Inl (Uncaught (OtherError [Txt ''AttributeError'']))))) "

definition forbidden :: failure where
  "forbidden = App (ForbiddenError [Txt ''You do not have permission to perform this action''])"

definition require_role :: "role list \<Rightarrow> user \<Rightarrow> failure + user" where
  "require_role allowed_roles u = (if us_role u \<notin> set allowed_roles then Inl forbidden else Inr u)"

definition require_permission :: "permission \<Rightarrow> user \<Rightarrow> failure + user" where
  "require_permission p u = (if p \<notin> set (permissions_for_role (us_role u)) then Inl forbidden else Inr u)"

text \<open>A guarded route first resolves the caller, then checks the permission.\<close>

definition authorize ::
  "auth_services \<Rightarrow> settings \<Rightarrow> permission \<Rightarrow> string option \<Rightarrow> db \<Rightarrow> failure + user" where
  "authorize sv st p credentials s =
     (case get_current_user sv st credentials s of Inl f \<Rightarrow> Inl f | Inr u \<Rightarrow> require_permission p u)"

section \<open>Routes\<close>

definition actor_of :: "user \<Rightarrow> (uuid \<times> string) option" where
  "actor_of u = Some (us_id u, us_email u)"

definition login_route ::
  "auth_services \<Rightarrow> settings \<Rightarrow> string \<Rightarrow> string \<Rightarrow> db \<Rightarrow> (failure + token_pair) \<times> db" where
  "login_route sv st email password s =
     (case authenticate sv email password s of
        Inl (App (UnauthorizedError m)) \<Rightarrow>
          (Inl (App (UnauthorizedError m)),
           audit_security_event LOGIN_FAILURE None (Some (py_lower email)) [] s)
      | Inl f \<Rightarrow> (Inl f, s)
      | Inr u \<Rightarrow>
          (case issue_tokens sv st u s of
             Inl f \<Rightarrow> (Inl f, s)
           | Inr (tokens, s') \<Rightarrow> (Inr tokens, audit_security_event LOGIN_SUCCESS (actor_of u) None [] s')))"

definition refresh_route ::
  "auth_services \<Rightarrow> settings \<Rightarrow> string \<Rightarrow> db \<Rightarrow> (failure + token_pair) \<times> db" where
  "refresh_route sv st raw_refresh_token s =
     (case refresh sv st raw_refresh_token s of
        Inl f \<Rightarrow> (Inl f, s)
      | Inr (tokens, s') \<Rightarrow>
          (Inr tokens, audit_security_event TOKEN_REFRESH (actor_of (tp_user tokens)) None [] s'))"

definition logout_route :: "auth_services \<Rightarrow> string \<Rightarrow> db \<Rightarrow> (failure + unit) \<times> db" where
  "logout_route sv raw_refresh_token s =
     (case logout_service sv raw_refresh_token s of
        Inl f \<Rightarrow> (Inl f, s)
      | Inr (u, s') \<Rightarrow>
          (Inr (), audit_security_event LOGOUT (case u of None \<Rightarrow> None | Some u \<Rightarrow> actor_of u) None [] s'))"

definition logout_all_route ::
  "auth_services \<Rightarrow> settings \<Rightarrow> string option \<Rightarrow> db \<Rightarrow> (failure + unit) \<times> db" where
  "logout_all_route sv st credentials s =
     (case get_current_user sv st credentials s of
        Inl f \<Rightarrow> (Inl f, s)
      | Inr u \<Rightarrow>
          (Inr (), audit_security_event LOGOUT_ALL (actor_of u) None [] (logout_all_sessions (us_id u) s)))"

definition me_route :: "auth_services \<Rightarrow> settings \<Rightarrow> string option \<Rightarrow> db \<Rightarrow> failure + user" where
  "me_route sv st credentials s = get_current_user sv st credentials s"

section \<open>Rate limiting\<close>

text \<open>Redis counters: a value and the time its key expires. A key that has expired is gone.\<close>

type_synonym counters = "string \<Rightarrow> (nat \<times> timestamp option) option"

definition live_counter :: "counters \<Rightarrow> string \<Rightarrow> timestamp \<Rightarrow> (nat \<times> timestamp option) option" where
  "live_counter c key now =
     (case c key of
        Some (n, Some e) \<Rightarrow> if e \<le> now then None else Some (n, Some e)
      | r \<Rightarrow> r)"

definition incr :: "counters \<Rightarrow> string \<Rightarrow> timestamp \<Rightarrow> nat \<times> counters" where
  "incr c key now =
     (case live_counter c key now of
        None \<Rightarrow> (1, c(key \<mapsto> (1, None)))
      | Some (n, e) \<Rightarrow> (Suc n, c(key \<mapsto> (Suc n, e))))"

definition expire :: "counters \<Rightarrow> string \<Rightarrow> timestamp \<Rightarrow> counters" where
  "expire c key e = (case c key of None \<Rightarrow> c | Some (n, _) \<Rightarrow> c(key \<mapsto> (n, Some e)))"

definition increment_and_check ::
  "string \<Rightarrow> nat \<Rightarrow> nat \<Rightarrow> timestamp \<Rightarrow> counters \<Rightarrow> app_error option \<times> counters" where
  "increment_and_check key window_seconds max_attempts now c =
     (let (count, c) = incr c key now;
          c = (if count = 1 then expire c key (now + window_seconds) else c)
      in (if max_attempts < count
          then Some (RateLimitedError [Txt ''Too many attempts - please wait before trying again.''])
          else None, c))"

definition login_window_seconds :: nat where "login_window_seconds = 60"

definition login_max_attempts_per_ip :: nat where "login_max_attempts_per_ip = 10"

definition login_max_attempts_per_identifier :: nat where "login_max_attempts_per_identifier = 5"

definition refresh_window_seconds :: nat where "refresh_window_seconds = 60"

definition refresh_max_attempts_per_ip :: nat where "refresh_max_attempts_per_ip = 20"

definition client_ip :: "string option \<Rightarrow> string" where
  "client_ip host = (case host of None \<Rightarrow> ''unknown'' | Some h \<Rightarrow> h)"

text \<open>\<open>email_text\<close> is \<open>str(body.get("email", ""))\<close>, \<^const>\<open>None\<close> when reading the body fails.\<close>

definition identifier_of :: "string option \<Rightarrow> string" where
  "identifier_of email_text = (case email_text of None \<Rightarrow> '''' | Some t \<Rightarrow> py_lower (py_strip t))"

definition rate_limit_login ::
  "settings \<Rightarrow> string option \<Rightarrow> string option \<Rightarrow> timestamp \<Rightarrow> counters \<Rightarrow> app_error option \<times> counters" where
  "rate_limit_login st host email_text now c =
     (if se_environment st = TEST then (None, c)
      else
        (case increment_and_check (''hungrx:ratelimit:login:ip:'' @ client_ip host) login_window_seconds
                login_max_attempts_per_ip now c of
           (Some e, c) \<Rightarrow> (Some e, c)
         | (None, c) \<Rightarrow>
             (let email = identifier_of email_text in
              if email \<noteq> []
              then increment_and_check (''hungrx:ratelimit:login:email:'' @ email) login_window_seconds
                     login_max_attempts_per_identifier now c
              else (None, c))))"

definition rate_limit_refresh ::
  "settings \<Rightarrow> string option \<Rightarrow> timestamp \<Rightarrow> counters \<Rightarrow> app_error option \<times> counters" where
  "rate_limit_refresh st host now c =
     (if se_environment st = TEST then (None, c)
      else increment_and_check (''hungrx:ratelimit:refresh:ip:'' @ client_ip host) refresh_window_seconds
             refresh_max_attempts_per_ip now c)"

section \<open>Spent refresh tokens\<close>

text \<open>A hash is spent when the one row that has it is revoked.\<close>

definition spent :: "string \<Rightarrow> db \<Rightarrow> bool" where
  "spent h s \<longleftrightarrow> (\<exists>r. tokens_of_hash h s = [r] \<and> tk_revoked r)"

lemma tokens_of_hash_event [simp]: "tokens_of_hash h (audit_security_event a ac em md s) = tokens_of_hash h s"
  by (simp add: audit_security_event_def audit_def create_audit_log_def tokens_of_hash_def Let_def
      split: option.splits prod.splits)

lemma tokens_of_hash_revoke: "tokens_of_hash h (revoke h s) = map (\<lambda>r. r\<lparr>tk_revoked := True\<rparr>) (tokens_of_hash h s)"
proof -
  have "filter (\<lambda>r. tk_token_hash r = h) (map (\<lambda>r. if tk_token_hash r = h then r\<lparr>tk_revoked := True\<rparr> else r) rs)
      = map (\<lambda>r. r\<lparr>tk_revoked := True\<rparr>) (filter (\<lambda>r. tk_token_hash r = h) rs)" for rs
    by (induction rs) auto
  then show ?thesis by (simp add: tokens_of_hash_def revoke_def)
qed

text \<open>Revoking rows, whichever they are, keeps every hash where it is and un-revokes nothing.\<close>

lemma spent_map:
  assumes "spent h s" "db_refresh_tokens s' = map f (db_refresh_tokens s)"
    and "\<And>r. tk_token_hash (f r) = tk_token_hash r" "\<And>r. tk_revoked r \<Longrightarrow> tk_revoked (f r)"
  shows "spent h s'"
proof -
  have "filter (\<lambda>r. tk_token_hash r = h) (map f rs) = map f (filter (\<lambda>r. tk_token_hash r = h) rs)" for rs
    by (induction rs) (auto simp: assms(3))
  then show ?thesis using assms(1,2,4) by (auto simp: spent_def tokens_of_hash_def)
qed

lemma spent_revoke: "spent h s \<Longrightarrow> spent h (revoke h' s)"
  by (erule spent_map [where f = "\<lambda>r. if tk_token_hash r = h' then r\<lparr>tk_revoked := True\<rparr> else r"])
    (auto simp: revoke_def)

lemma spent_revoke_all: "spent h s \<Longrightarrow> spent h (revoke_all_for_user i s)"
  by (erule spent_map [where f = "\<lambda>r. if tk_user_id r = i \<and> \<not> tk_revoked r then r\<lparr>tk_revoked := True\<rparr> else r"])
    (auto simp: revoke_all_for_user_def)

lemma spent_unchanged: "spent h s \<Longrightarrow> db_refresh_tokens s' = db_refresh_tokens s \<Longrightarrow> spent h s'"
  by (simp add: spent_def tokens_of_hash_def)

lemma spent_event: "spent h s \<Longrightarrow> spent h (audit_security_event a ac em md s)"
  by (simp add: spent_def)

lemma create_refresh_row_Inr:
  assumes "create_refresh_row i th e s = Inr s'"
  shows "tokens_of_hash th s = []" "h \<noteq> th \<Longrightarrow> tokens_of_hash h s' = tokens_of_hash h s"
  using assms by (auto simp: create_refresh_row_def tokens_of_hash_def filter_empty_conv split: if_splits)

lemma issue_tokens_Inr:
  assumes "issue_tokens sv st u s = Inr (tokens, s')"
  shows "tp_user tokens = u" "tokens_of_hash (hash_token sv (tp_refresh_token tokens)) s = []"
    "spent h s \<Longrightarrow> spent h s'"
    "tp_access_token tokens = as_jwt_encode sv (access_payload sv st (uuid_str (us_id u)) (role_value (us_role u)) s)
       (se_api_secret_key st) (se_jwt_algorithm st)"
    "tp_refresh_token tokens = as_jwt_encode sv (refresh_payload sv st (uuid_str (us_id u)) (s\<lparr>db_next := Suc (db_next s)\<rparr>))
       (se_api_secret_key st) (se_jwt_algorithm st)"
proof -
  let ?s2 = "s\<lparr>db_next := Suc (Suc (db_next s))\<rparr>"
  let ?h = "hash_token sv (tp_refresh_token tokens)"
  obtain e where row: "create_refresh_row (us_id u) ?h e ?s2 = Inr s'"
    and tp: "tp_user tokens = u"
      "tp_access_token tokens = as_jwt_encode sv (access_payload sv st (uuid_str (us_id u)) (role_value (us_role u)) s)
         (se_api_secret_key st) (se_jwt_algorithm st)"
      "tp_refresh_token tokens = as_jwt_encode sv (refresh_payload sv st (uuid_str (us_id u)) (s\<lparr>db_next := Suc (db_next s)\<rparr>))
         (se_api_secret_key st) (se_jwt_algorithm st)"
    using assms
    by (auto simp: issue_tokens_def create_access_token_def create_refresh_token_def Let_def split: sum.splits)
  have same: "tokens_of_hash h ?s2 = tokens_of_hash h s" for h by (simp add: tokens_of_hash_def)
  show "tokens_of_hash ?h s = []" using create_refresh_row_Inr(1) [OF row] by (simp add: same)
  show "spent h s \<Longrightarrow> spent h s'"
    using create_refresh_row_Inr(1) [OF row] create_refresh_row_Inr(2) [OF row, of h] same by (cases "h = ?h") (auto simp: spent_def)
  show "tp_user tokens = u" by (rule tp(1))
  show "tp_access_token tokens = as_jwt_encode sv (access_payload sv st (uuid_str (us_id u)) (role_value (us_role u)) s)
       (se_api_secret_key st) (se_jwt_algorithm st)" by (rule tp(2))
  show "tp_refresh_token tokens = as_jwt_encode sv (refresh_payload sv st (uuid_str (us_id u)) (s\<lparr>db_next := Suc (db_next s)\<rparr>))
       (se_api_secret_key st) (se_jwt_algorithm st)" by (rule tp(3))
qed

lemma refresh_Inr:
  assumes "refresh sv st tok s = Inr (tokens, s')"
  obtains u r where "tokens_of_hash (hash_token sv tok) s = [r]" "\<not> tk_revoked r" "db_now s \<le> tk_expires_at r"
    "get_user s (tk_user_id r) = Some u" "us_is_active u"
    "issue_tokens sv st u (revoke (hash_token sv tok) s) = Inr (tokens, s')"
  using assms
  by (auto simp: refresh_def get_refresh_by_hash_def scalar_one_or_none_def Let_def
      split: sum.splits if_splits option.splits list.splits)

lemma spent_revoked: "tokens_of_hash h s = [r] \<Longrightarrow> spent h (revoke h s)"
  by (simp add: spent_def tokens_of_hash_revoke)

lemma spent_revoked_all:
  assumes "tokens_of_hash h s = [r]" "tk_user_id r = i"
  shows "spent h (revoke_all_for_user i s)"
proof -
  let ?f = "\<lambda>r. if tk_user_id r = i \<and> \<not> tk_revoked r then r\<lparr>tk_revoked := True\<rparr> else r"
  have "filter (\<lambda>r. tk_token_hash r = h) (map ?f rs) = map ?f (filter (\<lambda>r. tk_token_hash r = h) rs)" for rs
    by (induction rs) auto
  then have "tokens_of_hash h (revoke_all_for_user i s) = map ?f (tokens_of_hash h s)"
    by (simp add: tokens_of_hash_def revoke_all_for_user_def)
  then show ?thesis using assms by (simp add: spent_def)
qed

text \<open>A spent token is refused, and nothing is written.\<close>

lemma spent_refused:
  assumes "spent (hash_token sv tok) s"
  shows "(\<exists>m. fst (refresh_route sv st tok s) = Inl (App (UnauthorizedError m))) \<and> snd (refresh_route sv st tok s) = s"
  using assms
  by (auto simp: refresh_route_def refresh_def spent_def get_refresh_by_hash_def scalar_one_or_none_def Let_def
      unauthorized_def split: sum.splits)

text \<open>Everything that happens to the accounts: the four routes, and any step of the rest of the program
  or of an operator, which leaves the table of refresh tokens alone (time passes, users are edited,
  workflows run).\<close>

inductive auth_step :: "auth_services \<Rightarrow> settings \<Rightarrow> db \<Rightarrow> db \<Rightarrow> bool" for sv st where
  login: "auth_step sv st s (snd (login_route sv st email password s))"
| refresh: "auth_step sv st s (snd (refresh_route sv st tok s))"
| logout: "auth_step sv st s (snd (logout_route sv tok s))"
| logout_all: "auth_step sv st s (snd (logout_all_route sv st credentials s))"
| elsewhere: "db_refresh_tokens s' = db_refresh_tokens s \<Longrightarrow> auth_step sv st s s'"

lemma spent_login: "spent h s \<Longrightarrow> spent h (snd (login_route sv st email password s))"
  by (auto simp: login_route_def spent_event issue_tokens_Inr(3)
      split: sum.splits failure.splits app_error.splits)

lemma refresh_route_Inr:
  assumes "refresh_route sv st tok s = (Inr tokens, s1)"
  obtains s' where "refresh sv st tok s = Inr (tokens, s')"
    "s1 = audit_security_event TOKEN_REFRESH (actor_of (tp_user tokens)) None [] s'"
  using assms by (auto simp: refresh_route_def split: sum.splits prod.splits)

lemma spent_refresh:
  assumes "spent h s"
  shows "spent h (snd (refresh_route sv st tok s))"
proof (cases "refresh sv st tok s")
  case (Inr ts)
  then obtain tokens s' where ts: "refresh sv st tok s = Inr (tokens, s')" by (cases ts) simp
  obtain u where "issue_tokens sv st u (revoke (hash_token sv tok) s) = Inr (tokens, s')"
    by (rule refresh_Inr [OF ts])
  then show ?thesis using ts issue_tokens_Inr(3) spent_revoke [OF assms] by (simp add: refresh_route_def spent_event)
qed (use assms in \<open>simp add: refresh_route_def\<close>)

lemma spent_logout: "spent h s \<Longrightarrow> spent h (snd (logout_route sv tok s))"
  by (auto simp: logout_route_def logout_service_def Let_def spent_event spent_revoke split: sum.splits option.splits)

lemma spent_logout_all: "spent h s \<Longrightarrow> spent h (snd (logout_all_route sv st credentials s))"
  by (auto simp: logout_all_route_def logout_all_sessions_def spent_event spent_revoke_all split: sum.splits)

lemma spent_step: "auth_step sv st s s' \<Longrightarrow> spent h s \<Longrightarrow> spent h s'"
  by (induction rule: auth_step.induct)
    (auto intro: spent_login spent_refresh spent_logout spent_logout_all spent_unchanged)

lemma spent_steps: "(auth_step sv st)\<^sup>*\<^sup>* s s' \<Longrightarrow> spent h s \<Longrightarrow> spent h s'"
  by (induction rule: rtranclp_induct) (auto intro: spent_step)

section \<open>Properties of tokens\<close>

text \<open>C24: A refresh token works once. Once a refresh with it succeeded, or its owner signed out with it or
  from all devices, no later refresh with it succeeds, however many logins, refreshes, sign-outs and
  other steps of the program come between: it is refused as unauthorized and nothing is written. The
  token a refresh hands out is a different one.\<close>

theorem refresh_tokens_single_use:
  assumes "refresh_route sv st tok s = (Inr tokens, s1)
      \<or> logout_route sv tok s = (Inr (), s1) \<and> tokens_of_hash (hash_token sv tok) s \<noteq> []
      \<or> (\<exists>u r. get_current_user sv st credentials s = Inr u \<and> logout_all_route sv st credentials s = (Inr (), s1)
           \<and> tokens_of_hash (hash_token sv tok) s = [r] \<and> tk_user_id r = us_id u)"
    and "(auth_step sv st)\<^sup>*\<^sup>* s1 s2"
  shows "(\<exists>m. fst (refresh_route sv st tok s2) = Inl (App (UnauthorizedError m)))
    \<and> snd (refresh_route sv st tok s2) = s2
    \<and> (refresh_route sv st tok s = (Inr tokens, s1) \<longrightarrow> tp_refresh_token tokens \<noteq> tok)"
proof -
  let ?h = "hash_token sv tok"
  have refreshed: "spent ?h s1 \<and> tp_refresh_token tokens \<noteq> tok" if refreshed: "refresh_route sv st tok s = (Inr tokens, s1)"
  proof -
    obtain s' where s': "refresh sv st tok s = Inr (tokens, s')"
      and s1: "s1 = audit_security_event TOKEN_REFRESH (actor_of (tp_user tokens)) None [] s'"
      by (rule refresh_route_Inr [OF refreshed])
    obtain u r where r: "tokens_of_hash ?h s = [r]" "issue_tokens sv st u (revoke ?h s) = Inr (tokens, s')"
      by (rule refresh_Inr [OF s'])
    show ?thesis
      using issue_tokens_Inr(2,3) [OF r(2)] spent_revoked [OF r(1)] r(1)
      by (auto simp: s1 spent_event tokens_of_hash_revoke)
  qed
  have "spent ?h s1"
    using assms(1)
  proof (elim disjE exE conjE)
    assume "logout_route sv tok s = (Inr (), s1)" "tokens_of_hash ?h s \<noteq> []"
    then show ?thesis
      by (auto simp: logout_route_def logout_service_def get_refresh_by_hash_def scalar_one_or_none_def Let_def
          intro!: spent_event spent_revoked split: sum.splits option.splits list.splits)
  next
    fix u r assume "get_current_user sv st credentials s = Inr u" "logout_all_route sv st credentials s = (Inr (), s1)"
      "tokens_of_hash ?h s = [r]" "tk_user_id r = us_id u"
    then show ?thesis
      by (auto simp: logout_all_route_def logout_all_sessions_def intro!: spent_event spent_revoked_all)
  qed (use refreshed in blast)
  then show ?thesis using spent_steps [OF assms(2)] spent_refused refreshed by blast
qed

text \<open>The documented behaviour of PyJWT the program relies on: within its life an encoded token decodes
  with the same key and algorithm to claims with the same subject and type.\<close>

definition jwt_faithful :: "auth_services \<Rightarrow> settings \<Rightarrow> timestamp \<Rightarrow> payload \<Rightarrow> bool" where
  "jwt_faithful sv st now p \<longleftrightarrow>
     (\<exists>p'. as_jwt_decode sv now (as_jwt_encode sv p (se_api_secret_key st) (se_jwt_algorithm st))
             (se_api_secret_key st) (se_jwt_algorithm st) = Inr p'
        \<and> map_of p' ''sub'' = map_of p ''sub'' \<and> map_of p' ''type'' = map_of p ''type'')"

lemma login_route_Inr:
  assumes "login_route sv st email password s = (Inr tokens, s1)"
  obtains u s' where "authenticate sv email password s = Inr u" "issue_tokens sv st u s = Inr (tokens, s')"
  using assms
  by (cases "authenticate sv email password s")
    (auto simp: login_route_def split: sum.splits failure.splits app_error.splits prod.splits)

lemma authenticate_Inr:
  assumes "authenticate sv email password s = Inr u"
  shows "us_is_active u" "u \<in> set (db_users s)" "us_email u = py_lower email"
    "verify_password sv password (us_hashed_password u) = Inr True"
proof -
  obtain u' where u': "get_user_by_email s email = Inr (Some u')" "us_is_active u'" "u' = u"
    "verify_password sv password (us_hashed_password u') = Inr True"
    using assms by (auto simp: authenticate_def split: sum.splits option.splits bool.splits if_splits)
  have found: "filter (\<lambda>u. us_email u = py_lower email) (db_users s) = [u']"
    using u' by (auto simp: get_user_by_email_def scalar_one_or_none_def split: list.splits)
  have "u' \<in> set (filter (\<lambda>u. us_email u = py_lower email) (db_users s))" unfolding found by simp
  moreover note u'
  ultimately show "us_is_active u" "u \<in> set (db_users s)" "us_email u = py_lower email"
    "verify_password sv password (us_hashed_password u) = Inr True"
    by auto
qed

text \<open>C25: A session stands for the account as it is now. After a login with the right password of an
  active account, at any later state and as long as PyJWT decodes the two tokens: on every route the
  access token grants exactly what the account's present role grants, and nothing once the account is
  gone or deactivated; the refresh token opens no route, and the access token cannot be refreshed.\<close>

theorem sessions_follow_the_account:
  assumes "login_route sv st email password s = (Inr tokens, s1)"
    and "jwt_faithful sv st (db_now s2) (access_payload sv st (uuid_str (us_id (tp_user tokens)))
           (role_value (us_role (tp_user tokens))) s)"
    and "jwt_faithful sv st (db_now s2) (refresh_payload sv st (uuid_str (us_id (tp_user tokens)))
           (s\<lparr>db_next := Suc (db_next s)\<rparr>))"
  shows "verify_password sv password (us_hashed_password (tp_user tokens)) = Inr True
    \<and> tp_user tokens \<in> set (db_users s) \<and> us_email (tp_user tokens) = py_lower email \<and> us_is_active (tp_user tokens)
    \<and> authorize sv st p (Some (tp_access_token tokens)) s2 =
        (case get_user s2 (us_id (tp_user tokens)) of
           Some u \<Rightarrow> if \<not> us_is_active u then Inl (unauthorized ''Account is no longer active'')
                      else if p \<in> set (permissions_for_role (us_role u)) then Inr u else Inl forbidden
         | None \<Rightarrow> Inl (unauthorized ''Account is no longer active''))
    \<and> authorize sv st p (Some (tp_refresh_token tokens)) s2 = Inl (unauthorized ''Access token required'')
    \<and> refresh_route sv st (tp_access_token tokens) s2 = (Inl (unauthorized ''Refresh token required''), s2)"
proof -
  obtain u s' where u: "authenticate sv email password s = Inr u" "issue_tokens sv st u s = Inr (tokens, s')"
    by (rule login_route_Inr [OF assms(1)])
  note tok = issue_tokens_Inr(1,4,5) [OF u(2)] and auth = authenticate_Inr [OF u(1)]
  obtain pa where pa: "decode_token sv st s2 (tp_access_token tokens) = Inr pa"
    "map_of pa ''sub'' = Some (JStr (uuid_str (us_id u)))" "map_of pa ''type'' = Some (JStr ''access'')"
    using assms(2) by (auto simp: jwt_faithful_def access_payload_def decode_token_def tok)
  obtain pr where pr: "decode_token sv st s2 (tp_refresh_token tokens) = Inr pr"
    "map_of pr ''type'' = Some (JStr ''refresh'')"
    using assms(3) by (auto simp: jwt_faithful_def refresh_payload_def decode_token_def tok)
  have "authorize sv st p (Some (tp_access_token tokens)) s2 =
      (case get_user s2 (us_id u) of
         Some u \<Rightarrow> if \<not> us_is_active u then Inl (unauthorized ''Account is no longer active'')
                    else if p \<in> set (permissions_for_role (us_role u)) then Inr u else Inl forbidden
       | None \<Rightarrow> Inl (unauthorized ''Account is no longer active''))"
    using pa by (simp add: authorize_def get_current_user_def require_permission_def split: option.splits)
  moreover have "authorize sv st p (Some (tp_refresh_token tokens)) s2 = Inl (unauthorized ''Access token required'')"
    using pr by (simp add: authorize_def get_current_user_def)
  moreover have "refresh_route sv st (tp_access_token tokens) s2 = (Inl (unauthorized ''Refresh token required''), s2)"
    using pa by (simp add: refresh_route_def refresh_def)
  ultimately show ?thesis using auth by (simp add: tok(1))
qed

section \<open>Properties of the rate limiter\<close>

text \<open>Every counter has counted something and has an expiry.\<close>

definition counters_ok :: "counters \<Rightarrow> bool" where
  "counters_ok c \<longleftrightarrow> (\<forall>key. case c key of None \<Rightarrow> True | Some (n, e) \<Rightarrow> 0 < n \<and> e \<noteq> None)"

text \<open>How many more attempts a key may still pass in the interval from \<open>t0\<close> on, of one window's
  length, seen at time \<open>now\<close>.\<close>

definition quota :: "nat \<Rightarrow> nat \<Rightarrow> timestamp \<Rightarrow> timestamp \<Rightarrow> (nat \<times> timestamp option) option \<Rightarrow> nat" where
  "quota w m t0 now r =
     (if t0 + w \<le> now then 0
      else case r of
        Some (n, Some e) \<Rightarrow>
          if e \<le> now then if t0 \<le> now then m else 2 * m
          else if e \<le> t0 then 2 * m
          else (m - n) + (if e < t0 + w then m else 0)
      | _ \<Rightarrow> if t0 \<le> now then m else 2 * m)"

definition in_interval :: "nat \<Rightarrow> timestamp \<Rightarrow> timestamp \<Rightarrow> bool" where
  "in_interval w t0 t \<longleftrightarrow> t0 \<le> t \<and> t < t0 + w"

lemma quota_le: "quota w m t0 now r \<le> 2 * m"
  by (auto simp: quota_def split: option.splits prod.splits)

lemma quota_mono: "now \<le> t \<Longrightarrow> quota w m t0 t r \<le> quota w m t0 now r"
  by (auto simp: quota_def split: option.splits prod.splits)

lemma increment_other: "key' \<noteq> key \<Longrightarrow> snd (increment_and_check key w m t c) key' = c key'"
  by (simp add: increment_and_check_def incr_def expire_def Let_def split: option.splits prod.splits)

lemma increment_counters:
  assumes "counters_ok c"
  shows "counters_ok (snd (increment_and_check key w m t c))"
    "(if fst (increment_and_check key w m t c) = None \<and> in_interval w t0 t then 1 else 0)
       + quota w m t0 t (snd (increment_and_check key w m t c) key) \<le> quota w m t0 t (c key)"
proof -
  have key: "case c key of None \<Rightarrow> True | Some (n, e) \<Rightarrow> 0 < n \<and> e \<noteq> None"
    using assms by (simp add: counters_ok_def)
  show "counters_ok (snd (increment_and_check key w m t c))"
    using assms key
    by (auto simp: counters_ok_def increment_and_check_def incr_def expire_def live_counter_def Let_def
        split: option.splits prod.splits if_splits)
  show "(if fst (increment_and_check key w m t c) = None \<and> in_interval w t0 t then 1 else 0)
       + quota w m t0 t (snd (increment_and_check key w m t c) key) \<le> quota w m t0 t (c key)"
    using key
    by (auto simp: increment_and_check_def incr_def expire_def live_counter_def quota_def in_interval_def Let_def
        split: option.splits prod.splits if_splits)
qed

text \<open>A log of login attempts: client host, e-mail text and time. What the limiter lets through.\<close>

fun login_admitted ::
  "settings \<Rightarrow> (string option \<times> string option \<times> timestamp) list \<Rightarrow> counters
     \<Rightarrow> (string option \<times> string option \<times> timestamp) list" where
  "login_admitted st [] c = []"
| "login_admitted st ((host, email, t) # reqs) c =
     (case rate_limit_login st host email t c of
        (None, c') \<Rightarrow> (host, email, t) # login_admitted st reqs c'
      | (Some _, c') \<Rightarrow> login_admitted st reqs c')"

abbreviation login_ip_key :: "string option \<Rightarrow> string" where
  "login_ip_key host \<equiv> ''hungrx:ratelimit:login:ip:'' @ client_ip host"

abbreviation login_email_key :: "string \<Rightarrow> string" where
  "login_email_key email \<equiv> ''hungrx:ratelimit:login:email:'' @ email"

text \<open>One attempt: it counts against the quota of its host when it is let through, and against that of
  its e-mail; nobody's quota grows.\<close>

lemma rate_limit_login_step:
  assumes "counters_ok c" "se_environment st \<noteq> TEST" "rate_limit_login st host email t c = (res, c')"
  shows "counters_ok c'"
    "(if res = None \<and> client_ip host = h \<and> in_interval 60 t0 t then 1 else 0)
       + quota 60 10 t0 t (c' (''hungrx:ratelimit:login:ip:'' @ h)) \<le> quota 60 10 t0 t (c (''hungrx:ratelimit:login:ip:'' @ h))"
    "e \<noteq> [] \<Longrightarrow> (if res = None \<and> identifier_of email = e \<and> in_interval 60 t0 t then 1 else 0)
       + quota 60 5 t0 t (c' (login_email_key e)) \<le> quota 60 5 t0 t (c (login_email_key e))"
proof -
  let ?i = "identifier_of email"
  obtain r1 c1 where ip: "increment_and_check (login_ip_key host) 60 10 t c = (r1, c1)" by fastforce
  note s1 = increment_counters [OF assms(1), of "login_ip_key host" 60 10 t, unfolded ip fst_conv snd_conv]
  note o1 = increment_other [of _ "login_ip_key host" 60 10 t c, unfolded ip snd_conv]
  obtain r2 c2 where em: "increment_and_check (login_email_key ?i) 60 5 t c1 = (r2, c2)" by fastforce
  note s2 = increment_counters [OF s1(1), of "login_email_key ?i" 60 5 t, unfolded em fst_conv snd_conv]
  note o2 = increment_other [of _ "login_email_key ?i" 60 5 t c1, unfolded em snd_conv]
  have res: "(res, c') = (if r1 \<noteq> None then (r1, c1) else if ?i \<noteq> [] then (r2, c2) else (None, c1))"
    using assms(2,3) ip em
    by (auto simp: rate_limit_login_def login_window_seconds_def login_max_attempts_per_ip_def
        login_max_attempts_per_identifier_def Let_def split: option.splits)
  show "counters_ok c'" using res s1(1) s2(1) by (auto split: if_splits)
  show "(if res = None \<and> client_ip host = h \<and> in_interval 60 t0 t then 1 else 0)
       + quota 60 10 t0 t (c' (''hungrx:ratelimit:login:ip:'' @ h)) \<le> quota 60 10 t0 t (c (''hungrx:ratelimit:login:ip:'' @ h))"
    using res s1(2) [of t0] o1 [of "''hungrx:ratelimit:login:ip:'' @ h"] o2 [of "''hungrx:ratelimit:login:ip:'' @ h"]
    by (cases "client_ip host = h") (auto split: if_splits)
  show "(if res = None \<and> identifier_of email = e \<and> in_interval 60 t0 t then 1 else 0)
       + quota 60 5 t0 t (c' (login_email_key e)) \<le> quota 60 5 t0 t (c (login_email_key e))" if "e \<noteq> []"
    using res s2(2) [of t0] o1 [of "login_email_key e"] o2 [of "login_email_key e"] that
    by (cases "?i = e") (auto split: if_splits)
qed

lemma login_admitted_quota:
  assumes "se_environment st \<noteq> TEST" "counters_ok c" "sorted (map (snd \<circ> snd) reqs)" "\<forall>r \<in> set reqs. now \<le> snd (snd r)"
  shows "length (filter (\<lambda>(host, email, t). client_ip host = h \<and> in_interval 60 t0 t) (login_admitted st reqs c))
      \<le> quota 60 10 t0 now (c (''hungrx:ratelimit:login:ip:'' @ h))
    \<and> (e \<noteq> [] \<longrightarrow> length (filter (\<lambda>(host, email, t). identifier_of email = e \<and> in_interval 60 t0 t) (login_admitted st reqs c))
      \<le> quota 60 5 t0 now (c (login_email_key e)))"
  using assms(2-)
proof (induction reqs arbitrary: c now)
  case (Cons req reqs)
  obtain host email t where req: "req = (host, email, t)" by (cases req)
  obtain res c' where r: "rate_limit_login st host email t c = (res, c')" by fastforce
  note step = rate_limit_login_step [OF Cons.prems(1) assms(1) r]
  have "now \<le> t" using Cons.prems(3) by (simp add: req)
  note mono = quota_mono [OF \<open>now \<le> t\<close>]
  have IH: "length (filter (\<lambda>(host, email, t). client_ip host = h \<and> in_interval 60 t0 t) (login_admitted st reqs c'))
      \<le> quota 60 10 t0 t (c' (''hungrx:ratelimit:login:ip:'' @ h))
    \<and> (e \<noteq> [] \<longrightarrow> length (filter (\<lambda>(host, email, t). identifier_of email = e \<and> in_interval 60 t0 t) (login_admitted st reqs c'))
      \<le> quota 60 5 t0 t (c' (login_email_key e)))"
    using Cons.prems(2) by (intro Cons.IH step(1)) (auto simp: req)
  show ?case
    using IH step(2) [of h t0] step(3) [of e t0] mono [of 60 10 t0 "c (''hungrx:ratelimit:login:ip:'' @ h)"]
      mono [of 60 5 t0 "c (login_email_key e)"]
    by (cases res) (auto simp: req r split: if_splits)
qed simp

text \<open>C26: Password guessing is throttled. Whatever sequence of login attempts arrives, in any minute at
  most twenty attempts of one client address and at most ten attempts on one e-mail address (in any
  spelling of case and surrounding space) reach the password check: twice the limit of a window, since a
  minute meets at most two windows.\<close>

theorem login_attempts_bounded:
  assumes "se_environment st \<noteq> TEST" "sorted (map (snd \<circ> snd) reqs)"
  shows "length (filter (\<lambda>(host, email, t). client_ip host = h \<and> t0 \<le> t \<and> t < t0 + login_window_seconds)
           (login_admitted st reqs Map.empty)) \<le> 2 * login_max_attempts_per_ip
    \<and> (e \<noteq> [] \<longrightarrow> length (filter (\<lambda>(host, email, t). identifier_of email = e \<and> t0 \<le> t \<and> t < t0 + login_window_seconds)
           (login_admitted st reqs Map.empty)) \<le> 2 * login_max_attempts_per_identifier)"
proof -
  have "counters_ok Map.empty" by (simp add: counters_ok_def)
  from login_admitted_quota [OF assms(1) this assms(2), of 0 h t0 e] show ?thesis
    using quota_le [of 60 10 t0 0 None] quota_le [of 60 5 t0 0 None]
    by (simp add: in_interval_def login_window_seconds_def login_max_attempts_per_ip_def
        login_max_attempts_per_identifier_def split_def) linarith
qed

section \<open>An account\<close>

text \<open>A toy instance of the third-party services: tokens are a letter for the type and the random part.\<close>

definition sample_auth :: auth_services where
  "sample_auth =
     \<lparr>as_checkpw = (\<lambda>p h. Inr (h = ''#'' @ p)), as_hashpw = (\<lambda>p salt. ''#'' @ p), as_sha256 = (\<lambda>t. ''h'' @ t),
      as_urlsafe = (\<lambda>n i. show_nat i),
      as_jwt_encode = (\<lambda>p key alg.
        (if map_of p ''type'' = Some (JStr ''access'') then ''A'' else ''R'')
        @ (case map_of p ''jti'' of Some (JStr j) \<Rightarrow> j | _ \<Rightarrow> [])),
      as_jwt_decode = (\<lambda>now t key alg.
        case t of
          [] \<Rightarrow> Inl InvalidTokenError
        | ch # _ \<Rightarrow> Inr [(''sub'', JStr (uuid_str 7)),
                     (''type'', JStr (if ch = CHR ''A'' then ''access'' else ''refresh''))])\<rparr>"

definition sample_user :: user where
  "sample_user =
     \<lparr>us_id = 7, us_email = ''a@b.co'', us_hashed_password = ''#pw'', us_full_name = ''A'',
      us_role = REVIEWER_ROLE, us_is_active = True, us_created_at = 0\<rparr>"

definition sample_accounts :: db where
  "sample_accounts = empty_db\<lparr>db_users := [sample_user]\<rparr>"

definition sample_session :: "(failure + token_pair) \<times> db" where
  "sample_session = login_route sample_auth default_settings ''A@b.co'' ''pw'' sample_accounts"

lemma sample_session_opens:
  "(case fst sample_session of
     Inr tokens \<Rightarrow> tp_access_token tokens = ''A100'' \<and> tp_refresh_token tokens = ''R101'' \<and> tp_user tokens = sample_user
   | Inl _ \<Rightarrow> False) \<and> get_user (snd sample_session) 7 = Some sample_user"
  by code_simp

lemma sample_refresh_works:
  "case refresh_route sample_auth default_settings ''R101'' (snd sample_session) of
     (Inr tokens, s) \<Rightarrow> tp_refresh_token tokens = ''R105''
   | _ \<Rightarrow> False"
  by code_simp

theorem refresh_tokens_single_use_witness:
  "\<exists>tokens s1. refresh_route sample_auth default_settings ''R101'' (snd sample_session) = (Inr tokens, s1)
     \<and> (\<exists>m. fst (refresh_route sample_auth default_settings ''R101'' s1) = Inl (App (UnauthorizedError m)))"
proof -
  obtain tokens s1 where r: "refresh_route sample_auth default_settings ''R101'' (snd sample_session) = (Inr tokens, s1)"
    using sample_refresh_works by (auto split: prod.splits sum.splits)
  show ?thesis using refresh_tokens_single_use [OF disjI1 [OF r] rtranclp.rtrancl_refl] r by blast
qed

lemma sample_auth_faithful:
  "jwt_faithful sample_auth default_settings now (access_payload sample_auth default_settings (uuid_str (us_id sample_user)) r s)"
  "jwt_faithful sample_auth default_settings now (refresh_payload sample_auth default_settings (uuid_str (us_id sample_user)) s)"
  by (simp_all add: jwt_faithful_def access_payload_def refresh_payload_def sample_auth_def sample_user_def)

theorem sessions_follow_the_account_witness:
  "\<exists>tokens s1. sample_session = (Inr tokens, s1)
     \<and> authorize sample_auth default_settings REVIEW_WRITE (Some (tp_access_token tokens)) s1
         = Inr sample_user
     \<and> authorize sample_auth default_settings USER_WRITE (Some (tp_access_token tokens)) s1 = Inl forbidden"
proof -
  obtain f s1 where p: "sample_session = (f, s1)" by fastforce
  obtain tokens where l: "sample_session = (Inr tokens, s1)" "tp_user tokens = sample_user"
    using sample_session_opens p unfolding p fst_conv by (cases f) simp_all
  have u: "get_user s1 (us_id sample_user) = Some sample_user"
    using sample_session_opens [unfolded l(1) snd_conv] by (simp add: sample_user_def)
  have go: "authorize sample_auth default_settings p (Some (tp_access_token tokens)) s1 =
      (if p \<in> set (permissions_for_role REVIEWER_ROLE) then Inr sample_user else Inl forbidden)" for p
    using sessions_follow_the_account [OF l(1) [unfolded sample_session_def] sample_auth_faithful(1) [folded l(2)]
        sample_auth_faithful(2) [folded l(2)], of p] l(2) u
    by (simp add: sample_user_def)
  have "authorize sample_auth default_settings REVIEW_WRITE (Some (tp_access_token tokens)) s1 = Inr sample_user"
    "authorize sample_auth default_settings USER_WRITE (Some (tp_access_token tokens)) s1 = Inl forbidden"
    by (simp_all add: go)
  then show ?thesis using l(1) by blast
qed

text \<open>Seven attempts on one account within seven seconds.\<close>

definition sample_attempts :: "(string option \<times> string option \<times> timestamp) list" where
  "sample_attempts = map (\<lambda>t. (Some ''1.2.3.4'', Some '' A@b.co'', t)) [20..<27]"

theorem login_attempts_bounded_witness:
  "length (login_admitted default_settings sample_attempts Map.empty) = 5
   \<and> length (filter (\<lambda>(host, email, t). identifier_of email = ''a@b.co'' \<and> 0 \<le> t \<and> t < 0 + login_window_seconds)
       (login_admitted default_settings sample_attempts Map.empty)) \<le> 2 * login_max_attempts_per_identifier"
proof
  show "length (login_admitted default_settings sample_attempts Map.empty) = 5" by code_simp
  have "se_environment default_settings \<noteq> TEST" "sorted (map (snd \<circ> snd) sample_attempts)" by code_simp+
  from login_attempts_bounded [OF this, of "''1.2.3.4''" 0 "''a@b.co''"]
  show "length (filter (\<lambda>(host, email, t). identifier_of email = ''a@b.co'' \<and> 0 \<le> t \<and> t < 0 + login_window_seconds)
       (login_admitted default_settings sample_attempts Map.empty)) \<le> 2 * login_max_attempts_per_identifier"
    by blast
qed

end
