(* ===== verification/ReviewService.thy ===== *)
theory ReviewService
  imports ReviewerRuns Auth
begin

text \<open>
  The review queue of the admin API, \<open>src/apps/api/app/services/review_service.py\<close>: listing and
  reading pending changes, and resuming the paused run of a change with a decision. The checkpointer is
  a map from thread to the state saved at an interrupt; what LangGraph does when asked to resume a
  thread it has no fitting checkpoint of is a parameter (an empty result, or an exception), and no node
  runs then. A decision is one transaction: the route commits when it returns, and nothing is written
  when it raises.
\<close>

section \<open>Paused runs\<close>

datatype checkpoint = At_human_review collector_state | At_final_sync reviewer_state

type_synonym checkpoints = "uuid \<Rightarrow> checkpoint option"

record review_services =
  rs_collector :: services
  rs_reviewer :: reviewer_services
  rs_no_checkpoint :: "workflow_type \<Rightarrow> uuid \<Rightarrow> exn option"

text \<open>What \<open>ainvoke\<close> gives back: the entries of the final state the service reads, or an exception.\<close>

datatype graph_result =
    Graph_returned "workflow_error list" "uuid option" world
  | Graph_raised exn

definition collector_outcome :: "run_result \<Rightarrow> graph_result" where
  "collector_outcome res =
     (case res of
        Raised e \<Rightarrow> Graph_raised e
      | Finished st w \<Rightarrow> Graph_returned (cs_errors st) (cs_published_restaurant_id st) w
      | Interrupted _ st w \<Rightarrow> Graph_returned (cs_errors st) (cs_published_restaurant_id st) w)"

definition reviewer_outcome :: "review_result \<Rightarrow> graph_result" where
  "reviewer_outcome res =
     (case res of
        Review_raised e \<Rightarrow> Graph_raised e
      | Review_finished st w \<Rightarrow> Graph_returned (vs_errors st) (vs_published_restaurant_id st) w
      | Review_interrupted _ st w \<Rightarrow> Graph_returned (vs_errors st) (vs_published_restaurant_id st) w)"

definition no_checkpoint :: "review_services \<Rightarrow> workflow_type \<Rightarrow> uuid \<Rightarrow> world \<Rightarrow> graph_result" where
  "no_checkpoint sv wt thread w =
     (case rs_no_checkpoint sv wt thread of None \<Rightarrow> Graph_returned [] None w | Some e \<Rightarrow> Graph_raised e)"

definition resume_graph ::
  "review_services \<Rightarrow> checkpoints \<Rightarrow> workflow_type \<Rightarrow> uuid \<Rightarrow> decision \<Rightarrow> world \<Rightarrow> graph_result" where
  "resume_graph sv cps wt thread d w =
     (case (wt, cps thread) of
        (COLLECTOR, Some (At_human_review st)) \<Rightarrow> collector_outcome (resume_collector (rs_collector sv) st d w)
      | (REVIEWER, Some (At_final_sync st)) \<Rightarrow> reviewer_outcome (resume_review (rs_reviewer sv) st d w)
      | _ \<Rightarrow> no_checkpoint sv wt thread w)"

section \<open>The service\<close>

record review_outcome =
  ro_proposed_change :: proposed_change
  ro_published_restaurant_id :: "uuid option"
  ro_errors :: "workflow_error list"

fun change_status_value :: "change_status \<Rightarrow> string" where
  "change_status_value PC_PENDING = ''pending''"
| "change_status_value APPROVED = ''approved''"
| "change_status_value REJECTED_CHANGE = ''rejected''"
| "change_status_value PUBLISHED = ''published''"

datatype review_action = Approve | Reject | Edit_then_approve json

fun action_name :: "review_action \<Rightarrow> string" where
  "action_name Approve = ''approve''"
| "action_name Reject = ''reject''"
| "action_name (Edit_then_approve _) = ''edit_then_approve''"

definition decision_for :: "review_action \<Rightarrow> decision" where
  "decision_for a =
     Decision (Some (action_name a)) (case a of Edit_then_approve j \<Rightarrow> Some j | _ \<Rightarrow> None)"

fun decision_status :: "review_action \<Rightarrow> change_status" where
  "decision_status Approve = APPROVED"
| "decision_status (Edit_then_approve _) = APPROVED"
| "decision_status Reject = REJECTED_CHANGE"

fun decision_audit_action :: "review_action \<Rightarrow> audit_action" where
  "decision_audit_action Reject = PROPOSED_CHANGE_REJECT"
| "decision_audit_action _ = PROPOSED_CHANGE_APPROVE"

definition list_pending :: "nat \<Rightarrow> db \<Rightarrow> proposed_change list" where
  "list_pending limit s = list_pending_changes limit s"

definition no_such_change :: "uuid \<Rightarrow> failure" where
  "no_such_change i = App (NotFoundError [Txt ''No ProposedChange with id '', Num i])"

definition get_detail :: "uuid \<Rightarrow> db \<Rightarrow> failure + proposed_change" where
  "get_detail i s = (case get_change s i of None \<Rightarrow> Inl (no_such_change i) | Some r \<Rightarrow> Inr r)"

definition require_pending :: "uuid \<Rightarrow> db \<Rightarrow> failure + proposed_change" where
  "require_pending i s =
     (case get_change s i of
        None \<Rightarrow> Inl (no_such_change i)
      | Some r \<Rightarrow>
          if pc_status r \<noteq> PC_PENDING
          then Inl (App (ConflictError [Txt ''ProposedChange '', Num i, Txt '' is '',
                 Txt (change_status_value (pc_status r)), Txt '', not pending'']))
          else Inr r)"

definition graph_for :: "proposed_change \<Rightarrow> db \<Rightarrow> workflow_type" where
  "graph_for record s =
     (case pc_agent_run_id record of
        None \<Rightarrow> COLLECTOR
      | Some i \<Rightarrow>
          (case get_run s i of
             Some run \<Rightarrow> if ar_workflow_type run = REVIEWER then REVIEWER else COLLECTOR
           | None \<Rightarrow> COLLECTOR))"

text \<open>The approval row and the audit entry of the decision.\<close>

definition record_decision :: "uuid \<Rightarrow> review_action \<Rightarrow> user \<Rightarrow> string option \<Rightarrow> db \<Rightarrow> db" where
  "record_decision i a reviewer reason s =
     audit (decision_audit_action a) AE_PROPOSED_CHANGE (uuid_str i) (actor_of reviewer) None
       [(''reason'', case reason of None \<Rightarrow> [] | Some r \<Rightarrow> [Txt r])]
       (create_approval i (decision_status a) (us_id reviewer) reason s)"

text \<open>\<open>_resume\<close>, over the graph invocation.\<close>

definition resume_change ::
  "(workflow_type \<Rightarrow> uuid \<Rightarrow> decision \<Rightarrow> world \<Rightarrow> graph_result) \<Rightarrow> uuid \<Rightarrow> review_action \<Rightarrow> user \<Rightarrow> string option
     \<Rightarrow> world \<Rightarrow> failure + review_outcome \<times> world" where
  "resume_change invoke i a reviewer reason w =
     (case require_pending i (w_db w) of
        Inl f \<Rightarrow> Inl f
      | Inr r \<Rightarrow>
          (case pc_thread_id r of
             None \<Rightarrow> Inl (App (ConflictError [Txt ''ProposedChange '', Num i,
                       Txt '' has no thread_id - it was not created by a live collector run and cannot be resumed'']))
           | Some thread \<Rightarrow>
               (let w1 = w\<lparr>w_db := record_decision (pc_id r) a reviewer reason (w_db w)\<rparr> in
                case invoke (graph_for r (w_db w1)) thread (decision_for a) w1 of
                  Graph_raised e \<Rightarrow> Inl (Uncaught e)
                | Graph_returned errors published w2 \<Rightarrow>
                    (let final_status = (if published \<noteq> None then PUBLISHED else decision_status a);
                         s3 = update_change_status (pc_id r) final_status None (w_db w2)
                     in case get_change s3 (pc_id r) of
                          None \<Rightarrow> Inl (Uncaught (OtherError [Txt ''Could not refresh instance'']))
                        | Some r' \<Rightarrow>
                            Inr (\<lparr>ro_proposed_change = r', ro_published_restaurant_id = published,
                                  ro_errors = errors\<rparr>, w2\<lparr>w_db := s3\<rparr>)))))"

definition approve_change ::
  "review_services \<Rightarrow> checkpoints \<Rightarrow> uuid \<Rightarrow> user \<Rightarrow> string option \<Rightarrow> world \<Rightarrow> failure + review_outcome \<times> world" where
  "approve_change sv cps i reviewer reason w = resume_change (resume_graph sv cps) i Approve reviewer reason w"

definition reject_change ::
  "review_services \<Rightarrow> checkpoints \<Rightarrow> uuid \<Rightarrow> user \<Rightarrow> string option \<Rightarrow> world \<Rightarrow> failure + review_outcome \<times> world" where
  "reject_change sv cps i reviewer reason w = resume_change (resume_graph sv cps) i Reject reviewer reason w"

definition edit_then_approve_change ::
  "review_services \<Rightarrow> checkpoints \<Rightarrow> uuid \<Rightarrow> json \<Rightarrow> user \<Rightarrow> string option \<Rightarrow> world
     \<Rightarrow> failure + review_outcome \<times> world" where
  "edit_then_approve_change sv cps i edited reviewer reason w =
     (case require_pending i (w_db w) of
        Inl f \<Rightarrow> Inl f
      | Inr r \<Rightarrow>
          resume_change (resume_graph sv cps) i (Edit_then_approve edited) reviewer reason
            (w\<lparr>w_db := audit PROPOSED_CHANGE_EDIT AE_PROPOSED_CHANGE (uuid_str (pc_id r)) (actor_of reviewer) None []
                 (w_db w)\<rparr>))"

fun decide ::
  "review_services \<Rightarrow> checkpoints \<Rightarrow> uuid \<Rightarrow> review_action \<Rightarrow> user \<Rightarrow> string option \<Rightarrow> world
     \<Rightarrow> failure + review_outcome \<times> world" where
  "decide sv cps i Approve reviewer reason w = approve_change sv cps i reviewer reason w"
| "decide sv cps i Reject reviewer reason w = reject_change sv cps i reviewer reason w"
| "decide sv cps i (Edit_then_approve j) reviewer reason w = edit_then_approve_change sv cps i j reviewer reason w"

section \<open>What a resumed run promises the service\<close>

text \<open>What resuming the run of change \<open>c\<close> may do, given what the decision plans: nothing, or writing a
  restaurant's data (or the database refusing it).\<close>

definition carried_out :: "(uuid \<times> (exn + db)) option \<Rightarrow> uuid \<Rightarrow> bool \<Rightarrow> db \<Rightarrow> graph_result \<Rightarrow> bool" where
  "carried_out plan change_id wanted s res \<longleftrightarrow>
     (case plan of
        None \<Rightarrow> \<exists>errors w'. res = Graph_returned errors None w' \<and> production (w_db w') = production s
          \<and> db_proposed_changes (w_db w') = db_proposed_changes s \<and> db_approvals (w_db w') = db_approvals s
          \<and> (wanted \<longrightarrow> errors \<noteq> [])
      | Some (r, Inl e) \<Rightarrow> res = Graph_raised e
      | Some (r, Inr s1) \<Rightarrow> \<exists>w'. res = Graph_returned [] (Some r) w' \<and> production (w_db w') = production s1
          \<and> db_proposed_changes (w_db w') = update_by pc_id change_id (set_change_status PUBLISHED None) (db_proposed_changes s)
          \<and> db_approvals (w_db w') = db_approvals s)"

text \<open>What a decision leaves in the queue: the change in its final status, one approval more.\<close>

definition concluded ::
  "proposed_change \<Rightarrow> review_action \<Rightarrow> user \<Rightarrow> string option \<Rightarrow> change_status \<Rightarrow> db \<Rightarrow> db \<Rightarrow> bool" where
  "concluded c a reviewer reason status s s' \<longleftrightarrow>
     db_proposed_changes s' = update_by pc_id (pc_id c) (set_change_status status None) (db_proposed_changes s)
     \<and> (\<exists>ap. db_approvals s' = db_approvals s @ [ap] \<and> ap_proposed_change_id ap = pc_id c
          \<and> ap_decision ap = decision_status a \<and> ap_reviewer_user_id ap = us_id reviewer \<and> ap_reason ap = reason)"

lemma record_decision_frame [simp]:
  "db_proposed_changes (record_decision i a reviewer reason s) = db_proposed_changes s"
  "production (record_decision i a reviewer reason s) = production s"
  "get_change (record_decision i a reviewer reason s) j = get_change s j"
  "get_run (record_decision i a reviewer reason s) j = get_run s j"
  by (simp_all add: record_decision_def create_approval_def audit_def create_audit_log_def production_def
      get_change_def get_run_def)

lemma graph_for_frame [simp]: "graph_for c (record_decision i a reviewer reason s) = graph_for c s"
  by (simp add: graph_for_def split: option.split)

lemma record_decision_approvals:
  "\<exists>ap. db_approvals (record_decision i a reviewer reason s) = db_approvals s @ [ap] \<and> ap_proposed_change_id ap = i
     \<and> ap_decision ap = decision_status a \<and> ap_reviewer_user_id ap = us_id reviewer \<and> ap_reason ap = reason"
  by (simp add: record_decision_def create_approval_def audit_def create_audit_log_def)

lemma update_by_update_by:
  assumes "\<And>r. key (f r) = key r" "\<And>r. g (f r) = g r"
  shows "update_by key i g (update_by key i f rows) = update_by key i g rows"
  using assms by (simp add: update_by_def)

lemma set_change_status_simps [simp]:
  "pc_id (set_change_status x None r) = pc_id r"
  "set_change_status x None (set_change_status y None r) = set_change_status x None r"
  by (simp_all add: set_change_status_def Let_def)

lemma status_rewritten:
  assumes "db_proposed_changes s2 = update_by pc_id (pc_id c) (set_change_status x None) (db_proposed_changes s)"
    "db_approvals s2 = db_approvals (record_decision (pc_id c) a reviewer reason s)" "get_change s (pc_id c) = Some c"
  shows "concluded c a reviewer reason y s (update_change_status (pc_id c) y None s2)"
    "get_change (update_change_status (pc_id c) y None s2) (pc_id c) = Some (c\<lparr>pc_status := y\<rparr>)"
    "production (update_change_status (pc_id c) y None s2) = production s2"
  using assms record_decision_approvals [of "pc_id c" a reviewer reason s]
  by (simp_all add: concluded_def update_change_status_def update_by_update_by get_change_def change_status.get_updated
      set_change_status_def Let_def production_def)

lemma status_written:
  assumes "db_proposed_changes s2 = db_proposed_changes s"
    "db_approvals s2 = db_approvals (record_decision (pc_id c) a reviewer reason s)" "get_change s (pc_id c) = Some c"
  shows "concluded c a reviewer reason y s (update_change_status (pc_id c) y None s2)"
    "get_change (update_change_status (pc_id c) y None s2) (pc_id c) = Some (c\<lparr>pc_status := y\<rparr>)"
    "production (update_change_status (pc_id c) y None s2) = production s2"
  using assms record_decision_approvals [of "pc_id c" a reviewer reason s]
  by (simp_all add: concluded_def update_change_status_def get_change_def change_status.get_updated
      set_change_status_def Let_def production_def)

text \<open>A kind of paused run, seen by the service: how it is resumed, what a decision plans, whether it
  waits for a decision on a change.\<close>

locale paused_run =
  fixes resume :: "'st \<Rightarrow> decision \<Rightarrow> world \<Rightarrow> graph_result"
    and plan :: "'st \<Rightarrow> uuid \<Rightarrow> decision \<Rightarrow> db \<Rightarrow> (uuid \<times> (exn + db)) option"
    and waits :: "'st \<Rightarrow> proposed_change \<Rightarrow> db \<Rightarrow> bool"
  assumes resumed: "waits st c (w_db w) \<Longrightarrow>
      carried_out (plan st (pc_id c) (decision_for a) (w_db w)) (pc_id c) (a \<noteq> Reject) (w_db w)
        (resume st (decision_for a) w)"
    and rejected: "plan st i (decision_for Reject) s = None"
    and waits_frame: "db_proposed_changes s' = db_proposed_changes s \<Longrightarrow> waits st c s' = waits st c s"

begin

text \<open>The decision is recorded, the run does what was planned, and the row of the change ends in the
  status that says so.\<close>

lemma resume_change_effect:
  assumes "waits st c (w_db w)" "get_change (w_db w) (pc_id c) = Some c" "pc_status c = PC_PENDING"
    and "pc_thread_id c = Some th"
    and "\<And>d w'. w_db w' = record_decision (pc_id c) a reviewer reason (w_db w) \<Longrightarrow> invoke (graph_for c (w_db w')) th d w' = resume st d w'"
  shows "case plan st (pc_id c) (decision_for a) (record_decision (pc_id c) a reviewer reason (w_db w)) of
      Some (r, Inl e) \<Rightarrow> resume_change invoke (pc_id c) a reviewer reason w = Inl (Uncaught e)
    | Some (r, Inr s1) \<Rightarrow> a \<noteq> Reject \<and> (\<exists>out w'. resume_change invoke (pc_id c) a reviewer reason w = Inr (out, w')
        \<and> production (w_db w') = production s1 \<and> concluded c a reviewer reason PUBLISHED (w_db w) (w_db w')
        \<and> ro_published_restaurant_id out = Some r \<and> ro_errors out = []
        \<and> ro_proposed_change out = c\<lparr>pc_status := PUBLISHED\<rparr>)
    | None \<Rightarrow> \<exists>out w'. resume_change invoke (pc_id c) a reviewer reason w = Inr (out, w')
        \<and> production (w_db w') = production (w_db w) \<and> concluded c a reviewer reason (decision_status a) (w_db w) (w_db w')
        \<and> ro_published_restaurant_id out = None \<and> (a \<noteq> Reject \<longrightarrow> ro_errors out \<noteq> [])
        \<and> ro_proposed_change out = c\<lparr>pc_status := decision_status a\<rparr>"
proof -
  let ?w1 = "w\<lparr>w_db := record_decision (pc_id c) a reviewer reason (w_db w)\<rparr>"
  let ?d = "decision_for a"
  have run: "carried_out (plan st (pc_id c) ?d (w_db ?w1)) (pc_id c) (a \<noteq> Reject) (w_db ?w1) (resume st ?d ?w1)"
    using assms(1) by (intro resumed) (simp add: waits_frame [of "record_decision (pc_id c) a reviewer reason (w_db w)" "w_db w"])
  have go: "resume_change invoke (pc_id c) a reviewer reason w =
      (case resume st ?d ?w1 of
         Graph_raised e \<Rightarrow> Inl (Uncaught e)
       | Graph_returned errors published w2 \<Rightarrow>
           (let final_status = (if published \<noteq> None then PUBLISHED else decision_status a);
                s3 = update_change_status (pc_id c) final_status None (w_db w2)
            in case get_change s3 (pc_id c) of
                 None \<Rightarrow> Inl (Uncaught (OtherError [Txt ''Could not refresh instance'']))
               | Some r' \<Rightarrow> Inr (\<lparr>ro_proposed_change = r', ro_published_restaurant_id = published, ro_errors = errors\<rparr>,
                              w2\<lparr>w_db := s3\<rparr>)))"
    using assms(2-5) by (simp add: resume_change_def require_pending_def Let_def)
  show ?thesis
  proof (cases "plan st (pc_id c) ?d (w_db ?w1)")
    case None
    with run obtain errors w2 where r: "resume st ?d ?w1 = Graph_returned errors None w2"
      "production (w_db w2) = production (w_db w)" "db_proposed_changes (w_db w2) = db_proposed_changes (w_db w)"
      "db_approvals (w_db w2) = db_approvals (w_db ?w1)" "a \<noteq> Reject \<longrightarrow> errors \<noteq> []"
      by (auto simp: carried_out_def)
    then show ?thesis
      using None go assms(2) status_written [of "w_db w2" "w_db w" c a reviewer reason "decision_status a"] by (simp add: r Let_def)
  next
    case (Some rp)
    obtain r p where rp: "rp = (r, p)" by (cases rp)
    have a: "a \<noteq> Reject" using Some rejected by auto
    show ?thesis
    proof (cases p)
      case (Inl e)
      then show ?thesis using Some rp run go by (simp add: carried_out_def)
    next
      case (Inr s1)
      with Some rp run obtain w2 where r: "resume st ?d ?w1 = Graph_returned [] (Some r) w2"
        "production (w_db w2) = production s1"
        "db_proposed_changes (w_db w2) = update_by pc_id (pc_id c) (set_change_status PUBLISHED None) (db_proposed_changes (w_db w))"
        "db_approvals (w_db w2) = db_approvals (w_db ?w1)"
        by (auto simp: carried_out_def)
      then show ?thesis
        using Some rp Inr go a assms(2) status_rewritten [of "w_db w2" c PUBLISHED "w_db w" a reviewer reason PUBLISHED] by (simp add: r Let_def)
    qed
  qed
qed

end

section \<open>The two kinds of paused run\<close>

text \<open>Neither publishing touches the approvals.\<close>

definition desk :: "db \<Rightarrow> proposed_change list \<times> approval list" where
  "desk s = (db_proposed_changes s, db_approvals s)"

lemma desk_eq: "desk s' = desk s \<longleftrightarrow> db_proposed_changes s' = db_proposed_changes s \<and> db_approvals s' = db_approvals s"
  by (simp add: desk_def)

lemma persist_tree_desk: "persist_tree r s = Inr s' \<Longrightarrow> desk s' = desk s"
  by (auto simp: persist_tree_def desk_def Let_def split: if_splits)

lemma patch_dish_desk: "patch_dish target delta e ps = Inr ps' \<Longrightarrow> desk (fst ps') = desk (fst ps)"
  by (cases ps; cases e) (auto simp: patch_dish_def put_dish_def delete_dish_def desk_def Let_def
      split: if_splits option.splits)

lemma patch_dishes_desk: "patch_dishes target delta es ps = Inr ps' \<Longrightarrow> desk (fst ps') = desk (fst ps)"
  by (induction es arbitrary: ps) (auto split: sum.splits dest!: patch_dish_desk)

lemma apply_patch_desk: "apply_patch i target delta s = Inr s' \<Longrightarrow> desk s' = desk s"
  by (auto simp: apply_patch_def Let_def map_sum_def split: prod.splits if_splits sum.splits dest!: patch_dishes_desk)
    (simp_all add: desk_def)

definition collector_plan :: "services \<Rightarrow> collector_state \<Rightarrow> uuid \<Rightarrow> decision \<Rightarrow> db \<Rightarrow> (uuid \<times> (exn + db)) option" where
  "collector_plan sv st i d s = map_option (\<lambda>r. (r_id r, persist_tree r s)) (publishable sv (decided_payload st d) i s)"

definition collector_waits :: "collector_state \<Rightarrow> proposed_change \<Rightarrow> db \<Rightarrow> bool" where
  "collector_waits st c s \<longleftrightarrow>
     cs_structured_json st \<noteq> None \<and> cs_restaurant st \<noteq> None \<and> cs_human_approval_status st = None
     \<and> cs_published_restaurant_id st = None \<and> cs_errors st = []
     \<and> (case cs_agent_run_id st of None \<Rightarrow> False | Some th \<Rightarrow> changes_of_thread th s = [c])"

definition sync_plan :: "reviewer_services \<Rightarrow> reviewer_state \<Rightarrow> uuid \<Rightarrow> decision \<Rightarrow> db \<Rightarrow> (uuid \<times> (exn + db)) option" where
  "sync_plan sv st i d s =
     map_option (\<lambda>(r, delta). (r_id r, apply_patch (r_id r) r delta s)) (applicable sv (decided_sync_payload st d) (vs_delta st) s)"

definition sync_waits :: "reviewer_state \<Rightarrow> proposed_change \<Rightarrow> db \<Rightarrow> bool" where
  "sync_waits st c s \<longleftrightarrow>
     vs_validated_json st \<noteq> None \<and> vs_restaurant st \<noteq> None \<and> vs_human_approval_status st = None
     \<and> vs_published_restaurant_id st = None \<and> vs_errors st = []
     \<and> (case vs_agent_run_id st of None \<Rightarrow> False | Some th \<Rightarrow> changes_of_thread th s = [c])"

lemma decided_payload_for:
  "cs_structured_json st \<noteq> None \<Longrightarrow> decided_payload st (decision_for a) = None \<longleftrightarrow> a = Reject"
  "vs_validated_json vst \<noteq> None \<Longrightarrow> decided_sync_payload vst (decision_for a) = None \<longleftrightarrow> a = Reject"
  by (cases a; simp add: decided_payload_def decided_sync_payload_def decision_for_def)+

lemma publish_write_approvals: "publish_write st i r s = Inr (us, s') \<Longrightarrow> db_approvals s' = db_approvals s"
  by (auto simp: publish_write_def Let_def update_change_status_def audit_def create_audit_log_def mark_succeeded_def desk_eq
      split: sum.splits option.splits dest!: persist_tree_desk)

lemma publish_fail_errors:
  "publish_fail st msg s = Inr (us, s') \<Longrightarrow> db_approvals s' = db_approvals s \<and> cs_errors (merge us st2) \<noteq> []"
  by (auto simp: publish_fail_def node_error_def mark_failed_def split: option.splits)

lemma sync_write_approvals: "sync_publish_write st i r delta s = Inr (us, s') \<Longrightarrow> db_approvals s' = db_approvals s"
  by (auto simp: sync_publish_write_def Let_def update_change_status_def audit_def create_audit_log_def mark_succeeded_def
      desk_eq split: sum.splits option.splits dest!: apply_patch_desk)

lemma sync_fail_errors:
  "sync_publish_fail st msg s = Inr (us, s') \<Longrightarrow> db_approvals s' = db_approvals s \<and> vs_errors (review_merge us st2) \<noteq> []"
  by (auto simp: sync_publish_fail_def review_error_def mark_failed_def split: option.splits)

text \<open>What resuming leaves in the approvals and reports as errors.\<close>

lemma collector_resumed_desk:
  assumes p: "human_review_node st None s0 = Inr (Paused t, w_db w)" "cs_human_approval_status st = None"
    and res: "collector_outcome (resume_collector sv st d w) = Graph_returned errors pub w'"
  shows "db_approvals (w_db w') = db_approvals (w_db w)"
    "decided_payload st d \<noteq> None \<Longrightarrow> publishable sv (decided_payload st d) (rt_proposed_change_id t) (w_db w) = None \<Longrightarrow> errors \<noteq> []"
proof -
  let ?i = "rt_proposed_change_id t"
  let ?st = "merge (apply_decision ?i d) st"
  have "cs_structured_json st \<noteq> None" by (rule human_review_pauses [OF p(1)]) simp
  note dec = decided [OF p(2) this, of ?i d] and steps = resume_steps [OF p, of sv d]
  show "db_approvals (w_db w') = db_approvals (w_db w)"
    "decided_payload st d \<noteq> None \<Longrightarrow> publishable sv (decided_payload st d) ?i (w_db w) = None \<Longrightarrow> errors \<noteq> []"
  proof (atomize (full), cases "decided_payload st d")
    case None
    then show "db_approvals (w_db w') = db_approvals (w_db w) \<and> (decided_payload st d \<noteq> None \<longrightarrow>
        publishable sv (decided_payload st d) ?i (w_db w) = None \<longrightarrow> errors \<noteq> [])"
      using dec steps res by (auto simp: collector_outcome_def Let_def)
  next
    case (Some j)
    then have st: "?st = st\<lparr>cs_proposed_change_id := Some ?i, cs_human_approval_status := Some APPROVED,
        cs_structured_json := Some j\<rparr>" using dec by simp
    have pub: "case publishable sv (Some j) ?i (w_db w) of
        None \<Rightarrow> \<exists>msg. publish_node sv ?st (w_db w) = publish_fail ?st msg (w_db w)
      | Some r \<Rightarrow> publish_node sv ?st (w_db w) = publish_write ?st ?i r (w_db w)"
      by (rule publish_node_spec) (simp_all add: st)
    obtain us s' where pn: "publish_node sv ?st (w_db w) = Inr (us, s')" "errors = cs_errors (merge us ?st)"
      "w_db w' = s'"
      using steps res by (auto simp: collector_outcome_def Let_def st split: sum.splits)
    show "db_approvals (w_db w') = db_approvals (w_db w) \<and> (decided_payload st d \<noteq> None \<longrightarrow>
        publishable sv (decided_payload st d) ?i (w_db w) = None \<longrightarrow> errors \<noteq> [])"
    proof (cases "publishable sv (Some j) ?i (w_db w)")
      case None
      then obtain msg where "publish_node sv ?st (w_db w) = publish_fail ?st msg (w_db w)" using pub by auto
      then have "publish_fail ?st msg (w_db w) = Inr (us, s')" using pn(1) by simp
      from publish_fail_errors [OF this, of ?st] show ?thesis using pn by simp
    next
      case written: (Some r)
      then have "publish_write ?st ?i r (w_db w) = Inr (us, s')" using pub pn(1) by simp
      from publish_write_approvals [OF this] show ?thesis using pn written Some by (simp add: st)
    qed
  qed
qed

lemma sync_resumed_desk:
  assumes p: "human_final_sync_node st None s0 = Inr (Paused t, w_db w)" "vs_human_approval_status st = None"
    and res: "reviewer_outcome (resume_review sv st d w) = Graph_returned errors pub w'"
  shows "db_approvals (w_db w') = db_approvals (w_db w)"
    "decided_sync_payload st d \<noteq> None \<Longrightarrow> applicable sv (decided_sync_payload st d) (vs_delta st) (w_db w) = None \<Longrightarrow> errors \<noteq> []"
proof -
  let ?i = "rt_proposed_change_id t"
  let ?st = "review_merge (apply_sync_decision ?i d) st"
  have "vs_validated_json st \<noteq> None" by (rule human_final_sync_pauses [OF p(1)]) simp
  note dec = sync_decided [OF p(2) this, of ?i d] and steps = review_resume_steps [OF p, of sv d]
  show "db_approvals (w_db w') = db_approvals (w_db w)"
    "decided_sync_payload st d \<noteq> None \<Longrightarrow> applicable sv (decided_sync_payload st d) (vs_delta st) (w_db w) = None \<Longrightarrow> errors \<noteq> []"
  proof (atomize (full), cases "decided_sync_payload st d")
    case None
    then show "db_approvals (w_db w') = db_approvals (w_db w) \<and> (decided_sync_payload st d \<noteq> None \<longrightarrow>
        applicable sv (decided_sync_payload st d) (vs_delta st) (w_db w) = None \<longrightarrow> errors \<noteq> [])"
      using dec steps res by (auto simp: reviewer_outcome_def Let_def)
  next
    case (Some j)
    then have st: "?st = st\<lparr>vs_proposed_change_id := Some ?i, vs_human_approval_status := Some APPROVED,
        vs_validated_json := Some j\<rparr>" using dec by simp
    have pub: "case applicable sv (Some j) (vs_delta ?st) (w_db w) of
        None \<Rightarrow> \<exists>msg. sync_publish_node sv ?st (w_db w) = sync_publish_fail ?st msg (w_db w)
      | Some (r, delta) \<Rightarrow> sync_publish_node sv ?st (w_db w) = sync_publish_write ?st ?i r delta (w_db w)"
      by (rule sync_publish_spec) (simp_all add: st)
    obtain us s' where pn: "sync_publish_node sv ?st (w_db w) = Inr (us, s')" "errors = vs_errors (review_merge us ?st)"
      "w_db w' = s'"
      using steps res by (auto simp: reviewer_outcome_def Let_def st split: sum.splits)
    show "db_approvals (w_db w') = db_approvals (w_db w) \<and> (decided_sync_payload st d \<noteq> None \<longrightarrow>
        applicable sv (decided_sync_payload st d) (vs_delta st) (w_db w) = None \<longrightarrow> errors \<noteq> [])"
    proof (cases "applicable sv (Some j) (vs_delta ?st) (w_db w)")
      case None
      then obtain msg where "sync_publish_node sv ?st (w_db w) = sync_publish_fail ?st msg (w_db w)" using pub by auto
      then have "sync_publish_fail ?st msg (w_db w) = Inr (us, s')" using pn(1) by simp
      from sync_fail_errors [OF this, of ?st] show ?thesis using pn by simp
    next
      case written: (Some r)
      obtain r1 delta where r: "r = (r1, delta)" by (cases r)
      with written have "sync_publish_write ?st ?i r1 delta (w_db w) = Inr (us, s')" using pub pn(1) by simp
      from sync_write_approvals [OF this] show ?thesis using pn written Some by (simp add: st)
    qed
  qed
qed

interpretation collector_run: paused_run
  "\<lambda>st d w. collector_outcome (resume_collector sv st d w)" "collector_plan sv" collector_waits for sv
proof
  fix st c and w :: world and a
  assume "collector_waits st c (w_db w)"
  then obtain j r th where st: "cs_structured_json st = Some j" "cs_restaurant st = Some r" "cs_agent_run_id st = Some th"
    "changes_of_thread th (w_db w) = [c]" "cs_human_approval_status st = None" "cs_published_restaurant_id st = None"
    "cs_errors st = []"
    by (auto simp: collector_waits_def split: option.splits)
  let ?t = "review_task_for c r (cs_validation_result st)" and ?d = "decision_for a"
  have p: "human_review_node st None (w_db w) = Inr (Paused ?t, w_db w)"
    using human_review_found [OF st(1-4), of None] by (simp add: interrupt_def)
  have t: "rt_proposed_change_id ?t = pc_id c" by (simp add: review_task_for_def)
  have pay: "decided_payload st ?d = None \<longleftrightarrow> a = Reject" using decided_payload_for(1) [of st a] st(1) by simp
  note res = resume_decided [OF p st(5), of sv ?d, unfolded t]
  note more = collector_resumed_desk [OF p st(5), of sv ?d, unfolded t]
  show "carried_out (collector_plan sv st (pc_id c) ?d (w_db w)) (pc_id c) (a \<noteq> Reject) (w_db w)
      (collector_outcome (resume_collector sv st ?d w))"
  proof (cases "publishable sv (decided_payload st ?d) (pc_id c) (w_db w)")
    case None
    with res st(6) obtain st' w' where r: "resume_collector sv st ?d w = Finished st' w'"
      "production (w_db w') = production (w_db w)" "db_proposed_changes (w_db w') = db_proposed_changes (w_db w)"
      "cs_published_restaurant_id st' = None"
      by (auto simp: decided_result_def)
    then show ?thesis
      using None more [of "cs_errors st'" None w'] pay by (simp add: carried_out_def collector_plan_def collector_outcome_def)
  next
    case (Some x)
    show ?thesis
    proof (cases "persist_tree x (w_db w)")
      case (Inl e)
      then show ?thesis
        using res Some by (simp add: decided_result_def carried_out_def collector_plan_def collector_outcome_def)
    next
      case (Inr s1)
      with res Some st(7) obtain st' w' where r: "resume_collector sv st ?d w = Finished st' w'"
        "production (w_db w') = production s1"
        "db_proposed_changes (w_db w') = update_by pc_id (pc_id c) (set_change_status PUBLISHED None) (db_proposed_changes (w_db w))"
        "cs_published_restaurant_id st' = Some (r_id x)" "cs_errors st' = []"
        by (auto simp: decided_result_def)
      then show ?thesis
        using Some Inr more(1) [of "[]" "Some (r_id x)" w'] by (simp add: carried_out_def collector_plan_def collector_outcome_def)
    qed
  qed
qed (simp_all add: collector_plan_def collector_waits_def decided_payload_def decision_for_def publishable_def
    changes_of_thread_def split: option.split)

interpretation sync_run: paused_run
  "\<lambda>st d w. reviewer_outcome (resume_review sv st d w)" "sync_plan sv" sync_waits for sv
proof
  fix st c and w :: world and a
  assume "sync_waits st c (w_db w)"
  then obtain j r th where st: "vs_validated_json st = Some j" "vs_restaurant st = Some r" "vs_agent_run_id st = Some th"
    "changes_of_thread th (w_db w) = [c]" "vs_human_approval_status st = None" "vs_published_restaurant_id st = None"
    "vs_errors st = []"
    by (auto simp: sync_waits_def split: option.splits)
  let ?t = "sync_task_for c r (vs_validation_result st) (vs_delta st)" and ?d = "decision_for a"
  have p: "human_final_sync_node st None (w_db w) = Inr (Paused ?t, w_db w)"
    using human_final_sync_found [OF st(1-4), of None] by (simp add: interrupt_def)
  have t: "rt_proposed_change_id ?t = pc_id c" by (simp add: sync_task_for_def)
  have pay: "decided_sync_payload st ?d = None \<longleftrightarrow> a = Reject" using decided_payload_for(2) [of st a] st(1) by simp
  note res = resume_synced [OF p st(5), of sv ?d, unfolded t]
  note more = sync_resumed_desk [OF p st(5), of sv ?d, unfolded t]
  show "carried_out (sync_plan sv st (pc_id c) ?d (w_db w)) (pc_id c) (a \<noteq> Reject) (w_db w)
      (reviewer_outcome (resume_review sv st ?d w))"
  proof (cases "applicable sv (decided_sync_payload st ?d) (vs_delta st) (w_db w)")
    case None
    with res st(6) obtain st' w' where r: "resume_review sv st ?d w = Review_finished st' w'"
      "production (w_db w') = production (w_db w)" "db_proposed_changes (w_db w') = db_proposed_changes (w_db w)"
      "vs_published_restaurant_id st' = None"
      by (auto simp: synced_result_def)
    then show ?thesis
      using None more [of "vs_errors st'" None w'] pay by (simp add: carried_out_def sync_plan_def reviewer_outcome_def)
  next
    case (Some rd)
    obtain x delta where rd: "rd = (x, delta)" by (cases rd)
    show ?thesis
    proof (cases "apply_patch (r_id x) x delta (w_db w)")
      case (Inl e)
      then show ?thesis
        using res Some rd by (simp add: synced_result_def carried_out_def sync_plan_def reviewer_outcome_def)
    next
      case (Inr s1)
      with res Some rd st(7) obtain st' w' where r: "resume_review sv st ?d w = Review_finished st' w'"
        "production (w_db w') = production s1"
        "db_proposed_changes (w_db w') = update_by pc_id (pc_id c) (set_change_status PUBLISHED None) (db_proposed_changes s1)"
        "vs_published_restaurant_id st' = Some (r_id x)" "vs_errors st' = []"
        by (auto simp: synced_result_def)
      then show ?thesis
        using Some rd Inr more(1) [of "[]" "Some (r_id x)" w'] apply_patch_desk [OF Inr]
        by (simp add: carried_out_def sync_plan_def reviewer_outcome_def desk_eq)
    qed
  qed
qed (simp_all add: sync_plan_def sync_waits_def decided_sync_payload_def decision_for_def applicable_def
    changes_of_thread_def split: option.split)

section \<open>Decisions on waiting changes\<close>

text \<open>A change whose thread has a checkpoint of the graph its run belongs to, paused on it.\<close>

definition awaiting :: "checkpoints \<Rightarrow> proposed_change \<Rightarrow> db \<Rightarrow> bool" where
  "awaiting cps c s \<longleftrightarrow>
     (case pc_thread_id c of
        None \<Rightarrow> False
      | Some th \<Rightarrow>
          (case (graph_for c s, cps th) of
             (COLLECTOR, Some (At_human_review st)) \<Rightarrow> collector_waits st c s
           | (REVIEWER, Some (At_final_sync st)) \<Rightarrow> sync_waits st c s
           | _ \<Rightarrow> False))"

text \<open>What a decision on it would write to production.\<close>

definition planned_write ::
  "review_services \<Rightarrow> checkpoints \<Rightarrow> proposed_change \<Rightarrow> decision \<Rightarrow> db \<Rightarrow> (uuid \<times> (exn + db)) option" where
  "planned_write sv cps c d s =
     (case pc_thread_id c of
        None \<Rightarrow> None
      | Some th \<Rightarrow>
          (case (graph_for c s, cps th) of
             (COLLECTOR, Some (At_human_review st)) \<Rightarrow> collector_plan (rs_collector sv) st (pc_id c) d s
           | (REVIEWER, Some (At_final_sync st)) \<Rightarrow> sync_plan (rs_reviewer sv) st (pc_id c) d s
           | _ \<Rightarrow> None))"

text \<open>The database the resumed run sees.\<close>

definition edit_recorded :: "proposed_change \<Rightarrow> review_action \<Rightarrow> user \<Rightarrow> db \<Rightarrow> db" where
  "edit_recorded c a reviewer s =
     (case a of
        Edit_then_approve _ \<Rightarrow>
          audit PROPOSED_CHANGE_EDIT AE_PROPOSED_CHANGE (uuid_str (pc_id c)) (actor_of reviewer) None [] s
      | _ \<Rightarrow> s)"

definition decision_recorded :: "proposed_change \<Rightarrow> review_action \<Rightarrow> user \<Rightarrow> string option \<Rightarrow> db \<Rightarrow> db" where
  "decision_recorded c a reviewer reason s = record_decision (pc_id c) a reviewer reason (edit_recorded c a reviewer s)"

lemma edit_recorded_frame [simp]:
  "db_proposed_changes (edit_recorded c a reviewer s) = db_proposed_changes s"
  "db_approvals (edit_recorded c a reviewer s) = db_approvals s"
  "production (edit_recorded c a reviewer s) = production s"
  "get_change (edit_recorded c a reviewer s) i = get_change s i"
  "get_run (edit_recorded c a reviewer s) i = get_run s i"
  by (cases a; simp add: edit_recorded_def get_change_def get_run_def audit_def create_audit_log_def production_def)+

lemma edit_recorded_graph [simp]: "graph_for c (edit_recorded c' a reviewer s) = graph_for c s"
  by (simp add: graph_for_def split: option.split)

lemma decide_unfold:
  assumes "get_change (w_db w) (pc_id c) = Some c" "pc_status c = PC_PENDING"
  shows "decide sv cps (pc_id c) a reviewer reason w =
    resume_change (resume_graph sv cps) (pc_id c) a reviewer reason (w\<lparr>w_db := edit_recorded c a reviewer (w_db w)\<rparr>)"
  using assms
  by (cases a) (simp_all add: approve_change_def reject_change_def edit_then_approve_change_def edit_recorded_def
      require_pending_def)

lemma concluded_edit [simp]:
  "concluded c a reviewer reason status (edit_recorded c a' reviewer' s) s' = concluded c a reviewer reason status s s'"
  by (simp add: concluded_def)


section \<open>A decided change stays decided\<close>

definition settled :: "uuid \<Rightarrow> db \<Rightarrow> bool" where
  "settled i s \<longleftrightarrow> (\<exists>c. get_change s i = Some c \<and> pc_status c \<noteq> PC_PENDING)"

lemma settled_appended: "settled i s \<Longrightarrow> db_proposed_changes s' = db_proposed_changes s @ cs \<Longrightarrow> settled i s'"
  by (auto simp: settled_def get_change_def row_by_append)

lemma settled_same: "settled i s \<Longrightarrow> db_proposed_changes s' = db_proposed_changes s \<Longrightarrow> settled i s'"
  by (simp add: settled_def get_change_def)

lemma settled_status:
  assumes "settled i s" "status \<noteq> PC_PENDING"
    "db_proposed_changes s' = update_by pc_id j (set_change_status status None) (db_proposed_changes s)"
  shows "settled i s'"
  using assms
  by (cases "i = j") (auto simp: settled_def get_change_def change_status.get_updated change_status.get_other
      set_change_status_def Let_def)

lemma settled_review: "human_review_node st r s = Inr (out, s') \<Longrightarrow> settled i s \<Longrightarrow> settled i s'"
  by (auto simp: human_review_node_def create_proposed_change_def audit_def create_audit_log_def Let_def
      split: option.splits sum.splits elim: settled_same intro: settled_appended)

lemma settled_sync: "human_final_sync_node st r s = Inr (out, s') \<Longrightarrow> settled i s \<Longrightarrow> settled i s'"
  by (auto simp: human_final_sync_node_def create_proposed_change_def audit_def create_audit_log_def Let_def
      split: option.splits sum.splits elim: settled_same intro: settled_appended)

lemma settled_write:
  assumes "publish_write st j r s = Inr (us, s')" "settled i s"
  shows "settled i s'"
proof -
  from publish_write_Inr [OF assms(1)] obtain s1 where "persist_tree r s = Inr s1"
    "db_proposed_changes s' = update_by pc_id j (set_change_status PUBLISHED None) (db_proposed_changes s1)" by blast
  then show ?thesis using persist_tree_frame settled_status [OF assms(2), of PUBLISHED s' j] by simp
qed

lemma settled_sync_write:
  assumes "sync_publish_write st j r delta s = Inr (us, s')" "settled i s"
  shows "settled i s'"
proof -
  from sync_publish_write_Inr [OF assms(1)] obtain s1 where "apply_patch (r_id r) r delta s = Inr s1"
    "db_proposed_changes s' = update_by pc_id j (set_change_status PUBLISHED None) (db_proposed_changes s1)" by blast
  then show ?thesis using apply_patch_desk settled_status [OF assms(2), of PUBLISHED s' j] by (simp add: desk_eq)
qed

lemma settled_fail:
  "publish_fail st msg s = Inr (us, s') \<Longrightarrow> settled i s \<Longrightarrow> settled i s'"
  "sync_publish_fail vst msg s = Inr (vus, s') \<Longrightarrow> settled i s \<Longrightarrow> settled i s'"
  using publish_fail_frame sync_publish_fail_frame settled_same by blast+

lemma settled_publish: "publish_node sv st s = Inr (us, s') \<Longrightarrow> settled i s \<Longrightarrow> settled i s'"
  unfolding publish_node_def Let_def
  by (auto split: if_splits option.splits sum.splits intro: settled_fail settled_write)

lemma settled_sync_publish: "sync_publish_node sv st s = Inr (us, s') \<Longrightarrow> settled i s \<Longrightarrow> settled i s'"
  unfolding sync_publish_node_def Let_def
  by (auto split: if_splits option.splits sum.splits intro: settled_fail settled_sync_write)

text \<open>Whatever state a run is resumed from.\<close>

lemma settled_resume_collector:
  assumes "collector_outcome (resume_collector sv st d w) = Graph_returned errors pub w'" "settled i (w_db w)"
  shows "settled i (w_db w')"
proof -
  have publish: "settled i (w_db w2)" if "collector_outcome (run_from sv PUBLISH st1 None w1) = Graph_returned errors pub w2"
    "settled i (w_db w1)" for st1 w1 w2
  proof (cases "publish_node sv st1 (w_db w1)")
    case (Inl e)
    then show ?thesis using that(1) by (subst (asm) run_from.simps) (simp add: on_db_def collector_outcome_def)
  next
    case (Inr p)
    obtain us s' where "publish_node sv st1 (w_db w1) = Inr (us, s')" using Inr by (cases p) simp
    moreover from this have "w_db w2 = s'"
      using that(1) by (subst (asm) run_from.simps) (auto simp: on_db_def collector_outcome_def Let_def)
    ultimately show ?thesis using settled_publish that(2) by simp
  qed
  show ?thesis
    using assms unfolding resume_collector_def
    by (subst (asm) run_from.simps)
      (auto simp: Let_def route_after_human_review_def split: sum.splits prod.splits outcome.splits if_splits
        intro: publish [where ?w1.0 = "w\<lparr>w_db := s\<rparr>" for s, simplified] settled_review simp: collector_outcome_def [of "Finished _ _"] collector_outcome_def [of "Raised _"]
          collector_outcome_def [of "Interrupted _ _ _"])
qed

lemma settled_resume_review:
  assumes "reviewer_outcome (resume_review sv st d w) = Graph_returned errors pub w'" "settled i (w_db w)"
  shows "settled i (w_db w')"
proof -
  have publish: "settled i (w_db w2)" if "reviewer_outcome (review_from sv SYNC_PUBLISH st1 None w1) = Graph_returned errors pub w2"
    "settled i (w_db w1)" for st1 w1 w2
  proof (cases "sync_publish_node sv st1 (w_db w1)")
    case (Inl e)
    then show ?thesis using that(1) by (subst (asm) review_from.simps) (simp add: returned_db_def reviewer_outcome_def)
  next
    case (Inr p)
    obtain us s' where "sync_publish_node sv st1 (w_db w1) = Inr (us, s')" using Inr by (cases p) simp
    moreover from this have "w_db w2 = s'"
      using that(1) by (subst (asm) review_from.simps) (auto simp: returned_db_def reviewer_outcome_def Let_def)
    ultimately show ?thesis using settled_sync_publish that(2) by simp
  qed
  show ?thesis
    using assms unfolding resume_review_def
    by (subst (asm) review_from.simps)
      (auto simp: Let_def route_after_human_final_sync_def split: sum.splits prod.splits outcome.splits if_splits
        intro: publish [where ?w1.0 = "w\<lparr>w_db := s\<rparr>" for s, simplified] settled_sync simp: reviewer_outcome_def [of "Review_finished _ _"] reviewer_outcome_def [of "Review_raised _"]
          reviewer_outcome_def [of "Review_interrupted _ _ _"])
qed

lemma settled_resume_graph:
  "resume_graph sv cps wt th d w = Graph_returned errors pub w' \<Longrightarrow> settled i (w_db w) \<Longrightarrow> settled i (w_db w')"
  by (auto simp: resume_graph_def no_checkpoint_def intro: settled_resume_collector settled_resume_review
      split: workflow_type.splits option.splits checkpoint.splits)

text \<open>Decisions, and anything that only adds changes to the queue, as every run of a workflow does.\<close>

inductive review_step :: "review_services \<Rightarrow> world \<Rightarrow> world \<Rightarrow> bool" for sv where
  decided: "decide sv cps i a reviewer reason w = Inr (out, w') \<Longrightarrow> review_step sv w w'"
| added: "db_proposed_changes (w_db w') = db_proposed_changes (w_db w) @ cs \<Longrightarrow> review_step sv w w'"

lemma resume_change_settles:
  assumes "resume_change invoke i a reviewer reason w = Inr (out, w')"
    and invoke: "\<And>wt th d w1 errors pub w2 j. invoke wt th d w1 = Graph_returned errors pub w2 \<Longrightarrow>
      settled j (w_db w1) \<Longrightarrow> settled j (w_db w2)"
  shows "settled i (w_db w')" "settled j (w_db w) \<Longrightarrow> settled j (w_db w')"
proof -
  obtain r th errors pub w2 where r: "require_pending i (w_db w) = Inr r" "pc_thread_id r = Some th"
    and run: "invoke (graph_for r (w_db w)) th (decision_for a) (w\<lparr>w_db := record_decision (pc_id r) a reviewer reason (w_db w)\<rparr>)
      = Graph_returned errors pub w2"
    and w': "w_db w' = update_change_status (pc_id r) (if pub \<noteq> None then PUBLISHED else decision_status a) None (w_db w2)"
      "get_change (w_db w') (pc_id r) \<noteq> None"
    using assms(1)
    by (auto simp: resume_change_def Let_def split: sum.splits option.splits graph_result.splits)
  have id: "pc_id r = i" using r(1)
    by (auto simp: require_pending_def get_change_def dest!: row_by_SomeD split: option.splits if_splits)
  let ?final = "if pub \<noteq> None then PUBLISHED else decision_status a"
  have final: "?final \<noteq> PC_PENDING" by (cases a) auto
  have rows: "db_proposed_changes (w_db w') = update_by pc_id i (set_change_status ?final None) (db_proposed_changes (w_db w2))"
    using w'(1) id by (simp add: update_change_status_def)
  show "settled i (w_db w')"
    using w'(2) final unfolding id settled_def get_change_def rows
    by (auto simp: change_status.get_updated set_change_status_def Let_def)
  have "settled j (w_db w) \<Longrightarrow> settled j (record_decision (pc_id r) a reviewer reason (w_db w))"
    by (erule settled_same) simp
  then show "settled j (w_db w) \<Longrightarrow> settled j (w_db w')"
    using invoke [OF run, of j] settled_status [OF _ final rows] by simp
qed

lemma decide_settles:
  assumes "decide sv cps i a reviewer reason w = Inr (out, w')"
  shows "settled i (w_db w')" "settled j (w_db w) \<Longrightarrow> settled j (w_db w')"
proof -
  obtain r where "require_pending i (w_db w) = Inr r"
    using assms by (cases a; auto simp: approve_change_def reject_change_def edit_then_approve_change_def
        resume_change_def split: sum.splits)
  then have c: "get_change (w_db w) (pc_id r) = Some r" "pc_status r = PC_PENDING" "pc_id r = i"
    by (auto simp: require_pending_def get_change_def dest: row_by_SomeD split: option.splits if_splits)
  from assms have run: "resume_change (resume_graph sv cps) i a reviewer reason (w\<lparr>w_db := edit_recorded r a reviewer (w_db w)\<rparr>)
      = Inr (out, w')"
    using decide_unfold [OF c(1,2), of sv cps a reviewer reason] c(3) by simp
  show "settled i (w_db w')" using resume_change_settles(1) [OF run] settled_resume_graph by blast
  have "settled j (w_db w) \<Longrightarrow> settled j (w_db w')" if "settled j (edit_recorded r a reviewer (w_db w))"
    using resume_change_settles(2) [OF run, of j] settled_resume_graph that by fastforce
  then show "settled j (w_db w) \<Longrightarrow> settled j (w_db w')"
    by (meson edit_recorded_frame(1) settled_same)
qed

lemma settled_steps: "(review_step sv)\<^sup>*\<^sup>* w w' \<Longrightarrow> settled i (w_db w) \<Longrightarrow> settled i (w_db w')"
  by (induction rule: rtranclp_induct)
    (auto elim!: review_step.cases intro: decide_settles(2) settled_appended)

lemma settled_conflict:
  assumes "settled i (w_db w)"
  shows "\<exists>m. decide sv cps i a reviewer reason w = Inl (App (ConflictError m))"
proof -
  obtain m where "require_pending i (w_db w) = Inl (App (ConflictError m))"
    using assms by (auto simp: settled_def require_pending_def)
  then show ?thesis
    by (cases a) (simp_all add: approve_change_def reject_change_def edit_then_approve_change_def resume_change_def)
qed


section \<open>A decision\<close>

definition sample_review_services :: review_services where
  "sample_review_services =
     \<lparr>rs_collector = sample_services, rs_reviewer = sample_reviewer, rs_no_checkpoint = (\<lambda>_ _. None)\<rparr>"

text \<open>A run paused on the sample restaurant, its checkpoint under the thread of the change.\<close>

definition sample_change :: proposed_change where
  "sample_change =
     \<lparr>pc_id = 50, pc_entity_type = PC_RESTAURANT, pc_entity_id = r_id sample_restaurant,
      pc_structured_json = dump_restaurant sample_restaurant, pc_validation_result = JObj [], pc_status = PC_PENDING,
      pc_agent_run_id = Some 40, pc_source_id = None, pc_thread_id = Some 40, pc_created_by = None, pc_created_at = 0\<rparr>"

definition sample_paused_state :: collector_state where
  "sample_paused_state = (initial_state sample_restaurant None)
     \<lparr>cs_structured_json := Some (dump_restaurant sample_restaurant), cs_agent_run_id := Some 40\<rparr>"

definition sample_checkpoints :: checkpoints where
  "sample_checkpoints th = (if th = 40 then Some (At_human_review sample_paused_state) else None)"

definition sample_desk :: world where
  "sample_desk = \<lparr>w_db = empty_db\<lparr>db_proposed_changes := [sample_change]\<rparr>, w_files = Map.empty\<rparr>"

lemma sample_desk_waits:
  "awaiting sample_checkpoints sample_change (w_db sample_desk)"
  "get_change (w_db sample_desk) (pc_id sample_change) = Some sample_change" "pc_status sample_change = PC_PENDING"
  by (code_simp, code_simp, code_simp)

lemma sample_desk_plan:
  "case planned_write sample_review_services sample_checkpoints sample_change (decision_for Approve)
      (decision_recorded sample_change Approve sample_user None (w_db sample_desk)) of
     Some (r, Inr s1) \<Rightarrow> r = r_id sample_restaurant
   | _ \<Rightarrow> False"
  by code_simp

lemma resume_sample:
  "case decide sample_review_services sample_checkpoints (pc_id sample_change) Approve sample_user None sample_desk of
     Inl _ \<Rightarrow> False | Inr _ \<Rightarrow> True"
  by code_simp

lemma sample_decision:
  obtains out w' where
    "decide sample_review_services sample_checkpoints (pc_id sample_change) Approve sample_user None sample_desk = Inr (out, w')"
  using resume_sample by (auto split: sum.splits)



end
