(* ===== verification/Queue.thy ===== *)
theory Queue
  imports Auth
begin

text \<open>
  The ingestion queue: \<open>src/core/schemas/ingestion_queue.py\<close> and
  \<open>src/database/repositories/ingestion_queue_repository.py\<close>. Every repository operation runs in the
  transaction of its caller, on the rows of \<open>db_queue\<close> in insertion order; a row lock is held from the
  check of a status to the write, so the two are one step here.
\<close>

section \<open>Rendering a message\<close>

text \<open>\<open>str(exc)\<close> as text. How \<open>Decimal\<close> prints depends on its exponent, which the model does not
  keep, and is a parameter; \<open>:.0f\<close> rounds half to even.\<close>

definition round_half_even :: "decimal \<Rightarrow> int" where
  "round_half_even d =
     (let f = \<lfloor>d\<rfloor>; r = d - of_int f in
      if r < 1 / 2 then f else if 1 / 2 < r then f + 1 else if even f then f else f + 1)"

definition show_int :: "int \<Rightarrow> string" where
  "show_int n = (if n < 0 then CHR ''-'' # show_nat (nat (- n)) else show_nat (nat n))"

fun piece_text :: "(decimal \<Rightarrow> string) \<Rightarrow> piece \<Rightarrow> string" where
  "piece_text show_dec (Txt s) = s"
| "piece_text show_dec (Dec d) = show_dec d"
| "piece_text show_dec (Dec0 d) = show_int (round_half_even d)"
| "piece_text show_dec (Num n) = show_nat n"
| "piece_text show_dec (Repr ss) = ''['' @ py_join '', '' (map (\<lambda>s. [char_of (39 :: nat)] @ s @ [char_of (39 :: nat)]) ss) @ '']''"
| "piece_text show_dec (Cut n ps) = take n (concat (map (piece_text show_dec) ps))"

definition message_text :: "(decimal \<Rightarrow> string) \<Rightarrow> message \<Rightarrow> string" where
  "message_text show_dec m = concat (map (piece_text show_dec) m)"

section \<open>Uploads\<close>

record queue_input =
  qn_name :: string
  qn_menu_url :: string
  qn_nutrition_url :: string

definition v_queue_input :: "loc \<Rightarrow> json \<Rightarrow> queue_input vres" where
  "v_queue_input l j =
     v_model ''IngestionQueueItemInput'' [''name'', ''menu_url'', ''nutrition_url''] l j
       (\<lambda>kvs. vap (vap (vmap (\<lambda>n m u. \<lparr>qn_name = n, qn_menu_url = m, qn_nutrition_url = u\<rparr>)
          (fld kvs l ''name'' (required l ''name'') (v_str_len 1 255)))
          (fld kvs l ''menu_url'' (required l ''menu_url'') (v_str_len 1 2048)))
          (fld kvs l ''nutrition_url'' (required l ''nutrition_url'') (v_str_len 1 2048)))"

definition v_bulk_upload :: "json \<Rightarrow> queue_input list vres" where
  "v_bulk_upload j =
     v_model ''IngestionQueueBulkUploadRequest'' [''items''] [] j
       (\<lambda>kvs. vthen (fld kvs [] ''items'' (required [] ''items'') (v_list v_queue_input))
          (\<lambda>items. if items = [] then verr_at [LKey ''items''] ''List should have at least 1 item after validation, not 0''
             else Inr items))"

text \<open>\<open>IngestionQueueItemEditRequest\<close>: every field may be missing or null.\<close>

definition v_item_edit :: "json \<Rightarrow> (string option \<times> string option \<times> string option) vres" where
  "v_item_edit j =
     v_model ''IngestionQueueItemEditRequest'' [''name'', ''menu_url'', ''nutrition_url''] [] j
       (\<lambda>kvs. vap (vap (vmap (\<lambda>n m u. (n, m, u))
          (fld kvs [] ''name'' (Inr None) (v_opt (v_str_len 1 255))))
          (fld kvs [] ''menu_url'' (Inr None) (v_opt (v_str_len 1 2048))))
          (fld kvs [] ''nutrition_url'' (Inr None) (v_opt (v_str_len 1 2048))))"

record batch_result =
  br_batch_id :: uuid
  br_created :: "queue_item list"
  br_skipped_duplicate_names :: "string list"

definition name_key :: "string \<Rightarrow> string" where
  "name_key name = py_lower (py_strip name)"

text \<open>The loop of \<open>create_batch\<close>: the rows, from identifier \<open>n\<close> on, and the skipped names.\<close>

fun batch_rows ::
  "uuid \<Rightarrow> timestamp \<Rightarrow> uuid option \<Rightarrow> uuid \<Rightarrow> string list \<Rightarrow> queue_input list \<Rightarrow> queue_item list \<times> string list" where
  "batch_rows batch_id now user n seen_names [] = ([], [])"
| "batch_rows batch_id now user n seen_names (item # items) =
     (let key = name_key (qn_name item) in
      if key \<in> set seen_names
      then (let (rows, skipped) = batch_rows batch_id now user n seen_names items
            in (rows, qn_name item # skipped))
      else (let (rows, skipped) = batch_rows batch_id now user (Suc n) (key # seen_names) items
            in (\<lparr>qi_id = n, qi_batch_id = batch_id, qi_name = qn_name item, qi_menu_url = qn_menu_url item,
                 qi_nutrition_url = qn_nutrition_url item, qi_status = QUEUED, qi_restaurant_seed_id = None,
                 qi_error_message = None, qi_created_by = user, qi_created_at = now, qi_updated_at = now\<rparr> # rows,
                skipped)))"

definition queue_item_fits :: "queue_item \<Rightarrow> bool" where
  "queue_item_fits r \<longleftrightarrow> length (qi_name r) \<le> 255 \<and> length (qi_menu_url r) \<le> 2048 \<and> length (qi_nutrition_url r) \<le> 2048"

definition create_batch :: "queue_input list \<Rightarrow> uuid option \<Rightarrow> db \<Rightarrow> exn + batch_result \<times> db" where
  "create_batch items user s =
     (let batch_id = db_next s;
          (rows, skipped) = batch_rows batch_id (db_now s) user (Suc batch_id) [] items
      in if \<not> list_all queue_item_fits rows then Inl DataError
         else Inr (\<lparr>br_batch_id = batch_id, br_created = rows, br_skipped_duplicate_names = skipped\<rparr>,
                   s\<lparr>db_next := Suc batch_id + length rows, db_queue := db_queue s @ rows\<rparr>))"

section \<open>Repository operations\<close>

datatype queue_error = InvalidQueueState message | Queue_exn exn

definition get_item :: "db \<Rightarrow> uuid \<Rightarrow> queue_item option" where
  "get_item s i = row_by qi_id i (db_queue s)"

definition list_queue_paginated :: "nat \<Rightarrow> nat \<Rightarrow> queue_status option \<Rightarrow> db \<Rightarrow> queue_item list \<times> nat" where
  "list_queue_paginated page page_size status s =
     (let rows = filter (\<lambda>r. status = None \<or> status = Some (qi_status r)) (db_queue s)
      in (page_of page page_size (order_desc qi_created_at rows), length rows))"

text \<open>An update that changes nothing sends no statement, so it does not touch \<open>updated_at\<close>.\<close>

definition touched_item :: "timestamp \<Rightarrow> (queue_item \<Rightarrow> queue_item) \<Rightarrow> queue_item \<Rightarrow> queue_item" where
  "touched_item now f r = (if f r = r then r else (f r)\<lparr>qi_updated_at := now\<rparr>)"

definition write_item :: "uuid \<Rightarrow> (queue_item \<Rightarrow> queue_item) \<Rightarrow> db \<Rightarrow> db" where
  "write_item i f s = s\<lparr>db_queue := update_by qi_id i (touched_item (db_now s) f) (db_queue s)\<rparr>"

definition edit_item :: "string option \<Rightarrow> string option \<Rightarrow> string option \<Rightarrow> queue_item \<Rightarrow> queue_item" where
  "edit_item name menu_url nutrition_url r =
     r\<lparr>qi_name := (case name of None \<Rightarrow> qi_name r | Some x \<Rightarrow> x),
       qi_menu_url := (case menu_url of None \<Rightarrow> qi_menu_url r | Some x \<Rightarrow> x),
       qi_nutrition_url := (case nutrition_url of None \<Rightarrow> qi_nutrition_url r | Some x \<Rightarrow> x)\<rparr>"

definition not_in_state :: "uuid \<Rightarrow> string \<Rightarrow> string \<Rightarrow> queue_error" where
  "not_in_state i verb state =
     InvalidQueueState [Txt ''Ingestion queue item '', Num i, Txt '' is not '', Txt verb, Txt '' (not '', Txt state, Txt '')'']"

definition update_if_queued ::
  "uuid \<Rightarrow> string option \<Rightarrow> string option \<Rightarrow> string option \<Rightarrow> db \<Rightarrow> queue_error + queue_item \<times> db" where
  "update_if_queued i name menu_url nutrition_url s =
     (case get_item s i of
        None \<Rightarrow> Inl (not_in_state i ''editable'' ''QUEUED'')
      | Some r \<Rightarrow>
          if qi_status r \<noteq> QUEUED then Inl (not_in_state i ''editable'' ''QUEUED'')
          else
            (let r' = touched_item (db_now s) (edit_item name menu_url nutrition_url) r in
             if \<not> queue_item_fits r' then Inl (Queue_exn DataError)
             else Inr (r', write_item i (edit_item name menu_url nutrition_url) s)))"

definition delete_if_queued :: "uuid \<Rightarrow> db \<Rightarrow> queue_error + db" where
  "delete_if_queued i s =
     (case get_item s i of
        None \<Rightarrow> Inl (not_in_state i ''deletable'' ''QUEUED'')
      | Some r \<Rightarrow>
          if qi_status r \<noteq> QUEUED then Inl (not_in_state i ''deletable'' ''QUEUED'')
          else Inr (s\<lparr>db_queue := filter (\<lambda>r. qi_id r \<noteq> i) (db_queue s)\<rparr>))"

definition requeued :: "queue_item \<Rightarrow> queue_item" where
  "requeued r = r\<lparr>qi_status := QUEUED, qi_error_message := None\<rparr>"

definition requeue_if_failed :: "uuid \<Rightarrow> db \<Rightarrow> queue_error + queue_item \<times> db" where
  "requeue_if_failed i s =
     (case get_item s i of
        None \<Rightarrow> Inl (not_in_state i ''requeueable'' ''FAILED'')
      | Some r \<Rightarrow>
          if qi_status r \<noteq> QFAILED then Inl (not_in_state i ''requeueable'' ''FAILED'')
          else Inr (touched_item (db_now s) requeued r, write_item i requeued s))"

text \<open>The oldest queued row. \<open>SKIP LOCKED\<close>: a row another claim of the same moment holds is passed
  over, which for committed claims is what the status says.\<close>

definition queued_items :: "db \<Rightarrow> queue_item list" where
  "queued_items s = filter (\<lambda>r. qi_status r = QUEUED) (db_queue s)"

definition claimed :: "queue_item \<Rightarrow> queue_item" where
  "claimed r = r\<lparr>qi_status := QRUNNING\<rparr>"

definition claim_next_queued :: "db \<Rightarrow> queue_item option \<times> db" where
  "claim_next_queued s =
     (case sort_key qi_created_at (queued_items s) of
        [] \<Rightarrow> (None, s)
      | r # _ \<Rightarrow> (Some (touched_item (db_now s) claimed r), write_item (qi_id r) claimed s))"

definition succeeded :: "queue_item \<Rightarrow> queue_item" where
  "succeeded r = r\<lparr>qi_status := QSUCCEEDED, qi_error_message := None\<rparr>"

definition mark_item_succeeded :: "uuid \<Rightarrow> db \<Rightarrow> db" where
  "mark_item_succeeded i s = write_item i succeeded s"

definition failed_with :: "message \<Rightarrow> queue_item \<Rightarrow> queue_item" where
  "failed_with msg r = r\<lparr>qi_status := QFAILED, qi_error_message := Some msg\<rparr>"

text \<open>The message is not cut to the column's 2000 characters: PostgreSQL refuses a longer one.\<close>

definition mark_item_failed :: "(decimal \<Rightarrow> string) \<Rightarrow> uuid \<Rightarrow> message \<Rightarrow> db \<Rightarrow> exn + db" where
  "mark_item_failed show_dec i msg s =
     (if get_item s i = None then Inr s
      else if 2000 < length (message_text show_dec msg) then Inl DataError
      else Inr (write_item i (failed_with msg) s))"

definition seeded :: "string \<Rightarrow> queue_item \<Rightarrow> queue_item" where
  "seeded seed r = r\<lparr>qi_restaurant_seed_id := Some seed\<rparr>"

definition set_restaurant_seed_id :: "uuid \<Rightarrow> string \<Rightarrow> db \<Rightarrow> db" where
  "set_restaurant_seed_id i seed s = write_item i (seeded seed) s"

text \<open>Each of these keeps the key.\<close>

lemma touched_item_key: "qi_id (f r) = qi_id r \<Longrightarrow> qi_id (touched_item t f r) = qi_id r"
  by (simp add: touched_item_def)

interpretation item_edit: row_update qi_id "touched_item t (edit_item name menu_url nutrition_url)"
  for t name menu_url nutrition_url
  by unfold_locales (rule touched_item_key, simp add: edit_item_def)

interpretation item_requeue: row_update qi_id "touched_item t requeued" for t
  by unfold_locales (rule touched_item_key, simp add: requeued_def)

interpretation item_claim: row_update qi_id "touched_item t claimed" for t
  by unfold_locales (rule touched_item_key, simp add: claimed_def)

interpretation item_success: row_update qi_id "touched_item t succeeded" for t
  by unfold_locales (rule touched_item_key, simp add: succeeded_def)

interpretation item_failure: row_update qi_id "touched_item t (failed_with msg)" for t msg
  by unfold_locales (rule touched_item_key, simp add: failed_with_def)

interpretation item_seed: row_update qi_id "touched_item t (seeded seed)" for t seed
  by unfold_locales (rule touched_item_key, simp add: seeded_def)

section \<open>Uploads, against a specification\<close>

lemma batch_rows_keys:
  "map (name_key \<circ> qi_name) (fst (batch_rows b t u n seen_names items))
     = dict_fromkeys_from seen_names (map (name_key \<circ> qn_name) items)"
  by (induction b t u n seen_names items rule: batch_rows.induct) (simp_all add: Let_def split_def)

lemma batch_rows_ids:
  "map qi_id (fst (batch_rows b t u n seen_names items))
     = [n..<n + length (fst (batch_rows b t u n seen_names items))]"
proof (induction b t u n seen_names items rule: batch_rows.induct)
  case (1 b t u n seen_names)
  show ?case by simp
next
  case (2 b t u n seen_names item items)
  show ?case
  proof (cases "name_key (qn_name item) \<in> set seen_names")
    case True
    with 2(1) [OF refl] show ?thesis by (simp add: Let_def split_def)
  next
    case False
    let ?k = "length (fst (batch_rows b t u (Suc n) (name_key (qn_name item) # seen_names) items))"
    have "[n..<n + Suc ?k] = n # [Suc n..<Suc n + ?k]" by (simp add: upt_conv_Cons del: upt_Suc)
    with 2(2) [OF refl False] False show ?thesis by (simp add: Let_def split_def del: upt_Suc)
  qed
qed

text \<open>Which items of an upload repeat a name: the key of position \<open>k\<close> occurs before it.\<close>

definition repeated :: "string list \<Rightarrow> queue_input list \<Rightarrow> nat \<Rightarrow> bool" where
  "repeated seen_names items k \<longleftrightarrow>
     name_key (qn_name (items ! k)) \<in> set seen_names \<union> (name_key \<circ> qn_name) ` set (take k items)"

definition input_of :: "queue_item \<Rightarrow> queue_input" where
  "input_of r = \<lparr>qn_name = qi_name r, qn_menu_url = qi_menu_url r, qn_nutrition_url = qi_nutrition_url r\<rparr>"

lemma repeated_Cons:
  "repeated seen_names (item # items) 0 \<longleftrightarrow> name_key (qn_name item) \<in> set seen_names"
  "repeated seen_names (item # items) (Suc k) \<longleftrightarrow> repeated (name_key (qn_name item) # seen_names) items k"
  by (auto simp: repeated_def)

lemma repeated_known: "x \<in> set seen_names \<Longrightarrow> repeated (x # seen_names) = repeated seen_names"
  by (auto simp: repeated_def fun_eq_iff)

lemma upt_filter_Suc:
  "filter P [0..<Suc n] = (if P 0 then [0] else []) @ map Suc (filter (P \<circ> Suc) [0..<n])"
  by (simp add: upt_conv_Cons map_Suc_upt [symmetric] filter_map del: upt_Suc)

lemma batch_rows_positions:
  "snd (batch_rows b t u n seen_names items)
     = map (\<lambda>k. qn_name (items ! k)) (filter (repeated seen_names items) [0..<length items])
   \<and> map input_of (fst (batch_rows b t u n seen_names items))
     = map (nth items) (filter (Not \<circ> repeated seen_names items) [0..<length items])"
proof (induction b t u n seen_names items rule: batch_rows.induct)
  case (2 b t u n seen_names item items)
  have shift: "repeated seen_names (item # items) \<circ> Suc = repeated (name_key (qn_name item) # seen_names) items"
    "(Not \<circ> repeated seen_names (item # items)) \<circ> Suc = Not \<circ> repeated (name_key (qn_name item) # seen_names) items"
    by (simp_all add: fun_eq_iff repeated_Cons)
  show ?case
  proof (cases "name_key (qn_name item) \<in> set seen_names")
    case True
    from 2(1) [OF refl True] True show ?thesis
      by (simp add: Let_def split_def upt_filter_Suc shift repeated_known [OF True] repeated_Cons comp_def del: upt_Suc)
  next
    case False
    from 2(2) [OF refl False] False show ?thesis
      by (simp add: Let_def split_def upt_filter_Suc shift repeated_Cons comp_def input_of_def del: upt_Suc)
  qed
qed simp

lemma batch_rows_fixed:
  "r \<in> set (fst (batch_rows b t u n seen_names items)) \<Longrightarrow>
     qi_status r = QUEUED \<and> qi_batch_id r = b \<and> qi_created_by r = u \<and> qi_created_at r = t
     \<and> qi_restaurant_seed_id r = None \<and> qi_error_message r = None"
  by (induction b t u n seen_names items rule: batch_rows.induct)
    (auto simp: Let_def split_def split: if_splits)

lemma v_queue_input_fits:
  "v_queue_input l j = Inr x \<Longrightarrow>
     qn_name x \<noteq> [] \<and> length (qn_name x) \<le> 255 \<and> length (qn_menu_url x) \<le> 2048 \<and> length (qn_nutrition_url x) \<le> 2048"
  unfolding v_queue_input_def
  by (drule v_model_Inr)
    (auto simp: vap_Inr_iff vmap_Inr_iff dest!: fld_required_Inr vallD [OF vall_v_str_len])

lemma v_bulk_upload_fits:
  assumes "v_bulk_upload j = Inr items"
  shows "items \<noteq> []"
    and "x \<in> set items \<Longrightarrow> length (qn_name x) \<le> 255 \<and> length (qn_menu_url x) \<le> 2048 \<and> length (qn_nutrition_url x) \<le> 2048"
proof -
  obtain kvs where "vthen (fld kvs [] ''items'' (required [] ''items'') (v_list v_queue_input))
      (\<lambda>items. if items = [] then verr_at [LKey ''items''] ''List should have at least 1 item after validation, not 0''
             else Inr items) = Inr items"
    using assms unfolding v_bulk_upload_def by (blast dest: v_model_Inr)
  then have ne: "items \<noteq> []" and f: "fld kvs [] ''items'' (required [] ''items'') (v_list v_queue_input) = Inr items"
    by (auto simp: vthen_Inr_iff split: if_splits)
  show "items \<noteq> []" by (rule ne)
  obtain l js where "v_list v_queue_input l js = Inr items" using fld_required_Inr [OF f] by blast
  moreover have "vall (list_all (\<lambda>x. length (qn_name x) \<le> 255 \<and> length (qn_menu_url x) \<le> 2048
      \<and> length (qn_nutrition_url x) \<le> 2048)) (v_list v_queue_input l js)"
    by (rule vall_v_list, rule vallI) (use v_queue_input_fits in blast)
  ultimately show "x \<in> set items \<Longrightarrow> length (qn_name x) \<le> 255 \<and> length (qn_menu_url x) \<le> 2048 \<and> length (qn_nutrition_url x) \<le> 2048"
    by (auto simp: list_all_iff dest: vallD)
qed

lemma batch_rows_fit:
  assumes "\<And>x. x \<in> set items \<Longrightarrow> length (qn_name x) \<le> 255 \<and> length (qn_menu_url x) \<le> 2048 \<and> length (qn_nutrition_url x) \<le> 2048"
  shows "list_all queue_item_fits (fst (batch_rows b t u n seen_names items))"
  using assms
  by (induction b t u n seen_names items rule: batch_rows.induct)
    (auto simp: Let_def split_def queue_item_fits_def)

text \<open>C27: An upload queues each name once. Whatever list the request schema accepts, the batch is
  created without an error: an item is queued, with its own name and URLs and in the order of the
  upload, exactly when no item before it in the same upload has its name up to surrounding blanks and
  letter case, and every other item's name is reported as skipped; the new rows are all QUEUED, of this
  batch and this user, under fresh consecutive identifiers at the end of the queue, no two of them
  share a name and every name of the upload has one. What is already queued plays no role.\<close>

theorem uploads_are_deduplicated:
  assumes "v_bulk_upload j = Inr items"
  shows "\<exists>r s'. create_batch items user s = Inr (r, s')
    \<and> db_queue s' = db_queue s @ br_created r
    \<and> map input_of (br_created r) = map (nth items) (filter (Not \<circ> repeated [] items) [0..<length items])
    \<and> br_skipped_duplicate_names r = map (\<lambda>k. qn_name (items ! k)) (filter (repeated [] items) [0..<length items])
    \<and> map qi_id (br_created r) = [Suc (br_batch_id r)..<db_next s'] \<and> br_batch_id r = db_next s
    \<and> list_all (\<lambda>q. qi_status q = QUEUED \<and> qi_batch_id q = br_batch_id r \<and> qi_created_by q = user) (br_created r)
    \<and> map (name_key \<circ> qi_name) (br_created r) = dict_fromkeys (map (name_key \<circ> qn_name) items)
    \<and> br_created r \<noteq> []"
proof -
  define rows where "rows = fst (batch_rows (db_next s) (db_now s) user (Suc (db_next s)) [] items)"
  define skipped where "skipped = snd (batch_rows (db_next s) (db_now s) user (Suc (db_next s)) [] items)"
  have fits: "list_all queue_item_fits rows"
    unfolding rows_def by (rule batch_rows_fit) (rule v_bulk_upload_fits(2) [OF assms])
  have keys: "map (name_key \<circ> qi_name) rows = dict_fromkeys (map (name_key \<circ> qn_name) items)"
    by (simp add: rows_def batch_rows_keys dict_fromkeys_def)
  then have "rows \<noteq> []" using v_bulk_upload_fits(1) [OF assms] by (cases items) (auto simp: dict_fromkeys_def)
  moreover have "list_all (\<lambda>q. qi_status q = QUEUED \<and> qi_batch_id q = db_next s \<and> qi_created_by q = user) rows"
    unfolding list_all_iff rows_def using batch_rows_fixed by blast
  moreover have "map qi_id rows = [Suc (db_next s)..<Suc (db_next s + length rows)]"
    unfolding rows_def batch_rows_ids by simp
  moreover have "map input_of rows = map (nth items) (filter (Not \<circ> repeated [] items) [0..<length items])"
    "skipped = map (\<lambda>k. qn_name (items ! k)) (filter (repeated [] items) [0..<length items])"
    using batch_rows_positions [of "db_next s"] by (simp_all add: rows_def skipped_def)
  ultimately show ?thesis
    using fits keys by (simp add: create_batch_def Let_def split_def rows_def [symmetric] skipped_def [symmetric] del: upt_Suc)
qed

definition sample_upload :: json where
  "sample_upload = JObj [(''items'', JList (map (\<lambda>n. JObj [(''name'', JStr n), (''menu_url'', JStr ''https://a.example''),
     (''nutrition_url'', JStr ''https://a.example/n'')]) ['' Joe'', ''Ann'', ''joe '']))]"

theorem uploads_are_deduplicated_witness:
  "\<exists>r s'. (case v_bulk_upload sample_upload of Inl _ \<Rightarrow> False | Inr items \<Rightarrow> create_batch items None empty_db = Inr (r, s'))
     \<and> map (name_key \<circ> qi_name) (br_created r) = [''joe'', ''ann'']"
proof -
  obtain items where i: "v_bulk_upload sample_upload = Inr items"
    and k: "dict_fromkeys (map (name_key \<circ> qn_name) items) = [''joe'', ''ann'']"
  proof -
    have "case v_bulk_upload sample_upload of Inl _ \<Rightarrow> False
      | Inr items \<Rightarrow> dict_fromkeys (map (name_key \<circ> qn_name) items) = [''joe'', ''ann'']" by code_simp
    then show ?thesis using that by (auto split: sum.splits)
  qed
  show ?thesis using uploads_are_deduplicated [OF i, of None empty_db] k i by auto
qed

section \<open>What is pending\<close>

definition queue_ok :: "db \<Rightarrow> bool" where
  "queue_ok s \<longleftrightarrow> distinct (map qi_id (db_queue s))"

text \<open>The items waiting, oldest first.\<close>

definition pending :: "db \<Rightarrow> uuid list" where
  "pending s = map qi_id (sort_key qi_created_at (queued_items s))"

definition item_status :: "db \<Rightarrow> uuid \<Rightarrow> queue_status option" where
  "item_status s i = map_option qi_status (get_item s i)"

lemma touched_item_status [simp]: "qi_status (touched_item t f r) = qi_status (f r)"
  by (simp add: touched_item_def)

lemma queue_ok_get: "queue_ok s \<Longrightarrow> r \<in> set (db_queue s) \<Longrightarrow> get_item s (qi_id r) = Some r"
proof -
  have "row_by qi_id (qi_id r) rows = Some r" if "distinct (map qi_id rows)" "r \<in> set rows" for rows
    using that by (induction rows) (auto simp: row_by_def image_iff)
  then show "queue_ok s \<Longrightarrow> r \<in> set (db_queue s) \<Longrightarrow> get_item s (qi_id r) = Some r"
    by (simp add: queue_ok_def get_item_def)
qed

lemma get_item_mem: "get_item s i = Some r \<Longrightarrow> r \<in> set (db_queue s) \<and> qi_id r = i"
  unfolding get_item_def by (rule row_by_SomeD)

lemma pending_mem:
  assumes "queue_ok s"
  shows "i \<in> set (pending s) \<longleftrightarrow> item_status s i = Some QUEUED"
proof -
  have "i \<in> set (pending s) \<longleftrightarrow> (\<exists>r. r \<in> set (db_queue s) \<and> qi_status r = QUEUED \<and> qi_id r = i)"
    by (auto simp: pending_def queued_items_def)
  also have "\<dots> \<longleftrightarrow> (\<exists>r. get_item s i = Some r \<and> qi_status r = QUEUED)"
    using queue_ok_get [OF assms] get_item_mem by metis
  finally show ?thesis by (simp add: item_status_def)
qed

lemma pending_distinct: "queue_ok s \<Longrightarrow> distinct (pending s)"
proof -
  assume "queue_ok s"
  then have "distinct (map qi_id (queued_items s))"
    by (simp add: queue_ok_def queued_items_def distinct_map_filter)
  then show ?thesis
    by (simp add: pending_def distinct_map)
qed

lemma write_item_queue:
  "db_queue (write_item i f s) = map (\<lambda>r. if qi_id r = i then touched_item (db_now s) f r else r) (db_queue s)"
  by (simp add: write_item_def update_by_def)

lemma queue_ok_write [simp]: "(\<And>r. qi_id (f r) = qi_id r) \<Longrightarrow> queue_ok (write_item i f s) = queue_ok s"
  by (simp add: queue_ok_def write_item_queue comp_def if_distrib touched_item_key cong: if_cong)

text \<open>A write that takes an item out of the queued ones, or leaves it out.\<close>

lemma queued_items_write:
  assumes "\<And>r. qi_status (f r) \<noteq> QUEUED"
  shows "queued_items (write_item i f s) = filter (\<lambda>r. qi_id r \<noteq> i) (queued_items s)"
proof -
  have "filter (\<lambda>r. qi_status r = QUEUED) (map (\<lambda>r. if qi_id r = i then touched_item (db_now s) f r else r) rows)
      = filter (\<lambda>r. qi_id r \<noteq> i) (filter (\<lambda>r. qi_status r = QUEUED) rows)" for rows
    by (induction rows) (auto simp: assms)
  then show ?thesis by (simp add: queued_items_def write_item_queue)
qed

lemma pending_write:
  assumes "\<And>r. qi_status (f r) \<noteq> QUEUED"
  shows "pending (write_item i f s) = filter (\<lambda>j. j \<noteq> i) (pending s)"
  by (simp add: pending_def queued_items_write [OF assms] filter_sort [symmetric] filter_map comp_def)

lemma claim_nothing: "pending s = [] \<Longrightarrow> claim_next_queued s = (None, s)"
  by (simp add: pending_def claim_next_queued_def)

lemma claim_oldest:
  assumes "queue_ok s" "pending s = i # rest"
  obtains r where "get_item s i = Some r" "qi_status r = QUEUED"
    "claim_next_queued s = (Some (touched_item (db_now s) claimed r), write_item i claimed s)"
    "pending (write_item i claimed s) = rest" "qi_id r = i"
proof -
  obtain r rs where r: "sort_key qi_created_at (queued_items s) = r # rs" "qi_id r = i" "map qi_id rs = rest"
    using assms(2) by (auto simp: pending_def)
  then have "r \<in> set (queued_items s)" by (metis list.set_intros(1) set_sort)
  then have "get_item s i = Some r" "qi_status r = QUEUED"
    using queue_ok_get [OF assms(1)] r(2) by (auto simp: queued_items_def)
  moreover have "claim_next_queued s = (Some (touched_item (db_now s) claimed r), write_item i claimed s)"
    by (simp add: claim_next_queued_def r)
  moreover have "pending (write_item i claimed s) = rest"
    using pending_distinct [OF assms(1)] assms(2) by (auto simp: pending_write claimed_def intro!: filter_True)
  ultimately show ?thesis using that r(2) by blast
qed

end
