(* ===== verification/Locks.thy ===== *)
theory Locks
  imports Queue
begin

text \<open>
  The two Redis locks: \<open>RestaurantJobLock\<close> of \<open>src/infrastructure/queue/lock.py\<close>, which
  expires, and \<open>_DispatchLock\<close> of \<open>src/apps/worker/app/jobs/ingestion_queue_dispatcher.py\<close>,
  which does not. Redis is a map from keys to a value with an optional expiry in milliseconds; a command
  runs at a time and does not see what has expired. The token of a lock is a fresh identifier.
\<close>

section \<open>Redis\<close>

type_synonym redis = "string \<Rightarrow> (uuid \<times> nat option) option"

definition redis_get :: "nat \<Rightarrow> string \<Rightarrow> redis \<Rightarrow> uuid option" where
  "redis_get t k r =
     (case r k of
        None \<Rightarrow> None
      | Some (v, expiry) \<Rightarrow> (case expiry of None \<Rightarrow> Some v | Some e \<Rightarrow> if t < e then Some v else None))"

text \<open>\<open>SET k v NX [PX px]\<close>.\<close>

definition set_nx :: "nat \<Rightarrow> string \<Rightarrow> uuid \<Rightarrow> nat option \<Rightarrow> redis \<Rightarrow> bool \<times> redis" where
  "set_nx t k v px r =
     (if redis_get t k r \<noteq> None then (False, r) else (True, r(k \<mapsto> (v, map_option (\<lambda>p. t + p) px))))"

text \<open>The release script: get, compare, delete.\<close>

definition release_if_owned :: "nat \<Rightarrow> string \<Rightarrow> uuid \<Rightarrow> redis \<Rightarrow> redis" where
  "release_if_owned t k v r = (if redis_get t k r = Some v then r(k := None) else r)"

section \<open>The locks\<close>

definition default_ttl_seconds :: nat where
  "default_ttl_seconds = 30 * 60"

definition lock_key :: "string \<Rightarrow> string \<Rightarrow> string" where
  "lock_key restaurant_id job_type = ''hungrx:job-lock:'' @ job_type @ '':'' @ restaurant_id"

definition job_lock_enter :: "nat \<Rightarrow> string \<Rightarrow> string \<Rightarrow> uuid \<Rightarrow> redis \<Rightarrow> bool \<times> redis" where
  "job_lock_enter t restaurant_id job_type token r =
     set_nx t (lock_key restaurant_id job_type) token (Some (default_ttl_seconds * 1000)) r"

definition job_lock_exit :: "nat \<Rightarrow> string \<Rightarrow> string \<Rightarrow> uuid \<Rightarrow> redis \<Rightarrow> redis" where
  "job_lock_exit t restaurant_id job_type token r =
     release_if_owned t (lock_key restaurant_id job_type) token r"

definition dispatch_lock_key :: string where
  "dispatch_lock_key = ''hungrx:ingestion-queue:dispatch''"

definition dispatch_enter :: "nat \<Rightarrow> uuid \<Rightarrow> redis \<Rightarrow> bool \<times> redis" where
  "dispatch_enter t token r = set_nx t dispatch_lock_key token None r"

definition dispatch_exit :: "nat \<Rightarrow> uuid \<Rightarrow> redis \<Rightarrow> redis" where
  "dispatch_exit t token r = release_if_owned t dispatch_lock_key token r"

section \<open>What a token lock promises\<close>

datatype lock_event = Enter uuid | Exit uuid

fun event_token :: "lock_event \<Rightarrow> uuid" where
  "event_token (Enter k) = k"
| "event_token (Exit k) = k"

text \<open>A history of one lock: what each attempt to enter answered, and the state it leaves.\<close>

fun lock_run ::
  "(nat \<Rightarrow> uuid \<Rightarrow> 'r \<Rightarrow> bool \<times> 'r) \<Rightarrow> (nat \<Rightarrow> uuid \<Rightarrow> 'r \<Rightarrow> 'r) \<Rightarrow> (nat \<times> lock_event) list \<Rightarrow> 'r \<Rightarrow> bool list \<times> 'r" where
  "lock_run enter leave [] r = ([], r)"
| "lock_run enter leave ((t, Enter k) # es) r =
     (let (b, r) = enter t k r; (bs, r) = lock_run enter leave es r in (b # bs, r))"
| "lock_run enter leave ((t, Exit k) # es) r = lock_run enter leave es (leave t k r)"

text \<open>A lock is entered only when nobody holds it; it is then held until its holder leaves or its
  lease runs out; leaving with another token does nothing.\<close>

locale token_lock =
  fixes holder :: "nat \<Rightarrow> 'r \<Rightarrow> uuid option"
    and enter :: "nat \<Rightarrow> uuid \<Rightarrow> 'r \<Rightarrow> bool \<times> 'r"
    and leave :: "nat \<Rightarrow> uuid \<Rightarrow> 'r \<Rightarrow> 'r"
    and lease :: "nat option"
  assumes enter_held: "holder t r \<noteq> None \<Longrightarrow> enter t k r = (False, r)"
    and enter_free: "holder t r = None \<Longrightarrow> fst (enter t k r)"
    and enter_holds: "holder t r = None \<Longrightarrow> t \<le> t' \<Longrightarrow> (case lease of None \<Rightarrow> True | Some d \<Rightarrow> t' < t + d) \<Longrightarrow>
      holder t' (snd (enter t k r)) = Some k"
    and enter_expires: "holder t r = None \<Longrightarrow> lease = Some d \<Longrightarrow> t + d \<le> t' \<Longrightarrow> holder t' (snd (enter t k r)) = None"
    and leave_own: "holder t r = Some k \<Longrightarrow> holder t' (leave t k r) = None"
    and leave_other: "holder t r \<noteq> Some k \<Longrightarrow> leave t k r = r"
begin

definition during :: "nat \<Rightarrow> nat \<Rightarrow> bool" where
  "during t t' \<longleftrightarrow> t \<le> t' \<and> (case lease of None \<Rightarrow> True | Some d \<Rightarrow> t' < t + d)"

text \<open>While a lease runs, whatever the others try fails and changes nothing.\<close>

lemma others_shut_out:
  assumes "holder t r = None"
    "list_all (\<lambda>(t', e). during t t' \<and> event_token e \<noteq> k) es"
  shows "lock_run enter leave es (snd (enter t k r)) = (map (\<lambda>_. False) (filter (\<lambda>(t', e). \<exists>j. e = Enter j) es), snd (enter t k r))"
  using assms(2)
proof (induction es)
  case (Cons te es)
  obtain t' e where te: "te = (t', e)" by (cases te)
  have h: "holder t' (snd (enter t k r)) = Some k" "event_token e \<noteq> k"
    using Cons.prems enter_holds [OF assms(1)] by (auto simp: te during_def)
  have tail: "lock_run enter leave es (snd (enter t k r)) = (map (\<lambda>_. False) (filter (\<lambda>(t', e). \<exists>j. e = Enter j) es), snd (enter t k r))"
    using Cons by simp
  show ?case
  proof (cases e)
    case (Enter j)
    then show ?thesis using h tail enter_held [of t' "snd (enter t k r)"] by (simp add: te)
  next
    case (Exit j)
    then show ?thesis using h tail leave_other [of t' "snd (enter t k r)" j] by (simp add: te)
  qed
qed simp

text \<open>After its holder left or its lease ran out, the lock is free again.\<close>

lemma free_again:
  assumes "holder t r = None"
  shows "during t t' \<Longrightarrow> holder t'' (leave t' k (snd (enter t k r))) = None"
    and "lease = Some d \<Longrightarrow> t + d \<le> t' \<Longrightarrow> holder t' (snd (enter t k r)) = None"
  using leave_own enter_holds [OF assms] enter_expires [OF assms] by (auto simp: during_def)

text \<open>A holder whose lease ran out cannot take the lock away from the next one.\<close>

lemma stale_exit:
  assumes "holder t r = None" "k \<noteq> j" "during t t'"
  shows "leave t' j (snd (enter t k r)) = snd (enter t k r)"
  using enter_holds [OF assms(1)] assms by (intro leave_other) (auto simp: during_def)

end

text \<open>A lock without a lease: who is inside stays the holder until leaving.\<close>

locale lasting_lock = token_lock +
  assumes no_lease: "lease = None"
begin

lemma held_until_exit:
  assumes "holder t r = None" "list_all (\<lambda>(t', e). t \<le> t' \<and> event_token e \<noteq> k) es" "t \<le> t'"
  shows "holder t' (snd (lock_run enter leave es (snd (enter t k r)))) = Some k"
proof -
  have all: "list_all (\<lambda>(t', e). during t t' \<and> event_token e \<noteq> k) es"
    using assms(2) unfolding during_def by (simp add: no_lease)
  have "holder t' (snd (enter t k r)) = Some k"
    by (rule enter_holds [OF assms(1,3)]) (simp add: no_lease)
  then show ?thesis by (simp add: others_shut_out [OF assms(1) all])
qed

end

section \<open>Both locks keep the promise\<close>

lemma redis_set_get:
  "redis_get t k r = None \<Longrightarrow>
     redis_get t' k (snd (set_nx t k v px r)) = (case px of None \<Rightarrow> Some v | Some p \<Rightarrow> if t' < t + p then Some v else None)"
  by (simp add: set_nx_def redis_get_def split: option.splits)

lemma redis_released: "redis_get t k r = Some v \<Longrightarrow> redis_get t' k (release_if_owned t k v r) = None"
  by (simp add: release_if_owned_def redis_get_def split: option.splits)

interpretation job_lock: token_lock
  "\<lambda>t. redis_get t (lock_key restaurant_id job_type)"
  "\<lambda>t. job_lock_enter t restaurant_id job_type"
  "\<lambda>t. job_lock_exit t restaurant_id job_type"
  "Some (default_ttl_seconds * 1000)" for restaurant_id job_type
  by unfold_locales
    (simp_all add: job_lock_enter_def job_lock_exit_def redis_set_get redis_released,
     simp_all add: set_nx_def release_if_owned_def)

interpretation dispatch_lock: lasting_lock
  "\<lambda>t. redis_get t dispatch_lock_key" dispatch_enter dispatch_exit None
  by unfold_locales
    (simp_all add: dispatch_enter_def dispatch_exit_def redis_set_get redis_released,
     simp_all add: set_nx_def release_if_owned_def)

text \<open>Different restaurants and job types have different locks.\<close>

definition job_types :: "string list" where
  "job_types = [''restaurant_ingestion'', ''source_crawl'', ''collector_workflow'', ''maintenance_polling'', ''reviewer_workflow'']"

lemma append_colon_inject:
  "CHR '':'' \<notin> set a \<Longrightarrow> CHR '':'' \<notin> set b \<Longrightarrow> a @ CHR '':'' # u = b @ CHR '':'' # v \<longleftrightarrow> a = b \<and> u = v"
proof (induction a arbitrary: b)
  case Nil
  then show ?case by (cases b) auto
next
  case (Cons x a)
  then show ?case by (cases b) auto
qed

lemma lock_key_inject:
  assumes "job_type \<in> set job_types" "job_type' \<in> set job_types"
  shows "lock_key i job_type = lock_key i' job_type' \<longleftrightarrow> i = i' \<and> job_type = job_type'"
proof -
  have "CHR '':'' \<notin> set job_type" "CHR '':'' \<notin> set job_type'" using assms by (auto simp: job_types_def)
  then show ?thesis by (auto simp: lock_key_def append_colon_inject)
qed

lemma dispatch_key_differs: "lock_key i job_type \<noteq> dispatch_lock_key"
  by (simp add: lock_key_def dispatch_lock_key_def)

lemma other_key_untouched:
  "k \<noteq> k' \<Longrightarrow> redis_get t k' (snd (set_nx t0 k v px r)) = redis_get t k' r"
  "k \<noteq> k' \<Longrightarrow> redis_get t k' (release_if_owned t0 k v r) = redis_get t k' r"
  by (simp_all add: set_nx_def release_if_owned_def redis_get_def)

section \<open>Mutual exclusion\<close>

text \<open>Some lock of the program: its key, and how it is entered and left.\<close>

datatype lock_name = Job_lock string string | Dispatch

fun lock_name_key :: "lock_name \<Rightarrow> string" where
  "lock_name_key (Job_lock i ty) = lock_key i ty"
| "lock_name_key Dispatch = dispatch_lock_key"

fun enter_lock :: "lock_name \<Rightarrow> nat \<Rightarrow> uuid \<Rightarrow> redis \<Rightarrow> bool \<times> redis" where
  "enter_lock (Job_lock i ty) t k r = job_lock_enter t i ty k r"
| "enter_lock Dispatch t k r = dispatch_enter t k r"

fun leave_lock :: "lock_name \<Rightarrow> nat \<Rightarrow> uuid \<Rightarrow> redis \<Rightarrow> redis" where
  "leave_lock (Job_lock i ty) t k r = job_lock_exit t i ty k r"
| "leave_lock Dispatch t k r = dispatch_exit t k r"

fun known_lock :: "lock_name \<Rightarrow> bool" where
  "known_lock (Job_lock i ty) \<longleftrightarrow> ty \<in> set job_types"
| "known_lock Dispatch \<longleftrightarrow> True"

lemma lock_name_key_inject:
  "known_lock n \<Longrightarrow> known_lock m \<Longrightarrow> lock_name_key n = lock_name_key m \<longleftrightarrow> n = m"
  using dispatch_key_differs by (cases n; cases m) (auto simp: lock_key_inject dest: sym)

text \<open>A history of all locks: which attempts succeeded.\<close>

fun redis_run :: "(nat \<times> lock_name \<times> lock_event) list \<Rightarrow> redis \<Rightarrow> (nat \<times> lock_name \<times> uuid) list \<times> redis" where
  "redis_run [] r = ([], r)"
| "redis_run ((t, n, Enter k) # es) r =
     (let (b, r) = enter_lock n t k r; (entered, r) = redis_run es r
      in ((if b then [(t, n, k)] else []) @ entered, r))"
| "redis_run ((t, n, Exit k) # es) r = redis_run es (leave_lock n t k r)"

lemma enter_leave_other_key:
  "lock_name_key n \<noteq> key \<Longrightarrow> snd (enter_lock n t k r) key = r key"
  "lock_name_key n \<noteq> key \<Longrightarrow> leave_lock n t k r key = r key"
  by (cases n; simp add: job_lock_enter_def dispatch_enter_def job_lock_exit_def dispatch_exit_def set_nx_def release_if_owned_def)+

lemma held_step:
  assumes "redis_get t (lock_name_key n) r = Some k"
  shows "enter_lock n t j r = (False, r)" and "j \<noteq> k \<Longrightarrow> leave_lock n t j r = r"
  using assms job_lock.enter_held dispatch_lock.enter_held job_lock.leave_other dispatch_lock.leave_other
  by (cases n; simp; metis option.distinct(1) option.inject)+

text \<open>While the entry of a lock stays live, everybody else's attempts at it fail and leave it alone,
  whatever happens to the other locks in between.\<close>

lemma held_run:
  assumes "known_lock n"
    "\<And>t r'. P t \<Longrightarrow> r' (lock_name_key n) = r (lock_name_key n) \<Longrightarrow> redis_get t (lock_name_key n) r' = Some k"
    "list_all (\<lambda>(t, m, e). P t \<and> known_lock m \<and> (m = n \<longrightarrow> event_token e \<noteq> k)) es"
    "r0 (lock_name_key n) = r (lock_name_key n)"
  shows "snd (redis_run es r0) (lock_name_key n) = r (lock_name_key n)
    \<and> list_all (\<lambda>(t, m, j). m \<noteq> n) (fst (redis_run es r0))"
  using assms(3,4)
proof (induction es arbitrary: r0)
  case (Cons te es)
  obtain t m e where te: "te = (t, m, e)" by (cases te)
  show ?case
  proof (cases "m = n")
    case True
    have live: "redis_get t (lock_name_key n) r0 = Some k" using Cons.prems assms(2) by (simp add: te)
    show ?thesis
      using held_step [OF live] Cons True by (cases e) (auto simp: te split_def)
  next
    case False
    then have "lock_name_key m \<noteq> lock_name_key n"
      using Cons.prems(1) lock_name_key_inject [OF _ assms(1)] by (simp add: te)
    then show ?thesis
      using False Cons enter_leave_other_key [of m "lock_name_key n"]
      by (cases e) (auto simp: te split_def Let_def)
  qed
qed simp

text \<open>How long a job lock lasts without being left, in milliseconds.\<close>

definition lease_ms :: nat where
  "lease_ms = default_ttl_seconds * 1000"

lemma entered_entry:
  assumes "enter_lock (Job_lock i ty) t k r = (True, r1)"
  shows "r1 (lock_key i ty) = Some (k, Some (t + lease_ms))"
  using assms by (auto simp: job_lock_enter_def set_nx_def lease_ms_def split: if_splits)

lemma entry_live:
  "r (lock_key i ty) = Some (k, Some (t + lease_ms)) \<Longrightarrow>
     redis_get t' (lock_key i ty) r = (if t' < t + lease_ms then Some k else None)"
  by (simp add: redis_get_def)

text \<open>C15: A job lock keeps every other job of the same type for the same restaurant out, and heals by
  itself. Suppose a job enters the lock of a restaurant and job type at some time. Whatever enters and
  exits, of any locks, happen in the thirty minutes after it, as long as none of them leaves this lock
  with this job's own token, nobody enters the lock: every other attempt fails. If the job then leaves
  within the thirty minutes, the lock is free from then on; if it never does - it crashed - the lock is
  free once the thirty minutes are over and the next attempt succeeds, and a late exit of the first job
  cannot take it away from that next one.\<close>

theorem job_locks_exclude:
  assumes "ty \<in> set job_types" "enter_lock (Job_lock i ty) t k r = (True, r1)"
    and "list_all (\<lambda>(t', m, e). t \<le> t' \<and> t' < t + lease_ms \<and> known_lock m
           \<and> (m = Job_lock i ty \<longrightarrow> event_token e \<noteq> k)) es"
    and "redis_run es r1 = (entered, r2)" "t \<le> t1" "t1 < t + lease_ms" "t + lease_ms \<le> t2" "j \<noteq> k"
  shows "list_all (\<lambda>(t', m, j). m \<noteq> Job_lock i ty) entered
    \<and> redis_get t' (lock_key i ty) (leave_lock (Job_lock i ty) t1 k r2) = None
    \<and> fst (enter_lock (Job_lock i ty) t2 j r2)
    \<and> (let r3 = snd (enter_lock (Job_lock i ty) t2 j r2) in leave_lock (Job_lock i ty) t2 k r3 = r3)"
proof -
  let ?n = "Job_lock i ty"
  note entry = entered_entry [OF assms(2)]
  have run: "r2 (lock_key i ty) = Some (k, Some (t + lease_ms)) \<and> list_all (\<lambda>(t', m, j). m \<noteq> ?n) entered"
    using held_run [of ?n "\<lambda>t'. t \<le> t' \<and> t' < t + lease_ms" r1 k es r1] assms(1,3,4)
    by (simp add: entry entry_live conj_assoc)
  then have live: "redis_get t1 (lock_key i ty) r2 = Some k" "redis_get t2 (lock_key i ty) r2 = None"
    using entry_live assms(6,7) by simp_all
  have pos: "0 < default_ttl_seconds" by (simp add: default_ttl_seconds_def)
  have next_holder: "redis_get t2 (lock_key i ty) (snd (enter_lock ?n t2 j r2)) = Some j"
    using live(2) pos by (simp add: job_lock_enter_def redis_set_get)
  show ?thesis
    using run job_lock.leave_own [OF live(1)] job_lock.enter_free [OF live(2)]
      job_lock.leave_other [of t2 i ty "snd (enter_lock ?n t2 j r2)" k] next_holder assms(8)
    by (simp add: Let_def)
qed

theorem job_locks_exclude_witness:
  "let r1 = snd (enter_lock (Job_lock ''7'' ''source_crawl'') 0 1 Map.empty);
       (entered, r2) = redis_run [(5, Job_lock ''7'' ''source_crawl'', Enter 2), (6, Job_lock ''8'' ''source_crawl'', Enter 3)] r1
   in entered = [(6, Job_lock ''8'' ''source_crawl'', 3)] \<and> fst (enter_lock (Job_lock ''7'' ''source_crawl'') 1800000 4 r2)"
proof -
  let ?n = "Job_lock ''7'' ''source_crawl''"
  let ?es = "[(5, ?n, Enter 2), (6, Job_lock ''8'' ''source_crawl'', Enter 3)]"
  obtain r1 where r1: "enter_lock ?n 0 1 Map.empty = (True, r1)"
    by (simp add: job_lock_enter_def set_nx_def redis_get_def)
  obtain entered r2 where r2: "redis_run ?es r1 = (entered, r2)" by fastforce
  have ms: "lease_ms = 1800000" by (simp add: lease_ms_def default_ttl_seconds_def)
  have c: "list_all (\<lambda>(t', m, j). m \<noteq> ?n) entered \<and> redis_get 7 (lock_key ''7'' ''source_crawl'') (leave_lock ?n 7 1 r2) = None
    \<and> fst (enter_lock ?n 1800000 4 r2)
    \<and> (let r3 = snd (enter_lock ?n 1800000 4 r2) in leave_lock ?n 1800000 1 r3 = r3)"
    by (rule job_locks_exclude [OF _ r1 _ r2]) (simp_all add: job_types_def ms)
  have "r1 = snd (enter_lock ?n 0 1 Map.empty)" by (subst r1) (rule snd_conv [symmetric])
  moreover have "entered = [(6, Job_lock ''8'' ''source_crawl'', 3)]"
    using r1 r2 by (auto simp: job_lock_enter_def set_nx_def redis_get_def lock_key_def default_ttl_seconds_def split: if_splits)
  ultimately show ?thesis using c r2 by (simp add: Let_def)
qed

end
