(* ===== verification/Jobs.thy ===== *)
theory Jobs
  imports ReviewService Locks
begin

text \<open>
  The worker's jobs, \<open>src/apps/worker/app/jobs\<close>, and the named RQ queues of
  \<open>src/infrastructure/queue/queues.py\<close>. A system is the world of the workflows, Redis with its clock,
  the enqueued jobs and the checkpoints of paused runs. Every \<open>uuid4\<close> a job draws comes from the same
  supply as the identifiers of rows; a transaction that raises leaves the database as it was (files it
  wrote are not tracked then). How long a stage takes, \<open>uuid5\<close> and the crawler are parameters; the
  log lines are left out.
\<close>

section \<open>Queues and the system\<close>

datatype job =
    Restaurant_ingestion_job string string "string option" "string option" "string option" "string option"
  | Source_crawl_job uuid string "uuid option"
  | Collector_job uuid string "uuid option" "uuid option" "string option" "string option"
  | Maintenance_job
  | Reviewer_job uuid
  | Dispatch_job

definition queue_restaurant_ingestion :: string where "queue_restaurant_ingestion = ''restaurant_ingestion''"
definition queue_source_crawl :: string where "queue_source_crawl = ''source_crawl''"
definition queue_collector_workflow :: string where "queue_collector_workflow = ''collector_workflow''"
definition queue_maintenance_polling :: string where "queue_maintenance_polling = ''maintenance_polling''"
definition queue_reviewer_workflow :: string where "queue_reviewer_workflow = ''reviewer_workflow''"
definition queue_ingestion_queue_dispatch :: string where
  "queue_ingestion_queue_dispatch = ''ingestion_queue_dispatch''"

definition all_queue_names :: "string list" where
  "all_queue_names =
     [queue_restaurant_ingestion, queue_source_crawl, queue_collector_workflow,
      queue_maintenance_polling, queue_reviewer_workflow, queue_ingestion_queue_dispatch]"

text \<open>The queue each job is enqueued on.\<close>

fun queue_of :: "job \<Rightarrow> string" where
  "queue_of (Restaurant_ingestion_job _ _ _ _ _ _) = queue_restaurant_ingestion"
| "queue_of (Source_crawl_job _ _ _) = queue_source_crawl"
| "queue_of (Collector_job _ _ _ _ _ _) = queue_collector_workflow"
| "queue_of Maintenance_job = queue_maintenance_polling"
| "queue_of (Reviewer_job _) = queue_reviewer_workflow"
| "queue_of Dispatch_job = queue_ingestion_queue_dispatch"

record system =
  sy_now :: nat
  sy_world :: world
  sy_redis :: redis
  sy_jobs :: "job list"
  sy_checkpoints :: checkpoints

abbreviation sy_db :: "system \<Rightarrow> db" where "sy_db y \<equiv> w_db (sy_world y)"

definition on_system_db :: "(db \<Rightarrow> db) \<Rightarrow> system \<Rightarrow> system" where
  "on_system_db f y = y\<lparr>sy_world := (sy_world y)\<lparr>w_db := f (sy_db y)\<rparr>\<rparr>"

definition draw_uuid :: "system \<Rightarrow> uuid \<times> system" where
  "draw_uuid y = (db_next (sy_db y), on_system_db (\<lambda>s. s\<lparr>db_next := Suc (db_next s)\<rparr>) y)"

definition enqueue :: "job \<Rightarrow> system \<Rightarrow> system" where
  "enqueue j y = y\<lparr>sy_jobs := sy_jobs y @ [j]\<rparr>"

definition jobs_in :: "string \<Rightarrow> system \<Rightarrow> job list" where
  "jobs_in name y = filter (\<lambda>j. queue_of j = name) (sy_jobs y)"

text \<open>What the jobs are configured with.\<close>

record job_services =
  js_collector :: services
  js_reviewer :: reviewer_services
  js_crawler :: "string \<Rightarrow> exn + (uuid \<Rightarrow> string \<Rightarrow> snapshot cap)"
  js_uuid5 :: "string \<Rightarrow> uuid"
  js_show_dec :: "decimal \<Rightarrow> string"
  js_elapsed :: nat

definition pass_time :: "job_services \<Rightarrow> system \<Rightarrow> system" where
  "pass_time sv y = y\<lparr>sy_now := sy_now y + js_elapsed sv\<rparr>"

section \<open>Running under a lock\<close>

datatype job_error = Job_already_running string string | Job_raised exn

text \<open>\<open>with RestaurantJobLock(...)\<close> around the body of a job.\<close>

definition with_job_lock ::
  "string \<Rightarrow> string \<Rightarrow> (system \<Rightarrow> (exn + 'a) \<times> system) \<Rightarrow> system \<Rightarrow> (job_error + 'a) \<times> system" where
  "with_job_lock restaurant_id job_type body y =
     (let (token, y) = draw_uuid y;
          (acquired, r) = job_lock_enter (sy_now y) restaurant_id job_type token (sy_redis y);
          y = y\<lparr>sy_redis := r\<rparr>
      in if \<not> acquired then (Inl (Job_already_running restaurant_id job_type), y)
         else
          (case body y of
             (res, y) \<Rightarrow>
               (case res of Inl e \<Rightarrow> Inl (Job_raised e) | Inr x \<Rightarrow> Inr x,
                y\<lparr>sy_redis := job_lock_exit (sy_now y) restaurant_id job_type token (sy_redis y)\<rparr>)))"

definition py_value_error :: "string \<Rightarrow> exn" where
  "py_value_error msg = OtherError [Txt msg]"

section \<open>The collector and reviewer workflow jobs\<close>

record collector_summary =
  cj_agent_run_id :: "uuid option"
  cj_published_restaurant_id :: "uuid option"
  cj_errors :: "workflow_error list"

definition collector_summary_of :: "collector_state \<Rightarrow> collector_summary" where
  "collector_summary_of st =
     \<lparr>cj_agent_run_id = cs_agent_run_id st, cj_published_restaurant_id = cs_published_restaurant_id st,
      cj_errors = cs_errors st\<rparr>"

text \<open>\<open>Restaurant(id=..., name=...)\<close>.\<close>

definition restaurant_identity :: "services \<Rightarrow> uuid \<Rightarrow> string \<Rightarrow> restaurant vres" where
  "restaurant_identity sv restaurant_id restaurant_name =
     v_restaurant (sv_uuid4 sv) [] (JObj [(''id'', JStr (uuid_str restaurant_id)), (''name'', JStr restaurant_name)])"

definition collector_provider :: "string option \<Rightarrow> provider" where
  "collector_provider menu_url = (case menu_url of None \<Rightarrow> null_provider | Some url \<Rightarrow> manual_provider url)"

definition collector_job ::
  "job_services \<Rightarrow> uuid \<Rightarrow> string \<Rightarrow> string option \<Rightarrow> string option \<Rightarrow> system \<Rightarrow> (exn + collector_summary) \<times> system" where
  "collector_job sv restaurant_id restaurant_name menu_url nutrition_url y =
     (case restaurant_identity (js_collector sv) restaurant_id restaurant_name of
        Inl es \<Rightarrow> (Inl (ValidationError es), y)
      | Inr restaurant \<Rightarrow>
          (let (thread_id, y) = draw_uuid y;
               y = pass_time sv y;
               graph = (js_collector sv)\<lparr>sv_provider := collector_provider menu_url\<rparr>
           in case start_collector graph restaurant nutrition_url (sy_world y) of
                Raised e \<Rightarrow> (Inl e, y)
              | Finished st w \<Rightarrow> (Inr (collector_summary_of st), y\<lparr>sy_world := w\<rparr>)
              | Interrupted task st w \<Rightarrow>
                  (Inr (collector_summary_of st),
                   y\<lparr>sy_world := w, sy_checkpoints := (sy_checkpoints y)(thread_id \<mapsto> At_human_review st)\<rparr>)))"

definition run_collector_workflow ::
  "job_services \<Rightarrow> uuid \<Rightarrow> string \<Rightarrow> string option \<Rightarrow> string option \<Rightarrow> system \<Rightarrow> (job_error + collector_summary) \<times> system" where
  "run_collector_workflow sv restaurant_id restaurant_name menu_url nutrition_url =
     with_job_lock (uuid_str restaurant_id) ''collector_workflow''
       (collector_job sv restaurant_id restaurant_name menu_url nutrition_url)"

record reviewer_summary =
  vj_hash_changed :: "bool option"
  vj_published_restaurant_id :: "uuid option"
  vj_errors :: "workflow_error list"

definition reviewer_summary_of :: "reviewer_state \<Rightarrow> reviewer_summary" where
  "reviewer_summary_of st =
     \<lparr>vj_hash_changed = vs_hash_changed st, vj_published_restaurant_id = vs_published_restaurant_id st,
      vj_errors = vs_errors st\<rparr>"

definition reviewer_job :: "job_services \<Rightarrow> uuid \<Rightarrow> system \<Rightarrow> (exn + reviewer_summary) \<times> system" where
  "reviewer_job sv restaurant_id y =
     (case get_full_tree restaurant_id (sy_db y) of
        Inl e \<Rightarrow> (Inl e, y)
      | Inr None \<Rightarrow>
          (Inr \<lparr>vj_hash_changed = None, vj_published_restaurant_id = None,
             vj_errors = [\<lparr>we_node = ''reviewer_workflow_job'',
               we_message = [Txt ''no published restaurant '', Num restaurant_id]\<rparr>]\<rparr>, y)
      | Inr (Some restaurant) \<Rightarrow>
          (let (thread_id, y) = draw_uuid y; y = pass_time sv y
           in case start_review (js_reviewer sv) (Some restaurant) None (sy_world y) of
                Review_raised e \<Rightarrow> (Inl e, y)
              | Review_finished st w \<Rightarrow> (Inr (reviewer_summary_of st), y\<lparr>sy_world := w\<rparr>)
              | Review_interrupted task st w \<Rightarrow>
                  (Inr (reviewer_summary_of st),
                   y\<lparr>sy_world := w, sy_checkpoints := (sy_checkpoints y)(thread_id \<mapsto> At_final_sync st)\<rparr>)))"

definition run_reviewer_workflow :: "job_services \<Rightarrow> uuid \<Rightarrow> system \<Rightarrow> (job_error + reviewer_summary) \<times> system" where
  "run_reviewer_workflow sv restaurant_id =
     with_job_lock (uuid_str restaurant_id) ''reviewer_workflow'' (reviewer_job sv restaurant_id)"

section \<open>Maintenance polling\<close>

definition sweep_lock_sentinel :: string where
  "sweep_lock_sentinel = ''all-restaurants-sweep''"

definition maintenance_job :: "job_services \<Rightarrow> system \<Rightarrow> (exn + nat) \<times> system" where
  "maintenance_job sv y =
     (let ids = list_restaurant_ids (sy_db y)
      in (Inr (length ids), fold (\<lambda>i. enqueue (Reviewer_job i)) ids (pass_time sv y)))"

definition run_maintenance_polling :: "job_services \<Rightarrow> system \<Rightarrow> (job_error + nat) \<times> system" where
  "run_maintenance_polling sv = with_job_lock sweep_lock_sentinel ''maintenance_polling'' (maintenance_job sv)"

section \<open>Crawling\<close>

record crawl_summary =
  kj_source_snapshot_id :: uuid
  kj_content_hash :: string

definition crawl_and_store :: "job_services \<Rightarrow> uuid \<Rightarrow> string \<Rightarrow> system \<Rightarrow> (exn + crawl_summary) \<times> system" where
  "crawl_and_store sv source_id source_url y =
     (case extract_domain source_url of
        Inl e \<Rightarrow> (Inl (py_value_error e), y)
      | Inr domain \<Rightarrow>
          (case js_crawler sv domain of
             Inl e \<Rightarrow> (Inl e, y)
           | Inr crawl \<Rightarrow>
               (case run_capture (crawl source_id source_url) (sy_world y) of
                  (Inl e, w) \<Rightarrow> (Inl e, pass_time sv (y\<lparr>sy_world := w\<rparr>))
                | (Inr sn, w) \<Rightarrow>
                    (let y = pass_time sv (y\<lparr>sy_world := w\<rparr>) in
                     case create_snapshot sn (sy_db y) of
                       Inl e \<Rightarrow> (Inl e, y)
                     | Inr s \<Rightarrow>
                         (Inr \<lparr>kj_source_snapshot_id = sn_id sn, kj_content_hash = sn_content_hash sn\<rparr>,
                          on_system_db (\<lambda>_. s) y)))))"

definition source_crawl_job :: "job_services \<Rightarrow> uuid \<Rightarrow> uuid \<Rightarrow> string \<Rightarrow> system \<Rightarrow> (exn + crawl_summary) \<times> system" where
  "source_crawl_job sv restaurant_id source_id source_url y =
     (case crawl_and_store sv source_id source_url y of
        (Inl e, y) \<Rightarrow> (Inl e, y)
      | (Inr crawl, y) \<Rightarrow>
          (Inr crawl,
           enqueue (Collector_job restaurant_id [] (Some source_id) (Some (kj_source_snapshot_id crawl)) None None) y))"

definition run_source_crawl ::
  "job_services \<Rightarrow> uuid \<Rightarrow> string \<Rightarrow> uuid option \<Rightarrow> system \<Rightarrow> (job_error + crawl_summary) \<times> system" where
  "run_source_crawl sv restaurant_id source_url source_id y =
     (case source_id of
        None \<Rightarrow> (Inl (Job_raised (py_value_error ''source_crawl job requires a source_id'')), y)
      | Some i \<Rightarrow> with_job_lock (uuid_str restaurant_id) ''source_crawl'' (source_crawl_job sv restaurant_id i source_url) y)"

section \<open>Restaurant ingestion\<close>

definition seed_restaurant_id :: "job_services \<Rightarrow> string \<Rightarrow> uuid" where
  "seed_restaurant_id sv restaurant_seed_id = js_uuid5 sv (''hungrx:restaurant-seed:'' @ restaurant_seed_id)"

text \<open>The outcome dictionaries: the status with what goes along with it.\<close>

datatype ingestion_outcome =
    Ingestion_status string uuid
  | Ingestion_enqueued uuid
  | Source_rejected uuid string
  | Source_verified uuid uuid string

definition restaurant_ingestion_job ::
  "job_services \<Rightarrow> string \<Rightarrow> string \<Rightarrow> string option \<Rightarrow> string option \<Rightarrow> string option \<Rightarrow> string option
     \<Rightarrow> system \<Rightarrow> (exn + ingestion_outcome) \<times> system" where
  "restaurant_ingestion_job sv seed name city state country phone y =
     (let restaurant_id = seed_restaurant_id sv seed in
      if name = []
      then (Inl (ValidationError [([LKey ''name''], ''String should have at least 1 character'')]), y)
      else
       (let query = \<lparr>eq_restaurant_id = restaurant_id, eq_name = name, eq_city = city, eq_state = state,
                     eq_country = country, eq_phone = phone\<rparr>;
            y = pass_time sv y
        in case resolve_official_website null_provider query (sy_db y) of
             Inl e \<Rightarrow> (Inl e, y)
           | Inr (result, s) \<Rightarrow>
               (let y = on_system_db (\<lambda>_. s) y in
                case (sr_status result, sr_resolved_url result) of
                  (RS_VERIFIED, Some url) \<Rightarrow>
                    (Inr (Ingestion_enqueued restaurant_id), enqueue (Source_crawl_job restaurant_id url None) y)
                | _ \<Rightarrow> (Inr (Ingestion_status (resolution_status_value (sr_status result)) restaurant_id), y))))"

definition run_restaurant_ingestion ::
  "job_services \<Rightarrow> string \<Rightarrow> string \<Rightarrow> string option \<Rightarrow> string option \<Rightarrow> string option \<Rightarrow> string option
     \<Rightarrow> system \<Rightarrow> (job_error + ingestion_outcome) \<times> system" where
  "run_restaurant_ingestion sv seed name city state country phone =
     with_job_lock seed ''restaurant_ingestion'' (restaurant_ingestion_job sv seed name city state country phone)"

definition verify_only :: "job_services \<Rightarrow> string \<Rightarrow> string \<Rightarrow> system \<Rightarrow> (exn + ingestion_outcome) \<times> system" where
  "verify_only sv seed menu_url y =
     (let restaurant_id = seed_restaurant_id sv seed in
      case verify_and_persist_manual_source restaurant_id menu_url (sy_db y) of
        Inl (ManualSourceRejected e) \<Rightarrow> (Inr (Source_rejected restaurant_id e), y)
      | Inl (ManualOther e) \<Rightarrow> (Inl e, y)
      | Inr (source, s) \<Rightarrow>
          (Inr (Source_verified restaurant_id (so_id source) (so_url source)), on_system_db (\<lambda>_. s) y))"

definition manual_ingestion_job ::
  "job_services \<Rightarrow> string \<Rightarrow> string \<Rightarrow> system \<Rightarrow> (exn + ingestion_outcome) \<times> system" where
  "manual_ingestion_job sv seed menu_url y =
     (case verify_only sv seed menu_url y of
        (Inl e, y) \<Rightarrow> (Inl e, y)
      | (Inr (Source_verified restaurant_id source_id source_url), y) \<Rightarrow>
          (Inr (Source_verified restaurant_id source_id source_url),
           enqueue (Source_crawl_job restaurant_id source_url (Some source_id)) y)
      | (Inr outcome, y) \<Rightarrow> (Inr outcome, y))"

definition run_manual_restaurant_ingestion ::
  "job_services \<Rightarrow> string \<Rightarrow> string \<Rightarrow> system \<Rightarrow> (job_error + ingestion_outcome) \<times> system" where
  "run_manual_restaurant_ingestion sv seed menu_url =
     with_job_lock seed ''restaurant_ingestion'' (manual_ingestion_job sv seed menu_url)"

section \<open>Retrying failed jobs\<close>

record failed_job =
  fj_id :: uuid
  fj_job :: job
  fj_exc_info :: "string option"

definition transient_exc_markers :: "string list" where
  "transient_exc_markers = [''ConnectionError'', ''TimeoutError'', ''ConnectionRefusedError'', ''OperationalError'']"

definition looks_transient :: "string option \<Rightarrow> bool" where
  "looks_transient exc_info =
     (case exc_info of
        None \<Rightarrow> False
      | Some info \<Rightarrow> info \<noteq> [] \<and> list_ex (\<lambda>marker. py_contains marker info) transient_exc_markers)"

text \<open>One queue's \<open>FailedJobRegistry\<close>: what is requeued, what is left; the registry afterwards.\<close>

fun sweep_registry :: "failed_job list \<Rightarrow> system \<Rightarrow> uuid list \<times> uuid list \<times> failed_job list \<times> system" where
  "sweep_registry [] y = ([], [], [], y)"
| "sweep_registry (f # registry) y =
     (if looks_transient (fj_exc_info f)
      then (let (requeued, left_for_review, rest, y) = sweep_registry registry (enqueue (fj_job f) y)
            in (fj_id f # requeued, left_for_review, rest, y))
      else (let (requeued, left_for_review, rest, y) = sweep_registry registry y
            in (requeued, fj_id f # left_for_review, f # rest, y)))"

fun sweep_queues ::
  "string list \<Rightarrow> (string \<Rightarrow> failed_job list) \<Rightarrow> system \<Rightarrow> nat \<times> nat \<times> (string \<Rightarrow> failed_job list) \<times> system" where
  "sweep_queues [] failed y = (0, 0, failed, y)"
| "sweep_queues (name # names) failed y =
     (let (requeued, left_for_review, rest, y) = sweep_registry (failed name) y;
          (n, m, failed, y) = sweep_queues names (failed(name := rest)) y
      in (length requeued + n, length left_for_review + m, failed, y))"

definition run_retry_failed ::
  "(string \<Rightarrow> failed_job list) \<Rightarrow> system \<Rightarrow> nat \<times> nat \<times> (string \<Rightarrow> failed_job list) \<times> system" where
  "run_retry_failed failed y = sweep_queues all_queue_names failed y"

end
