(* ===== verification/Dispatch.thy ===== *)
theory Dispatch
  imports Jobs
begin

text \<open>
  The sequential dispatcher of the ingestion queue,
  \<open>src/apps/worker/app/jobs/ingestion_queue_dispatcher.py\<close>: one job claims one item, runs its whole
  pipeline inline, records the outcome and enqueues the next job. Here as a function on the system, for
  a worker that is alone; \<open>DispatchPool\<close> has it as a step relation, for any number of workers and
  the admin API acting in between.
\<close>

section \<open>One item\<close>

record dispatch_result =
  dr_restaurant_id :: uuid
  dr_source_id :: uuid
  dr_source_snapshot_id :: uuid
  dr_agent_run_id :: "uuid option"
  dr_published_restaurant_id :: "uuid option"
  dr_errors :: "workflow_error list"

definition rejection_reason :: "ingestion_outcome \<Rightarrow> string" where
  "rejection_reason outcome = (case outcome of Source_rejected _ why \<Rightarrow> why | _ \<Rightarrow> ''None'')"

definition run_one_item :: "job_services \<Rightarrow> uuid \<Rightarrow> system \<Rightarrow> (exn + dispatch_result) \<times> system" where
  "run_one_item sv i y =
     (case get_item (sy_db y) i of
        None \<Rightarrow> (Inl (OtherError [Txt ''ingestion queue item '', Num i, Txt '' not found'']), y)
      | Some item \<Rightarrow>
          (let (seed, y) = draw_uuid y;
               y = on_system_db (set_restaurant_seed_id i (uuid_str seed)) y
           in case verify_only sv (uuid_str seed) (qi_menu_url item) y of
                (Inl e, y) \<Rightarrow> (Inl e, y)
              | (Inr (Source_verified restaurant_id source_id source_url), y) \<Rightarrow>
                  (case crawl_and_store sv source_id source_url y of
                     (Inl e, y) \<Rightarrow> (Inl e, y)
                   | (Inr crawl, y) \<Rightarrow>
                       (case collector_job sv restaurant_id (qi_name item) (Some (qi_menu_url item))
                               (Some (qi_nutrition_url item)) y of
                          (Inl e, y) \<Rightarrow> (Inl e, y)
                        | (Inr c, y) \<Rightarrow>
                            (Inr \<lparr>dr_restaurant_id = restaurant_id, dr_source_id = source_id,
                                  dr_source_snapshot_id = kj_source_snapshot_id crawl,
                                  dr_agent_run_id = cj_agent_run_id c,
                                  dr_published_restaurant_id = cj_published_restaurant_id c,
                                  dr_errors = cj_errors c\<rparr>, y)))
              | (Inr outcome, y) \<Rightarrow>
                  (Inl (OtherError [Txt ''source verification rejected: '', Txt (rejection_reason outcome)]), y)))"

text \<open>The \<open>try\<close> block: an error entry of the graph counts as a failure.\<close>

definition item_outcome :: "job_services \<Rightarrow> uuid \<Rightarrow> system \<Rightarrow> (message + dispatch_result) \<times> system" where
  "item_outcome sv i y =
     (case run_one_item sv i y of
        (Inl e, y) \<Rightarrow> (Inl (exn_message e), y)
      | (Inr result, y) \<Rightarrow>
          (if dr_errors result \<noteq> []
           then Inl (join_messages ''; '' (map we_message (dr_errors result)))
           else Inr result, y))"

datatype cycle_result =
    Cycle_skipped
  | Cycle_empty
  | Cycle_failed message
  | Cycle_succeeded dispatch_result

definition record_outcome ::
  "job_services \<Rightarrow> uuid \<Rightarrow> message + dispatch_result \<Rightarrow> system \<Rightarrow> (exn + cycle_result) \<times> system" where
  "record_outcome sv i outcome y =
     (case outcome of
        Inl msg \<Rightarrow>
          (case mark_item_failed (js_show_dec sv) i msg (sy_db y) of
             Inl e \<Rightarrow> (Inl e, y)
           | Inr s \<Rightarrow> (Inr (Cycle_failed msg), on_system_db (\<lambda>_. s) y))
      | Inr result \<Rightarrow> (Inr (Cycle_succeeded result), on_system_db (mark_item_succeeded i) y))"

section \<open>One job\<close>

definition claim_item :: "system \<Rightarrow> uuid option \<times> system" where
  "claim_item y =
     (let (claimed, s) = claim_next_queued (sy_db y) in (map_option qi_id claimed, on_system_db (\<lambda>_. s) y))"

definition dispatch_one_cycle :: "job_services \<Rightarrow> system \<Rightarrow> (exn + cycle_result) \<times> system" where
  "dispatch_one_cycle sv y =
     (let (claimed, y) = claim_item y in
      case claimed of
        None \<Rightarrow> (Inr Cycle_empty, y)
      | Some i \<Rightarrow>
          (let (outcome, y) = item_outcome sv i y;
               (result, y) = record_outcome sv i outcome y
           in case result of
                Inl e \<Rightarrow> (Inl e, y)
              | Inr r \<Rightarrow> (Inr r, enqueue Dispatch_job y)))"

definition run_dispatch_next_ingestion_queue_item :: "job_services \<Rightarrow> system \<Rightarrow> (exn + cycle_result) \<times> system" where
  "run_dispatch_next_ingestion_queue_item sv y =
     (let (token, y) = draw_uuid y;
          (acquired, r) = dispatch_enter (sy_now y) token (sy_redis y);
          y = y\<lparr>sy_redis := r\<rparr>
      in if \<not> acquired then (Inr Cycle_skipped, y)
         else (let (result, y) = dispatch_one_cycle sv y
               in (result, y\<lparr>sy_redis := dispatch_exit (sy_now y) token (sy_redis y)\<rparr>)))"

definition try_trigger_dispatch :: "system \<Rightarrow> bool \<times> system" where
  "try_trigger_dispatch y =
     (if redis_get (sy_now y) dispatch_lock_key (sy_redis y) \<noteq> None then (False, y)
      else (True, enqueue Dispatch_job y))"

text \<open>A worker alone on the dispatch queue: at most \<open>n\<close> jobs, one after the other.\<close>

definition dequeue_dispatch :: "system \<Rightarrow> system" where
  "dequeue_dispatch y = y\<lparr>sy_jobs := remove1 Dispatch_job (sy_jobs y)\<rparr>"

fun work_dispatch :: "nat \<Rightarrow> job_services \<Rightarrow> system \<Rightarrow> (exn + cycle_result) list \<times> system" where
  "work_dispatch 0 sv y = ([], y)"
| "work_dispatch (Suc n) sv y =
     (if Dispatch_job \<notin> set (sy_jobs y) then ([], y)
      else (let (result, y) = run_dispatch_next_ingestion_queue_item sv (dequeue_dispatch y);
                (results, y) = work_dispatch n sv y
            in (result # results, y)))"

section \<open>What a run leaves of the queue\<close>

lemma db_queue_frames [simp, frame_simps]:
  "db_queue (snd (create_run wt ri s)) = db_queue s"
  "db_queue (mark_succeeded i s) = db_queue s"
  "db_queue (mark_failed i m s) = db_queue s"
  "db_queue (audit a aet ei actor email meta s) = db_queue s"
  "db_queue (update_change_status i st oj s) = db_queue s"
  "db_queue (snd (create_proposed_change et eid j vr run src th ou s)) = db_queue s"
  by (simp_all add: create_run_def mark_succeeded_def mark_failed_def audit_def create_audit_log_def
      update_change_status_def create_proposed_change_def Let_def)

lemma fail_run_audited_queue [simp]: "db_queue (fail_run_audited i a kvs m s) = db_queue s"
  by (simp add: fail_run_audited_def split: option.splits)

lemma resolve_queue: "resolve_official_website p query s = Inr (result, s') \<Longrightarrow> db_queue s' = db_queue s"
proof -
  have "try_candidates query cs rejected s = Inr (result, s') \<Longrightarrow> db_queue s' = db_queue s" for cs rejected
    by (induction cs arbitrary: rejected)
      (auto simp: finalize_Inr split: sum.splits option.splits if_splits)
  then show "resolve_official_website p query s = Inr (result, s') \<Longrightarrow> db_queue s' = db_queue s"
    by (auto simp: resolve_official_website_def Let_def split: if_splits)
qed

lemma run_capture_queue: "run_capture m w = (r, w') \<Longrightarrow> db_queue (w_db w') = db_queue (w_db w)"
  by (auto simp: run_capture_def split: prod.splits)

lemma persist_tree_queue: "persist_tree r s = Inr s' \<Longrightarrow> db_queue s' = db_queue s"
  by (auto simp: persist_tree_def Let_def split: if_splits)

lemma source_authority_queue:
  "source_authority_node sv st s = Inr (us, s') \<Longrightarrow> db_queue s' = db_queue s"
  using db_queue_frames(1) [of COLLECTOR]
  by (auto simp: source_authority_node_def Let_def split_def dest!: resolve_queue split: option.splits sum.splits if_splits)

lemma extraction_queue:
  "extraction_node sv st w = Inr (us, w') \<Longrightarrow> db_queue (w_db w') = db_queue (w_db w)"
  by (auto simp: extraction_node_def Let_def dest!: run_capture_queue
      split: option.splits sum.splits list.splits prod.splits)

lemma translation_queue:
  "multimodal_translation_node sv st w = Inr (us, w') \<Longrightarrow> db_queue (w_db w') = db_queue (w_db w)"
  by (auto simp: multimodal_translation_node_def Let_def
      split: option.splits sum.splits list.splits prod.splits exn.splits)

lemma validation_queue:
  "deterministic_validation_node sv st s = Inr (us, s') \<Longrightarrow> db_queue s' = db_queue s"
  by (auto simp: deterministic_validation_node_def Let_def split: option.splits if_splits)

lemma human_review_queue:
  "human_review_node st d s = Inr (out, s') \<Longrightarrow> db_queue s' = db_queue s"
  by (auto simp: human_review_node_def Let_def split_def split: option.splits sum.splits)

lemma publish_queue: "publish_node sv st s = Inr (us, s') \<Longrightarrow> db_queue s' = db_queue s"
  by (auto simp: publish_node_def publish_fail_def publish_write_def Let_def dest!: persist_tree_queue
      split: option.splits sum.splits if_splits)

lemma exec_node_queue:
  "exec_node sv n st resume w = Inr (out, w') \<Longrightarrow> db_queue (w_db w') = db_queue (w_db w)"
  by (cases n)
    (auto simp: on_db_def dest: source_authority_queue extraction_queue translation_queue validation_queue
      human_review_queue publish_queue split: sum.splits)

definition result_world :: "run_result \<Rightarrow> world option" where
  "result_world res =
     (case res of Raised e \<Rightarrow> None | Finished st w \<Rightarrow> Some w | Interrupted t st w \<Rightarrow> Some w)"

lemma run_from_queue:
  "result_world (run_from sv n st resume w) = Some w' \<Longrightarrow> db_queue (w_db w') = db_queue (w_db w)"
proof (induction sv n st resume w rule: run_from.induct)
  case (1 sv n st resume w)
  show ?case
  proof (cases "exec_node sv n st resume w")
    case (Inl e)
    then show ?thesis using 1(2) by (subst (asm) run_from.simps) (simp add: result_world_def)
  next
    case (Inr p)
    obtain out w1 where p: "p = (out, w1)" by (cases p)
    have q: "db_queue (w_db w1) = db_queue (w_db w)" using exec_node_queue Inr p by simp
    show ?thesis
    proof (cases out)
      case (Paused t)
      then show ?thesis using 1(2) Inr p q by (subst (asm) run_from.simps) (simp add: result_world_def)
    next
      case (Returned us)
      show ?thesis
      proof (cases "route n (merge us st)")
        case None
        then show ?thesis using 1(2) Inr p q Returned
          by (subst (asm) run_from.simps) (simp add: result_world_def Let_def)
      next
        case (Some m)
        have "result_world (run_from sv m (merge us st) None w1) = Some w'"
          using 1(2) Inr p Returned Some by (subst (asm) run_from.simps) (simp add: Let_def)
        then have "db_queue (w_db w') = db_queue (w_db w1)"
          using 1(1) [OF Inr p [symmetric] Returned refl Some] by simp
        then show ?thesis using q by simp
      qed
    qed
  qed
qed

text \<open>What the stages of a run leave alone: the queue, the locks, the enqueued jobs; the clock and the
  supply of identifiers only move forward.\<close>

definition off_queue :: "system \<Rightarrow> system \<Rightarrow> bool" where
  "off_queue y y' \<longleftrightarrow> db_queue (sy_db y') = db_queue (sy_db y) \<and> sy_redis y' = sy_redis y \<and> sy_jobs y' = sy_jobs y"

lemma off_queue_refl [simp]: "off_queue y y"
  by (simp add: off_queue_def)

lemma off_queue_trans: "off_queue x y \<Longrightarrow> off_queue y z \<Longrightarrow> off_queue x z"
  by (simp add: off_queue_def)

lemma off_queue_draw: "draw_uuid y = (i, y') \<Longrightarrow> off_queue y y'"
  by (auto simp: draw_uuid_def off_queue_def on_system_db_def)

lemma off_queue_pass [simp]: "off_queue y (pass_time sv y)"
  by (simp add: off_queue_def pass_time_def)

lemma verify_only_off_queue: "verify_only sv seed url y = (res, y') \<Longrightarrow> off_queue y y'"
  by (auto simp: verify_only_def verify_and_persist_manual_source_def create_source_def off_queue_def on_system_db_def Let_def
      split: sum.splits manual_error.splits domain_error.splits if_splits prod.splits)

lemma crawl_off_queue: "crawl_and_store sv i url y = (res, y') \<Longrightarrow> off_queue y y'"
  by (auto simp: crawl_and_store_def off_queue_def pass_time_def on_system_db_def create_snapshot_def Let_def
      dest!: run_capture_queue split: sum.splits if_splits prod.splits)

lemma collector_job_off_queue:
  assumes "collector_job sv i name menu nut y = (res, y')"
  shows "off_queue y y'"
proof (cases "restaurant_identity (js_collector sv) i name")
  case (Inl es)
  then show ?thesis using assms by (simp add: collector_job_def)
next
  case (Inr r)
  obtain th y1 where d: "draw_uuid y = (th, y1)" by fastforce
  let ?y = "pass_time sv y1"
  let ?sv = "(js_collector sv)\<lparr>sv_provider := collector_provider menu\<rparr>"
  have y: "off_queue y ?y" by (rule off_queue_trans [OF off_queue_draw [OF d] off_queue_pass])
  have w: "db_queue (w_db w') = db_queue (sy_db ?y)"
    if "result_world (start_collector ?sv r nut (sy_world ?y)) = Some w'" for w'
    using run_from_queue that unfolding start_collector_def by blast
  show ?thesis
    using assms Inr d y w
    by (auto simp: collector_job_def Let_def result_world_def off_queue_def split: run_result.splits)
qed

text \<open>So the pipeline of an item writes at most that item's seed.\<close>

lemma run_one_item_queue:
  assumes "run_one_item sv i y = (res, y')"
  shows "\<exists>f. (f = id \<or> (\<exists>seed. f = seeded seed)) \<and> db_queue (sy_db y') = db_queue (write_item i f (sy_db y))
     \<and> sy_redis y' = sy_redis y \<and> sy_jobs y' = sy_jobs y"
proof (cases "get_item (sy_db y) i")
  case None
  have "db_queue (write_item i id (sy_db y)) = db_queue (sy_db y)"
    by (simp add: write_item_queue touched_item_def cong: if_cong)
  then show ?thesis using assms None by (auto simp: run_one_item_def)
next
  case (Some item)
  obtain seed y1 where d: "draw_uuid y = (seed, y1)" by fastforce
  let ?y2 = "on_system_db (set_restaurant_seed_id i (uuid_str seed)) y1"
  have "off_queue ?y2 y'"
    using assms Some d
    by (auto simp: run_one_item_def Let_def
        dest!: verify_only_off_queue crawl_off_queue collector_job_off_queue
        intro: off_queue_trans split: prod.splits sum.splits ingestion_outcome.splits)
  moreover have "db_queue (sy_db ?y2) = db_queue (write_item i (seeded (uuid_str seed)) (sy_db y))"
    "sy_redis ?y2 = sy_redis y" "sy_jobs ?y2 = sy_jobs y"
    using d by (auto simp: draw_uuid_def on_system_db_def set_restaurant_seed_id_def write_item_queue)
  ultimately show ?thesis unfolding off_queue_def by metis
qed

lemma item_outcome_queue:
  assumes "item_outcome sv i y = (out, y')"
  shows "\<exists>f. (f = id \<or> (\<exists>seed. f = seeded seed)) \<and> db_queue (sy_db y') = db_queue (write_item i f (sy_db y))
     \<and> sy_redis y' = sy_redis y \<and> sy_jobs y' = sy_jobs y"
proof -
  obtain res where "run_one_item sv i y = (res, y')"
    using assms by (auto simp: item_outcome_def split: prod.splits sum.splits)
  then show ?thesis by (rule run_one_item_queue)
qed

section \<open>One cycle\<close>

lemma get_item_write:
  assumes "\<And>r. qi_id (f r) = qi_id r"
  shows "get_item (write_item i f s) j
    = (if j = i then map_option (touched_item (db_now s) f) (get_item s i) else get_item s j)"
proof -
  have "row_update qi_id (touched_item (db_now s) f)"
    by unfold_locales (rule touched_item_key [OF assms])
  then show ?thesis
    by (simp add: get_item_def write_item_def row_update.get_updated row_update.get_other)
qed

lemma item_status_write:
  "(\<And>r. qi_id (f r) = qi_id r) \<Longrightarrow>
     item_status (write_item i f s) j = (if j = i then map_option (qi_status \<circ> f) (get_item s i) else item_status s j)"
  by (simp add: item_status_def get_item_write option.map_comp comp_def)

text \<open>The writes of a dispatcher, by what they do to the status.\<close>

lemma dispatcher_writes [simp]:
  "qi_id (claimed r) = qi_id r" "qi_status (claimed r) = QRUNNING"
  "qi_id (succeeded r) = qi_id r" "qi_status (succeeded r) = QSUCCEEDED"
  "qi_id (failed_with m r) = qi_id r" "qi_status (failed_with m r) = QFAILED"
  "qi_id (seeded sd r) = qi_id r" "qi_status (seeded sd r) = qi_status r"
  "qi_id (requeued r) = qi_id r" "qi_status (requeued r) = QUEUED"
  by (simp_all add: claimed_def succeeded_def failed_with_def seeded_def requeued_def)

text \<open>Everything said of the queue depends on its rows only.\<close>

lemma same_rows:
  assumes "db_queue s' = db_queue s"
  shows "pending s' = pending s" "queue_ok s' = queue_ok s" "get_item s' j = get_item s j"
    "item_status s' j = item_status s j"
  using assms by (simp_all add: pending_def queued_items_def queue_ok_def get_item_def item_status_def)

definition finished :: "db \<Rightarrow> uuid \<Rightarrow> bool" where
  "finished s i \<longleftrightarrow> item_status s i = Some QSUCCEEDED \<or> item_status s i = Some QFAILED"

text \<open>The pipeline leaves an item running and the others alone.\<close>

lemma item_outcome_status:
  assumes "item_outcome sv i y = (out, y')" "queue_ok (sy_db y)" "item_status (sy_db y) i = Some QRUNNING"
  shows "queue_ok (sy_db y')" "pending (sy_db y') = pending (sy_db y)" "item_status (sy_db y') j = item_status (sy_db y) j"
    "sy_redis y' = sy_redis y" "sy_jobs y' = sy_jobs y"
proof -
  obtain f where f: "f = id \<or> (\<exists>seed. f = seeded seed)" and q: "db_queue (sy_db y') = db_queue (write_item i f (sy_db y))"
    and rest: "sy_redis y' = sy_redis y" "sy_jobs y' = sy_jobs y"
    using item_outcome_queue [OF assms(1)] by blast
  have k: "qi_id (f r) = qi_id r" "qi_status (f r) = qi_status r" for r using f by auto
  show "queue_ok (sy_db y')" using assms(2) k by (simp add: same_rows [OF q])
  then show "item_status (sy_db y') j = item_status (sy_db y) j"
    using k by (simp add: same_rows [OF q] item_status_write comp_def) (simp add: item_status_def)
  have "filter (\<lambda>r. qi_status r = QUEUED) (map (\<lambda>r. if qi_id r = i then touched_item t f r else r) rows)
      = filter (\<lambda>r. qi_status r = QUEUED) rows"
    if "\<And>r. r \<in> set rows \<Longrightarrow> qi_id r = i \<Longrightarrow> qi_status r = QRUNNING" for rows t
    using that by (induction rows) (auto simp: k)
  moreover have "qi_status r = QRUNNING" if "r \<in> set (db_queue (sy_db y))" "qi_id r = i" for r
    using queue_ok_get [OF assms(2) that(1)] that(2) assms(3) by (simp add: item_status_def)
  ultimately show "pending (sy_db y') = pending (sy_db y)"
    unfolding same_rows(1) [OF q] by (simp add: pending_def queued_items_def write_item_queue)
  show "sy_redis y' = sy_redis y" "sy_jobs y' = sy_jobs y" by (fact rest)+
qed

lemma record_outcome_status:
  assumes "record_outcome sv i out y = (res, y')" "queue_ok (sy_db y)" "item_status (sy_db y) i = Some QRUNNING"
  shows "queue_ok (sy_db y')" "pending (sy_db y') = pending (sy_db y)"
    "j \<noteq> i \<Longrightarrow> item_status (sy_db y') j = item_status (sy_db y) j"
    "sy_redis y' = sy_redis y" "sy_jobs y' = sy_jobs y"
    "case res of Inl e \<Rightarrow> item_status (sy_db y') i = Some QRUNNING
     | Inr r \<Rightarrow> finished (sy_db y') i \<and> r \<noteq> Cycle_empty \<and> r \<noteq> Cycle_skipped"
proof -
  have i: "i \<notin> set (pending (sy_db y))" using assms(3) pending_mem [OF assms(2)] by simp
  then have keep: "filter (\<lambda>j. j \<noteq> i) (pending (sy_db y)) = pending (sy_db y)" by (auto simp: filter_id_conv)
  obtain r where r: "get_item (sy_db y) i = Some r" using assms(3) by (auto simp: item_status_def)
  have *: "y' = y \<and> (\<exists>e. res = Inl e)
    \<or> (\<exists>m. y' = on_system_db (write_item i (failed_with m)) y \<and> res = Inr (Cycle_failed m))
    \<or> (\<exists>x. y' = on_system_db (write_item i succeeded) y \<and> res = Inr (Cycle_succeeded x))"
    using assms(1) r
    by (auto simp: record_outcome_def mark_item_failed_def mark_item_succeeded_def on_system_db_def split: sum.splits if_splits)
  show "queue_ok (sy_db y')" "pending (sy_db y') = pending (sy_db y)"
    "j \<noteq> i \<Longrightarrow> item_status (sy_db y') j = item_status (sy_db y) j"
    "sy_redis y' = sy_redis y" "sy_jobs y' = sy_jobs y"
    "case res of Inl e \<Rightarrow> item_status (sy_db y') i = Some QRUNNING
     | Inr r \<Rightarrow> finished (sy_db y') i \<and> r \<noteq> Cycle_empty \<and> r \<noteq> Cycle_skipped"
    using * assms(2,3) r
    by (auto simp: on_system_db_def pending_write keep item_status_write finished_def)
qed

text \<open>A cycle over the oldest item.\<close>

lemma dispatch_cycle:
  assumes "queue_ok (sy_db y)" "pending (sy_db y) = i # rest" "dispatch_one_cycle sv y = (res, y')"
  shows "queue_ok (sy_db y')" "pending (sy_db y') = rest" "sy_redis y' = sy_redis y"
    "j \<noteq> i \<Longrightarrow> item_status (sy_db y') j = item_status (sy_db y) j"
    "case res of Inl e \<Rightarrow> item_status (sy_db y') i = Some QRUNNING \<and> sy_jobs y' = sy_jobs y
     | Inr r \<Rightarrow> finished (sy_db y') i \<and> sy_jobs y' = sy_jobs y @ [Dispatch_job]"
proof -
  obtain r where r: "get_item (sy_db y) i = Some r"
    and c: "claim_next_queued (sy_db y) = (Some (touched_item (db_now (sy_db y)) claimed r), write_item i claimed (sy_db y))"
    and p: "pending (write_item i claimed (sy_db y)) = rest" and id: "qi_id r = i"
    using claim_oldest [OF assms(1,2)] by metis
  let ?y1 = "on_system_db (\<lambda>_. write_item i claimed (sy_db y)) y"
  have cl: "claim_item y = (Some i, ?y1)" by (simp add: claim_item_def c touched_item_key id)
  obtain out y2 where o2: "item_outcome sv i ?y1 = (out, y2)" by fastforce
  obtain res3 y3 where o3: "record_outcome sv i out y2 = (res3, y3)" by fastforce
  have s1: "queue_ok (sy_db ?y1)" "pending (sy_db ?y1) = rest" "item_status (sy_db ?y1) i = Some QRUNNING"
    "sy_redis ?y1 = sy_redis y" "sy_jobs ?y1 = sy_jobs y"
    "j \<noteq> i \<Longrightarrow> item_status (sy_db ?y1) j = item_status (sy_db y) j" for j
    using assms(1) p r by (simp_all add: on_system_db_def item_status_write)
  note s2 = item_outcome_status [OF o2 s1(1,3)]
  have run: "item_status (sy_db y2) i = Some QRUNNING" using s2(3) s1(3) by simp
  note s3 = record_outcome_status [OF o3 s2(1) run]
  have y': "y' = (case res3 of Inl e \<Rightarrow> y3 | Inr r \<Rightarrow> enqueue Dispatch_job y3)" "res = res3"
    using assms(3) cl o2 o3 by (auto simp: dispatch_one_cycle_def split: sum.splits)
  show "queue_ok (sy_db y')" "pending (sy_db y') = rest" "sy_redis y' = sy_redis y"
    "j \<noteq> i \<Longrightarrow> item_status (sy_db y') j = item_status (sy_db y) j"
    "case res of Inl e \<Rightarrow> item_status (sy_db y') i = Some QRUNNING \<and> sy_jobs y' = sy_jobs y
     | Inr r \<Rightarrow> finished (sy_db y') i \<and> sy_jobs y' = sy_jobs y @ [Dispatch_job]"
    using y' s1 s2 s3 by (auto simp: enqueue_def split: sum.splits)
qed

section \<open>The chain drains the queue\<close>

lemma dispatch_alone:
  assumes "sy_redis y dispatch_lock_key = None" "run_dispatch_next_ingestion_queue_item sv y = (res, y')"
    and "queue_ok (sy_db y)"
  obtains y1 y2 where "dispatch_one_cycle sv y1 = (res, y2)" "db_queue (sy_db y1) = db_queue (sy_db y)"
    "sy_jobs y1 = sy_jobs y" "sy_db y' = sy_db y2" "sy_jobs y' = sy_jobs y2"
    "sy_redis y' dispatch_lock_key = None"
proof -
  obtain token y0 where d: "draw_uuid y = (token, y0)" by fastforce
  have y0: "db_queue (sy_db y0) = db_queue (sy_db y)" "sy_jobs y0 = sy_jobs y" "sy_redis y0 = sy_redis y"
    using d by (auto simp: draw_uuid_def on_system_db_def)
  have free: "redis_get (sy_now y0) dispatch_lock_key (sy_redis y0) = None"
    using assms(1) by (simp add: y0 redis_get_def)
  define y1 where "y1 = y0\<lparr>sy_redis := snd (dispatch_enter (sy_now y0) token (sy_redis y0))\<rparr>"
  obtain res2 y2 where c: "dispatch_one_cycle sv y1 = (res2, y2)" by fastforce
  have held: "redis_get t dispatch_lock_key (sy_redis y1) = Some token" for t
    using free by (simp add: y1_def dispatch_enter_def redis_set_get)
  have "sy_redis y2 = sy_redis y1"
  proof (cases "pending (sy_db y1)")
    case Nil
    then show ?thesis using c
      by (auto simp: dispatch_one_cycle_def claim_item_def claim_nothing on_system_db_def)
  next
    case (Cons i rest)
    have "queue_ok (sy_db y1)" using assms(3) by (simp add: y1_def same_rows [OF y0(1)])
    then show ?thesis using dispatch_cycle(3) Cons c by blast
  qed
  then have "redis_get (sy_now y2) dispatch_lock_key (sy_redis y2) = Some token" using held by simp
  then have left: "dispatch_exit (sy_now y2) token (sy_redis y2) dispatch_lock_key = None"
    by (simp add: dispatch_exit_def release_if_owned_def)
  have "fst (dispatch_enter (sy_now y0) token (sy_redis y0))" using free by (rule dispatch_lock.enter_free)
  then have "res2 = res" "y' = y2\<lparr>sy_redis := dispatch_exit (sy_now y2) token (sy_redis y2)\<rparr>"
    using assms(2) d c by (auto simp: run_dispatch_next_ingestion_queue_item_def y1_def split_def Let_def)
  then show ?thesis
    using that [of y1 y2] c left y0 by (simp add: y1_def)
qed

lemma no_dispatch_left [simp]: "count_list xs Dispatch_job = 1 \<Longrightarrow> Dispatch_job \<notin> set (remove1 Dispatch_job xs)"
  by (induction xs) (auto simp: count_list_0_iff)

lemma count_list_append1 [simp]: "x \<notin> set xs \<Longrightarrow> count_list (xs @ [x]) x = 1"
  by (induction xs) auto

text \<open>How a chain ends: it found the queue empty after finishing all the given items, or it could not
  record the failure of the last one.\<close>

definition chain_ended :: "uuid list \<Rightarrow> uuid list \<Rightarrow> (exn + cycle_result) list \<Rightarrow> db \<Rightarrow> bool" where
  "chain_ended processed waiting results s \<longleftrightarrow>
     (waiting = [] \<and> list_all (finished s) processed
       \<and> length results = Suc (length processed) \<and> last results = Inr Cycle_empty)
   \<or> (\<exists>before stuck e. processed = before @ [stuck] \<and> list_all (finished s) before
       \<and> item_status s stuck = Some QRUNNING \<and> last results = Inl e)"

lemma chain_ended_Cons:
  assumes "finished s i" "results \<noteq> []" "chain_ended processed waiting results s"
  shows "chain_ended (i # processed) waiting (r # results) s"
  using assms(3) unfolding chain_ended_def
proof (elim disjE exE conjE)
  fix before stuck e
  assume "processed = before @ [stuck]" "list_all (finished s) before" "item_status s stuck = Some QRUNNING" "last results = Inl e"
  then have "i # processed = (i # before) @ [stuck]" "list_all (finished s) (i # before)"
    "item_status s stuck = Some QRUNNING" "last (r # results) = Inl e"
    using assms(1,2) by simp_all
  then show "(waiting = [] \<and> list_all (finished s) (i # processed) \<and> length (r # results) = Suc (length (i # processed))
      \<and> last (r # results) = Inr Cycle_empty)
    \<or> (\<exists>before stuck e. i # processed = before @ [stuck] \<and> list_all (finished s) before
      \<and> item_status s stuck = Some QRUNNING \<and> last (r # results) = Inl e)" by blast
qed (use assms(1,2) in simp)

lemma work_dispatch_drains:
  assumes "queue_ok (sy_db y)" "sy_redis y dispatch_lock_key = None"
    "count_list (sy_jobs y) Dispatch_job = 1" "length (pending (sy_db y)) < n"
    "work_dispatch n sv y = (results, y')"
  shows "\<exists>processed waiting. pending (sy_db y) = processed @ waiting \<and> pending (sy_db y') = waiting
    \<and> chain_ended processed waiting results (sy_db y') \<and> results \<noteq> []
    \<and> queue_ok (sy_db y') \<and> sy_redis y' dispatch_lock_key = None \<and> Dispatch_job \<notin> set (sy_jobs y')
    \<and> (\<forall>j. j \<notin> set processed \<longrightarrow> item_status (sy_db y') j = item_status (sy_db y) j)"
  using assms
proof (induction n arbitrary: y results)
  case (Suc n)
  let ?y = "dequeue_dispatch y"
  have dq: "sy_redis ?y = sy_redis y" "sy_world ?y = sy_world y" "sy_jobs ?y = remove1 Dispatch_job (sy_jobs y)"
    by (simp_all add: dequeue_dispatch_def)
  have mem: "Dispatch_job \<in> set (sy_jobs y)" using Suc.prems(3) by (metis count_list_0_iff zero_neq_one)
  obtain res y2 where r: "run_dispatch_next_ingestion_queue_item sv ?y = (res, y2)" by fastforce
  obtain rs where rs: "work_dispatch n sv y2 = (rs, y')" "results = res # rs"
    using Suc.prems(5) mem r by (auto split: prod.splits)
  have "sy_redis ?y dispatch_lock_key = None" "queue_ok (sy_db ?y)" using Suc.prems(1,2) by (simp_all add: dq)
  then obtain y1 y3 where c: "dispatch_one_cycle sv y1 = (res, y3)" "db_queue (sy_db y1) = db_queue (sy_db y)"
    "sy_jobs y1 = remove1 Dispatch_job (sy_jobs y)" "sy_db y2 = sy_db y3" "sy_jobs y2 = sy_jobs y3"
    "sy_redis y2 dispatch_lock_key = None"
    using dispatch_alone [OF _ r] by (metis dq)
  note rows = same_rows [OF c(2)]
  have ok1: "queue_ok (sy_db y1)" using Suc.prems(1) by (simp add: rows)
  have gone: "Dispatch_job \<notin> set (sy_jobs y1)" using Suc.prems(3) by (simp add: c(3))
  have stop: "rs = [] \<and> y' = y2" if "Dispatch_job \<notin> set (sy_jobs y2)"
    using rs(1) that by (cases n) auto
  show ?case
  proof (cases "pending (sy_db y)")
    case Nil
    then have e: "res = Inr Cycle_empty" "y3 = y1"
      using c(1) by (auto simp: dispatch_one_cycle_def claim_item_def claim_nothing rows on_system_db_def)
    have "rs = []" "y' = y2" using stop gone by (simp_all add: c(5) e)
    then show ?thesis
      using Nil e c(4-6) gone ok1 by (intro exI [of _ "[]"]) (simp add: chain_ended_def rs(2) rows)
  next
    case (Cons i rest)
    then have p1: "pending (sy_db y1) = i # rest" by (simp add: rows)
    note cycle = dispatch_cycle [OF ok1 p1 c(1)]
    have others: "item_status (sy_db y2) j = item_status (sy_db y) j" if "j \<noteq> i" for j
      using cycle(4) [OF that] by (simp add: c(4) rows)
    show ?thesis
    proof (cases res)
      case (Inl e)
      then have "rs = []" "y' = y2" using stop gone cycle(5) by (simp_all add: c(5))
      then show ?thesis
        using Cons Inl cycle c(4-6) gone others
        by (intro exI [of _ "[i]"] exI [of _ rest]) (simp add: chain_ended_def rs(2))
    next
      case (Inr x)
      have "queue_ok (sy_db y2)" "pending (sy_db y2) = rest" "count_list (sy_jobs y2) Dispatch_job = 1"
        using cycle Inr gone by (simp_all add: c(4,5))
      moreover have "length (pending (sy_db y2)) < n" using Suc.prems(4) Cons calculation(2) by simp
      ultimately obtain processed waiting where h: "rest = processed @ waiting" "pending (sy_db y') = waiting"
        "chain_ended processed waiting rs (sy_db y')" "rs \<noteq> []" "queue_ok (sy_db y')"
        "sy_redis y' dispatch_lock_key = None" "Dispatch_job \<notin> set (sy_jobs y')"
        and same: "\<And>j. j \<notin> set processed \<Longrightarrow> item_status (sy_db y') j = item_status (sy_db y2) j"
        using Suc.IH [OF _ c(6) _ _ rs(1)] by blast
      have "i \<notin> set processed"
        using pending_distinct [OF Suc.prems(1)] Cons h(1) by auto
      then have "finished (sy_db y') i" using same cycle(5) Inr by (simp add: finished_def c(4))
      then have "chain_ended (i # processed) waiting results (sy_db y')"
        unfolding rs(2) using h(3,4) by (intro chain_ended_Cons)
      moreover have "item_status (sy_db y') j = item_status (sy_db y) j" if "j \<notin> set (i # processed)" for j
        using that same others by simp
      ultimately show ?thesis using Cons h(1,2,5-7) rs(2)
        by (intro exI [of _ "i # processed"] exI [of _ waiting]) simp
    qed
  qed
qed simp

text \<open>C11: The dispatch chain ends and handles every waiting item once, oldest first. Start with one
  dispatch job, the dispatch lock free and distinct items in the queue, and let a worker work off the
  dispatch queue; as many jobs as there are waiting items and one more are enough, so the chain ends by
  itself. Then the items processed are an initial part of the waiting ones in the order of their upload
  times. Either that is all of them: each ended as SUCCEEDED or FAILED whatever its pipeline did, nothing is
  waiting any more, and the last job reported an empty queue; or the failure of the last one processed
  could not be recorded (its message was too long for the column): that item stays RUNNING, the later
  ones stay QUEUED in their order, and no dispatch job is left. In both cases the lock is free again and
  no other item changed its status.\<close>

theorem ingestion_queue_drains:
  assumes "queue_ok (sy_db y)" "sy_redis y dispatch_lock_key = None" "count_list (sy_jobs y) Dispatch_job = 1"
    and "length (pending (sy_db y)) < n" "work_dispatch n sv y = (results, y')"
  shows "\<exists>processed waiting. pending (sy_db y) = processed @ waiting \<and> pending (sy_db y') = waiting
    \<and> ((waiting = [] \<and> list_all (finished (sy_db y')) processed
          \<and> length results = Suc (length processed) \<and> last results = Inr Cycle_empty)
       \<or> (\<exists>before stuck e. processed = before @ [stuck] \<and> list_all (finished (sy_db y')) before
          \<and> item_status (sy_db y') stuck = Some QRUNNING \<and> last results = Inl e))
    \<and> sy_redis y' dispatch_lock_key = None \<and> Dispatch_job \<notin> set (sy_jobs y')
    \<and> list_all (\<lambda>j. j \<in> set processed \<or> item_status (sy_db y') j = item_status (sy_db y) j) (map qi_id (db_queue (sy_db y)))"
  using work_dispatch_drains [OF assms] unfolding chain_ended_def list_all_iff by blast

definition waiting_item :: "uuid \<Rightarrow> string \<Rightarrow> queue_item" where
  "waiting_item i name =
     \<lparr>qi_id = i, qi_batch_id = 0, qi_name = name, qi_menu_url = ''https://joes.example/menu'',
      qi_nutrition_url = ''https://joes.example/nutrition'', qi_status = QUEUED, qi_restaurant_seed_id = None,
      qi_error_message = None, qi_created_by = None, qi_created_at = i, qi_updated_at = i\<rparr>"

definition idle_system :: "queue_item list \<Rightarrow> system" where
  "idle_system items =
     \<lparr>sy_now = 0, sy_world = \<lparr>w_db = empty_db\<lparr>db_next := 10, db_queue := items\<rparr>, w_files = Map.empty\<rparr>,
      sy_redis = Map.empty, sy_jobs = [], sy_checkpoints = Map.empty\<rparr>"

definition sample_job_services :: job_services where
  "sample_job_services =
     \<lparr>js_collector = sample_services,
      js_reviewer = sample_reviewer,
      js_crawler = (\<lambda>_. Inl (OtherError [])), js_uuid5 = (\<lambda>_. 7), js_show_dec = (\<lambda>_. []), js_elapsed = 60000\<rparr>"

theorem ingestion_queue_drains_witness:
  "\<exists>results y' processed waiting.
     work_dispatch 3 sample_job_services (enqueue Dispatch_job (idle_system [waiting_item 2 ''Joe'', waiting_item 1 ''Ann''])) = (results, y')
     \<and> [1, 2] = processed @ waiting \<and> pending (sy_db y') = waiting \<and> sy_redis y' dispatch_lock_key = None"
proof -
  let ?y = "enqueue Dispatch_job (idle_system [waiting_item 2 ''Joe'', waiting_item 1 ''Ann''])"
  obtain results y' where w: "work_dispatch 3 sample_job_services ?y = (results, y')" by fastforce
  have h: "queue_ok (sy_db ?y)" "sy_redis ?y dispatch_lock_key = None" "count_list (sy_jobs ?y) Dispatch_job = 1"
    "pending (sy_db ?y) = [1, 2]"
    by (simp_all add: enqueue_def idle_system_def queue_ok_def waiting_item_def pending_def queued_items_def)
  show ?thesis using ingestion_queue_drains [OF h(1-3) _ w] h(4) w by auto
qed

end
