(* ===== verification/DispatchPool.thy ===== *)
theory DispatchPool
  imports Dispatch
begin

text \<open>
  Any number of dispatch workers, the admin API and the rest of the system, step by step. A worker is
  identified by the token it draws; between two of its steps the others may act, and it may be killed at
  any point. The pipeline of an item is one step, since what it does elsewhere interferes with nothing
  here (\<open>item_outcome_queue\<close>).
\<close>

section \<open>Steps\<close>

datatype phase =
    Waiting
  | Inside
  | Busy uuid
  | Worked uuid "message + dispatch_result"
  | Leaving

record pool =
  pl_system :: system
  pl_workers :: "uuid \<Rightarrow> phase option"

abbreviation pl_db :: "pool \<Rightarrow> db" where "pl_db p \<equiv> sy_db (pl_system p)"

abbreviation lock_entry :: "pool \<Rightarrow> (uuid \<times> nat option) option" where
  "lock_entry p \<equiv> sy_redis (pl_system p) dispatch_lock_key"

text \<open>What the other jobs and routes may do meanwhile.\<close>

definition elsewhere :: "system \<Rightarrow> system \<Rightarrow> bool" where
  "elsewhere y y' \<longleftrightarrow> db_queue (sy_db y') = db_queue (sy_db y) \<and> sy_now y \<le> sy_now y'
     \<and> sy_redis y' dispatch_lock_key = sy_redis y dispatch_lock_key
     \<and> jobs_in queue_ingestion_queue_dispatch y' = jobs_in queue_ingestion_queue_dispatch y"

inductive pool_step :: "job_services \<Rightarrow> pool \<Rightarrow> pool \<Rightarrow> bool" for sv where
  start: "Dispatch_job \<in> set (sy_jobs y) \<Longrightarrow> ws k = None \<Longrightarrow> (\<And>e. sy_redis y dispatch_lock_key \<noteq> Some (k, e)) \<Longrightarrow>
    pool_step sv \<lparr>pl_system = y, pl_workers = ws\<rparr> \<lparr>pl_system = dequeue_dispatch y, pl_workers = ws(k \<mapsto> Waiting)\<rparr>"
| acquire: "ws k = Some Waiting \<Longrightarrow> dispatch_enter (sy_now y) k (sy_redis y) = (True, r) \<Longrightarrow>
    pool_step sv \<lparr>pl_system = y, pl_workers = ws\<rparr> \<lparr>pl_system = y\<lparr>sy_redis := r\<rparr>, pl_workers = ws(k \<mapsto> Inside)\<rparr>"
| skip: "ws k = Some Waiting \<Longrightarrow> dispatch_enter (sy_now y) k (sy_redis y) = (False, r) \<Longrightarrow>
    pool_step sv \<lparr>pl_system = y, pl_workers = ws\<rparr> \<lparr>pl_system = y\<lparr>sy_redis := r\<rparr>, pl_workers = ws(k := None)\<rparr>"
| claim: "ws k = Some Inside \<Longrightarrow> claim_item y = (Some i, y') \<Longrightarrow>
    pool_step sv \<lparr>pl_system = y, pl_workers = ws\<rparr> \<lparr>pl_system = y', pl_workers = ws(k \<mapsto> Busy i)\<rparr>"
| empty: "ws k = Some Inside \<Longrightarrow> claim_item y = (None, y') \<Longrightarrow>
    pool_step sv \<lparr>pl_system = y, pl_workers = ws\<rparr> \<lparr>pl_system = y', pl_workers = ws(k \<mapsto> Leaving)\<rparr>"
| work: "ws k = Some (Busy i) \<Longrightarrow> item_outcome sv i y = (out, y') \<Longrightarrow>
    pool_step sv \<lparr>pl_system = y, pl_workers = ws\<rparr> \<lparr>pl_system = y', pl_workers = ws(k \<mapsto> Worked i out)\<rparr>"
| recorded: "ws k = Some (Worked i out) \<Longrightarrow> record_outcome sv i out y = (Inr res, y') \<Longrightarrow>
    pool_step sv \<lparr>pl_system = y, pl_workers = ws\<rparr> \<lparr>pl_system = enqueue Dispatch_job y', pl_workers = ws(k \<mapsto> Leaving)\<rparr>"
| unrecorded: "ws k = Some (Worked i out) \<Longrightarrow> record_outcome sv i out y = (Inl e, y') \<Longrightarrow>
    pool_step sv \<lparr>pl_system = y, pl_workers = ws\<rparr> \<lparr>pl_system = y', pl_workers = ws(k \<mapsto> Leaving)\<rparr>"
| leave: "ws k = Some Leaving \<Longrightarrow>
    pool_step sv \<lparr>pl_system = y, pl_workers = ws\<rparr>
      \<lparr>pl_system = y\<lparr>sy_redis := dispatch_exit (sy_now y) k (sy_redis y)\<rparr>, pl_workers = ws(k := None)\<rparr>"
| crash: "ws k = Some ph \<Longrightarrow>
    pool_step sv \<lparr>pl_system = y, pl_workers = ws\<rparr> \<lparr>pl_system = y, pl_workers = ws(k := None)\<rparr>"
| upload: "create_batch items user (sy_db y) = Inr (b, s) \<Longrightarrow> queue_ok s \<Longrightarrow>
    pool_step sv \<lparr>pl_system = y, pl_workers = ws\<rparr> \<lparr>pl_system = on_system_db (\<lambda>_. s) y, pl_workers = ws\<rparr>"
| edit: "update_if_queued i name menu_url nutrition_url (sy_db y) = Inr (r, s) \<Longrightarrow>
    pool_step sv \<lparr>pl_system = y, pl_workers = ws\<rparr> \<lparr>pl_system = on_system_db (\<lambda>_. s) y, pl_workers = ws\<rparr>"
| delete: "delete_if_queued i (sy_db y) = Inr s \<Longrightarrow>
    pool_step sv \<lparr>pl_system = y, pl_workers = ws\<rparr> \<lparr>pl_system = on_system_db (\<lambda>_. s) y, pl_workers = ws\<rparr>"
| requeue: "requeue_if_failed i (sy_db y) = Inr (r, s) \<Longrightarrow>
    pool_step sv \<lparr>pl_system = y, pl_workers = ws\<rparr> \<lparr>pl_system = on_system_db (\<lambda>_. s) y, pl_workers = ws\<rparr>"
| trigger: "try_trigger_dispatch y = (b, y') \<Longrightarrow>
    pool_step sv \<lparr>pl_system = y, pl_workers = ws\<rparr> \<lparr>pl_system = y', pl_workers = ws\<rparr>"
| others: "elsewhere y y' \<Longrightarrow>
    pool_step sv \<lparr>pl_system = y, pl_workers = ws\<rparr> \<lparr>pl_system = y', pl_workers = ws\<rparr>"

inductive_cases pool_stepE: "pool_step sv p p'"

text \<open>The pools without a worker and without a lock, and what they can become.\<close>

definition initial_pool :: "pool \<Rightarrow> bool" where
  "initial_pool p \<longleftrightarrow> queue_ok (pl_db p) \<and> pl_workers p = Map.empty \<and> lock_entry p = None"

definition reachable_pool :: "job_services \<Rightarrow> pool \<Rightarrow> bool" where
  "reachable_pool sv p \<longleftrightarrow> (\<exists>p0. initial_pool p0 \<and> (pool_step sv)\<^sup>*\<^sup>* p0 p)"

section \<open>The life of an item\<close>

text \<open>What one step may do to an item: between the two states of the queue it keeps its batch, its
  uploader and its place; its data change only while it waits; its status moves along the arrows; it
  disappears only while it waits.\<close>

fun status_arrow :: "queue_status \<Rightarrow> queue_status \<Rightarrow> bool" where
  "status_arrow QUEUED s \<longleftrightarrow> s = QUEUED \<or> s = QRUNNING"
| "status_arrow QRUNNING s \<longleftrightarrow> s = QRUNNING \<or> s = QSUCCEEDED \<or> s = QFAILED"
| "status_arrow QFAILED s \<longleftrightarrow> s = QFAILED \<or> s = QUEUED"
| "status_arrow QSUCCEEDED s \<longleftrightarrow> s = QSUCCEEDED"

definition item_moves :: "queue_item option \<Rightarrow> queue_item option \<Rightarrow> bool" where
  "item_moves before after \<longleftrightarrow>
     (case (before, after) of
        (Some r, Some r') \<Rightarrow> status_arrow (qi_status r) (qi_status r')
          \<and> qi_batch_id r' = qi_batch_id r \<and> qi_created_by r' = qi_created_by r \<and> qi_created_at r' = qi_created_at r
          \<and> (input_of r' = input_of r \<or> (qi_status r = QUEUED \<and> qi_status r' = QUEUED))
      | (Some r, None) \<Rightarrow> qi_status r = QUEUED
      | (None, Some r') \<Rightarrow> qi_status r' = QUEUED
      | (None, None) \<Rightarrow> True)"

lemma status_arrow_refl [simp]: "status_arrow s s"
  by (cases s) simp_all

lemma item_moves_refl [simp]: "item_moves x x"
  by (cases x) (simp_all add: item_moves_def)

definition keeps_life :: "db \<Rightarrow> db \<Rightarrow> bool" where
  "keeps_life s s' \<longleftrightarrow> (\<forall>i. item_moves (get_item s i) (get_item s' i))"

lemma keeps_life_same:
  assumes "db_queue s' = db_queue s"
  shows "keeps_life s s'"
  by (simp add: keeps_life_def same_rows [OF assms])

text \<open>A write to one item keeps the life of all when it keeps that item's.\<close>

lemma keeps_life_write:
  assumes "\<And>r. qi_id (f r) = qi_id r"
    "\<And>r. get_item s i = Some r \<Longrightarrow> item_moves (Some r) (Some (touched_item (db_now s) f r))"
  shows "keeps_life s (write_item i f s)"
  unfolding keeps_life_def
proof
  fix j
  show "item_moves (get_item s j) (get_item (write_item i f s) j)"
    using assms(2) by (cases "get_item s i") (auto simp: get_item_write [OF assms(1)] item_moves_def [of None None])
qed

lemma touched_moves:
  assumes "qi_batch_id (f r) = qi_batch_id r" "qi_created_by (f r) = qi_created_by r" "qi_created_at (f r) = qi_created_at r"
    "status_arrow (qi_status r) (qi_status (f r))"
    "input_of (f r) = input_of r \<or> (qi_status r = QUEUED \<and> qi_status (f r) = QUEUED)"
  shows "item_moves (Some r) (Some (touched_item t f r))"
  using assms by (auto simp: item_moves_def touched_item_def input_of_def)

lemma dispatcher_writes_data [simp]:
  "qi_batch_id (claimed r) = qi_batch_id r" "qi_created_by (claimed r) = qi_created_by r"
  "qi_created_at (claimed r) = qi_created_at r" "input_of (claimed r) = input_of r"
  "qi_batch_id (succeeded r) = qi_batch_id r" "qi_created_by (succeeded r) = qi_created_by r"
  "qi_created_at (succeeded r) = qi_created_at r" "input_of (succeeded r) = input_of r"
  "qi_batch_id (failed_with m r) = qi_batch_id r" "qi_created_by (failed_with m r) = qi_created_by r"
  "qi_created_at (failed_with m r) = qi_created_at r" "input_of (failed_with m r) = input_of r"
  "qi_batch_id (seeded sd r) = qi_batch_id r" "qi_created_by (seeded sd r) = qi_created_by r"
  "qi_created_at (seeded sd r) = qi_created_at r" "input_of (seeded sd r) = input_of r"
  "qi_batch_id (requeued r) = qi_batch_id r" "qi_created_by (requeued r) = qi_created_by r"
  "qi_created_at (requeued r) = qi_created_at r" "input_of (requeued r) = input_of r"
  "qi_batch_id (edit_item n mu nu r) = qi_batch_id r" "qi_created_by (edit_item n mu nu r) = qi_created_by r"
  "qi_created_at (edit_item n mu nu r) = qi_created_at r" "qi_status (edit_item n mu nu r) = qi_status r"
  "qi_id (edit_item n mu nu r) = qi_id r"
  by (simp_all add: claimed_def succeeded_def failed_with_def seeded_def requeued_def edit_item_def input_of_def)

section \<open>What each step does\<close>

text \<open>The four operations of the API, and a claim.\<close>

definition keeps_running :: "db \<Rightarrow> db \<Rightarrow> bool" where
  "keeps_running s s' \<longleftrightarrow> (\<forall>i. item_status s i = Some QRUNNING \<longrightarrow> item_status s' i = Some QRUNNING)"

lemma keeps_running_write:
  assumes "\<And>r. qi_id (f r) = qi_id r" "item_status s i \<noteq> Some QRUNNING"
  shows "keeps_running s (write_item i f s)"
  using assms by (auto simp: keeps_running_def item_status_write)

lemma edit_step:
  assumes "update_if_queued i n m u s = Inr (r, s')"
  shows "keeps_life s s'" "keeps_running s s'" "queue_ok s \<Longrightarrow> queue_ok s'"
proof -
  obtain r0 where r0: "get_item s i = Some r0" "qi_status r0 = QUEUED" and s': "s' = write_item i (edit_item n m u) s"
    using assms by (auto simp: update_if_queued_def Let_def split: option.splits if_splits)
  show "keeps_life s s'" unfolding s'
    by (rule keeps_life_write) (use r0 in \<open>auto intro!: touched_moves\<close>)
  show "keeps_running s s'" unfolding s' by (rule keeps_running_write) (simp_all add: item_status_def r0)
  show "queue_ok s \<Longrightarrow> queue_ok s'" by (simp add: s')
qed

lemma requeue_step:
  assumes "requeue_if_failed i s = Inr (r, s')"
  shows "keeps_life s s'" "keeps_running s s'" "queue_ok s \<Longrightarrow> queue_ok s'"
proof -
  obtain r0 where r0: "get_item s i = Some r0" "qi_status r0 = QFAILED" and s': "s' = write_item i requeued s"
    using assms by (auto simp: requeue_if_failed_def Let_def split: option.splits if_splits)
  show "keeps_life s s'" unfolding s'
    by (rule keeps_life_write) (use r0 in \<open>auto intro!: touched_moves\<close>)
  show "keeps_running s s'" unfolding s' by (rule keeps_running_write) (simp_all add: item_status_def r0)
  show "queue_ok s \<Longrightarrow> queue_ok s'" by (simp add: s')
qed

lemma get_item_deleted:
  "get_item (s\<lparr>db_queue := filter (\<lambda>r. qi_id r \<noteq> i) (db_queue s)\<rparr>) j = (if j = i then None else get_item s j)"
proof -
  have "row_by qi_id j (filter (\<lambda>r. qi_id r \<noteq> i) rows) = (if j = i then None else row_by qi_id j rows)" for rows :: "queue_item list"
    by (induction rows) (auto simp: row_by_def)
  then show ?thesis by (simp add: get_item_def)
qed

lemma delete_step:
  assumes "delete_if_queued i s = Inr s'"
  shows "keeps_life s s'" "keeps_running s s'" "queue_ok s \<Longrightarrow> queue_ok s'"
proof -
  obtain r0 where r0: "get_item s i = Some r0" "qi_status r0 = QUEUED"
    and s': "s' = s\<lparr>db_queue := filter (\<lambda>r. qi_id r \<noteq> i) (db_queue s)\<rparr>"
    using assms by (auto simp: delete_if_queued_def split: option.splits if_splits)
  show "keeps_life s s'"
    using r0 by (auto simp: keeps_life_def s' get_item_deleted item_moves_def [of "Some r0"])
  show "keeps_running s s'"
    using r0 by (auto simp: keeps_running_def s' item_status_def get_item_deleted)
  show "queue_ok s \<Longrightarrow> queue_ok s'" by (simp add: s' queue_ok_def distinct_map_filter)
qed

lemma upload_step:
  assumes "create_batch items user s = Inr (b, s')"
  shows "keeps_life s s'" "keeps_running s s'"
proof -
  obtain rows where q: "db_queue s' = db_queue s @ rows" and new: "\<And>r. r \<in> set rows \<Longrightarrow> qi_status r = QUEUED"
    using assms batch_rows_fixed by (auto simp: create_batch_def Let_def split_def split: if_splits)
  have g: "get_item s' j = (case get_item s j of None \<Rightarrow> row_by qi_id j rows | Some r \<Rightarrow> Some r)" for j
    by (simp add: get_item_def q row_by_append)
  show "keeps_life s s'"
    unfolding keeps_life_def g
    by (auto simp: item_moves_def [of None] split: option.splits dest!: row_by_SomeD new)
  show "keeps_running s s'" by (auto simp: keeps_running_def item_status_def g)
qed

lemma claim_step:
  assumes "claim_item y = (Some i, y')" "queue_ok (sy_db y)"
  shows "keeps_life (sy_db y) (sy_db y')" "keeps_running (sy_db y) (sy_db y')" "queue_ok (sy_db y')"
    "item_status (sy_db y') i = Some QRUNNING" "sy_redis y' = sy_redis y" "sy_jobs y' = sy_jobs y"
    "item_status (sy_db y) i = Some QUEUED"
proof -
  obtain rest j where p: "pending (sy_db y) = j # rest"
    using assms(1) by (cases "pending (sy_db y)") (auto simp: claim_item_def claim_nothing)
  obtain r where r: "get_item (sy_db y) j = Some r" "qi_status r = QUEUED" "qi_id r = j"
    and c: "claim_next_queued (sy_db y) = (Some (touched_item (db_now (sy_db y)) claimed r), write_item j claimed (sy_db y))"
    using claim_oldest [OF assms(2) p] by metis
  have y': "i = j" "y' = on_system_db (\<lambda>_. write_item j claimed (sy_db y)) y"
    using assms(1) by (auto simp: claim_item_def c touched_item_key r(3))
  show "keeps_life (sy_db y) (sy_db y')" unfolding y' on_system_db_def
    by simp (rule keeps_life_write; use r in \<open>auto intro!: touched_moves\<close>)
  show "keeps_running (sy_db y) (sy_db y')" "queue_ok (sy_db y')" "item_status (sy_db y') i = Some QRUNNING"
    "sy_redis y' = sy_redis y" "sy_jobs y' = sy_jobs y" "item_status (sy_db y) i = Some QUEUED"
    using r assms(2) by (auto simp: y' on_system_db_def item_status_def [of "sy_db y"] item_status_write intro: keeps_running_write)
qed

lemma claim_none: "claim_item y = (None, y') \<Longrightarrow> y' = y"
  by (cases "pending (sy_db y)")
    (auto simp: claim_item_def claim_next_queued_def on_system_db_def pending_def split: list.splits)

lemma work_step:
  assumes "item_outcome sv i y = (out, y')" "item_status (sy_db y) i = Some QRUNNING"
  shows "keeps_life (sy_db y) (sy_db y')"
proof -
  obtain f where f: "f = id \<or> (\<exists>seed. f = seeded seed)" and q: "db_queue (sy_db y') = db_queue (write_item i f (sy_db y))"
    using item_outcome_queue [OF assms(1)] by blast
  have "keeps_life (sy_db y) (write_item i f (sy_db y))"
    by (rule keeps_life_write) (use f in \<open>auto intro!: touched_moves\<close>)
  then show ?thesis by (simp add: keeps_life_def same_rows [OF q])
qed

lemma record_step:
  assumes "record_outcome sv i out y = (res, y')" "item_status (sy_db y) i = Some QRUNNING"
  shows "keeps_life (sy_db y) (sy_db y')"
proof -
  have "y' = y \<or> (\<exists>f. y' = on_system_db (write_item i f) y \<and> (f = succeeded \<or> (\<exists>m. f = failed_with m)))"
    using assms
    by (auto simp: record_outcome_def mark_item_failed_def mark_item_succeeded_def on_system_db_def item_status_def
        split: sum.splits if_splits)
  then show ?thesis
  proof
    assume "y' = y" then show ?thesis by (simp add: keeps_life_same)
  next
    assume "\<exists>f. y' = on_system_db (write_item i f) y \<and> (f = succeeded \<or> (\<exists>m. f = failed_with m))"
    then obtain f where y': "y' = on_system_db (write_item i f) y" and f: "f = succeeded \<or> (\<exists>m. f = failed_with m)" by blast
    have "keeps_life (sy_db y) (write_item i f (sy_db y))"
      by (rule keeps_life_write) (use f assms(2) in \<open>auto intro!: touched_moves simp: item_status_def\<close>)
    then show ?thesis by (simp add: y' on_system_db_def)
  qed
qed

section \<open>The invariant\<close>

text \<open>The item a worker has claimed.\<close>

definition phase_item :: "phase \<Rightarrow> uuid option" where
  "phase_item ph = (case ph of Busy i \<Rightarrow> Some i | Worked i _ \<Rightarrow> Some i | _ \<Rightarrow> None)"

definition pool_ok :: "pool \<Rightarrow> bool" where
  "pool_ok p \<longleftrightarrow> queue_ok (pl_db p)
     \<and> (\<forall>v e. lock_entry p = Some (v, e) \<longrightarrow> e = None)
     \<and> (\<forall>k ph. pl_workers p k = Some ph \<longrightarrow>
          (ph \<noteq> Waiting \<longrightarrow> lock_entry p = Some (k, None))
          \<and> (\<forall>i. phase_item ph = Some i \<longrightarrow> item_status (pl_db p) i = Some QRUNNING))"

lemma phase_item_simps [simp]:
  "phase_item Waiting = None" "phase_item Inside = None" "phase_item Leaving = None"
  "phase_item (Busy i) = Some i" "phase_item (Worked i out) = Some i"
  by (simp_all add: phase_item_def)

text \<open>A step that keeps the lock and what is running keeps the invariant, and so does taking a worker
  away.\<close>

lemma pool_ok_frame:
  assumes "pool_ok \<lparr>pl_system = y, pl_workers = ws\<rparr>" "queue_ok (sy_db y')" "keeps_running (sy_db y) (sy_db y')"
    "sy_redis y' dispatch_lock_key = sy_redis y dispatch_lock_key"
  shows "pool_ok \<lparr>pl_system = y', pl_workers = ws\<rparr>"
  using assms by (auto simp: pool_ok_def keeps_running_def)

lemma pool_ok_remove:
  "pool_ok \<lparr>pl_system = y, pl_workers = ws\<rparr> \<Longrightarrow> pool_ok \<lparr>pl_system = y, pl_workers = ws(k := None)\<rparr>"
  by (auto simp: pool_ok_def)

text \<open>A worker that holds the lock is the only one past the entrance.\<close>

lemma sole_worker:
  assumes "pool_ok p" "pl_workers p k = Some ph" "ph \<noteq> Waiting" "pl_workers p j = Some ph'" "ph' \<noteq> Waiting"
  shows "j = k"
proof -
  have "lock_entry p = Some (k, None)" "lock_entry p = Some (j, None)"
    using assms unfolding pool_ok_def by blast+
  then show ?thesis by simp
qed

lemma pool_ok_holder:
  assumes "pool_ok \<lparr>pl_system = y, pl_workers = ws\<rparr>" "ws k = Some ph" "ph \<noteq> Waiting"
    and "queue_ok (sy_db y')" "sy_redis y' = sy_redis y"
    and "\<And>i. phase_item ph' = Some i \<Longrightarrow> item_status (sy_db y') i = Some QRUNNING"
  shows "pool_ok \<lparr>pl_system = y', pl_workers = ws(k \<mapsto> ph')\<rparr>"
proof -
  have others: "ws j = Some Waiting" if "ws j = Some ph''" "j \<noteq> k" for j ph''
    using sole_worker [OF assms(1), of k ph j ph''] assms(2,3) that by auto
  have quiet: "phase_item ph'' = None" if "ws j = Some ph''" "j \<noteq> k" for j ph''
    using others [OF that] that by simp
  show ?thesis
    using assms others quiet by (auto simp: pool_ok_def)
qed

text \<open>When everybody else is still waiting, only the worker in question matters.\<close>

lemma pool_ok_alone:
  assumes "queue_ok (sy_db y)" "\<And>v e. sy_redis y dispatch_lock_key = Some (v, e) \<Longrightarrow> e = None"
    and "\<And>j ph. ws j = Some ph \<Longrightarrow> j \<noteq> k \<Longrightarrow> ph = Waiting"
    and "\<And>ph. ws k = Some ph \<Longrightarrow> sy_redis y dispatch_lock_key = Some (k, None) \<and> phase_item ph = None"
  shows "pool_ok \<lparr>pl_system = y, pl_workers = ws\<rparr>"
proof -
  have "(ph \<noteq> Waiting \<longrightarrow> sy_redis y dispatch_lock_key = Some (j, None)) \<and> phase_item ph = None" if "ws j = Some ph" for j ph
    using assms(3) [OF that] assms(4) [of ph] that by (cases "j = k") auto
  then show ?thesis using assms(1,2) by (simp add: pool_ok_def)
qed

lemma redis_get_entry: "redis_get t key r = None \<Longrightarrow> r key = None \<or> (\<exists>v e. r key = Some (v, Some e))"
  by (auto simp: redis_get_def split: option.splits)

lemma keeps_running_same: "db_queue s' = db_queue s \<Longrightarrow> keeps_running s s'"
proof -
  assume q: "db_queue s' = db_queue s"
  show "keeps_running s s'" by (simp add: keeps_running_def same_rows [OF q])
qed

lemma acquire_step:
  assumes "pool_ok \<lparr>pl_system = y, pl_workers = ws\<rparr>" "dispatch_enter (sy_now y) k (sy_redis y) = (True, r)"
  shows "r dispatch_lock_key = Some (k, None)" "\<And>j ph. ws j = Some ph \<Longrightarrow> ph = Waiting"
proof -
  have free: "redis_get (sy_now y) dispatch_lock_key (sy_redis y) = None"
    using assms(2) by (auto simp: dispatch_enter_def set_nx_def split: if_splits)
  then show "r dispatch_lock_key = Some (k, None)"
    using assms(2) by (auto simp: dispatch_enter_def set_nx_def)
  have "sy_redis y dispatch_lock_key = None"
    using redis_get_entry [OF free] assms(1) by (auto simp: pool_ok_def)
  then show "ph = Waiting" if "ws j = Some ph" for j ph
    using assms(1) that by (auto simp: pool_ok_def)
qed

lemma elsewhere_frame:
  "elsewhere y y' \<Longrightarrow> db_queue (sy_db y') = db_queue (sy_db y) \<and> sy_redis y' dispatch_lock_key = sy_redis y dispatch_lock_key"
  by (simp add: elsewhere_def)

lemma pool_step_ok:
  assumes "pool_step sv p p'" "pool_ok p"
  shows "pool_ok p'"
  using assms
proof (cases rule: pool_step.cases)
  case (start y ws k)
  then show ?thesis using assms(2) by (auto simp: pool_ok_def dequeue_dispatch_def)
next
  case (acquire ws k y r)
  then have ok: "pool_ok \<lparr>pl_system = y, pl_workers = ws\<rparr>" using assms(2) by simp
  note step = acquire_step [OF ok acquire(4)]
  show ?thesis unfolding acquire(2)
    by (rule pool_ok_alone [where k = k]) (use ok step in \<open>auto simp: pool_ok_def split: if_splits\<close>)
next
  case (skip ws k y r)
  then have "r = sy_redis y" by (auto simp: dispatch_enter_def set_nx_def split: if_splits)
  then show ?thesis using skip assms(2) pool_ok_remove by simp
next
  case (claim ws k y i y')
  then have q: "queue_ok (sy_db y)" using assms(2) by (simp add: pool_ok_def)
  show ?thesis
    using claim claim_step [OF claim(4) q] assms(2) by (auto intro!: pool_ok_holder [of y ws k Inside])
next
  case (empty ws k y y')
  then have ok: "pool_ok \<lparr>pl_system = y, pl_workers = ws\<rparr>" and e: "y' = y"
    using assms(2) claim_none [OF empty(4)] by simp_all
  have q: "queue_ok (sy_db y)" using ok by (simp add: pool_ok_def)
  show ?thesis unfolding empty(2) e by (rule pool_ok_holder [OF ok empty(3)]) (simp_all add: q)
next
  case (work ws k i y out y')
  then have q: "queue_ok (sy_db y)" "item_status (sy_db y) i = Some QRUNNING" using assms(2) by (auto simp: pool_ok_def)
  show ?thesis
    using work item_outcome_status [OF work(4) q] q assms(2) by (auto intro!: pool_ok_holder [of y ws k "Busy i"])
next
  case (recorded ws k i out y res y')
  then have q: "queue_ok (sy_db y)" "item_status (sy_db y) i = Some QRUNNING" using assms(2) by (auto simp: pool_ok_def)
  show ?thesis
    using recorded record_outcome_status [OF recorded(4) q] assms(2)
    by (auto intro!: pool_ok_holder [of y ws k "Worked i out"] simp: enqueue_def)
next
  case (unrecorded ws k i out y e y')
  then have q: "queue_ok (sy_db y)" "item_status (sy_db y) i = Some QRUNNING" using assms(2) by (auto simp: pool_ok_def)
  show ?thesis
    using unrecorded record_outcome_status [OF unrecorded(4) q] assms(2)
    by (auto intro!: pool_ok_holder [of y ws k "Worked i out"])
next
  case (leave ws k y)
  have others: "ws j = Some ph \<Longrightarrow> j \<noteq> k \<Longrightarrow> ph = Waiting" for j ph
    using sole_worker [OF assms(2), of k Leaving j ph] leave by auto
  have entry: "dispatch_exit (sy_now y) k (sy_redis y) dispatch_lock_key = Some (v, e) \<Longrightarrow> e = None" for v e
    using assms(2) leave by (auto simp: pool_ok_def dispatch_exit_def release_if_owned_def split: if_splits)
  show ?thesis unfolding leave(2)
    by (rule pool_ok_alone [where k = k]) (use leave assms(2) others entry in \<open>auto simp: pool_ok_def split: if_splits\<close>)
next
  case (crash ws k ph y)
  then show ?thesis using pool_ok_remove assms(2) by blast
next
  case (upload items user y b s ws)
  then show ?thesis using pool_ok_frame [of y ws] upload_step assms(2) by (auto simp: on_system_db_def)
next
  case (edit i n m u y r s ws)
  then show ?thesis
    using pool_ok_frame [of y ws "on_system_db (\<lambda>_. s) y"] edit_step [OF edit(3)] assms(2)
    by (simp add: on_system_db_def) (simp add: pool_ok_def)
next
  case (delete i y s ws)
  then show ?thesis
    using pool_ok_frame [of y ws "on_system_db (\<lambda>_. s) y"] delete_step [OF delete(3)] assms(2)
    by (simp add: on_system_db_def) (simp add: pool_ok_def)
next
  case (requeue i y r s ws)
  then show ?thesis
    using pool_ok_frame [of y ws "on_system_db (\<lambda>_. s) y"] requeue_step [OF requeue(3)] assms(2)
    by (simp add: on_system_db_def) (simp add: pool_ok_def)
next
  case (trigger y b y' ws)
  then show ?thesis
    using assms(2) by (auto simp: try_trigger_dispatch_def enqueue_def pool_ok_def split: if_splits)
next
  case (others y y' ws)
  then show ?thesis
    using pool_ok_frame [of y ws y'] elsewhere_frame [of y y'] same_rows(2) [of "sy_db y'" "sy_db y"] keeps_running_same assms(2)
    by (simp add: pool_ok_def)
qed

lemma reachable_pool_ok:
  assumes "reachable_pool sv p"
  shows "pool_ok p"
proof -
  obtain p0 where p0: "initial_pool p0" "(pool_step sv)\<^sup>*\<^sup>* p0 p" using assms by (auto simp: reachable_pool_def)
  have "pool_ok p0" using p0(1) by (simp add: initial_pool_def pool_ok_def)
  with p0(2) show ?thesis by induction (auto intro: pool_step_ok)
qed

section \<open>One restaurant at a time\<close>

lemma pool_step_life:
  assumes "pool_step sv p p'" "pool_ok p"
  shows "keeps_life (pl_db p) (pl_db p')"
  using assms
proof (cases rule: pool_step.cases)
  case (claim ws k y i y')
  then show ?thesis using claim_step(1) [OF claim(4)] assms(2) by (simp add: pool_ok_def)
next
  case (work ws k i y out y')
  then have "item_status (sy_db y) i = Some QRUNNING" using assms(2) by (auto simp: pool_ok_def)
  then show ?thesis using work work_step by simp
next
  case (recorded ws k i out y res y')
  then have "item_status (sy_db y) i = Some QRUNNING" using assms(2) by (auto simp: pool_ok_def)
  then show ?thesis using recorded record_step by (simp add: enqueue_def)
next
  case (unrecorded ws k i out y e y')
  then have "item_status (sy_db y) i = Some QRUNNING" using assms(2) by (auto simp: pool_ok_def)
  then show ?thesis using unrecorded record_step by simp
next
  case (upload items user y b s ws)
  then show ?thesis using upload_step(1) [OF upload(3)] by (simp add: on_system_db_def)
next
  case (edit i n m u y r s ws)
  then show ?thesis using edit_step(1) [OF edit(3)] by (simp add: on_system_db_def)
next
  case (delete i y s ws)
  then show ?thesis using delete_step(1) [OF delete(3)] by (simp add: on_system_db_def)
next
  case (requeue i y r s ws)
  then show ?thesis using requeue_step(1) [OF requeue(3)] by (simp add: on_system_db_def)
qed (auto intro!: keeps_life_same dest: claim_none simp: dequeue_dispatch_def try_trigger_dispatch_def enqueue_def
    elsewhere_def split: if_splits)

text \<open>An item that starts to run was the oldest waiting one.\<close>

lemma pool_step_starts:
  assumes "pool_step sv p p'" "pool_ok p" "item_status (pl_db p) i = Some QUEUED" "item_status (pl_db p') i = Some QRUNNING"
  shows "pending (pl_db p) = i # pending (pl_db p') \<and> (\<exists>k. pl_workers p k = Some Inside)"
  using assms
proof (cases rule: pool_step.cases)
  case (claim ws k y j y')
  then have q: "queue_ok (sy_db y)" using assms(2) by (simp add: pool_ok_def)
  obtain rest i0 where p: "pending (sy_db y) = i0 # rest"
    using claim(4) by (cases "pending (sy_db y)") (auto simp: claim_item_def claim_nothing)
  obtain r where c: "claim_next_queued (sy_db y) = (Some (touched_item (db_now (sy_db y)) claimed r), write_item i0 claimed (sy_db y))"
    "pending (write_item i0 claimed (sy_db y)) = rest"
    using claim_oldest [OF q p] by metis
  have y': "sy_db y' = write_item i0 claimed (sy_db y)"
    using claim(4) by (auto simp: claim_item_def c on_system_db_def)
  have "i = i0"
    using assms(3,4) claim(1,2) by (auto simp: y' item_status_write split: if_splits)
  then show ?thesis using claim(1-3) p c(2) by (auto simp: y')
next
  case (work ws k j y out y')
  then have "queue_ok (sy_db y)" "item_status (sy_db y) j = Some QRUNNING" using assms(2) by (auto simp: pool_ok_def)
  then show ?thesis using work assms(3,4) item_outcome_status(3) [OF work(4)] by simp
next
  case (recorded ws k j out y res y')
  then have "queue_ok (sy_db y)" "item_status (sy_db y) j = Some QRUNNING" using assms(2) by (auto simp: pool_ok_def)
  then show ?thesis using recorded assms(3,4) record_outcome_status(3) [OF recorded(4)]
    by (cases "i = j") (auto simp: enqueue_def)
next
  case (unrecorded ws k j out y e y')
  then have "queue_ok (sy_db y)" "item_status (sy_db y) j = Some QRUNNING" using assms(2) by (auto simp: pool_ok_def)
  then show ?thesis using unrecorded assms(3,4) record_outcome_status(3) [OF unrecorded(4)]
    by (cases "i = j") auto
next
  case (upload items user y b s ws)
  then obtain rows where "db_queue s = db_queue (sy_db y) @ rows"
    by (auto simp: create_batch_def Let_def split_def split: if_splits)
  then have "item_status s i = Some QUEUED"
    using assms(3) upload(1) by (auto simp: item_status_def get_item_def row_by_append)
  then show ?thesis using upload assms(4) by (simp add: on_system_db_def)
next
  case (edit j n m u y r s ws)
  then have "s = write_item j (edit_item n m u) (sy_db y)"
    by (auto simp: update_if_queued_def Let_def split: option.splits if_splits)
  then have "item_status s i = item_status (sy_db y) i"
    by (simp add: item_status_write comp_def) (simp add: item_status_def)
  then show ?thesis using edit assms(3,4) by (simp add: on_system_db_def)
next
  case (delete j y s ws)
  then have "s = (sy_db y)\<lparr>db_queue := filter (\<lambda>r. qi_id r \<noteq> j) (db_queue (sy_db y))\<rparr>"
    by (auto simp: delete_if_queued_def split: option.splits if_splits)
  then show ?thesis using delete assms(3,4) by (auto simp: on_system_db_def item_status_def get_item_deleted split: if_splits)
next
  case (requeue j y r s ws)
  then have "s = write_item j requeued (sy_db y)"
    by (auto simp: requeue_if_failed_def Let_def split: option.splits if_splits)
  then show ?thesis using requeue assms(3,4) by (auto simp: on_system_db_def item_status_write split: if_splits)
next
  case (others y y' ws)
  then have "item_status (sy_db y') i = item_status (sy_db y) i" by (intro same_rows) (simp add: elsewhere_def)
  then show ?thesis using others assms(3,4) by simp
qed (auto dest: claim_none simp: dequeue_dispatch_def try_trigger_dispatch_def split: if_splits simp: enqueue_def)

text \<open>C13: The restaurants of the queue are processed strictly one at a time, whatever happens around. Take
  any number of dispatch workers, each in any phase of its job and each possibly killed at any moment,
  with uploads, edits, deletions, requeues and triggers of the API and everything the rest of the system
  does in between. At no moment are two workers at an item: two workers with a claimed item are the same
  worker, with the same item, that item is RUNNING and it is not among the waiting ones, so nobody else
  can claim it.\<close>

theorem one_restaurant_at_a_time:
  assumes "reachable_pool sv p" "pl_workers p k = Some ph" "phase_item ph = Some i"
    "pl_workers p j = Some ph'" "phase_item ph' = Some i'"
  shows "j = k \<and> i' = i \<and> item_status (pl_db p) i = Some QRUNNING \<and> i \<notin> set (pending (pl_db p))"
proof -
  note ok = reachable_pool_ok [OF assms(1)]
  have "ph \<noteq> Waiting" "ph' \<noteq> Waiting" using assms(3,5) by auto
  then have "j = k" using sole_worker [OF ok assms(2) _ assms(4)] by simp
  moreover have run: "item_status (pl_db p) i = Some QRUNNING" using ok assms(2,3) by (auto simp: pool_ok_def)
  moreover have "queue_ok (pl_db p)" using ok by (simp add: pool_ok_def)
  ultimately show ?thesis using assms pending_mem by auto
qed


section \<open>Instances\<close>

definition locked_by :: "uuid \<Rightarrow> system \<Rightarrow> system" where
  "locked_by k y = y\<lparr>sy_redis := (sy_redis y)(dispatch_lock_key \<mapsto> (k, None))\<rparr>"

lemma reachable_initial: "initial_pool p \<Longrightarrow> reachable_pool sv p"
  unfolding reachable_pool_def by blast

lemma reachable_step: "reachable_pool sv p \<Longrightarrow> pool_step sv p p' \<Longrightarrow> reachable_pool sv p'"
  unfolding reachable_pool_def by (meson rtranclp.rtrancl_into_rtrancl)

text \<open>A worker that has started and entered the lock, on a queue with the given items.\<close>

lemma entered_pool:
  assumes "distinct (map qi_id items)"
  shows "reachable_pool sv \<lparr>pl_system = locked_by 5 (idle_system items), pl_workers = [5 \<mapsto> Inside]\<rparr>"
proof -
  let ?y0 = "enqueue Dispatch_job (idle_system items)"
  have y1: "dequeue_dispatch ?y0 = idle_system items"
    by (simp add: dequeue_dispatch_def enqueue_def idle_system_def)
  have i: "initial_pool \<lparr>pl_system = ?y0, pl_workers = Map.empty\<rparr>"
    using assms by (simp add: initial_pool_def enqueue_def idle_system_def queue_ok_def)
  have s1: "pool_step sv \<lparr>pl_system = ?y0, pl_workers = Map.empty\<rparr>
      \<lparr>pl_system = idle_system items, pl_workers = [5 \<mapsto> Waiting]\<rparr>"
    using pool_step.start [of ?y0 Map.empty 5 sv] unfolding y1 by (simp add: enqueue_def idle_system_def)
  have s2: "pool_step sv \<lparr>pl_system = idle_system items, pl_workers = [5 \<mapsto> Waiting]\<rparr>
      \<lparr>pl_system = locked_by 5 (idle_system items), pl_workers = [5 \<mapsto> Inside]\<rparr>"
    using pool_step.acquire [of "[5 \<mapsto> Waiting]" 5 "idle_system items" _ sv]
    by (simp add: locked_by_def dispatch_enter_def set_nx_def redis_get_def idle_system_def)
  show ?thesis by (rule reachable_step [OF reachable_step [OF reachable_initial [OF i] s1] s2])
qed

definition busy_system :: system where
  "busy_system = snd (claim_item (locked_by 5 (idle_system [waiting_item 1 ''Joe''])))"

lemma busy_claim: "claim_item (locked_by 5 (idle_system [waiting_item 1 ''Joe''])) = (Some 1, busy_system)"
  by (simp add: busy_system_def claim_item_def claim_next_queued_def locked_by_def idle_system_def queued_items_def
      waiting_item_def touched_item_def claimed_def)

lemma busy_step:
  "pool_step sv \<lparr>pl_system = locked_by 5 (idle_system [waiting_item 1 ''Joe'']), pl_workers = [5 \<mapsto> Inside]\<rparr>
     \<lparr>pl_system = busy_system, pl_workers = [5 \<mapsto> Busy 1]\<rparr>"
  using pool_step.claim [of "[5 \<mapsto> Inside]" 5, OF _ busy_claim] by simp

lemma one_waiting: "distinct (map qi_id [waiting_item 1 ''Joe''])"
  by simp

theorem one_restaurant_at_a_time_witness:
  "item_status (sy_db busy_system) 1 = Some QRUNNING \<and> 1 \<notin> set (pending (sy_db busy_system))"
  using one_restaurant_at_a_time [OF reachable_step [OF entered_pool [OF one_waiting] busy_step [of sample_job_services]],
      of 5 "Busy 1" 1 5 "Busy 1" 1] by simp


section \<open>Two ways to get stuck\<close>

text \<open>A lost wake-up: an upload that arrives between the last claim of a chain, which found nothing, and
  the release of its lock is told that a chain is running, and nothing will pick it up.\<close>

lemma lost_wakeup:
  "\<exists>p. reachable_pool sv p \<and> pending (pl_db p) = [11] \<and> lock_entry p = None \<and> pl_workers p = Map.empty
     \<and> sy_jobs (pl_system p) = []"
proof -
  let ?item = "\<lparr>qn_name = ''Ann'', qn_menu_url = ''https://a.example'', qn_nutrition_url = ''https://a.example/n''\<rparr>"
  let ?y = "locked_by 5 (idle_system [])"
  let ?inside = "\<lparr>pl_system = ?y, pl_workers = [5 \<mapsto> Inside]\<rparr>"
  obtain b s where c: "create_batch [?item] None (sy_db ?y) = Inr (b, s)" "queue_ok s" "pending s = [11]"
    by (simp add: create_batch_def locked_by_def idle_system_def empty_db_def queue_item_fits_def queue_ok_def pending_def queued_items_def)
  let ?y2 = "on_system_db (\<lambda>_. s) ?y"
  have r1: "reachable_pool sv ?inside" by (rule entered_pool) simp
  have "claim_item ?y = (None, ?y)"
    by (simp add: claim_item_def claim_next_queued_def queued_items_def locked_by_def idle_system_def on_system_db_def)
  then have "pool_step sv ?inside \<lparr>pl_system = ?y, pl_workers = [5 \<mapsto> Leaving]\<rparr>"
    using pool_step.empty [of "[5 \<mapsto> Inside]" 5 ?y ?y sv] by simp
  then have r2: "reachable_pool sv \<lparr>pl_system = ?y, pl_workers = [5 \<mapsto> Leaving]\<rparr>" using r1 reachable_step by blast
  have r3: "reachable_pool sv \<lparr>pl_system = ?y2, pl_workers = [5 \<mapsto> Leaving]\<rparr>"
    by (rule reachable_step [OF r2], rule pool_step.upload [OF c(1,2)])
  have lock: "redis_get t dispatch_lock_key (sy_redis ?y2) = Some 5" for t
    by (simp add: locked_by_def on_system_db_def redis_get_def)
  then have "try_trigger_dispatch ?y2 = (False, ?y2)" by (simp add: try_trigger_dispatch_def)
  then have r4: "reachable_pool sv \<lparr>pl_system = ?y2, pl_workers = [5 \<mapsto> Leaving]\<rparr>"
    using reachable_step [OF r3 pool_step.trigger] by blast
  let ?y3 = "?y2\<lparr>sy_redis := dispatch_exit (sy_now ?y2) 5 (sy_redis ?y2)\<rparr>"
  have "reachable_pool sv \<lparr>pl_system = ?y3, pl_workers = [5 \<mapsto> Leaving](5 := None)\<rparr>"
    by (rule reachable_step [OF r4], rule pool_step.leave) simp
  moreover have "sy_redis ?y3 dispatch_lock_key = None" "sy_jobs ?y3 = []" "sy_db ?y3 = s"
    using lock by (simp_all add: dispatch_exit_def release_if_owned_def) (simp_all add: on_system_db_def locked_by_def idle_system_def)
  ultimately show ?thesis using c(3) by (intro exI [of _ "\<lparr>pl_system = ?y3, pl_workers = Map.empty\<rparr>"]) simp
qed

text \<open>A worker killed while it holds the lock: the lock has no expiry, so from then on no item ever starts
  and the one it was at never ends.\<close>

lemma dead_worker_step:
  assumes "pool_step sv p p'" "pool_ok p" "lock_entry p = Some (k, None)" "pl_workers p k = None"
  shows "lock_entry p' = Some (k, None) \<and> pl_workers p' k = None
    \<and> \<not> (item_status (pl_db p) i = Some QUEUED \<and> item_status (pl_db p') i = Some QRUNNING)"
proof -
  have quiet: "ph = Waiting" if "pl_workers p j = Some ph" for j ph
  proof (rule ccontr)
    assume "ph \<noteq> Waiting"
    then have "j = k" using assms(2,3) that unfolding pool_ok_def by fastforce
    then show False using assms(4) that by simp
  qed
  have "\<not> (item_status (pl_db p) i = Some QUEUED \<and> item_status (pl_db p') i = Some QRUNNING)"
    using pool_step_starts [OF assms(1,2)] quiet by blast
  moreover have "lock_entry p' = Some (k, None) \<and> pl_workers p' k = None"
    using assms(1)
  proof (cases rule: pool_step.cases)
    case (acquire ws j y r)
    then show ?thesis using assms(3) dispatch_lock.enter_held [of "sy_now y" "sy_redis y" j] by (simp add: redis_get_def)
  next
    case (skip ws j y r)
    then have "r = sy_redis y" by (auto simp: dispatch_enter_def set_nx_def split: if_splits)
    then show ?thesis using skip assms(3,4) by auto
  next
    case (trigger y b y' ws)
    then show ?thesis using assms(3,4) by (auto simp: try_trigger_dispatch_def enqueue_def split: if_splits)
  qed (use quiet assms(3,4) in \<open>auto simp: dequeue_dispatch_def on_system_db_def elsewhere_def\<close>)
  ultimately show ?thesis by blast
qed

lemma dead_worker_blocks_the_queue:
  assumes "reachable_pool sv p" "lock_entry p = Some (k, None)" "pl_workers p k = None" "(pool_step sv)\<^sup>*\<^sup>* p p1"
    "pool_step sv p1 p2"
  shows "lock_entry p2 = Some (k, None)"
    "\<not> (item_status (pl_db p1) i = Some QUEUED \<and> item_status (pl_db p2) i = Some QRUNNING)"
proof -
  have "reachable_pool sv p1 \<and> lock_entry p1 = Some (k, None) \<and> pl_workers p1 k = None"
    using assms(4,1-3)
  proof induction
    case (step q q')
    then show ?case using reachable_step dead_worker_step [OF step(2) reachable_pool_ok] by blast
  qed simp
  then show "lock_entry p2 = Some (k, None)"
    "\<not> (item_status (pl_db p1) i = Some QUEUED \<and> item_status (pl_db p2) i = Some QRUNNING)"
    using dead_worker_step [OF assms(5) reachable_pool_ok] by blast+
qed

end
