(* ===== verification/JobRuns.thy ===== *)
theory JobRuns
  imports DispatchPool
begin

text \<open>
  What the worker's jobs can do to the data the admin decides on: they propose, and never publish.
  Then the jobs that cannot do what they are for, and the sweep over failed jobs.
\<close>

section \<open>Proposing\<close>

text \<open>The production tables are as before and the review queue has grown by pending changes only.\<close>

definition proposes :: "db \<Rightarrow> db \<Rightarrow> bool" where
  "proposes s s' \<longleftrightarrow> production s' = production s
     \<and> (\<exists>cs. db_proposed_changes s' = db_proposed_changes s @ cs \<and> list_all (\<lambda>c. pc_status c = PC_PENDING) cs)"

lemma proposes_same:
  "production s' = production s \<Longrightarrow> db_proposed_changes s' = db_proposed_changes s \<Longrightarrow> proposes s s'"
  unfolding proposes_def by (intro conjI exI [of _ "[]"]) simp_all

lemma proposes_refl [simp]: "proposes s s"
  by (rule proposes_same) simp_all

lemma proposes_trans: "proposes s s' \<Longrightarrow> proposes s' s'' \<Longrightarrow> proposes s s''"
proof -
  assume a: "proposes s s'" "proposes s' s''"
  obtain cs where cs: "db_proposed_changes s' = db_proposed_changes s @ cs" "list_all (\<lambda>c. pc_status c = PC_PENDING) cs"
    using a(1) by (auto simp: proposes_def)
  obtain ds where ds: "db_proposed_changes s'' = db_proposed_changes s' @ ds" "list_all (\<lambda>c. pc_status c = PC_PENDING) ds"
    using a(2) by (auto simp: proposes_def)
  show "proposes s s''"
    using a cs ds unfolding proposes_def by (intro conjI exI [of _ "cs @ ds"]) auto
qed

lemma quiet_proposes: "quiet s s' \<Longrightarrow> proposes s s'"
  by (rule proposes_same) (simp_all add: quiet_def)

lemma proposes_updates [simp, frame_simps]:
  "proposes s (audit a aet ei actor email meta s') = proposes s s'" "proposes s (mark_failed i m s') = proposes s s'"
  "proposes s (mark_succeeded i s') = proposes s s'" "proposes s (fail_run_audited j a meta m s') = proposes s s'"
  "proposes s (snd (create_run wt ri s')) = proposes s s'" "proposes s (s'\<lparr>db_next := n\<rparr>) = proposes s s'"
  by (simp_all add: proposes_def)

lemma create_change_proposes:
  "proposes s (snd (create_proposed_change et eid j vr run src th ou s))"
  using production_unchanged(8) [of et eid j vr run src th ou s]
  by (simp add: proposes_def create_proposed_change_def Let_def)

lemma run_capture_proposes: "run_capture m w = (res, w') \<Longrightarrow> proposes (w_db w) (w_db w')"
  by (rule proposes_same) (auto dest: run_capture_frame)

section \<open>The collector without a decision\<close>

fun sets_approval :: "field_update \<Rightarrow> bool" where
  "sets_approval (U_human_approval_status _) \<longleftrightarrow> True"
| "sets_approval _ \<longleftrightarrow> False"

definition no_approval :: "field_update list \<Rightarrow> bool" where
  "no_approval us \<longleftrightarrow> list_all (\<lambda>u. \<not> sets_approval u) us"

lemma no_approval_simps [simp]:
  "no_approval []" "no_approval (u # us) \<longleftrightarrow> \<not> sets_approval u \<and> no_approval us" "\<not> sets_approval (node_error n m)"
  by (simp_all add: no_approval_def node_error_def)

lemma no_approval_merge: "no_approval us \<Longrightarrow> cs_human_approval_status (merge us st) = cs_human_approval_status st"
proof (induction us arbitrary: st)
  case (Cons u us)
  have "cs_human_approval_status (merge_field u st) = cs_human_approval_status st"
    using Cons.prems by (cases u) simp_all
  then show ?case using Cons by simp
qed simp

lemma source_authority_proposes:
  assumes "source_authority_node sv st s = Inr (us, s')"
  shows "proposes s s' \<and> no_approval us"
proof (cases "cs_restaurant st")
  case None
  then show ?thesis using assms by (auto simp: source_authority_node_def)
next
  case (Some r)
  let ?q = "query_from_state r"
  obtain result s2 where r: "resolve_official_website (sv_provider sv) ?q (snd (create_run COLLECTOR (Some (eq_restaurant_id ?q)) s)) = Inr (result, s2)"
    using assms Some by (auto simp: source_authority_node_def Let_def split_def split: sum.splits)
  have "proposes s s2" using resolve_frame [OF r] by (intro proposes_same) simp_all
  then show ?thesis
    using assms Some r by (auto simp: source_authority_node_def Let_def split_def split: if_splits)
qed

lemma extraction_proposes:
  "extraction_node sv st w = Inr (us, w') \<Longrightarrow> proposes (w_db w) (w_db w') \<and> no_approval us"
  by (auto simp: extraction_node_def Let_def dest!: run_capture_proposes
      split: option.splits sum.splits list.splits prod.splits)

lemma translation_proposes:
  "multimodal_translation_node sv st w = Inr (us, w') \<Longrightarrow> proposes (w_db w) (w_db w') \<and> no_approval us"
  by (auto simp: multimodal_translation_node_def Let_def
      split: option.splits sum.splits list.splits prod.splits exn.splits)

lemma validation_proposes:
  "deterministic_validation_node sv st s = Inr (us, s') \<Longrightarrow> proposes s s' \<and> no_approval us"
  by (auto simp: deterministic_validation_node_def Let_def split: option.splits if_splits)

lemma human_review_proposes:
  "human_review_node st None s = Inr (out, s') \<Longrightarrow> proposes s s' \<and> (\<forall>us. out = Returned us \<longrightarrow> no_approval us)"
  by (auto simp: human_review_node_def Let_def split_def interrupt_def create_change_proposes
      split: option.splits sum.splits)

lemma exec_node_proposes:
  "exec_node sv n st None w = Inr (out, w') \<Longrightarrow> n \<noteq> PUBLISH \<Longrightarrow>
     proposes (w_db w) (w_db w') \<and> (\<forall>us. out = Returned us \<longrightarrow> no_approval us)"
  by (cases n)
    (auto simp: on_db_def dest: source_authority_proposes extraction_proposes translation_proposes validation_proposes
      human_review_proposes split: sum.splits)

lemma run_from_proposes:
  assumes "result_world (run_from sv n st None w) = Some w'" "n \<noteq> PUBLISH" "cs_human_approval_status st = None"
  shows "proposes (w_db w) (w_db w')
    \<and> (\<forall>t st'. run_from sv n st None w = Interrupted t st' w' \<longrightarrow> cs_human_approval_status st' = None)"
  using assms
proof (induction "rank n" arbitrary: n st w rule: less_induct)
  case less
  show ?case
  proof (cases "exec_node sv n st None w")
    case (Inl e)
    then show ?thesis using less.prems by (subst (asm) run_from.simps) (simp add: result_world_def)
  next
    case (Inr p)
    obtain out w1 where p: "exec_node sv n st None w = Inr (out, w1)" using Inr by (cases p) auto
    note step = exec_node_proposes [OF p less.prems(2)]
    show ?thesis
    proof (cases out)
      case (Paused t)
      then have "run_from sv n st None w = Interrupted t st w1" using p by (subst run_from.simps) simp
      then show ?thesis using less.prems step by (simp add: result_world_def)
    next
      case (Returned us)
      have appr: "cs_human_approval_status (merge us st) = None"
        using step Returned no_approval_merge less.prems(3) by simp
      show ?thesis
      proof (cases "route n (merge us st)")
        case None
        then have "run_from sv n st None w = Finished (merge us st) w1"
          using p Returned by (subst run_from.simps) (simp add: Let_def)
        then show ?thesis using less.prems step by (simp add: result_world_def)
      next
        case (Some m)
        have "m \<noteq> PUBLISH"
          using Some appr by (cases n) (auto simp: route_if_no_errors_def route_after_human_review_def split: if_splits)
        moreover have "run_from sv n st None w = run_from sv m (merge us st) None w1"
          using p Returned Some by (subst run_from.simps) (simp add: Let_def)
        ultimately show ?thesis
          using less.hyps [OF route_rank [OF Some], of "merge us st" w1] less.prems(1) appr step proposes_trans
          by (metis (no_types, lifting))
      qed
    qed
  qed
qed

section \<open>The reviewer without a decision\<close>

definition review_world :: "review_result \<Rightarrow> world option" where
  "review_world res =
     (case res of Review_raised e \<Rightarrow> None | Review_finished st w \<Rightarrow> Some w | Review_interrupted t st w \<Rightarrow> Some w)"

lemma update_metrics_proposes [simp]: "proposes s (update_metrics i kvs s') = proposes s s'"
  by (simp add: proposes_def)

lemma polling_proposes:
  assumes "temporal_hash_polling_node sv st w = Inr (us, w')"
  shows "proposes (w_db w) (w_db w') \<and> vs_human_approval_status (review_merge us st) = vs_human_approval_status st"
proof (cases "vs_restaurant st = None \<or> active_source (the (vs_restaurant st)) (vs_source st) (w_db w) = None")
  case True
  then show ?thesis using assms
    by (auto simp: temporal_hash_polling_node_def review_error_def split: option.splits)
next
  case False
  then obtain r src where r: "vs_restaurant st = Some r" "active_source r (vs_source st) (w_db w) = Some src" by auto
  obtain run s1 where run: "create_run REVIEWER (Some (r_id r)) (w_db w) = (run, s1)" by fastforce
  have s1: "proposes (w_db w) s1" using proposes_updates(5) [of "w_db w" REVIEWER] run by (metis proposes_refl snd_conv)
  obtain fetch_root where root: "rv_root sv (so_url src) = Inr fetch_root"
    using assms r run by (auto simp: temporal_hash_polling_node_def Let_def split: sum.splits)
  obtain res w1 where cap: "run_capture (fetch_root (so_id src) (so_url src)) (w\<lparr>w_db := s1\<rparr>) = (res, w1)" by fastforce
  have w1: "proposes (w_db w) (w_db w1)" using run_capture_proposes [OF cap] proposes_trans [OF s1] by simp
  show ?thesis
  proof (cases res)
    case (Inl e)
    then show ?thesis using assms r run root cap w1
      by (auto simp: temporal_hash_polling_node_def poll_failed_def review_error_def Let_def)
  next
    case (Inr fresh)
    have snap: "proposes (w_db w) s3" if "create_snapshot fresh (w_db w1) = Inr s3" for s3
      using create_snapshot_frame [OF that] quiet_proposes proposes_trans [OF w1] by blast
    show ?thesis using assms r run root cap Inr
      by (auto simp: temporal_hash_polling_node_def poll_compared_def Let_def split: sum.splits dest!: snap)
  qed
qed

lemma final_sync_proposes:
  "human_final_sync_node st None s = Inr (out, s') \<Longrightarrow>
     proposes s s' \<and> (\<forall>us. out = Returned us \<longrightarrow> vs_human_approval_status (review_merge us st) = vs_human_approval_status st)"
  by (auto simp: human_final_sync_node_def Let_def split_def interrupt_def create_change_proposes review_error_def
      split: option.splits sum.splits)

lemma review_exec_proposes:
  assumes "review_exec sv n st None w = Inr (out, w')" "n \<noteq> SYNC_PUBLISH"
  shows "proposes (w_db w) (w_db w')
    \<and> (\<forall>us. out = Returned us \<longrightarrow> vs_human_approval_status (review_merge us st) = vs_human_approval_status st)"
proof -
  consider "n = TEMPORAL_HASH_POLLING" | "n = HUMAN_FINAL_SYNC" | "n \<notin> {TEMPORAL_HASH_POLLING, HUMAN_FINAL_SYNC, SYNC_PUBLISH}"
    using assms(2) by blast
  then show ?thesis
  proof cases
    case 1
    then show ?thesis using assms by (auto dest: polling_proposes split: sum.splits)
  next
    case 2
    then obtain s where s: "human_final_sync_node st None (w_db w) = Inr (out, s)" "w' = w\<lparr>w_db := s\<rparr>"
      using assms(1) by (auto split: sum.splits)
    show ?thesis using final_sync_proposes [OF s(1)] s(2) by simp
  next
    case 3
    then obtain us where "out = Returned us" "review_step_ok sv st (w_db w) us (w_db w')"
      using review_exec_between [OF assms(1)] by blast
    then show ?thesis by (auto simp: review_step_ok_def quiet_proposes)
  qed
qed

lemma review_from_proposes:
  assumes "review_world (review_from sv n st None w) = Some w'" "n \<noteq> SYNC_PUBLISH" "vs_human_approval_status st = None"
  shows "proposes (w_db w) (w_db w')
    \<and> (\<forall>t st'. review_from sv n st None w = Review_interrupted t st' w' \<longrightarrow> vs_human_approval_status st' = None)"
  using assms
proof (induction "review_rank n" arbitrary: n st w rule: less_induct)
  case less
  show ?case
  proof (cases "review_exec sv n st None w")
    case (Inl e)
    then show ?thesis using less.prems by (subst (asm) review_from.simps) (simp add: review_world_def)
  next
    case (Inr p)
    obtain out w1 where p: "review_exec sv n st None w = Inr (out, w1)" using Inr by (cases p) auto
    note step = review_exec_proposes [OF p less.prems(2)]
    show ?thesis
    proof (cases out)
      case (Paused t)
      then have "review_from sv n st None w = Review_interrupted t st w1" using p by (subst review_from.simps) simp
      then show ?thesis using less.prems step by (simp add: review_world_def)
    next
      case (Returned us)
      have appr: "vs_human_approval_status (review_merge us st) = None" using step Returned less.prems(3) by simp
      show ?thesis
      proof (cases "review_route n (review_merge us st)")
        case None
        then have "review_from sv n st None w = Review_finished (review_merge us st) w1"
          using p Returned by (subst review_from.simps) (simp add: Let_def)
        then show ?thesis using less.prems step by (simp add: review_world_def)
      next
        case (Some m)
        have "m \<noteq> SYNC_PUBLISH"
          using Some appr by (cases n) (auto simp: route_after_hash_polling_def route_after_human_final_sync_def split: if_splits)
        moreover have "review_from sv n st None w = review_from sv m (review_merge us st) None w1"
          using p Returned Some by (subst review_from.simps) (simp add: Let_def)
        ultimately show ?thesis
          using less.hyps [OF review_route_rank [OF Some], of "review_merge us st" w1] less.prems(1) appr step proposes_trans
          by (metis (no_types, lifting))
      qed
    qed
  qed
qed

section \<open>The jobs\<close>

abbreviation sy_proposes :: "system \<Rightarrow> system \<Rightarrow> bool" where
  "sy_proposes y y' \<equiv> proposes (sy_db y) (sy_db y')"

lemma draw_proposes: "draw_uuid y = (i, y') \<Longrightarrow> sy_proposes y y'"
  by (auto simp: draw_uuid_def on_system_db_def)

lemma pass_time_db [simp]: "sy_db (pass_time sv y) = sy_db y" "sy_db (enqueue j y) = sy_db y"
  by (simp_all add: pass_time_def enqueue_def)

text \<open>A job under its lock proposes when its body does.\<close>

lemma with_job_lock_proposes:
  assumes "\<And>y res y'. body y = (res, y') \<Longrightarrow> sy_proposes y y'"
  shows "sy_proposes y (snd (with_job_lock i ty body y))"
proof -
  obtain token y1 where d: "draw_uuid y = (token, y1)" by fastforce
  obtain acquired r where l: "job_lock_enter (sy_now y1) i ty token (sy_redis y1) = (acquired, r)" by fastforce
  obtain res y2 where b: "body (y1\<lparr>sy_redis := r\<rparr>) = (res, y2)" by fastforce
  have "sy_proposes y y2" using proposes_trans [OF draw_proposes [OF d]] assms [OF b] by simp
  then show ?thesis using d l b draw_proposes [OF d] by (simp add: with_job_lock_def Let_def)
qed

lemma collector_job_proposes:
  assumes "collector_job sv i name menu nut y = (res, y')"
  shows "sy_proposes y y'"
proof (cases "restaurant_identity (js_collector sv) i name")
  case (Inl es)
  then show ?thesis using assms by (simp add: collector_job_def)
next
  case (Inr r)
  obtain th y1 where d: "draw_uuid y = (th, y1)" by fastforce
  let ?sv = "(js_collector sv)\<lparr>sv_provider := collector_provider menu\<rparr>"
  have w: "sy_proposes y1 (y1\<lparr>sy_world := w'\<rparr>)"
    if "result_world (start_collector ?sv r nut (sy_world (pass_time sv y1))) = Some w'" for w'
    using run_from_proposes [OF that [unfolded start_collector_def]] by (simp add: initial_state_def)
  show ?thesis
    using assms Inr d proposes_trans [OF draw_proposes [OF d]] draw_proposes [OF d] w
    by (auto simp: collector_job_def Let_def result_world_def split: run_result.splits)
qed

lemma reviewer_job_proposes:
  assumes "reviewer_job sv i y = (res, y')"
  shows "sy_proposes y y'"
proof (cases "\<exists>r. get_full_tree i (sy_db y) = Inr (Some r)")
  case False
  then show ?thesis using assms by (auto simp: reviewer_job_def split: sum.splits option.splits)
next
  case True
  then obtain r where r: "get_full_tree i (sy_db y) = Inr (Some r)" by blast
  obtain th y1 where d: "draw_uuid y = (th, y1)" by fastforce
  have w: "sy_proposes y1 (y1\<lparr>sy_world := w'\<rparr>)"
    if "review_world (start_review (js_reviewer sv) (Some r) None (sy_world (pass_time sv y1))) = Some w'" for w'
    using review_from_proposes [OF that [unfolded start_review_def]] by (simp add: initial_review_def)
  show ?thesis
    using assms r d proposes_trans [OF draw_proposes [OF d]] draw_proposes [OF d] w
    by (auto simp: reviewer_job_def Let_def review_world_def split: review_result.splits)
qed

lemma crawl_proposes:
  assumes "crawl_and_store sv i url y = (res, y')"
  shows "sy_proposes y y'"
proof -
  have snap: "proposes s s'" if "create_snapshot sn s = Inr s'" for sn s s'
    using create_snapshot_frame [OF that] quiet_proposes by blast
  show ?thesis
    using assms
    by (auto simp: crawl_and_store_def on_system_db_def Let_def dest!: run_capture_proposes snap
        intro: proposes_trans split: sum.splits prod.splits)
qed

lemma source_crawl_proposes: "source_crawl_job sv i src url y = (res, y') \<Longrightarrow> sy_proposes y y'"
  by (auto simp: source_crawl_job_def dest: crawl_proposes split: sum.splits prod.splits)

lemma create_source_proposes: "create_source i ty url v s = Inr (r, s') \<Longrightarrow> proposes s s'"
  by (rule proposes_same) (auto dest: create_source_frame)

lemma verify_only_proposes: "verify_only sv seed url y = (res, y') \<Longrightarrow> sy_proposes y y'"
  by (auto simp: verify_only_def verify_and_persist_manual_source_def on_system_db_def Let_def dest!: create_source_proposes
      split: sum.splits manual_error.splits domain_error.splits prod.splits)

lemma restaurant_ingestion_proposes:
  "restaurant_ingestion_job sv seed name c st co ph y = (res, y') \<Longrightarrow> sy_proposes y y'"
  by (auto simp: restaurant_ingestion_job_def resolve_official_website_def null_provider_def on_system_db_def Let_def
      split: if_splits)

lemma set_seed_proposes: "proposes s (set_restaurant_seed_id i seed s)"
  by (simp add: proposes_def set_restaurant_seed_id_def write_item_def production_def)

lemma run_one_item_proposes:
  assumes "run_one_item sv i y = (res, y')"
  shows "sy_proposes y y'"
proof (cases "get_item (sy_db y) i")
  case None
  then show ?thesis using assms by (auto simp: run_one_item_def)
next
  case (Some item)
  obtain seed y1 where d: "draw_uuid y = (seed, y1)" by fastforce
  let ?y2 = "on_system_db (set_restaurant_seed_id i (uuid_str seed)) y1"
  have "sy_proposes y ?y2"
    using proposes_trans [OF draw_proposes [OF d] set_seed_proposes] by (simp add: on_system_db_def)
  moreover have "sy_proposes ?y2 y'"
    using assms Some d
    by (auto simp: run_one_item_def Let_def
        dest!: verify_only_proposes crawl_proposes collector_job_proposes
        intro: proposes_trans split: prod.splits sum.splits ingestion_outcome.splits)
  ultimately show ?thesis by (rule proposes_trans)
qed

lemma queue_writes_propose:
  "proposes s (write_item i f s)" "proposes s (mark_item_succeeded i s)"
  "mark_item_failed sd i m s = Inr s' \<Longrightarrow> proposes s s'" "claim_next_queued s = (c, s') \<Longrightarrow> proposes s s'"
proof -
  show w: "proposes s (write_item i f s)" for i f by (simp add: proposes_def write_item_def production_def)
  show "proposes s (mark_item_succeeded i s)" by (simp add: mark_item_succeeded_def w)
  show "mark_item_failed sd i m s = Inr s' \<Longrightarrow> proposes s s'" using w by (auto simp: mark_item_failed_def split: if_splits)
  show "claim_next_queued s = (c, s') \<Longrightarrow> proposes s s'" using w by (auto simp: claim_next_queued_def split: list.splits)
qed

lemma dispatch_cycle_proposes:
  assumes "dispatch_one_cycle sv y = (res, y')"
  shows "sy_proposes y y'"
proof -
  obtain c y1 where cl: "claim_item y = (c, y1)" by fastforce
  have p1: "sy_proposes y y1"
    using cl queue_writes_propose(4) by (auto simp: claim_item_def on_system_db_def split: prod.splits)
  show ?thesis
  proof (cases c)
    case None
    then show ?thesis using assms cl p1 by (simp add: dispatch_one_cycle_def)
  next
    case (Some i)
    obtain out y2 where o2: "item_outcome sv i y1 = (out, y2)" by fastforce
    obtain res3 y3 where o3: "record_outcome sv i out y2 = (res3, y3)" by fastforce
    have p2: "sy_proposes y1 y2"
      using o2 by (auto simp: item_outcome_def dest: run_one_item_proposes split: prod.splits sum.splits)
    have p3: "sy_proposes y2 y3"
      using o3 queue_writes_propose
      by (auto simp: record_outcome_def on_system_db_def split: sum.splits)
    have "sy_db y' = sy_db y3" using assms cl Some o2 o3 by (auto simp: dispatch_one_cycle_def split: sum.splits)
    then show ?thesis using proposes_trans [OF proposes_trans [OF p1 p2] p3] by simp
  qed
qed

lemma run_dispatch_proposes: "sy_proposes y (snd (run_dispatch_next_ingestion_queue_item sv y))"
proof -
  obtain token y1 where d: "draw_uuid y = (token, y1)" by fastforce
  obtain acquired r where l: "dispatch_enter (sy_now y1) token (sy_redis y1) = (acquired, r)" by fastforce
  obtain res y2 where c: "dispatch_one_cycle sv (y1\<lparr>sy_redis := r\<rparr>) = (res, y2)" by fastforce
  show ?thesis
    using d l c draw_proposes [OF d] proposes_trans [OF draw_proposes [OF d]] dispatch_cycle_proposes [OF c]
    by (simp add: run_dispatch_next_ingestion_queue_item_def Let_def)
qed

text \<open>What a worker does with a job it takes from a queue.\<close>

fun perform :: "job_services \<Rightarrow> job \<Rightarrow> system \<Rightarrow> system" where
  "perform sv (Restaurant_ingestion_job seed name city state country phone) y =
     snd (run_restaurant_ingestion sv seed name city state country phone y)"
| "perform sv (Source_crawl_job i url src) y = snd (run_source_crawl sv i url src y)"
| "perform sv (Collector_job i name src snap menu nut) y = snd (run_collector_workflow sv i name menu nut y)"
| "perform sv Maintenance_job y = snd (run_maintenance_polling sv y)"
| "perform sv (Reviewer_job i) y = snd (run_reviewer_workflow sv i y)"
| "perform sv Dispatch_job y = snd (run_dispatch_next_ingestion_queue_item sv y)"

lemma maintenance_proposes: "maintenance_job sv y = (res, y') \<Longrightarrow> sy_proposes y y'"
proof -
  have "sy_db (fold (\<lambda>i. enqueue (Reviewer_job i)) is y0) = sy_db y0" for "is" y0
    by (induction "is" arbitrary: y0) simp_all
  then show "maintenance_job sv y = (res, y') \<Longrightarrow> sy_proposes y y'" by (auto simp: maintenance_job_def Let_def)
qed

lemma perform_proposes: "sy_proposes y (perform sv j y)"
proof (cases j)
  case (Source_crawl_job i url src)
  then show ?thesis
    by (cases src) (auto simp: run_source_crawl_def intro!: with_job_lock_proposes dest: source_crawl_proposes)
qed (auto simp: run_restaurant_ingestion_def run_collector_workflow_def run_maintenance_polling_def run_reviewer_workflow_def
    run_dispatch_proposes intro!: with_job_lock_proposes
    dest: restaurant_ingestion_proposes collector_job_proposes maintenance_proposes reviewer_job_proposes)

text \<open>C16: The worker proposes, it never publishes. Let workers run any jobs, in any order, with any
  arguments: restaurant ingestion, crawls, collector and reviewer runs, sweeps, and dispatch cycles over
  the ingestion queue, with any web, AI, DeepDiff and checkpoints, from any state of the database. The
  production tables - restaurants, locations, menus, categories, dishes - end exactly as they were, and
  the review queue keeps every change it had, unaltered, with only pending ones added. So the data that
  is served changes only through a decision of a reviewer.\<close>

theorem workers_never_publish:
  "production (sy_db (fold (perform sv) jobs y)) = production (sy_db y)
   \<and> (\<exists>cs. db_proposed_changes (sy_db (fold (perform sv) jobs y)) = db_proposed_changes (sy_db y) @ cs
        \<and> list_all (\<lambda>c. pc_status c = PC_PENDING) cs)"
proof -
  have "sy_proposes y (fold (perform sv) jobs y)" for y
    by (induction jobs arbitrary: y) (auto intro: proposes_trans perform_proposes)
  then show ?thesis unfolding proposes_def .
qed

section \<open>Jobs that cannot do what they are for\<close>

text \<open>A collector job enqueued by a crawl has no restaurant name, and no restaurant is nameless.\<close>

lemma crawl_enqueued_collector_job_fails:
  "\<exists>es. collector_job sv i [] menu nut y = (Inl (ValidationError es), y)"
proof -
  have "\<nexists>r. restaurant_identity (js_collector sv) i [] = Inr r"
    by (auto simp: restaurant_identity_def v_restaurant_def vap_Inr_iff vmap_Inr_iff v_model_known restaurant_keys_def
        fld_def v_name_def vthen_Inr_iff v_str_len_def v_str_def split: if_splits)
  then obtain es where "restaurant_identity (js_collector sv) i [] = Inl es"
    by (cases "restaurant_identity (js_collector sv) i []") auto
  then show ?thesis by (simp add: collector_job_def)
qed

text \<open>A search-based ingestion asks a provider that never answers, and enqueues nothing.\<close>

lemma search_ingestion_finds_nothing:
  "name \<noteq> [] \<Longrightarrow> \<exists>y'. restaurant_ingestion_job sv seed name c st co ph y
       = (Inr (Ingestion_status ''not_found'' (seed_restaurant_id sv seed)), y') \<and> sy_jobs y' = sy_jobs y"
  by (simp add: restaurant_ingestion_job_def resolve_official_website_def null_provider_def Let_def on_system_db_def pass_time_def)

text \<open>Had it found a website, the crawl it enqueues would refuse to run: it is enqueued without a source.\<close>

lemma crawl_without_source_fails:
  "run_source_crawl sv i url None y = (Inl (Job_raised (py_value_error ''source_crawl job requires a source_id'')), y)"
  by (simp add: run_source_crawl_def)

text \<open>A run a worker started and that paused: its checkpoint is kept under the thread the job drew, its
  change is recorded under the run.\<close>

lemma resume_without_checkpoint:
  assumes "cps th = None" "get_change (w_db w) i = Some c" "pc_thread_id c = Some th"
    "resume_change (resume_graph rs cps) i a reviewer reason w = Inr (out, w')"
  shows "production (w_db w') = production (w_db w) \<and> ro_published_restaurant_id out = None"
proof -
  have g: "resume_graph rs cps wt th d w1 = (case rs_no_checkpoint rs wt th of None \<Rightarrow> Graph_returned [] None w1 | Some e \<Rightarrow> Graph_raised e)"
    for wt d w1
    using assms(1) by (cases wt) (simp_all add: resume_graph_def no_checkpoint_def)
  show ?thesis
    using assms(2-4)
    by (auto simp: resume_change_def require_pending_def g Let_def split: sum.splits option.splits if_splits)
qed

lemma worker_runs_are_not_resumable:
  assumes "collector_job sv i name menu nut y = (Inr summary, y')" "sy_checkpoints y' \<noteq> sy_checkpoints y"
    and "get_run (sy_db y) (Suc (db_next (sy_db y))) = None" "sy_checkpoints y (Suc (db_next (sy_db y))) = None"
  shows "\<exists>run_id c. cj_agent_run_id summary = Some run_id \<and> changes_of_thread run_id (sy_db y') = [c]
    \<and> sy_checkpoints y' run_id = None
    \<and> (get_change (sy_db y') (pc_id c) = Some c \<longrightarrow>
        (\<forall>rs a reviewer reason out w'. resume_change (resume_graph rs (sy_checkpoints y')) (pc_id c) a reviewer reason (sy_world y')
           = Inr (out, w') \<longrightarrow> production (w_db w') = production (sy_db y') \<and> ro_published_restaurant_id out = None))"
proof -
  obtain r where r: "restaurant_identity (js_collector sv) i name = Inr r"
    using assms(1) by (auto simp: collector_job_def split: sum.splits)
  let ?n = "db_next (sy_db y)"
  let ?y1 = "pass_time sv (on_system_db (\<lambda>s. s\<lparr>db_next := Suc (db_next s)\<rparr>) y)"
  let ?sv = "(js_collector sv)\<lparr>sv_provider := collector_provider menu\<rparr>"
  have y1: "db_next (sy_db ?y1) = Suc ?n" "sy_checkpoints ?y1 = sy_checkpoints y" "get_run (sy_db ?y1) j = get_run (sy_db y) j" for j
    by (simp_all add: on_system_db_def pass_time_def get_run_def)
  have d: "draw_uuid y = (?n, on_system_db (\<lambda>s. s\<lparr>db_next := Suc (db_next s)\<rparr>) y)" by (simp add: draw_uuid_def)
  obtain task st w where p: "start_collector ?sv r nut (sy_world ?y1) = Interrupted task st w"
    and y': "summary = collector_summary_of st" "sy_world y' = w" "sy_checkpoints y' = (sy_checkpoints y)(?n \<mapsto> At_human_review st)"
  proof -
    show ?thesis
      using assms(1,2) r that y1(2) unfolding collector_job_def d by (auto simp: Let_def split: run_result.splits)
  qed
  have fresh: "get_run (w_db (sy_world ?y1)) (db_next (w_db (sy_world ?y1))) = None" using assms(3) y1 by simp
  obtain s1 where u: "cs_agent_run_id st = Some (Suc ?n)" "human_review_node st None s1 = Inr (Paused task, w_db w)"
    using start_undecided [OF fresh, of ?sv r nut] y1(1) unfolding p undecided_result_def by auto
  obtain c where c: "changes_of_thread (Suc ?n) (w_db w) = [c]"
    using human_review_pauses [OF u(2)] u(1) by (metis option.inject)
  have th: "pc_thread_id c = Some (Suc ?n)"
  proof -
    have "c \<in> set (changes_of_thread (Suc ?n) (w_db w))" by (simp add: c)
    then show ?thesis by (simp add: changes_of_thread_def)
  qed
  have none: "sy_checkpoints y' (Suc ?n) = None" using assms(4) y'(3) by simp
  show ?thesis
    using u(1) c none y' th resume_without_checkpoint [where cps = "sy_checkpoints y'" and th = "Suc ?n" and c = c]
    by (intro exI [of _ "Suc ?n"] exI [of _ c]) (auto simp: collector_summary_of_def)
qed

section \<open>The sweep over failed jobs\<close>

abbreviation transient :: "failed_job list \<Rightarrow> failed_job list" where
  "transient \<equiv> filter (\<lambda>f. looks_transient (fj_exc_info f))"

abbreviation lasting :: "failed_job list \<Rightarrow> failed_job list" where
  "lasting \<equiv> filter (\<lambda>f. \<not> looks_transient (fj_exc_info f))"

definition with_jobs :: "system \<Rightarrow> failed_job list \<Rightarrow> system" where
  "with_jobs y fs = y\<lparr>sy_jobs := sy_jobs y @ map fj_job fs\<rparr>"

lemma with_jobs_simps [simp]:
  "with_jobs y [] = y" "with_jobs (enqueue (fj_job f) y) fs = with_jobs y (f # fs)"
  "with_jobs (with_jobs y fs) gs = with_jobs y (fs @ gs)"
  by (simp_all add: with_jobs_def enqueue_def)

lemma sweep_registry_spec:
  "sweep_registry registry y = (map fj_id (transient registry), map fj_id (lasting registry), lasting registry,
     with_jobs y (transient registry))"
  by (induction registry arbitrary: y) simp_all

lemma sweep_queues_spec:
  "distinct names \<Longrightarrow> sweep_queues names failed y =
     (length (concat (map (transient \<circ> failed) names)), length (concat (map (lasting \<circ> failed) names)),
      (\<lambda>q. if q \<in> set names then lasting (failed q) else failed q), with_jobs y (concat (map (transient \<circ> failed) names)))"
proof (induction names arbitrary: failed y)
  case (Cons q names)
  let ?f = "failed(q := lasting (failed q))"
  have same: "map (transient \<circ> ?f) names = map (transient \<circ> failed) names" "map (lasting \<circ> ?f) names = map (lasting \<circ> failed) names"
    using Cons.prems by auto
  show ?case
    using Cons.prems Cons.IH [of ?f]
    by (simp add: sweep_registry_spec same del: fun_upd_apply comp_apply) (auto simp: fun_eq_iff)
qed simp

text \<open>The sweep over failed jobs loses none and runs none twice. Of every queue's dead-letter registry,
  in the order of the queues and of the registry, exactly the jobs whose recorded exception names one of
  the transient markers are put back, once each, at the end of the job queues with what they were enqueued
  with; exactly the others stay in their registries, in order; and the two totals it reports are their numbers.\<close>

theorem retry_failed_partitions:
  "case run_retry_failed failed y of (total_requeued, total_left_for_review, failed', y') \<Rightarrow>
     (let retried = concat (map (\<lambda>q. filter (\<lambda>f. looks_transient (fj_exc_info f)) (failed q)) all_queue_names) in
      sy_jobs y' = sy_jobs y @ map fj_job retried \<and> total_requeued = length retried
      \<and> failed' = (\<lambda>q. if q \<in> set all_queue_names then filter (\<lambda>f. \<not> looks_transient (fj_exc_info f)) (failed q) else failed q)
      \<and> total_left_for_review = length (concat (map failed' all_queue_names))
      \<and> sy_world y' = sy_world y \<and> sy_redis y' = sy_redis y)"
proof -
  have d: "distinct all_queue_names" by code_simp
  have m: "map (\<lambda>q. if q \<in> set names then lasting (failed q) else failed q) names = map (lasting \<circ> failed) names" for names
    by simp
  show ?thesis
    unfolding run_retry_failed_def sweep_queues_spec [OF d] Let_def prod.case m
    by (simp add: with_jobs_def comp_def)
qed

end
