(* ===== verification/AdminApi.thy ===== *)
theory AdminApi
  imports JobRuns
begin

text \<open>
  The admin API: the routes of \<open>src/apps/api/app/routers/v1/admin/router.py\<close> and
  \<open>routers/v1/agents/router.py\<close> with the request and response schemas of \<open>src/core/schemas\<close> they
  use. A route checks its permission, then validates what it was given, then works in one transaction: an
  error leaves the system as it was. A request that passed validation has its body as parsed JSON.
\<close>

section \<open>Schemas\<close>

record 'a paginated_response =
  pr_items :: "'a list"
  pr_page :: nat
  pr_page_size :: nat
  pr_total :: nat

definition paginated :: "pagination \<Rightarrow> 'a list \<times> nat \<Rightarrow> 'a paginated_response" where
  "paginated p rows =
     \<lparr>pr_items = fst rows, pr_page = pg_page p, pr_page_size = pg_page_size p, pr_total = snd rows\<rparr>"

definition display_name_from_structured_json :: "json \<Rightarrow> string option" where
  "display_name_from_structured_json j =
     (case j of
        JObj kvs \<Rightarrow> (case map_of kvs ''name'' of Some (JStr name) \<Rightarrow> Some name | _ \<Rightarrow> None)
      | _ \<Rightarrow> None)"

record review_summary =
  vw_id :: uuid
  vw_entity_type :: change_entity_type
  vw_entity_id :: uuid
  vw_status :: change_status
  vw_name :: "string option"
  vw_agent_run_id :: "uuid option"
  vw_created_at :: timestamp

definition to_review_summary :: "proposed_change \<Rightarrow> review_summary" where
  "to_review_summary c =
     \<lparr>vw_id = pc_id c, vw_entity_type = pc_entity_type c, vw_entity_id = pc_entity_id c, vw_status = pc_status c,
      vw_name = display_name_from_structured_json (pc_structured_json c), vw_agent_run_id = pc_agent_run_id c,
      vw_created_at = pc_created_at c\<rparr>"

text \<open>The detail also carries the payload, the validation result and the source; the payload must be a
  dictionary.\<close>

record review_detail = review_summary +
  vw_structured_json :: json
  vw_validation_result :: json
  vw_source_id :: "uuid option"

definition is_dict :: "json \<Rightarrow> bool" where
  "is_dict j \<longleftrightarrow> (case j of JObj _ \<Rightarrow> True | _ \<Rightarrow> False)"

definition to_review_detail :: "proposed_change \<Rightarrow> failure + review_detail" where
  "to_review_detail c =
     (if \<not> is_dict (pc_structured_json c)
      then Inl (Uncaught (ValidationError [([LKey ''structured_json''], ''Input should be a valid dictionary'')]))
      else if \<not> is_dict (pc_validation_result c)
      then Inl (Uncaught (ValidationError [([LKey ''validation_result''], ''Input should be a valid dictionary'')]))
      else Inr \<lparr>vw_id = pc_id c, vw_entity_type = pc_entity_type c, vw_entity_id = pc_entity_id c,
                vw_status = pc_status c, vw_name = display_name_from_structured_json (pc_structured_json c),
                vw_agent_run_id = pc_agent_run_id c, vw_created_at = pc_created_at c,
                vw_structured_json = pc_structured_json c, vw_validation_result = pc_validation_result c,
                vw_source_id = pc_source_id c\<rparr>)"

definition v_reason :: "(string \<times> json) list \<Rightarrow> string option vres" where
  "v_reason kvs = fld kvs [] ''reason'' (Inr None) (v_opt (v_str_len 0 2000))"

definition v_review_decision :: "json \<Rightarrow> string option vres" where
  "v_review_decision j = v_model ''ReviewDecisionRequest'' [''reason''] [] j v_reason"

definition v_dict :: "loc \<Rightarrow> json \<Rightarrow> json vres" where
  "v_dict l j = (if is_dict j then Inr j else verr_at l ''Input should be a valid dictionary'')"

definition v_review_edit :: "json \<Rightarrow> (json \<times> string option) vres" where
  "v_review_edit j =
     v_model ''ReviewEditRequest'' [''edited_structured_json'', ''reason''] [] j
       (\<lambda>kvs. vap (vmap Pair
          (fld kvs [] ''edited_structured_json'' (required [] ''edited_structured_json'') v_dict))
          (v_reason kvs))"

record review_action_result =
  ra_proposed_change_id :: uuid
  ra_status :: change_status
  ra_published_restaurant_id :: "uuid option"
  ra_errors :: "workflow_error list"

record ingestion_trigger =
  it_name :: string
  it_city :: "string option"
  it_state :: "string option"
  it_country :: "string option"
  it_phone :: "string option"

record ingestion_trigger_result =
  ig_job_id :: string
  ig_restaurant_seed_id :: string

definition v_ingestion_trigger :: "json \<Rightarrow> ingestion_trigger vres" where
  "v_ingestion_trigger j =
     v_model ''IngestionTriggerRequest'' [''name'', ''city'', ''state'', ''country'', ''phone''] [] j
       (\<lambda>kvs. vap (vap (vap (vap (vmap
            (\<lambda>n c s co p. \<lparr>it_name = n, it_city = c, it_state = s, it_country = co, it_phone = p\<rparr>)
          (fld kvs [] ''name'' (required [] ''name'') (v_str_len 1 255)))
          (fld kvs [] ''city'' (Inr None) (v_opt v_str)))
          (fld kvs [] ''state'' (Inr None) (v_opt v_str)))
          (fld kvs [] ''country'' (Inr None) (v_opt (v_str_len 2 2))))
          (fld kvs [] ''phone'' (Inr None) (v_opt v_str)))"

record queue_upload_result =
  ur_batch_id :: uuid
  ur_queued_count :: nat
  ur_skipped_duplicate_names :: "string list"
  ur_items :: "queue_item list"

section \<open>Guards and bodies\<close>

record admin_services =
  ad_auth :: auth_services
  ad_settings :: settings
  ad_review :: review_services

type_synonym 'a route = "system \<Rightarrow> (failure + 'a) \<times> system"

definition guarded :: "admin_services \<Rightarrow> permission \<Rightarrow> string option \<Rightarrow> (user \<Rightarrow> 'a route) \<Rightarrow> 'a route" where
  "guarded ad p credentials k y =
     (case authorize (ad_auth ad) (ad_settings ad) p credentials (sy_db y) of
        Inl f \<Rightarrow> (Inl f, y)
      | Inr u \<Rightarrow> k u y)"

text \<open>The first error of an invalid body, located from \<open>body\<close> on.\<close>

fun loc_part_text :: "loc_part \<Rightarrow> string" where
  "loc_part_text (LKey k) = k"
| "loc_part_text (LIdx n) = show_nat n"

definition invalid_body :: "verr list \<Rightarrow> failure" where
  "invalid_body es =
     (case es of
        [] \<Rightarrow> InvalidRequest [] [Txt ''Invalid request'']
      | (l, msg) # _ \<Rightarrow> InvalidRequest (''body'' # map loc_part_text l) [Txt msg])"

definition with_body :: "'b vres \<Rightarrow> ('b \<Rightarrow> 'a route) \<Rightarrow> 'a route" where
  "with_body r k y = (case r of Inl es \<Rightarrow> (Inl (invalid_body es), y) | Inr b \<Rightarrow> k b y)"

definition with_pagination :: "int option \<Rightarrow> int option \<Rightarrow> (pagination \<Rightarrow> 'a route) \<Rightarrow> 'a route" where
  "with_pagination page page_size k y =
     (case get_pagination page page_size of Inl f \<Rightarrow> (Inl f, y) | Inr p \<Rightarrow> k p y)"

definition read_only :: "(db \<Rightarrow> failure + 'a) \<Rightarrow> 'a route" where
  "read_only f y = (f (sy_db y), y)"

text \<open>A \<open>limit\<close> query parameter has no lower bound; PostgreSQL refuses a negative one.\<close>

definition with_limit :: "int option \<Rightarrow> (nat \<Rightarrow> 'a route) \<Rightarrow> 'a route" where
  "with_limit limit k y =
     (let n = (case limit of None \<Rightarrow> 100 | Some n \<Rightarrow> n) in
      if n < 0 then (Inl (Uncaught (OtherError [Txt ''LIMIT must not be negative''])), y) else k (nat n) y)"

section \<open>Restaurants, agent runs and the audit log\<close>

definition list_restaurants_route ::
  "admin_services \<Rightarrow> string option \<Rightarrow> int option \<Rightarrow> int option \<Rightarrow> restaurant_summary paginated_response route" where
  "list_restaurants_route ad credentials page page_size =
     guarded ad RESTAURANT_READ credentials (\<lambda>_. with_pagination page page_size
       (\<lambda>p. read_only (\<lambda>s. Inr (paginated p (list_restaurants_paginated (pg_page p) (pg_page_size p) s)))))"

definition get_restaurant_route :: "admin_services \<Rightarrow> string option \<Rightarrow> uuid \<Rightarrow> restaurant route" where
  "get_restaurant_route ad credentials i =
     guarded ad RESTAURANT_READ credentials (\<lambda>_. read_only
       (\<lambda>s. case get_full_tree i s of
               Inl e \<Rightarrow> Inl (Uncaught e)
             | Inr None \<Rightarrow> Inl (App (NotFoundError [Txt ''No restaurant with id '', Num i]))
             | Inr (Some r) \<Rightarrow> Inr r))"

definition list_agent_runs_route ::
  "admin_services \<Rightarrow> string option \<Rightarrow> int option \<Rightarrow> int option \<Rightarrow> agent_run paginated_response route" where
  "list_agent_runs_route ad credentials page page_size =
     guarded ad AGENT_RUN_READ credentials (\<lambda>_. with_pagination page page_size
       (\<lambda>p. read_only (\<lambda>s. Inr (paginated p (list_runs_paginated (pg_page p) (pg_page_size p) s)))))"

definition get_agent_run_route :: "admin_services \<Rightarrow> string option \<Rightarrow> uuid \<Rightarrow> agent_run route" where
  "get_agent_run_route ad credentials i =
     guarded ad AGENT_RUN_READ credentials (\<lambda>_. read_only
       (\<lambda>s. case get_run s i of
               None \<Rightarrow> Inl (App (NotFoundError [Txt ''No AgentRun with id '', Num i]))
             | Some r \<Rightarrow> Inr r))"

definition list_audit_log_route :: "admin_services \<Rightarrow> string option \<Rightarrow> int option \<Rightarrow> audit_log list route" where
  "list_audit_log_route ad credentials limit =
     guarded ad AUDIT_LOG_READ credentials (\<lambda>_. with_limit limit (\<lambda>n. read_only (\<lambda>s. Inr (list_audit_recent n s))))"

definition list_users_placeholder :: "admin_services \<Rightarrow> string option \<Rightarrow> user list route" where
  "list_users_placeholder ad credentials = guarded ad USER_READ credentials (\<lambda>_. read_only (\<lambda>_. Inr []))"

section \<open>Reviews\<close>

definition list_pending_reviews_route :: "admin_services \<Rightarrow> string option \<Rightarrow> int option \<Rightarrow> review_summary list route" where
  "list_pending_reviews_route ad credentials limit =
     guarded ad REVIEW_READ credentials (\<lambda>_. with_limit limit
       (\<lambda>n. read_only (\<lambda>s. Inr (map to_review_summary (list_pending n s)))))"

definition get_review_detail_route :: "admin_services \<Rightarrow> string option \<Rightarrow> uuid \<Rightarrow> review_detail route" where
  "get_review_detail_route ad credentials i =
     guarded ad REVIEW_READ credentials (\<lambda>_. read_only
       (\<lambda>s. case get_detail i s of Inl f \<Rightarrow> Inl f | Inr c \<Rightarrow> to_review_detail c))"

text \<open>A decision: what the service did is committed, an error rolls everything back. A run that was
  resumed has no checkpoint to resume any more.\<close>

definition decide_route :: "admin_services \<Rightarrow> uuid \<Rightarrow> review_action \<Rightarrow> string option \<Rightarrow> user \<Rightarrow> review_action_result route" where
  "decide_route ad i action reason u y =
     (case decide (ad_review ad) (sy_checkpoints y) i action u reason (sy_world y) of
        Inl f \<Rightarrow> (Inl f, y)
      | Inr (out, w) \<Rightarrow>
          (Inr \<lparr>ra_proposed_change_id = pc_id (ro_proposed_change out), ra_status = pc_status (ro_proposed_change out),
                ra_published_restaurant_id = (if action = Reject then None else ro_published_restaurant_id out),
                ra_errors = ro_errors out\<rparr>,
           y\<lparr>sy_world := w,
             sy_checkpoints := (case pc_thread_id (ro_proposed_change out) of
                None \<Rightarrow> sy_checkpoints y | Some th \<Rightarrow> (sy_checkpoints y)(th := None))\<rparr>))"

definition approve_review_route :: "admin_services \<Rightarrow> string option \<Rightarrow> uuid \<Rightarrow> json \<Rightarrow> review_action_result route" where
  "approve_review_route ad credentials i body =
     guarded ad REVIEW_WRITE credentials (\<lambda>u. with_body (v_review_decision body)
       (\<lambda>reason. decide_route ad i Approve reason u))"

definition reject_review_route :: "admin_services \<Rightarrow> string option \<Rightarrow> uuid \<Rightarrow> json \<Rightarrow> review_action_result route" where
  "reject_review_route ad credentials i body =
     guarded ad REVIEW_WRITE credentials (\<lambda>u. with_body (v_review_decision body)
       (\<lambda>reason. decide_route ad i Reject reason u))"

definition edit_then_approve_review_route ::
  "admin_services \<Rightarrow> string option \<Rightarrow> uuid \<Rightarrow> json \<Rightarrow> review_action_result route" where
  "edit_then_approve_review_route ad credentials i body =
     guarded ad REVIEW_WRITE credentials (\<lambda>u. with_body (v_review_edit body)
       (\<lambda>(edited, reason). decide_route ad i (Edit_then_approve edited) reason u))"

section \<open>Ingestion\<close>

definition trigger_ingestion_route :: "admin_services \<Rightarrow> string option \<Rightarrow> json \<Rightarrow> ingestion_trigger_result route" where
  "trigger_ingestion_route ad credentials body =
     guarded ad INGESTION_TRIGGER credentials (\<lambda>u. with_body (v_ingestion_trigger body) (\<lambda>p y.
       (let (seed, y) = draw_uuid y;
            (job_id, y) = draw_uuid y;
            y = enqueue (Restaurant_ingestion_job (uuid_str seed) (it_name p) (it_city p) (it_state p)
                  (it_country p) (it_phone p)) y;
            y = on_system_db (audit AGENT_RUN_TRIGGER AE_AGENT_RUN (uuid_str seed) (actor_of u) None
                  [(''job_id'', [Txt (uuid_str job_id)]), (''restaurant_name'', [Txt (it_name p)])]) y
        in (Inr \<lparr>ig_job_id = uuid_str job_id, ig_restaurant_seed_id = uuid_str seed\<rparr>, y))))"

text \<open>The handlers of the queue audit every write under the item's or the batch's identifier.\<close>

definition queue_audit :: "uuid \<Rightarrow> user \<Rightarrow> (string \<times> message) list \<Rightarrow> db \<Rightarrow> db" where
  "queue_audit i u metadata = audit AGENT_RUN_TRIGGER AE_AGENT_RUN (uuid_str i) (actor_of u) None metadata"

definition queue_action :: "string \<Rightarrow> (string \<times> message) list" where
  "queue_action name = [(''action'', [Txt (''ingestion_queue_item.'' @ name)])]"

definition upload_ingestion_queue_batch :: "admin_services \<Rightarrow> string option \<Rightarrow> json \<Rightarrow> queue_upload_result route" where
  "upload_ingestion_queue_batch ad credentials body =
     guarded ad INGESTION_TRIGGER credentials (\<lambda>u. with_body (v_bulk_upload body) (\<lambda>items y.
       (case create_batch items (Some (us_id u)) (sy_db y) of
          Inl e \<Rightarrow> (Inl (Uncaught e), y)
        | Inr (b, s) \<Rightarrow>
            (let y = on_system_db (\<lambda>_. queue_audit (br_batch_id b) u
                   [(''batch_id'', [Num (br_batch_id b)]), (''queued_count'', [Num (length (br_created b))]),
                    (''skipped_duplicate_names'', [Repr (br_skipped_duplicate_names b)])] s) y;
                 y = (if br_created b \<noteq> [] then snd (try_trigger_dispatch y) else y)
             in (Inr \<lparr>ur_batch_id = br_batch_id b, ur_queued_count = length (br_created b),
                      ur_skipped_duplicate_names = br_skipped_duplicate_names b, ur_items = br_created b\<rparr>, y)))))"

definition list_ingestion_queue_route ::
  "admin_services \<Rightarrow> string option \<Rightarrow> int option \<Rightarrow> int option \<Rightarrow> queue_status option \<Rightarrow> queue_item paginated_response route" where
  "list_ingestion_queue_route ad credentials page page_size status =
     guarded ad INGESTION_READ credentials (\<lambda>_. with_pagination page page_size
       (\<lambda>p. read_only (\<lambda>s. Inr (paginated p (list_queue_paginated (pg_page p) (pg_page_size p) status s)))))"

definition get_ingestion_queue_item_route :: "admin_services \<Rightarrow> string option \<Rightarrow> uuid \<Rightarrow> queue_item route" where
  "get_ingestion_queue_item_route ad credentials i =
     guarded ad INGESTION_READ credentials (\<lambda>_. read_only
       (\<lambda>s. case get_item s i of
               None \<Rightarrow> Inl (App (NotFoundError [Txt ''No ingestion queue item with id '', Num i]))
             | Some r \<Rightarrow> Inr r))"

text \<open>\<open>InvalidQueueStateError\<close> becomes a conflict.\<close>

definition queue_failure :: "queue_error \<Rightarrow> failure" where
  "queue_failure e = (case e of InvalidQueueState m \<Rightarrow> App (ConflictError m) | Queue_exn x \<Rightarrow> Uncaught x)"

definition update_ingestion_queue_item :: "admin_services \<Rightarrow> string option \<Rightarrow> uuid \<Rightarrow> json \<Rightarrow> queue_item route" where
  "update_ingestion_queue_item ad credentials i body =
     guarded ad INGESTION_TRIGGER credentials (\<lambda>u. with_body (v_item_edit body) (\<lambda>(name, menu_url, nutrition_url) y.
       (case update_if_queued i name menu_url nutrition_url (sy_db y) of
          Inl e \<Rightarrow> (Inl (queue_failure e), y)
        | Inr (r, s) \<Rightarrow> (Inr r, on_system_db (\<lambda>_. queue_audit i u (queue_action ''edit'') s) y))))"

definition delete_ingestion_queue_item :: "admin_services \<Rightarrow> string option \<Rightarrow> uuid \<Rightarrow> unit route" where
  "delete_ingestion_queue_item ad credentials i =
     guarded ad INGESTION_TRIGGER credentials (\<lambda>u y.
       (case delete_if_queued i (sy_db y) of
          Inl e \<Rightarrow> (Inl (queue_failure e), y)
        | Inr s \<Rightarrow> (Inr (), on_system_db (\<lambda>_. queue_audit i u (queue_action ''delete'') s) y)))"

definition requeue_ingestion_queue_item :: "admin_services \<Rightarrow> string option \<Rightarrow> uuid \<Rightarrow> queue_item route" where
  "requeue_ingestion_queue_item ad credentials i =
     guarded ad INGESTION_TRIGGER credentials (\<lambda>u y.
       (case requeue_if_failed i (sy_db y) of
          Inl e \<Rightarrow> (Inl (queue_failure e), y)
        | Inr (r, s) \<Rightarrow>
            (Inr r, snd (try_trigger_dispatch (on_system_db (\<lambda>_. queue_audit i u (queue_action ''requeue'') s) y)))))"

section \<open>Requests\<close>

datatype request =
    List_restaurants "int option" "int option"
  | Get_restaurant uuid
  | List_agent_runs "int option" "int option"
  | Get_agent_run uuid
  | List_audit_log "int option"
  | List_users
  | List_reviews "int option"
  | Get_review uuid
  | Approve_review uuid json
  | Reject_review uuid json
  | Edit_approve_review uuid json
  | Trigger_ingestion json
  | Upload_queue json
  | List_queue "int option" "int option" "queue_status option"
  | Get_queue_item uuid
  | Update_queue_item uuid json
  | Delete_queue_item uuid
  | Requeue_queue_item uuid

fun required_permission :: "request \<Rightarrow> permission" where
  "required_permission (List_restaurants _ _) = RESTAURANT_READ"
| "required_permission (Get_restaurant _) = RESTAURANT_READ"
| "required_permission (List_agent_runs _ _) = AGENT_RUN_READ"
| "required_permission (Get_agent_run _) = AGENT_RUN_READ"
| "required_permission (List_audit_log _) = AUDIT_LOG_READ"
| "required_permission List_users = USER_READ"
| "required_permission (List_reviews _) = REVIEW_READ"
| "required_permission (Get_review _) = REVIEW_READ"
| "required_permission (Approve_review _ _) = REVIEW_WRITE"
| "required_permission (Reject_review _ _) = REVIEW_WRITE"
| "required_permission (Edit_approve_review _ _) = REVIEW_WRITE"
| "required_permission (Trigger_ingestion _) = INGESTION_TRIGGER"
| "required_permission (Upload_queue _) = INGESTION_TRIGGER"
| "required_permission (List_queue _ _ _) = INGESTION_READ"
| "required_permission (Get_queue_item _) = INGESTION_READ"
| "required_permission (Update_queue_item _ _) = INGESTION_TRIGGER"
| "required_permission (Delete_queue_item _) = INGESTION_TRIGGER"
| "required_permission (Requeue_queue_item _) = INGESTION_TRIGGER"

text \<open>What a request does: whether it fails, and the system after it.\<close>

definition effect :: "'a route \<Rightarrow> system \<Rightarrow> failure option \<times> system" where
  "effect r y = (case r y of (Inl f, y') \<Rightarrow> (Some f, y') | (Inr _, y') \<Rightarrow> (None, y'))"

fun handle :: "admin_services \<Rightarrow> string option \<Rightarrow> request \<Rightarrow> system \<Rightarrow> failure option \<times> system" where
  "handle ad c (List_restaurants p n) = effect (list_restaurants_route ad c p n)"
| "handle ad c (Get_restaurant i) = effect (get_restaurant_route ad c i)"
| "handle ad c (List_agent_runs p n) = effect (list_agent_runs_route ad c p n)"
| "handle ad c (Get_agent_run i) = effect (get_agent_run_route ad c i)"
| "handle ad c (List_audit_log n) = effect (list_audit_log_route ad c n)"
| "handle ad c List_users = effect (list_users_placeholder ad c)"
| "handle ad c (List_reviews n) = effect (list_pending_reviews_route ad c n)"
| "handle ad c (Get_review i) = effect (get_review_detail_route ad c i)"
| "handle ad c (Approve_review i b) = effect (approve_review_route ad c i b)"
| "handle ad c (Reject_review i b) = effect (reject_review_route ad c i b)"
| "handle ad c (Edit_approve_review i b) = effect (edit_then_approve_review_route ad c i b)"
| "handle ad c (Trigger_ingestion b) = effect (trigger_ingestion_route ad c b)"
| "handle ad c (Upload_queue b) = effect (upload_ingestion_queue_batch ad c b)"
| "handle ad c (List_queue p n st) = effect (list_ingestion_queue_route ad c p n st)"
| "handle ad c (Get_queue_item i) = effect (get_ingestion_queue_item_route ad c i)"
| "handle ad c (Update_queue_item i b) = effect (update_ingestion_queue_item ad c i b)"
| "handle ad c (Delete_queue_item i) = effect (delete_ingestion_queue_item ad c i)"
| "handle ad c (Requeue_queue_item i) = effect (requeue_ingestion_queue_item ad c i)"

end
