(* ===== verification/Served.thy ===== *)
theory Served
  imports AdminApi
begin

text \<open>
  The whole system: workers performing jobs and clients calling the admin API, in any order. What every
  request is authorized by, and what can change the data that is served.
\<close>

section \<open>Every request is authorized, and a failed one changes nothing\<close>

definition failing_safe :: "'a route \<Rightarrow> bool" where
  "failing_safe r \<longleftrightarrow> (\<forall>y f y'. r y = (Inl f, y') \<longrightarrow> y' = y)"

lemma failing_safeI: "(\<And>y f y'. r y = (Inl f, y') \<Longrightarrow> y' = y) \<Longrightarrow> failing_safe r"
  by (simp add: failing_safe_def)

lemma failing_safe_intros:
  "(\<And>u. failing_safe (k u)) \<Longrightarrow> failing_safe (guarded ad p c k)"
  "(\<And>b. failing_safe (h b)) \<Longrightarrow> failing_safe (with_body r h)"
  "(\<And>q. failing_safe (g q)) \<Longrightarrow> failing_safe (with_pagination page n g)"
  "(\<And>m. failing_safe (l m)) \<Longrightarrow> failing_safe (with_limit lm l)"
  "failing_safe (read_only f)"
  by (auto simp: failing_safe_def guarded_def with_body_def with_pagination_def with_limit_def read_only_def Let_def
      split: sum.splits if_splits)

lemma failing_safe_decide: "failing_safe (decide_route ad i a reason u)"
  by (auto simp: failing_safe_def decide_route_def split: sum.splits)

lemmas route_defs =
  list_restaurants_route_def get_restaurant_route_def list_agent_runs_route_def get_agent_run_route_def
  list_audit_log_route_def list_users_placeholder_def list_pending_reviews_route_def get_review_detail_route_def
  list_ingestion_queue_route_def get_ingestion_queue_item_route_def

lemmas write_route_defs =
  approve_review_route_def reject_review_route_def edit_then_approve_review_route_def trigger_ingestion_route_def
  upload_ingestion_queue_batch_def update_ingestion_queue_item_def delete_ingestion_queue_item_def
  requeue_ingestion_queue_item_def

lemma failing_safe_reads:
  "failing_safe (list_restaurants_route ad c p n)" "failing_safe (get_restaurant_route ad c i)"
  "failing_safe (list_agent_runs_route ad c p n)" "failing_safe (get_agent_run_route ad c i)"
  "failing_safe (list_audit_log_route ad c m)" "failing_safe (list_users_placeholder ad c)"
  "failing_safe (list_pending_reviews_route ad c m)" "failing_safe (get_review_detail_route ad c i)"
  "failing_safe (list_ingestion_queue_route ad c p n st)" "failing_safe (get_ingestion_queue_item_route ad c i)"
  unfolding route_defs by (intro failing_safe_intros)+

lemma failing_safe_decisions:
  "failing_safe (approve_review_route ad c i b)" "failing_safe (reject_review_route ad c i b)"
  "failing_safe (edit_then_approve_review_route ad c i b)"
  unfolding write_route_defs split_def by (intro failing_safe_intros failing_safe_decide)+

lemma failing_safe_queue:
  "failing_safe (trigger_ingestion_route ad c b)" "failing_safe (upload_ingestion_queue_batch ad c b)"
  "failing_safe (update_ingestion_queue_item ad c i b)" "failing_safe (delete_ingestion_queue_item ad c i)"
  "failing_safe (requeue_ingestion_queue_item ad c i)"
  unfolding write_route_defs
  by (rule failing_safe_intros, (rule failing_safe_intros)?, rule failing_safeI,
      force simp: Let_def split_def split: sum.splits)+

lemmas failing_safe_writes = failing_safe_decisions failing_safe_queue

lemma effect_failed: "failing_safe r \<Longrightarrow> effect r y = (Some f, y') \<Longrightarrow> y' = y"
  by (auto simp: effect_def failing_safe_def split: prod.splits sum.splits)

lemma handle_failed: "handle ad c req y = (Some f, y') \<Longrightarrow> y' = y"
  by (cases req) (auto dest: effect_failed [rotated] intro: failing_safe_reads failing_safe_writes)

lemma effect_guarded: "effect (guarded ad p c k) y = (None, y') \<Longrightarrow>
    \<exists>u. authorize (ad_auth ad) (ad_settings ad) p c (sy_db y) = Inr u \<and> effect (k u) y = (None, y')"
  by (auto simp: effect_def guarded_def split: sum.splits)

lemma handle_authorized:
  assumes "handle ad c req y = (None, y')"
  shows "\<exists>u. authorize (ad_auth ad) (ad_settings ad) (required_permission req) c (sy_db y) = Inr u"
  using assms unfolding route_defs write_route_defs
  by (cases req) (auto simp: route_defs write_route_defs dest!: effect_guarded)

lemma authorize_Inr:
  assumes "authorize sv st p c s = Inr u"
  shows "get_user s (us_id u) = Some u" "us_is_active u" "p \<in> set (permissions_for_role (us_role u))"
proof -
  have g: "get_current_user sv st c s = Inr u" and p: "p \<in> set (permissions_for_role (us_role u))"
    using assms by (auto simp: authorize_def require_permission_def split: sum.splits if_splits)
  show "p \<in> set (permissions_for_role (us_role u))" by (rule p)
  have "us_is_active u \<and> (\<exists>i. get_user s i = Some u)"
    using g by (auto simp: get_current_user_def split: option.splits sum.splits jwt_error.splits json.splits if_splits)
  then show "us_is_active u" "get_user s (us_id u) = Some u"
    by (auto simp: get_user_def dest: row_by_SomeD)
qed


section \<open>Rejecting\<close>

text \<open>The states kept for paused runs are undecided.\<close>

fun undecided_state :: "checkpoint \<Rightarrow> bool" where
  "undecided_state (At_human_review st) \<longleftrightarrow> cs_human_approval_status st = None"
| "undecided_state (At_final_sync st) \<longleftrightarrow> vs_human_approval_status st = None"

definition undecided :: "system \<Rightarrow> bool" where
  "undecided y \<longleftrightarrow> (\<forall>th cp. sy_checkpoints y th = Some cp \<longrightarrow> undecided_state cp)"

lemma human_review_rejected:
  assumes "human_review_node st (Some (decision_for Reject)) s = Inr (out, s')" "cs_human_approval_status st = None"
  shows "\<exists>us. out = Returned us \<and> cs_human_approval_status (merge us st) \<noteq> Some APPROVED \<and> production s' = production s"
proof -
  have p: "production (snd (create_proposed_change et eid j vr run src th ou s)) = production s"
    for et eid j vr run src th ou by simp
  show ?thesis
    using assms
    by (auto simp: human_review_node_def Let_def split_def interrupt_def apply_decision_def decision_for_def node_error_def
        split: option.splits sum.splits)
qed

lemma final_sync_rejected:
  assumes "human_final_sync_node st (Some (decision_for Reject)) s = Inr (out, s')" "vs_human_approval_status st = None"
  shows "\<exists>us. out = Returned us \<and> vs_human_approval_status (review_merge us st) \<noteq> Some APPROVED \<and> production s' = production s"
  using assms
  by (auto simp: human_final_sync_node_def Let_def split_def interrupt_def apply_sync_decision_def decision_for_def review_error_def
      split: option.splits sum.splits)

definition graph_world :: "graph_result \<Rightarrow> world option" where
  "graph_world res = (case res of Graph_returned es p w \<Rightarrow> Some w | Graph_raised e \<Rightarrow> None)"

lemma rejected_graph:
  assumes "graph_world (resume_graph sv cps wt th (decision_for Reject) w) = Some w'"
    "\<And>cp. cps th = Some cp \<Longrightarrow> undecided_state cp"
  shows "production (w_db w') = production (w_db w)"
proof -
  have c: "production (w_db w') = production (w_db w)"
    if "graph_world (collector_outcome (resume_collector (rs_collector sv) st (decision_for Reject) w)) = Some w'"
      "cs_human_approval_status st = None" for st
  proof (cases "human_review_node st (Some (decision_for Reject)) (w_db w)")
    case (Inl e)
    then show ?thesis using that
      by (simp add: resume_collector_def collector_outcome_def graph_world_def run_from.simps [of _ HUMAN_REVIEW])
  next
    case (Inr p)
    obtain out s' where p: "human_review_node st (Some (decision_for Reject)) (w_db w) = Inr (out, s')" using Inr by (cases p) auto
    show ?thesis
      using human_review_rejected [OF p that(2)] p that(1)
      by (auto simp: resume_collector_def collector_outcome_def graph_world_def run_from.simps [of _ HUMAN_REVIEW]
          route_after_human_review_def Let_def)
  qed
  have v: "production (w_db w') = production (w_db w)"
    if "graph_world (reviewer_outcome (resume_review (rs_reviewer sv) st (decision_for Reject) w)) = Some w'"
      "vs_human_approval_status st = None" for st
  proof (cases "human_final_sync_node st (Some (decision_for Reject)) (w_db w)")
    case (Inl e)
    then show ?thesis using that
      by (simp add: resume_review_def reviewer_outcome_def graph_world_def review_from.simps [of _ HUMAN_FINAL_SYNC])
  next
    case (Inr p)
    obtain out s' where p: "human_final_sync_node st (Some (decision_for Reject)) (w_db w) = Inr (out, s')" using Inr by (cases p) auto
    show ?thesis
      using final_sync_rejected [OF p that(2)] p that(1)
      by (auto simp: resume_review_def reviewer_outcome_def graph_world_def review_from.simps [of _ HUMAN_FINAL_SYNC]
          route_after_human_final_sync_def Let_def)
  qed
  show ?thesis
    using assms c v
    by (auto simp: resume_graph_def no_checkpoint_def graph_world_def
        split: workflow_type.splits option.splits checkpoint.splits)
qed

lemma reject_keeps_production:
  assumes "decide sv cps i Reject reviewer reason w = Inr (out, w')" "\<And>th cp. cps th = Some cp \<Longrightarrow> undecided_state cp"
  shows "production (w_db w') = production (w_db w)"
proof -
  obtain r th errors pub w2 where run: "resume_graph sv cps (graph_for r (record_decision (pc_id r) Reject reviewer reason (w_db w))) th
      (decision_for Reject) (w\<lparr>w_db := record_decision (pc_id r) Reject reviewer reason (w_db w)\<rparr>) = Graph_returned errors pub w2"
    and w': "production (w_db w') = production (w_db w2)"
    using assms(1)
    by (auto simp: reject_change_def resume_change_def Let_def split: sum.splits option.splits graph_result.splits)
  note g = arg_cong [OF run, of graph_world, unfolded graph_world_def [of "Graph_returned errors pub w2"] graph_result.case]
  show ?thesis using rejected_graph [OF g assms(2)] w' by simp
qed

section \<open>The other requests\<close>

text \<open>The routes that only read, and the writes of the ingestion routes.\<close>

definition approval_request :: "request \<Rightarrow> bool" where
  "approval_request req \<longleftrightarrow> (case req of Approve_review _ _ \<Rightarrow> True | Edit_approve_review _ _ \<Rightarrow> True | _ \<Rightarrow> False)"

lemma reading_routes:
  "snd (list_restaurants_route ad c p n y) = y" "snd (get_restaurant_route ad c i y) = y"
  "snd (list_agent_runs_route ad c p n y) = y" "snd (get_agent_run_route ad c i y) = y"
  "snd (list_audit_log_route ad c m y) = y" "snd (list_users_placeholder ad c y) = y"
  "snd (list_pending_reviews_route ad c m y) = y" "snd (get_review_detail_route ad c i y) = y"
  "snd (list_ingestion_queue_route ad c p n st y) = y" "snd (get_ingestion_queue_item_route ad c i y) = y"
  unfolding route_defs guarded_def with_pagination_def with_limit_def read_only_def
  by (simp_all add: Let_def split: sum.split)

definition data_kept :: "system \<Rightarrow> system \<Rightarrow> bool" where
  "data_kept y y' \<longleftrightarrow> production (sy_db y') = production (sy_db y) \<and> sy_checkpoints y' = sy_checkpoints y"

lemma data_kept_refl [simp]: "data_kept y y"
  by (simp add: data_kept_def)

lemma write_item_production [simp]: "production (write_item i f s) = production s"
  by (simp add: write_item_def production_def)

lemma queue_operations_production:
  "create_batch items u s = Inr (b, s') \<Longrightarrow> production s' = production s"
  "update_if_queued i n m nu s = Inr (r, s') \<Longrightarrow> production s' = production s"
  "delete_if_queued i s = Inr s' \<Longrightarrow> production s' = production s"
  "requeue_if_failed i s = Inr (r, s') \<Longrightarrow> production s' = production s"
  by (auto simp: create_batch_def update_if_queued_def delete_if_queued_def requeue_if_failed_def Let_def split_def
      production_def write_item_def split: option.splits if_splits)

lemma try_trigger_kept [simp]:
  "sy_db (snd (try_trigger_dispatch y)) = sy_db y" "sy_checkpoints (snd (try_trigger_dispatch y)) = sy_checkpoints y"
  by (simp_all add: try_trigger_dispatch_def enqueue_def)

lemma queue_routes_kept:
  "data_kept y (snd (trigger_ingestion_route ad c b y))" "data_kept y (snd (upload_ingestion_queue_batch ad c b y))"
  "data_kept y (snd (update_ingestion_queue_item ad c i b y))" "data_kept y (snd (delete_ingestion_queue_item ad c i y))"
  "data_kept y (snd (requeue_ingestion_queue_item ad c i y))"
  unfolding write_route_defs guarded_def with_body_def
  by (auto simp: data_kept_def Let_def draw_uuid_def on_system_db_def enqueue_def queue_audit_def
      dest: queue_operations_production split: sum.split prod.split)

lemma decide_route_cps:
  "undecided y \<Longrightarrow> undecided (snd (decide_route ad i a reason u y))"
  by (auto simp: decide_route_def undecided_def split: sum.split option.split)

lemma decision_routes:
  assumes "undecided y"
  shows "undecided (snd (approve_review_route ad c i b y))" "undecided (snd (reject_review_route ad c i b y))"
    "undecided (snd (edit_then_approve_review_route ad c i b y))"
    "production (sy_db (snd (reject_review_route ad c i b y))) = production (sy_db y)"
proof -
  show "undecided (snd (approve_review_route ad c i b y))" "undecided (snd (reject_review_route ad c i b y))"
    "undecided (snd (edit_then_approve_review_route ad c i b y))"
    using assms decide_route_cps unfolding write_route_defs guarded_def with_body_def
    by (auto split: sum.split prod.split)
  have "production (sy_db (snd (decide_route ad i Reject reason u y))) = production (sy_db y)" for reason u
    using assms reject_keeps_production unfolding undecided_def
    by (auto simp: decide_route_def split: sum.split prod.split)
  then show "production (sy_db (snd (reject_review_route ad c i b y))) = production (sy_db y)"
    unfolding write_route_defs guarded_def with_body_def by (auto split: sum.split)
qed

lemma snd_effect: "snd (effect r y) = snd (r y)"
  by (simp add: effect_def split: prod.split sum.split)

lemma handle_kept:
  assumes "undecided y"
  shows "undecided (snd (handle ad c req y))"
    "approval_request req \<or> production (sy_db (snd (handle ad c req y))) = production (sy_db y)"
proof -
  have k: "data_kept y y' \<Longrightarrow> undecided y' \<and> production (sy_db y') = production (sy_db y)" for y'
    using assms by (simp add: data_kept_def undecided_def)
  have "undecided (snd (handle ad c req y))
    \<and> (approval_request req \<or> production (sy_db (snd (handle ad c req y))) = production (sy_db y))"
    using assms k [OF queue_routes_kept(1)] k [OF queue_routes_kept(2)] k [OF queue_routes_kept(3)]
      k [OF queue_routes_kept(4)] k [OF queue_routes_kept(5)] decision_routes [OF assms]
    by (cases req) (simp_all add: snd_effect reading_routes approval_request_def)
  then show "undecided (snd (handle ad c req y))"
    "approval_request req \<or> production (sy_db (snd (handle ad c req y))) = production (sy_db y)" by blast+
qed

section \<open>The jobs keep paused runs undecided\<close>

definition cps_kept :: "system \<Rightarrow> system \<Rightarrow> bool" where
  "cps_kept y y' \<longleftrightarrow> (undecided y \<longrightarrow> undecided y')"

lemma cps_keptI: "sy_checkpoints y' = sy_checkpoints y \<Longrightarrow> cps_kept y y'"
  by (simp add: cps_kept_def undecided_def)

lemma cps_kept_trans: "cps_kept y y' \<Longrightarrow> cps_kept y' y'' \<Longrightarrow> cps_kept y y''"
  by (simp add: cps_kept_def)

lemma checkpoints_frames [simp]:
  "sy_checkpoints (on_system_db f y) = sy_checkpoints y" "sy_checkpoints (pass_time sv y) = sy_checkpoints y"
  "sy_checkpoints (enqueue j y) = sy_checkpoints y" "sy_checkpoints (snd (draw_uuid y)) = sy_checkpoints y"
  by (simp_all add: on_system_db_def pass_time_def enqueue_def draw_uuid_def)

lemma draw_cps: "draw_uuid y = (i, y') \<Longrightarrow> sy_checkpoints y' = sy_checkpoints y"
  by (auto simp: draw_uuid_def)

lemma with_job_lock_cps:
  assumes "\<And>y res y'. body y = (res, y') \<Longrightarrow> cps_kept y y'"
  shows "cps_kept y (snd (with_job_lock i ty body y))"
proof -
  obtain token y1 where d: "draw_uuid y = (token, y1)" by fastforce
  obtain acquired r where l: "job_lock_enter (sy_now y1) i ty token (sy_redis y1) = (acquired, r)" by fastforce
  obtain res y2 where b: "body (y1\<lparr>sy_redis := r\<rparr>) = (res, y2)" by fastforce
  show ?thesis
    using d l b draw_cps [OF d] assms [OF b] by (simp add: with_job_lock_def Let_def cps_kept_def undecided_def)
qed

lemma collector_job_cps:
  assumes "collector_job sv i name menu nut y = (res, y')"
  shows "cps_kept y y'"
proof (cases "restaurant_identity (js_collector sv) i name")
  case (Inl es)
  then show ?thesis using assms by (simp add: collector_job_def cps_keptI)
next
  case (Inr r)
  obtain th y1 where d: "draw_uuid y = (th, y1)" by fastforce
  let ?sv = "(js_collector sv)\<lparr>sv_provider := collector_provider menu\<rparr>"
  let ?run = "start_collector ?sv r nut (sy_world (pass_time sv y1))"
  have "cs_human_approval_status st = None" if "?run = Interrupted t st w" for t st w
    using run_from_proposes [of ?sv SOURCE_AUTHORITY "initial_state r nut" "sy_world (pass_time sv y1)" w] that
    by (simp add: start_collector_def result_world_def initial_state_def)
  then show ?thesis
    using assms Inr d draw_cps [OF d]
    by (auto simp: collector_job_def Let_def cps_kept_def undecided_def split: run_result.splits if_splits)
qed

lemma reviewer_job_cps:
  assumes "reviewer_job sv i y = (res, y')"
  shows "cps_kept y y'"
proof (cases "\<exists>r. get_full_tree i (sy_db y) = Inr (Some r)")
  case False
  then show ?thesis using assms by (auto simp: reviewer_job_def intro: cps_keptI split: sum.splits option.splits)
next
  case True
  then obtain r where r: "get_full_tree i (sy_db y) = Inr (Some r)" by blast
  obtain th y1 where d: "draw_uuid y = (th, y1)" by fastforce
  let ?run = "start_review (js_reviewer sv) (Some r) None (sy_world (pass_time sv y1))"
  have "vs_human_approval_status st = None" if "?run = Review_interrupted t st w" for t st w
    using review_from_proposes [of "js_reviewer sv" TEMPORAL_HASH_POLLING "initial_review (Some r) None" "sy_world (pass_time sv y1)" w] that
    by (simp add: start_review_def review_world_def initial_review_def)
  then show ?thesis
    using assms r d draw_cps [OF d]
    by (auto simp: reviewer_job_def Let_def cps_kept_def undecided_def split: review_result.splits if_splits)
qed

lemma crawl_cps: "crawl_and_store sv i url y = (res, y') \<Longrightarrow> sy_checkpoints y' = sy_checkpoints y"
  by (auto simp: crawl_and_store_def Let_def split: sum.splits prod.splits)

lemma source_crawl_cps: "source_crawl_job sv i src url y = (res, y') \<Longrightarrow> cps_kept y y'"
  by (auto simp: source_crawl_job_def dest: crawl_cps intro!: cps_keptI split: sum.splits prod.splits)

lemma verify_only_cps: "verify_only sv seed url y = (res, y') \<Longrightarrow> sy_checkpoints y' = sy_checkpoints y"
  by (auto simp: verify_only_def Let_def split: sum.splits manual_error.splits prod.splits)

lemma restaurant_ingestion_cps: "restaurant_ingestion_job sv seed name c st co ph y = (res, y') \<Longrightarrow> cps_kept y y'"
  by (rule cps_keptI) (auto simp: restaurant_ingestion_job_def resolve_official_website_def null_provider_def Let_def split: if_splits)

lemma run_one_item_cps:
  assumes "run_one_item sv i y = (res, y')"
  shows "cps_kept y y'"
proof (cases "get_item (sy_db y) i")
  case None
  then show ?thesis using assms by (simp add: run_one_item_def cps_keptI)
next
  case (Some item)
  obtain seed y1 where d: "draw_uuid y = (seed, y1)" by fastforce
  let ?y2 = "on_system_db (set_restaurant_seed_id i (uuid_str seed)) y1"
  have "cps_kept y ?y2" using draw_cps [OF d] by (intro cps_keptI) simp
  moreover have "cps_kept ?y2 y'"
    using assms Some d
    by (auto simp: run_one_item_def Let_def
        dest!: verify_only_cps crawl_cps collector_job_cps intro: cps_keptI
        split: prod.splits sum.splits ingestion_outcome.splits) (auto simp: cps_kept_def undecided_def)
  ultimately show ?thesis by (rule cps_kept_trans)
qed

lemma dispatch_cycle_cps:
  assumes "dispatch_one_cycle sv y = (res, y')"
  shows "cps_kept y y'"
proof -
  obtain c y1 where cl: "claim_item y = (c, y1)" by fastforce
  have p1: "cps_kept y y1" using cl by (auto simp: claim_item_def intro: cps_keptI split: prod.splits)
  show ?thesis
  proof (cases c)
    case None
    then show ?thesis using assms cl p1 by (simp add: dispatch_one_cycle_def)
  next
    case (Some i)
    obtain out y2 where o2: "item_outcome sv i y1 = (out, y2)" by fastforce
    obtain res3 y3 where o3: "record_outcome sv i out y2 = (res3, y3)" by fastforce
    have p2: "cps_kept y1 y2"
      using o2 by (auto simp: item_outcome_def dest: run_one_item_cps split: prod.splits sum.splits)
    have p3: "cps_kept y2 y3" using o3 by (auto simp: record_outcome_def intro: cps_keptI split: sum.splits)
    have "sy_checkpoints y' = sy_checkpoints y3" using assms cl Some o2 o3 by (auto simp: dispatch_one_cycle_def split: sum.splits)
    then show ?thesis using cps_kept_trans [OF cps_kept_trans [OF p1 p2] p3] cps_keptI cps_kept_trans by blast
  qed
qed

lemma run_dispatch_cps: "cps_kept y (snd (run_dispatch_next_ingestion_queue_item sv y))"
proof -
  obtain token y1 where d: "draw_uuid y = (token, y1)" by fastforce
  obtain acquired r where l: "dispatch_enter (sy_now y1) token (sy_redis y1) = (acquired, r)" by fastforce
  obtain res y2 where c: "dispatch_one_cycle sv (y1\<lparr>sy_redis := r\<rparr>) = (res, y2)" by fastforce
  show ?thesis
    using d l c draw_cps [OF d] dispatch_cycle_cps [OF c]
    by (simp add: run_dispatch_next_ingestion_queue_item_def Let_def cps_kept_def undecided_def)
qed

lemma maintenance_cps: "maintenance_job sv y = (res, y') \<Longrightarrow> cps_kept y y'"
proof -
  have "sy_checkpoints (fold (\<lambda>i. enqueue (Reviewer_job i)) is y0) = sy_checkpoints y0" for "is" y0
    by (induction "is" arbitrary: y0) simp_all
  then show "maintenance_job sv y = (res, y') \<Longrightarrow> cps_kept y y'" by (auto simp: maintenance_job_def Let_def intro: cps_keptI)
qed

lemma perform_cps: "undecided y \<Longrightarrow> undecided (perform sv j y)"
proof -
  have "cps_kept y (perform sv j y)"
  proof (cases j)
    case (Source_crawl_job i url src)
    then show ?thesis
      using with_job_lock_cps [of "source_crawl_job sv i (the src) url"] source_crawl_cps
      by (cases src) (simp_all add: run_source_crawl_def cps_keptI)
  qed (auto simp: run_restaurant_ingestion_def run_collector_workflow_def run_maintenance_polling_def run_reviewer_workflow_def
      run_dispatch_cps intro!: with_job_lock_cps
      dest: restaurant_ingestion_cps collector_job_cps maintenance_cps reviewer_job_cps)
  then show "undecided y \<Longrightarrow> undecided (perform sv j y)" by (simp add: cps_kept_def)
qed

section \<open>What changes the data that is served\<close>

datatype event = Performs job | Calls "string option" request

fun happens :: "job_services \<Rightarrow> admin_services \<Rightarrow> event \<Rightarrow> system \<Rightarrow> system" where
  "happens sv ad (Performs j) y = perform sv j y"
| "happens sv ad (Calls c req) y = snd (handle ad c req y)"

definition approved_by :: "admin_services \<Rightarrow> string option \<Rightarrow> request \<Rightarrow> user \<Rightarrow> system \<Rightarrow> bool" where
  "approved_by ad c req u y \<longleftrightarrow> approval_request req \<and> fst (handle ad c req y) = None
     \<and> authorize (ad_auth ad) (ad_settings ad) REVIEW_WRITE c (sy_db y) = Inr u
     \<and> get_user (sy_db y) (us_id u) = Some u \<and> us_is_active u
     \<and> us_role u \<in> {SUPER_ADMIN, DATA_MANAGER, REVIEWER_ROLE}"

lemma happens_cases:
  assumes "undecided y"
  shows "undecided (happens sv ad e y)"
    "production (sy_db (happens sv ad e y)) = production (sy_db y) \<or> (\<exists>c req u. e = Calls c req \<and> approved_by ad c req u y)"
proof -
  show "undecided (happens sv ad e y)"
    using perform_cps [OF assms] handle_kept(1) [OF assms] by (cases e) simp_all
  show "production (sy_db (happens sv ad e y)) = production (sy_db y) \<or> (\<exists>c req u. e = Calls c req \<and> approved_by ad c req u y)"
  proof (cases e)
    case (Performs j)
    then show ?thesis using perform_proposes by (simp add: proposes_def)
  next
    case (Calls c req)
    obtain res y' where h: "handle ad c req y = (res, y')" by fastforce
    show ?thesis
    proof (cases "production (sy_db y') = production (sy_db y)")
      case True
      then show ?thesis using Calls h by simp
    next
      case False
      then have r: "res = None" using handle_failed [of ad c req y _ y'] h by (cases res) auto
      have a: "approval_request req" using handle_kept(2) [OF assms, of req ad c] False h by simp
      then have p: "required_permission req = REVIEW_WRITE" by (cases req) (simp_all add: approval_request_def)
      obtain u where u: "authorize (ad_auth ad) (ad_settings ad) REVIEW_WRITE c (sy_db y) = Inr u"
        using handle_authorized [of ad c req y y'] h r p by auto
      then have "approved_by ad c req u y"
        using a r h authorize_Inr [OF u] by (simp add: approved_by_def reviewers)
      then show ?thesis using Calls by blast
    qed
  qed
qed

lemma happens_fold:
  assumes "undecided y"
  shows "production (sy_db (fold (happens sv ad) events y)) = production (sy_db y)
    \<or> (\<exists>before c req after u. events = before @ Calls c req # after \<and> approved_by ad c req u (fold (happens sv ad) before y))"
  using assms
proof (induction events arbitrary: y)
  case (Cons e events)
  note step = happens_cases [OF Cons.prems, of sv ad e]
  from Cons.IH [OF step(1)] show ?case
  proof (elim disjE exE conjE)
    assume "production (sy_db (fold (happens sv ad) events (happens sv ad e y))) = production (sy_db (happens sv ad e y))"
    then show ?thesis using step(2) by (metis append_Nil fold_simps)
  next
    fix before c req after u
    assume "events = before @ Calls c req # after" "approved_by ad c req u (fold (happens sv ad) before (happens sv ad e y))"
    then have "e # events = (e # before) @ Calls c req # after" "approved_by ad c req u (fold (happens sv ad) (e # before) y)" by simp_all
    then show ?thesis by blast
  qed
qed simp


section \<open>An upload is worked off\<close>

lemma first_row: "items \<noteq> [] \<Longrightarrow> fst (batch_rows b t u n [] items) \<noteq> []"
  by (cases items) (simp_all add: Let_def split_def)

lemma first_row_length: "items \<noteq> [] \<Longrightarrow> Suc 0 \<le> length (fst (batch_rows b t u n [] items))"
  using first_row by (simp add: Suc_le_eq)

lemma create_batch_rows:
  assumes "create_batch items user s = Inr (b, s')" "items \<noteq> []"
  shows "db_queue s' = db_queue s @ br_created b" "br_created b \<noteq> []"
    "map qi_id (br_created b) = [Suc (db_next s)..<Suc (db_next s) + length (br_created b)]"
    "r \<in> set (br_created b) \<Longrightarrow> qi_status r = QUEUED"
  using assms first_row first_row_length batch_rows_ids batch_rows_fixed
  by (auto simp: create_batch_def Let_def split_def split: if_splits)

definition queue_fresh :: "db \<Rightarrow> bool" where
  "queue_fresh s \<longleftrightarrow> queue_ok s \<and> list_all (\<lambda>r. qi_id r < db_next s) (db_queue s)"

lemma create_batch_ok:
  assumes "create_batch items user s = Inr (b, s')" "items \<noteq> []" "queue_fresh s"
  shows "queue_ok s'"
proof -
  have ids: "map qi_id (db_queue s') = map qi_id (db_queue s) @ [Suc (db_next s)..<Suc (db_next s) + length (br_created b)]"
    using create_batch_rows(1,3) [OF assms(1,2)] by simp
  have "set (map qi_id (db_queue s)) \<inter> set [Suc (db_next s)..<Suc (db_next s) + length (br_created b)] = {}"
    using assms(3) by (auto simp: queue_fresh_def list_all_iff)
  then show ?thesis using assms(3) unfolding queue_ok_def ids distinct_append queue_fresh_def by simp
qed

lemma upload_route_result:
  assumes "handle ad c (Upload_queue body) y = (None, y1)"
  obtains items and u :: user and b s where "items \<noteq> []" "create_batch items (Some (us_id u)) (sy_db y) = Inr (b, s)"
    "db_queue (sy_db y1) = db_queue s" "sy_redis y1 = sy_redis y"
    "sy_jobs y1 = (if redis_get (sy_now y) dispatch_lock_key (sy_redis y) = None then sy_jobs y @ [Dispatch_job] else sy_jobs y)"
proof -
  obtain u :: user where g: "effect (with_body (v_bulk_upload body) (\<lambda>items y.
       (case create_batch items (Some (us_id u)) (sy_db y) of
          Inl e \<Rightarrow> (Inl (Uncaught e), y)
        | Inr (b, s) \<Rightarrow>
            (let y = on_system_db (\<lambda>_. queue_audit (br_batch_id b) u
                   [(''batch_id'', [Num (br_batch_id b)]), (''queued_count'', [Num (length (br_created b))]),
                    (''skipped_duplicate_names'', [Repr (br_skipped_duplicate_names b)])] s) y;
                 y = (if br_created b \<noteq> [] then snd (try_trigger_dispatch y) else y)
             in (Inr \<lparr>ur_batch_id = br_batch_id b, ur_queued_count = length (br_created b),
                      ur_skipped_duplicate_names = br_skipped_duplicate_names b, ur_items = br_created b\<rparr>, y))))) y = (None, y1)"
    using assms by (auto simp: upload_ingestion_queue_batch_def dest!: effect_guarded)
  obtain items where i: "v_bulk_upload body = Inr items"
    using g by (auto simp: effect_def with_body_def split: sum.splits)
  obtain b s where cb: "create_batch items (Some (us_id u)) (sy_db y) = Inr (b, s)"
    using g i by (auto simp: effect_def with_body_def split: sum.splits)
  note ne = v_bulk_upload_fits(1) [OF i]
  show ?thesis
    by (rule that [OF ne cb])
      (use g i cb create_batch_rows(2) [OF cb ne] in
        \<open>auto simp: effect_def with_body_def Let_def try_trigger_dispatch_def on_system_db_def enqueue_def queue_audit_def\<close>)
qed


section \<open>Instances\<close>

definition sample_admin :: admin_services where
  "sample_admin = \<lparr>ad_auth = sample_auth, ad_settings = default_settings, ad_review = sample_review_services\<rparr>"


text \<open>The sample user, as a data manager, uploads the sample batch to an idle system.\<close>

definition sample_manager :: user where
  "sample_manager = sample_user\<lparr>us_role := DATA_MANAGER\<rparr>"

definition manager_system :: system where
  "manager_system = (idle_system [])\<lparr>sy_world := \<lparr>w_db = empty_db\<lparr>db_next := 10, db_users := [sample_manager]\<rparr>, w_files = Map.empty\<rparr>\<rparr>"

lemma valid_upload_succeeds:
  assumes "authorize (ad_auth ad) (ad_settings ad) INGESTION_TRIGGER c (sy_db y) = Inr u" "v_bulk_upload body = Inr items"
  shows "fst (handle ad c (Upload_queue body) y) = None"
proof -
  have "list_all queue_item_fits (fst (batch_rows b t u n [] items))" for b t u n
    by (rule batch_rows_fit) (rule v_bulk_upload_fits(2) [OF assms(2)])
  then show ?thesis
    by (simp add: upload_ingestion_queue_batch_def guarded_def with_body_def assms create_batch_def effect_def Let_def split_def)
qed

lemma manager_uploads:
  "fst (handle sample_admin (Some ''A'') (Upload_queue sample_upload) manager_system) = None"
proof -
  have u: "get_current_user sample_auth default_settings (Some ''A'') (sy_db manager_system) = Inr sample_manager"
    by (simp add: get_current_user_def decode_token_def sample_auth_def manager_system_def sample_manager_def
        sample_user_def idle_system_def get_user_def)
  have a: "authorize sample_auth default_settings INGESTION_TRIGGER (Some ''A'') (sy_db manager_system) = Inr sample_manager"
    unfolding authorize_def u by code_simp
  have "case v_bulk_upload sample_upload of Inl _ \<Rightarrow> False | Inr _ \<Rightarrow> True" by code_simp
  then obtain items where "v_bulk_upload sample_upload = Inr items" by (auto split: sum.splits)
  with a show ?thesis by (intro valid_upload_succeeds) (simp_all add: sample_admin_def)
qed


end
