(* ===== verification/Conformance.thy ===== *)
theory Conformance
  imports Patch
begin

text \<open>
  The production tables conform to the schema of the API: every row reads back as a valid instance of its
  class, and the category tree is rooted, so that reading a restaurant always ends. The two writers of
  these tables, \<open>persist_tree\<close> and \<open>apply_patch\<close>, keep it that way, and \<open>get_full_tree\<close>
  never fails on conforming tables (\<open>src/database/repositories/restaurant_repository.py\<close>).
\<close>

section \<open>Conforming rows\<close>

text \<open>A category comes after its parent.\<close>

fun rooted :: "uuid set \<Rightarrow> category_row list \<Rightarrow> bool" where
  "rooted seen [] \<longleftrightarrow> True"
| "rooted seen (c # cs) \<longleftrightarrow>
     (case cr_parent_id c of None \<Rightarrow> True | Some p \<Rightarrow> p \<in> seen) \<and> rooted (insert (cr_id c) seen) cs"

definition restaurant_row_ok :: "restaurant_row \<Rightarrow> bool" where
  "restaurant_row_ok rr \<longleftrightarrow> name_ok 255 (rr_name rr) \<and> opt_len_ok 2000 (rr_description rr)"

definition dish_row_ok :: "dish_row \<Rightarrow> bool" where
  "dish_row_ok row \<longleftrightarrow> (case dish_to_schema row of Inl _ \<Rightarrow> False | Inr _ \<Rightarrow> True)"

definition catalog_ok :: "db \<Rightarrow> bool" where
  "catalog_ok s \<longleftrightarrow> list_all restaurant_row_ok (db_restaurants s)
     \<and> list_all (\<lambda>lr. location_ok (lr_location lr)) (db_locations s)
     \<and> list_all (\<lambda>m. name_ok 255 (mr_name m)) (db_menus s)
     \<and> list_all (\<lambda>c. name_ok 255 (cr_name c)) (db_categories s)
     \<and> distinct (map cr_id (db_categories s)) \<and> rooted {} (db_categories s)
     \<and> list_all dish_row_ok (db_dishes s)"

lemma catalog_ok_cong: "production s' = production s \<Longrightarrow> catalog_ok s' = catalog_ok s"
  by (simp add: production_def catalog_ok_def)

section \<open>Reading never fails\<close>

text \<open>How many rows there are from a category on; a child has fewer than its parent.\<close>

definition rows_from :: "uuid \<Rightarrow> category_row list \<Rightarrow> nat" where
  "rows_from i cs = length (dropWhile (\<lambda>c. cr_id c \<noteq> i) cs)"

lemma rows_from_le: "rows_from i cs \<le> length cs"
  unfolding rows_from_def by (rule length_dropWhile_le)

lemma rows_from_child:
  assumes "rooted seen cs" "distinct (map cr_id cs)" "k \<in> set cs" "cr_parent_id k = Some i" "i \<notin> seen"
  shows "rows_from (cr_id k) cs < rows_from i cs"
  using assms
proof (induction cs arbitrary: seen)
  case (Cons c cs)
  have ck: "c \<noteq> k" using Cons.prems by auto
  then have k: "k \<in> set cs" "cr_id k \<noteq> cr_id c"
    using Cons.prems(2,3) by (auto, metis imageI)
  show ?case
  proof (cases "cr_id c = i")
    case True
    then show ?thesis using k rows_from_le [of "cr_id k" cs] by (simp add: rows_from_def)
  next
    case False
    then show ?thesis
      using Cons.IH [of "insert (cr_id c) seen"] Cons.prems k by (simp add: rows_from_def)
  qed
qed simp

lemma those_res_total: "(\<And>r. r \<in> set rs \<Longrightarrow> \<exists>x. r = Inr x \<and> P x) \<Longrightarrow> \<exists>xs. those_res rs = Inr xs \<and> list_all P xs"
proof (induction rs)
  case (Cons r rs)
  obtain x where x: "r = Inr x" "P x" using Cons.prems [of r] by auto
  obtain xs where xs: "those_res rs = Inr xs" "list_all P xs" using Cons.IH Cons.prems by auto
  then show ?case using x by auto
qed simp

lemma vseq_total: "(\<And>r. r \<in> set rs \<Longrightarrow> \<exists>x. r = Inr x \<and> P x) \<Longrightarrow> \<exists>xs. vseq rs = Inr xs \<and> list_all P xs"
proof (induction rs)
  case (Cons r rs)
  obtain x where x: "r = Inr x" "P x" using Cons.prems [of r] by auto
  obtain xs where xs: "vseq rs = Inr xs" "list_all P xs" using Cons.IH Cons.prems by auto
  then show ?case using x by auto
qed simp

lemma dish_row_reads: "dish_row_ok row \<Longrightarrow> \<exists>d. dish_to_schema row = Inr d \<and> dish_ok d"
  using vallD [OF vall_v_dish] by (fastforce simp: dish_row_ok_def dish_to_schema_def split: sum.splits)

lemma category_reads:
  assumes "list_all (\<lambda>c. name_ok 255 (cr_name c)) cats" "distinct (map cr_id cats)" "rooted {} cats"
    and "list_all dish_row_ok dishes" "c \<in> set cats" "rows_from (cr_id c) cats \<le> fuel" "0 < fuel"
  shows "\<exists>t. category_to_schema fuel cats dishes c = Inr t \<and> category_ok t"
  using assms(5-7)
proof (induction fuel arbitrary: c)
  case (Suc fuel)
  have "\<exists>t. category_to_schema fuel cats dishes k = Inr t \<and> category_ok t"
    if k: "k \<in> set cats" "cr_parent_id k = Some (cr_id c)" for k
  proof (rule Suc.IH)
    have less: "rows_from (cr_id k) cats < rows_from (cr_id c) cats"
      using rows_from_child [OF assms(3,2) k] by simp
    then show "rows_from (cr_id k) cats \<le> fuel" using Suc.prems(2) by simp
    have "0 < rows_from (cr_id k) cats" using k(1) by (auto simp: rows_from_def dropWhile_eq_Nil_conv)
    then show "0 < fuel" using less Suc.prems(2) by simp
  qed (rule k(1))
  then obtain children where ch: "those_res (map (category_to_schema fuel cats dishes)
      (filter (\<lambda>k. cr_parent_id k = Some (cr_id c)) cats)) = Inr children" "list_all category_ok children"
    using those_res_total [of "map (category_to_schema fuel cats dishes) (filter (\<lambda>k. cr_parent_id k = Some (cr_id c)) cats)"
        category_ok] by auto
  obtain ds where ds: "vseq (map dish_to_schema (filter (\<lambda>d. dr_category_id d = cr_id c) dishes)) = Inr ds" "list_all dish_ok ds"
    using vseq_total [of "map dish_to_schema (filter (\<lambda>d. dr_category_id d = cr_id c) dishes)" dish_ok]
      assms(4) dish_row_reads by (auto simp: list_all_iff)
  have "name_ok 255 (cr_name c)" using assms(1) Suc.prems(1) by (simp add: list_all_iff)
  then show ?case using ch ds by (simp add: v_name_dump)
qed simp

lemma menu_reads:
  assumes "catalog_ok s" "m \<in> set (db_menus s)"
  shows "\<exists>t. menu_to_schema s m = Inr t \<and> menu_ok t"
proof -
  let ?roots = "filter (\<lambda>c. cr_parent_id c = None) (filter (\<lambda>c. cr_menu_id c = mr_id m) (db_categories s))"
  let ?f = "category_to_schema (Suc (length (db_categories s))) (db_categories s) (db_dishes s)"
  have "\<exists>t. ?f c = Inr t \<and> category_ok t" if "c \<in> set (db_categories s)" for c
    using assms(1) that rows_from_le [of "cr_id c" "db_categories s"]
    by (intro category_reads) (simp_all add: catalog_ok_def)
  then obtain cs where "those_res (map ?f ?roots) = Inr cs" "list_all category_ok cs"
    using those_res_total [of "map ?f ?roots" category_ok] by auto
  moreover have "name_ok 255 (mr_name m)" using assms by (simp add: catalog_ok_def list_all_iff)
  ultimately show ?thesis by (simp add: menu_to_schema_def v_name_dump menu_ok_def)
qed

lemma served_restaurant_ok:
  assumes "catalog_ok s"
  shows "get_full_tree i s = Inr None \<or> (\<exists>r. get_full_tree i s = Inr (Some r) \<and> restaurant_ok r)"
proof (cases "row_by rr_id i (db_restaurants s)")
  case None
  then show ?thesis by (simp add: get_full_tree_def)
next
  case (Some rr)
  let ?ls = "filter (\<lambda>lr. lr_restaurant_id lr = rr_id rr) (db_locations s)"
  let ?ms = "filter (\<lambda>m. mr_restaurant_id m = rr_id rr) (db_menus s)"
  have "restaurant_row_ok rr" using assms row_by_SomeD(1) [OF Some] by (simp add: catalog_ok_def list_all_iff)
  then have base: "restaurant_ok (row_to_restaurant rr)"
    by (simp add: restaurant_row_ok_def restaurant_ok_def row_to_restaurant_def)
  obtain ls where ls: "vseq (map (\<lambda>lr. v_location no_uuid [] (dump_location (lr_location lr))) ?ls) = Inr ls" "list_all location_ok ls"
    using vseq_total [of "map (\<lambda>lr. v_location no_uuid [] (dump_location (lr_location lr))) ?ls" location_ok] assms
    by (auto simp: catalog_ok_def list_all_iff v_location_dump)
  obtain ms where ms: "those_res (map (menu_to_schema s) ?ms) = Inr ms" "list_all menu_ok ms"
    using those_res_total [of "map (menu_to_schema s) ?ms" menu_ok] menu_reads [OF assms] by auto
  show ?thesis
    using Some ls ms base v_restaurant_dump [OF base, of no_uuid "[]"]
    by (simp add: get_full_tree_def to_schema_def restaurant_ok_def)
qed

section \<open>Writing keeps the tables conforming\<close>

lemma rooted_append: "rooted seen (xs @ ys) \<longleftrightarrow> rooted seen xs \<and> rooted (seen \<union> cr_id ` set xs) ys"
  by (induction xs arbitrary: seen) auto

lemma rooted_mono: "rooted seen cs \<Longrightarrow> seen \<subseteq> seen' \<Longrightarrow> rooted seen' cs"
proof (induction cs arbitrary: seen seen')
  case (Cons c cs)
  have "rooted (insert (cr_id c) seen') cs"
    using Cons.IH [of "insert (cr_id c) seen" "insert (cr_id c) seen'"] Cons.prems by auto
  then show ?case using Cons.prems by (auto split: option.splits)
qed simp

lemma rooted_concat: "(\<And>x. x \<in> set xs \<Longrightarrow> rooted seen (f x)) \<Longrightarrow> rooted seen (concat (map f xs))"
proof (induction xs arbitrary: seen)
  case (Cons x xs)
  have "rooted (seen \<union> cr_id ` set (f x)) (f y)" if "y \<in> set xs" for y
    by (rule rooted_mono [of seen]) (use Cons.prems that in auto)
  then show ?case using Cons.prems Cons.IH [of "seen \<union> cr_id ` set (f x)"] by (simp add: rooted_append)
qed simp

lemma rooted_category_rows:
  "(case p of None \<Rightarrow> True | Some i \<Rightarrow> i \<in> seen) \<Longrightarrow> rooted seen (category_rows m p c)"
proof (induction c arbitrary: p seen)
  case (MenuCategory cid name order children dishes)
  have "rooted (insert cid seen) (concat (map (category_rows m (Some cid)) children))"
    by (rule rooted_concat) (rule MenuCategory.IH, simp_all)
  then show ?case using MenuCategory.prems by (simp add: category_to_row_def)
qed

lemma rooted_new_rows: "rooted seen (concat (map menu_category_rows ms))"
  unfolding menu_category_rows_def by (intro rooted_concat rooted_category_rows) simp

lemma numeric_2_ge0: "0 \<le> p \<Longrightarrow> 0 \<le> numeric_2 p"
  by (simp add: numeric_2_def)

lemma dish_row_conforms: "dish_ok d \<Longrightarrow> dish_row_ok (dish_to_row i d)"
proof -
  assume d: "dish_ok d"
  let ?d = "d\<lparr>d_category_id := i, d_price := map_option numeric_2 (d_price d)\<rparr>"
  have "dish_ok ?d" using d numeric_2_ge0 by (auto simp: dish_ok_def opt_ge0_def split: option.splits)
  moreover have "dish_row_json (dish_to_row i d) = dump_dish ?d"
    by (simp add: dish_row_json_def dish_to_row_def dump_dish_def)
  ultimately show "dish_row_ok (dish_to_row i d)" by (simp add: dish_row_ok_def dish_to_schema_def v_dish_dump)
qed

lemma category_rows_conform:
  "category_ok c \<Longrightarrow> list_all (\<lambda>k. name_ok 255 (cr_name k)) (category_rows m p c) \<and> list_all dish_row_ok (category_dish_rows c)"
proof (induction c arbitrary: p)
  case (MenuCategory cid name order children dishes)
  have "\<forall>ch \<in> set children. list_all (\<lambda>k. name_ok 255 (cr_name k)) (category_rows m (Some cid) ch) \<and> list_all dish_row_ok (category_dish_rows ch)"
    using MenuCategory by (simp add: list_all_iff)
  then show ?case using MenuCategory.prems dish_row_conforms by (auto simp: list_all_iff category_to_row_def)
qed

lemma menu_rows_conform:
  assumes "list_all menu_ok ms"
  shows "list_all (\<lambda>k. name_ok 255 (cr_name k)) (concat (map menu_category_rows ms))"
    "list_all dish_row_ok (concat (map menu_dish_rows ms))"
proof -
  have "list_all (\<lambda>k. name_ok 255 (cr_name k)) (category_rows (me_id m) None c) \<and> list_all dish_row_ok (category_dish_rows c)"
    if "m \<in> set ms" "c \<in> set (me_categories m)" for m c
    using assms that by (intro category_rows_conform) (simp add: list_all_iff menu_ok_def)
  then show "list_all (\<lambda>k. name_ok 255 (cr_name k)) (concat (map menu_category_rows ms))"
    "list_all dish_row_ok (concat (map menu_dish_rows ms))"
    by (auto simp: list_all_iff menu_category_rows_def menu_dish_rows_def)
qed

lemma persist_tree_conforms:
  assumes "persist_tree r s = Inr s'" "restaurant_ok r" "catalog_ok s"
  shows "catalog_ok s'"
proof -
  note p = persist_tree_Inr [OF assms(1)]
  have r: "list_all menu_ok (r_menus r)" "list_all location_ok (r_locations r)" using assms(2) by (simp_all add: restaurant_ok_def)
  have "distinct (map cr_id (db_categories s'))" using p(3,4) assms(3) by (auto simp: insert_ok_def catalog_ok_def)
  moreover have "rooted {} (db_categories s')"
    using p(4) assms(3) rooted_new_rows by (simp add: rooted_append catalog_ok_def)
  moreover have "restaurant_row_ok (restaurant_to_row (db_now s) r)"
    using assms(2) by (simp add: restaurant_row_ok_def restaurant_to_row_def restaurant_ok_def)
  ultimately show ?thesis
    using assms(3) p(4) menu_rows_conform [OF r(1)] r
    by (simp add: catalog_ok_def) (auto simp: list_all_iff location_to_row_def menu_to_row_def menu_ok_def)
qed

lemma set_scalars_conform:
  "restaurant_ok target \<Longrightarrow> restaurant_row_ok row \<Longrightarrow> restaurant_row_ok (fold (set_scalar target) fs row)"
proof (induction fs arbitrary: row)
  case (Cons f fs)
  have "restaurant_row_ok (set_scalar target f row)"
    using Cons.prems by (simp add: restaurant_row_ok_def set_scalar_def restaurant_ok_def)
  then show ?case using Cons by simp
qed simp

lemma put_dish_conforms:
  assumes "put_dish d (s, pending) = Inr (s', pending')" "dish_ok d" "catalog_ok s"
  shows "catalog_ok s'"
proof -
  have "list_all dish_row_ok (update_by dr_id i f rows)"
    if "list_all dish_row_ok rows" "\<And>row. row \<in> set rows \<Longrightarrow> dr_id row = i \<Longrightarrow> dish_row_ok (f row)" for i f rows
    using that by (auto simp: update_by_def list_all_iff)
  moreover have "dish_row_ok (apply_dish_row_fields d row)" if "dr_id row = d_id d" for row
    using that dish_row_conforms [OF assms(2)] by (simp add: apply_dish_row_fields_row)
  ultimately show ?thesis
    using assms dish_row_conforms [OF assms(2)]
    by (auto simp: put_dish_def catalog_ok_def split: if_splits option.splits)
qed

lemma delete_dish_conforms: "catalog_ok s \<Longrightarrow> catalog_ok (fst (delete_dish i (s, pending)))"
  by (auto simp: delete_dish_def catalog_ok_def list_all_iff)

lemma find_dish_ok:
  assumes "restaurant_ok target" "d \<in> set (find_dish_in_target target m c)"
  shows "dish_ok d"
proof -
  have "menu_ok (r_menus target ! m)" if "m < length (r_menus target)"
    using assms(1) that by (simp add: restaurant_ok_def list_all_length)
  moreover have "list_all dish_ok (mc_dishes k)" if "category_ok k" for k
    using that by (cases k) simp
  ultimately show ?thesis
    using assms(2) by (auto simp: find_dish_in_target_def Let_def menu_ok_def list_all_length in_set_conv_nth split: if_splits)
qed

lemma patch_dishes_conform:
  assumes "patch_dishes target delta es (s, pending) = Inr (s', pending')" "restaurant_ok target" "catalog_ok s"
  shows "catalog_ok s'"
  using assms(1,3)
proof (induction es arbitrary: s pending)
  case (Cons e es)
  obtain s1 p1 where e: "patch_dish target delta e (s, pending) = Inr (s1, p1)"
    and es: "patch_dishes target delta es (s1, p1) = Inr (s', pending')"
    using Cons.prems(1) by (auto split: sum.splits)
  obtain m c d op where k: "e = ((m, c, d), op)" by (cases e) auto
  have "catalog_ok s1"
  proof (cases "op = OP_REMOVED")
    case True
    then show ?thesis
      using e k Cons.prems(2) delete_dish_conforms [of s _ pending]
      by (auto simp: patch_dish_def split: option.splits) (metis fst_conv)
  next
    case False
    then show ?thesis
      using e k Cons.prems(2) put_dish_conforms find_dish_ok [OF assms(2)] nth_mem
      by (auto simp: patch_dish_def Let_def not_le split: if_splits) blast
  qed
  then show ?case using Cons.IH [OF es] by simp
qed simp

lemma apply_patch_conforms:
  assumes "apply_patch i target delta s = Inr s'" "restaurant_ok target" "catalog_ok s"
  shows "catalog_ok s'"
proof -
  obtain dishes scalars where t: "touched_by delta = (dishes, scalars)" by fastforce
  let ?s = "s\<lparr>db_restaurants := update_by rr_id i (fold (set_scalar target) scalars) (db_restaurants s)\<rparr>"
  have "catalog_ok ?s"
    using assms(2,3) set_scalars_conform by (auto simp: catalog_ok_def update_by_def list_all_iff)
  moreover obtain pending where "patch_dishes target delta dishes (?s, None) = Inr (s', pending)"
    using assms(1) t by (auto simp: apply_patch_def Let_def split: if_splits sum.splits)
      (cases "patch_dishes target delta dishes (?s, None)"; auto)+
  ultimately show ?thesis using patch_dishes_conform assms(2) by blast
qed

end
