(* ===== verification/Responses.thy ===== *)
theory Responses
  imports Served Conformance
begin

text \<open>
  What the API answers about the data it serves. The production tables conform to the schema in every
  state the system can reach, whatever the workers and the clients do, so that a restaurant that is asked for is
  a valid instance of the response model or not there at all.
\<close>

section \<open>Publishing writes validated data\<close>

lemma publish_node_conforms:
  assumes "publish_node sv st s = Inr (us, s')" "catalog_ok s"
  shows "catalog_ok s'"
proof -
  have w: "catalog_ok s'" if "publish_write st i r s = Inr (us, s')" "v_restaurant uu [] j = Inr r" for i r uu j
  proof -
    have "restaurant_ok r" using vallD [OF vall_v_restaurant that(2)] .
    then show ?thesis using publish_write_Inr [OF that(1)] persist_tree_conforms assms(2) catalog_ok_cong by metis
  qed
  have f: "catalog_ok s'" if "publish_fail st msg s = Inr (us, s')" for msg
    using publish_fail_frame [OF that, of st] catalog_ok_cong assms(2) by metis
  show ?thesis using assms(1)
    by (auto simp: publish_node_def Let_def split: if_splits option.splits sum.splits dest: w f)
qed

lemma sync_publish_node_conforms:
  assumes "sync_publish_node sv st s = Inr (us, s')" "catalog_ok s"
  shows "catalog_ok s'"
proof -
  have w: "catalog_ok s'" if "sync_publish_write st i r delta s = Inr (us, s')" "v_restaurant uu [] j = Inr r" for i r delta uu j
  proof -
    have "restaurant_ok r" using vallD [OF vall_v_restaurant that(2)] .
    then show ?thesis using sync_publish_write_Inr [OF that(1)] apply_patch_conforms assms(2) catalog_ok_cong by metis
  qed
  have f: "catalog_ok s'" if "sync_publish_fail st msg s = Inr (us, s')" for msg
    using sync_publish_fail_frame [OF that, of st] catalog_ok_cong assms(2) by metis
  show ?thesis using assms(1)
    by (auto simp: sync_publish_node_def Let_def split: if_splits option.splits sum.splits dest: w f)
qed

lemma human_review_production:
  "human_review_node st d s = Inr (out, s') \<Longrightarrow> production s' = production s"
  by (auto simp: human_review_node_def Let_def split_def split: option.splits sum.splits)

lemma final_sync_production:
  "human_final_sync_node st d s = Inr (out, s') \<Longrightarrow> production s' = production s"
  by (auto simp: human_final_sync_node_def Let_def split_def split: option.splits sum.splits)

lemma resume_collector_conforms:
  assumes "graph_world (collector_outcome (resume_collector sv st d w)) = Some w'" "catalog_ok (w_db w)"
  shows "catalog_ok (w_db w')"
proof (cases "human_review_node st (Some d) (w_db w)")
  case (Inl e)
  then show ?thesis using assms(1)
    by (simp add: resume_collector_def collector_outcome_def graph_world_def run_from.simps [of _ HUMAN_REVIEW])
next
  case (Inr p)
  obtain out s1 where p: "human_review_node st (Some d) (w_db w) = Inr (out, s1)" using Inr by (cases p) auto
  have s1: "catalog_ok s1" using human_review_production [OF p] assms(2) catalog_ok_cong by metis
  show ?thesis
    using assms(1) p s1 publish_node_conforms
    by (auto simp: resume_collector_def collector_outcome_def graph_world_def run_from.simps [of _ HUMAN_REVIEW]
        run_from.simps [of _ PUBLISH] route_after_human_review_def on_db_def Let_def
        split: outcome.splits if_splits sum.splits prod.splits option.splits)
qed

lemma resume_review_conforms:
  assumes "graph_world (reviewer_outcome (resume_review sv st d w)) = Some w'" "catalog_ok (w_db w)"
  shows "catalog_ok (w_db w')"
proof (cases "human_final_sync_node st (Some d) (w_db w)")
  case (Inl e)
  then show ?thesis using assms(1)
    by (simp add: resume_review_def reviewer_outcome_def graph_world_def review_from.simps [of _ HUMAN_FINAL_SYNC])
next
  case (Inr p)
  obtain out s1 where p: "human_final_sync_node st (Some d) (w_db w) = Inr (out, s1)" using Inr by (cases p) auto
  have s1: "catalog_ok s1" using final_sync_production [OF p] assms(2) catalog_ok_cong by metis
  show ?thesis
    using assms(1) p s1 sync_publish_node_conforms
    by (auto simp: resume_review_def reviewer_outcome_def graph_world_def review_from.simps [of _ HUMAN_FINAL_SYNC]
        review_from.simps [of _ SYNC_PUBLISH] route_after_human_final_sync_def returned_db_def Let_def
        split: outcome.splits if_splits sum.splits prod.splits option.splits)
qed

lemma resume_graph_conforms:
  assumes "resume_graph sv cps wt th d w = Graph_returned errors pub w'" "catalog_ok (w_db w)"
  shows "catalog_ok (w_db w')"
proof -
  have c: "catalog_ok (w_db w')" if "collector_outcome (resume_collector (rs_collector sv) st d w) = Graph_returned errors pub w'" for st
    using resume_collector_conforms [of "rs_collector sv" st d w w'] that assms(2) by (simp add: graph_world_def)
  have v: "catalog_ok (w_db w')" if "reviewer_outcome (resume_review (rs_reviewer sv) st d w) = Graph_returned errors pub w'" for st
    using resume_review_conforms [of "rs_reviewer sv" st d w w'] that assms(2) by (simp add: graph_world_def)
  show ?thesis
    using assms by (auto simp: resume_graph_def no_checkpoint_def dest: c v
        split: workflow_type.splits option.splits checkpoint.splits)
qed

section \<open>Every event keeps the tables conforming\<close>

lemma resume_change_conforms:
  assumes "resume_change (resume_graph sv cps) i a reviewer reason w = Inr (out, w')" "catalog_ok (w_db w)"
  shows "catalog_ok (w_db w')"
proof -
  obtain r th errors pub w2 where run: "resume_graph sv cps (graph_for r (record_decision (pc_id r) a reviewer reason (w_db w))) th
      (decision_for a) (w\<lparr>w_db := record_decision (pc_id r) a reviewer reason (w_db w)\<rparr>) = Graph_returned errors pub w2"
    and w': "production (w_db w') = production (w_db w2)"
    using assms(1)
    by (auto simp: resume_change_def Let_def split: sum.splits option.splits graph_result.splits)
  have "catalog_ok (record_decision (pc_id r) a reviewer reason (w_db w))"
    using assms(2) by (simp add: catalog_ok_cong [OF record_decision_frame(2)])
  then have "catalog_ok (w_db w2)" using resume_graph_conforms [OF run] by simp
  then show ?thesis by (simp add: catalog_ok_cong [OF w'])
qed

lemma decide_conforms:
  assumes "decide sv cps i a reviewer reason w = Inr (out, w')" "catalog_ok (w_db w)"
  shows "catalog_ok (w_db w')"
proof (cases a)
  case (Edit_then_approve j)
  then obtain r :: proposed_change where "resume_change (resume_graph sv cps) i a reviewer reason
      (w\<lparr>w_db := audit PROPOSED_CHANGE_EDIT AE_PROPOSED_CHANGE (uuid_str (pc_id r)) (actor_of reviewer) None [] (w_db w)\<rparr>)
      = Inr (out, w')"
    using assms(1) Edit_then_approve that by (auto simp: edit_then_approve_change_def split: sum.splits)
  then show ?thesis
    using resume_change_conforms assms(2) catalog_ok_cong [OF production_unchanged(5)] by fastforce
qed (use assms resume_change_conforms in \<open>auto simp: approve_change_def reject_change_def\<close>)

lemma handle_conforms:
  assumes "catalog_ok (sy_db y)"
  shows "catalog_ok (sy_db (snd (handle ad c req y)))"
proof -
  have k: "data_kept y y' \<Longrightarrow> catalog_ok (sy_db y')" for y'
    using assms catalog_ok_cong [of "sy_db y'" "sy_db y"] by (simp add: data_kept_def)
  have d: "catalog_ok (sy_db (snd (decide_route ad i a reason u y)))" for i a reason u
    using assms decide_conforms by (auto simp: decide_route_def split: sum.split prod.split)
  have "catalog_ok (sy_db (snd (approve_review_route ad c i b y)))" "catalog_ok (sy_db (snd (reject_review_route ad c i b y)))"
    "catalog_ok (sy_db (snd (edit_then_approve_review_route ad c i b y)))" for i b
    using assms d unfolding write_route_defs guarded_def with_body_def by (auto split: sum.split prod.split)
  then show ?thesis
    using assms k [OF queue_routes_kept(1)] k [OF queue_routes_kept(2)] k [OF queue_routes_kept(3)]
      k [OF queue_routes_kept(4)] k [OF queue_routes_kept(5)]
    by (cases req) (simp_all add: snd_effect reading_routes)
qed

lemma history_conforms:
  "catalog_ok (sy_db y) \<Longrightarrow> catalog_ok (sy_db (fold (happens sv ad) events y))"
proof (induction events arbitrary: y)
  case (Cons e events)
  have "catalog_ok (sy_db (happens sv ad e y))"
  proof (cases e)
    case (Performs j)
    have "production (sy_db (perform sv j y)) = production (sy_db y)"
      using perform_proposes [of y sv j] by (simp add: proposes_def)
    then show ?thesis using catalog_ok_cong Cons.prems Performs by (metis happens.simps(1))
  qed (simp add: handle_conforms Cons.prems)
  then show ?case using Cons.IH by simp
qed simp

text \<open>C10: What is served is well typed. Take any history of the whole system, jobs and requests in any
  order, from tables that conform to the schema, empty ones for example. Asking for any restaurant
  afterwards is refused by the permission check, or answered with not found, or with a restaurant that satisfies
  every constraint of the response model and is unchanged by being dumped and validated again. Reading it is
  never an internal error: no publish, edit by a reviewer or patch leaves a row that cannot be read, a price
  below zero or a category below itself.\<close>

theorem served_restaurants_are_well_typed:
  assumes "catalog_ok (sy_db y)"
  shows "case fst (get_restaurant_route ad c i (fold (happens sv ad) events y)) of
      Inl f \<Rightarrow> authorize (ad_auth ad) (ad_settings ad) RESTAURANT_READ c (sy_db (fold (happens sv ad) events y)) = Inl f
        \<or> (\<exists>m. f = App (NotFoundError m))
    | Inr r \<Rightarrow> restaurant_ok r \<and> v_restaurant uu [] (dump_restaurant r) = Inr r"
proof (cases "authorize (ad_auth ad) (ad_settings ad) RESTAURANT_READ c (sy_db (fold (happens sv ad) events y))")
  case (Inl f)
  then show ?thesis by (simp add: get_restaurant_route_def guarded_def)
next
  case (Inr u)
  note read = served_restaurant_ok [OF history_conforms [OF assms, of sv ad events], of i]
  then show ?thesis
  proof
    assume "get_full_tree i (sy_db (fold (happens sv ad) events y)) = Inr None"
    then show ?thesis using Inr by (simp add: get_restaurant_route_def guarded_def read_only_def)
  next
    assume "\<exists>r. get_full_tree i (sy_db (fold (happens sv ad) events y)) = Inr (Some r) \<and> restaurant_ok r"
    then show ?thesis using Inr by (auto simp: get_restaurant_route_def guarded_def read_only_def v_restaurant_dump)
  qed
qed

text \<open>The sample restaurant, published, and asked for by the sample manager.\<close>

definition serving_system :: "db \<Rightarrow> system" where
  "serving_system s = manager_system\<lparr>sy_world := \<lparr>w_db = s\<lparr>db_next := 10, db_users := [sample_manager]\<rparr>, w_files = Map.empty\<rparr>\<rparr>"

theorem served_restaurants_are_well_typed_witness:
  "\<exists>s r. persist_tree sample_restaurant empty_db = Inr s
     \<and> fst (get_restaurant_route sample_admin (Some ''A'') 0 (serving_system s)) = Inr r \<and> restaurant_ok r"
proof -
  obtain s where s: "persist_tree sample_restaurant empty_db = Inr s"
    using sample_persists by (auto split: sum.splits)
  let ?y = "serving_system s"
  have p: "production (sy_db ?y) = production s" by (simp add: serving_system_def production_def)
  have "catalog_ok empty_db" by (simp add: catalog_ok_def empty_db_def)
  then have ok: "catalog_ok (sy_db ?y)"
    using persist_tree_conforms [OF s sample_restaurant_ok] catalog_ok_cong [OF p] by simp
  have u: "get_current_user sample_auth default_settings (Some ''A'') (sy_db ?y) = Inr sample_manager"
    by (simp add: get_current_user_def decode_token_def sample_auth_def serving_system_def sample_manager_def
        sample_user_def get_user_def)
  have a: "authorize sample_auth default_settings RESTAURANT_READ (Some ''A'') (sy_db ?y) = Inr sample_manager"
    unfolding authorize_def u by code_simp
  have "row_by rr_id 0 (db_restaurants (sy_db ?y)) \<noteq> None"
    using persist_tree_Inr(4) [OF s] by (simp add: serving_system_def empty_db_def restaurant_to_row_def sample_restaurant_def row_by_def)
  then have "get_full_tree 0 (sy_db ?y) \<noteq> Inr None" by (auto simp: get_full_tree_def split: sum.splits)
  then show ?thesis
    using served_restaurants_are_well_typed [OF ok, where ad = sample_admin and c = "Some ''A''" and i = 0 and events = "[]"] a s
    by (auto simp: get_restaurant_route_def guarded_def read_only_def sample_admin_def split: sum.splits option.splits)
qed

end
