(* ===== verification/Migrations.thy ===== *)
theory Migrations
  imports Prelude
begin

text \<open>
  The Alembic migrations, \<open>src/database/migrations/versions\<close>, and the tables the ORM models of
  \<open>src/database/models\<close> declare. A migration is a list of DDL operations for either direction; a
  schema is the tables, the native enum types and the indexes of the database. Rows are not part of it.
  What an operation does is what PostgreSQL documents; creating a table creates the enum types of its
  columns, each once in a run of Alembic, and dropping a table leaves them.
\<close>

section \<open>Schemas\<close>

datatype col_type =
    Uuid_col
  | Varchar nat
  | Boolean_col
  | Integer_col
  | Numeric_col "(nat \<times> nat) option"
  | Timestamptz
  | Jsonb
  | Enum_col string "string list"

record column =
  co_name :: string
  co_type :: col_type
  co_nullable :: bool
  co_default :: "string option"

text \<open>A foreign key: its column, the table it references by identifier, and what a deletion does. The
  primary key of every table is \<open>id\<close>.\<close>

record db_table =
  tb_name :: string
  tb_columns :: "column list"
  tb_foreign_keys :: "(string \<times> string \<times> string) list"

record db_index =
  ix_name :: string
  ix_table :: string
  ix_columns :: "string list"
  ix_unique :: bool

record schema =
  sc_tables :: "db_table list"
  sc_types :: "(string \<times> string list) list"
  sc_indexes :: "db_index list"

definition empty_schema :: schema where
  "empty_schema = \<lparr>sc_tables = [], sc_types = [], sc_indexes = []\<rparr>"

definition col :: "string \<Rightarrow> col_type \<Rightarrow> column" where
  "col n t = \<lparr>co_name = n, co_type = t, co_nullable = False, co_default = None\<rparr>"

definition nullable :: "string \<Rightarrow> col_type \<Rightarrow> column" where
  "nullable n t = \<lparr>co_name = n, co_type = t, co_nullable = True, co_default = None\<rparr>"

definition col_default :: "string \<Rightarrow> col_type \<Rightarrow> string \<Rightarrow> column" where
  "col_default n t d = \<lparr>co_name = n, co_type = t, co_nullable = False, co_default = Some d\<rparr>"

definition stamped :: "string \<Rightarrow> column" where
  "stamped n = col_default n Timestamptz ''now()''"

definition new_table :: "string \<Rightarrow> column list \<Rightarrow> (string \<times> string \<times> string) list \<Rightarrow> db_table" where
  "new_table n cs fks = \<lparr>tb_name = n, tb_columns = cs, tb_foreign_keys = fks\<rparr>"

definition index_on :: "string \<Rightarrow> string \<Rightarrow> string list \<Rightarrow> bool \<Rightarrow> db_index" where
  "index_on n t cs u = \<lparr>ix_name = n, ix_table = t, ix_columns = cs, ix_unique = u\<rparr>"

definition find_table :: "schema \<Rightarrow> string \<Rightarrow> db_table option" where
  "find_table s n = find (\<lambda>t. tb_name t = n) (sc_tables s)"

definition has_column :: "schema \<Rightarrow> string \<Rightarrow> string \<Rightarrow> bool" where
  "has_column s t c = (case find_table s t of None \<Rightarrow> False | Some tb \<Rightarrow> c \<in> set (map co_name (tb_columns tb)))"

definition on_columns :: "string \<Rightarrow> (column list \<Rightarrow> column list) \<Rightarrow> schema \<Rightarrow> schema" where
  "on_columns n f s =
     s\<lparr>sc_tables := map (\<lambda>t. if tb_name t = n then t\<lparr>tb_columns := f (tb_columns t)\<rparr> else t) (sc_tables s)\<rparr>"

fun enum_of :: "col_type \<Rightarrow> (string \<times> string list) list" where
  "enum_of (Enum_col n labels) = [(n, labels)]"
| "enum_of _ = []"

definition enums_of :: "db_table \<Rightarrow> (string \<times> string list) list" where
  "enums_of t = remdups (concat (map (enum_of \<circ> co_type) (tb_columns t)))"

section \<open>Operations\<close>

datatype op =
    Create_table db_table
  | Drop_table string
  | Create_index db_index
  | Drop_index string
  | Add_column string column
  | Drop_column string string
  | Rename_column string string string
  | Drop_default string string
  | Drop_type string

datatype ddl_error = Duplicate string | Undefined string | In_use string

text \<open>The enum types a run of Alembic has created so far are remembered in \<open>made\<close>.\<close>

fun create_types :: "(string \<times> string list) list \<Rightarrow> string list \<times> schema \<Rightarrow> ddl_error + string list \<times> schema" where
  "create_types [] (made, s) = Inr (made, s)"
| "create_types ((n, labels) # es) (made, s) =
     (if n \<in> set made then create_types es (made, s)
      else if n \<in> set (map fst (sc_types s)) then Inl (Duplicate n)
      else create_types es (n # made, s\<lparr>sc_types := sc_types s @ [(n, labels)]\<rparr>))"

fun run_op :: "op \<Rightarrow> string list \<times> schema \<Rightarrow> ddl_error + string list \<times> schema" where
  "run_op (Create_table t) (made, s) =
     (if find_table s (tb_name t) \<noteq> None then Inl (Duplicate (tb_name t))
      else
        (case find (\<lambda>(_, r, _). r \<noteq> tb_name t \<and> find_table s r = None) (tb_foreign_keys t) of
           Some (_, r, _) \<Rightarrow> Inl (Undefined r)
         | None \<Rightarrow>
             (case create_types (enums_of t) (made, s) of
                Inl e \<Rightarrow> Inl e
              | Inr (made, s) \<Rightarrow> Inr (made, s\<lparr>sc_tables := sc_tables s @ [t]\<rparr>))))"
| "run_op (Drop_table n) (made, s) =
     (if find_table s n = None then Inl (Undefined n)
      else if list_ex (\<lambda>t. tb_name t \<noteq> n \<and> list_ex (\<lambda>(_, r, _). r = n) (tb_foreign_keys t)) (sc_tables s)
      then Inl (In_use n)
      else Inr (made, s\<lparr>sc_tables := filter (\<lambda>t. tb_name t \<noteq> n) (sc_tables s),
                        sc_indexes := filter (\<lambda>i. ix_table i \<noteq> n) (sc_indexes s)\<rparr>))"
| "run_op (Create_index i) (made, s) =
     (if ix_name i \<in> set (map ix_name (sc_indexes s)) then Inl (Duplicate (ix_name i))
      else
        (case find (\<lambda>c. \<not> has_column s (ix_table i) c) (ix_columns i) of
           Some c \<Rightarrow> Inl (Undefined c)
         | None \<Rightarrow> Inr (made, s\<lparr>sc_indexes := sc_indexes s @ [i]\<rparr>)))"
| "run_op (Drop_index n) (made, s) =
     (if n \<notin> set (map ix_name (sc_indexes s)) then Inl (Undefined n)
      else Inr (made, s\<lparr>sc_indexes := filter (\<lambda>i. ix_name i \<noteq> n) (sc_indexes s)\<rparr>))"
| "run_op (Add_column t c) (made, s) =
     (if find_table s t = None then Inl (Undefined t)
      else if has_column s t (co_name c) then Inl (Duplicate (co_name c))
      else Inr (made, on_columns t (\<lambda>cs. cs @ [c]) s))"
| "run_op (Drop_column t c) (made, s) =
     (if \<not> has_column s t c then Inl (Undefined c)
      else Inr (made, (on_columns t (filter (\<lambda>x. co_name x \<noteq> c)) s)
                 \<lparr>sc_indexes := filter (\<lambda>i. \<not> (ix_table i = t \<and> c \<in> set (ix_columns i))) (sc_indexes s)\<rparr>))"
| "run_op (Rename_column t c d) (made, s) =
     (if \<not> has_column s t c then Inl (Undefined c)
      else if has_column s t d then Inl (Duplicate d)
      else Inr (made, (on_columns t (map (\<lambda>x. if co_name x = c then x\<lparr>co_name := d\<rparr> else x)) s)
                 \<lparr>sc_indexes := map (\<lambda>i. if ix_table i = t
                     then i\<lparr>ix_columns := map (\<lambda>x. if x = c then d else x) (ix_columns i)\<rparr> else i) (sc_indexes s)\<rparr>))"
| "run_op (Drop_default t c) (made, s) =
     (if \<not> has_column s t c then Inl (Undefined c)
      else Inr (made, on_columns t (map (\<lambda>x. if co_name x = c then x\<lparr>co_default := None\<rparr> else x)) s))"
| "run_op (Drop_type n) (made, s) =
     (if n \<notin> set (map fst (sc_types s)) then Inl (Undefined n)
      else if list_ex (\<lambda>t. n \<in> set (map fst (enums_of t))) (sc_tables s) then Inl (In_use n)
      else Inr (made, s\<lparr>sc_types := filter (\<lambda>e. fst e \<noteq> n) (sc_types s)\<rparr>))"

fun run_ops :: "op list \<Rightarrow> string list \<times> schema \<Rightarrow> ddl_error + string list \<times> schema" where
  "run_ops [] x = Inr x"
| "run_ops (p # ps) x = (case run_op p x of Inl e \<Rightarrow> Inl e | Inr y \<Rightarrow> run_ops ps y)"

section \<open>Migrations\<close>

record migration =
  mg_revision :: string
  mg_down_revision :: "string option"
  mg_upgrade :: "op list"
  mg_downgrade :: "op list"

text \<open>Alembic follows the down-revisions from the base; a revision with no or with several successors ends
  the path.\<close>

fun revisions_from :: "nat \<Rightarrow> migration list \<Rightarrow> string option \<Rightarrow> migration list" where
  "revisions_from 0 ms r = []"
| "revisions_from (Suc n) ms r =
     (case filter (\<lambda>m. mg_down_revision m = r) ms of
        [m] \<Rightarrow> m # revisions_from n ms (Some (mg_revision m))
      | _ \<Rightarrow> [])"

definition history :: "migration list \<Rightarrow> migration list" where
  "history ms = revisions_from (length ms) ms None"

text \<open>One run of Alembic: upgrades in order, or downgrades in order.\<close>

definition upgrade :: "migration list \<Rightarrow> schema \<Rightarrow> ddl_error + schema" where
  "upgrade ms s = map_sum id snd (run_ops (concat (map mg_upgrade ms)) ([], s))"

definition downgrade :: "migration list \<Rightarrow> schema \<Rightarrow> ddl_error + schema" where
  "downgrade ms s = map_sum id snd (run_ops (concat (map mg_downgrade ms)) ([], s))"

definition create_audit_logs :: migration where
  "create_audit_logs =
     \<lparr>mg_revision = ''0ca6b90bca26'', mg_down_revision = Some ''afa529af6a10'',
      mg_upgrade =
       [Create_table (new_table ''audit_logs''
        [col ''id'' Uuid_col,
         col ''action'' (Enum_col ''audit_action'' [''RESTAURANT_CREATE'', ''RESTAURANT_EDIT'',
               ''RESTAURANT_DELETE'', ''AI_EXTRACTION'', ''AGENT_RUN_TRIGGER'', ''PROPOSED_CHANGE_CREATE'',
                     ''PROPOSED_CHANGE_EDIT'', ''PROPOSED_CHANGE_APPROVE'', ''PROPOSED_CHANGE_REJECT'',
                           ''PROPOSED_CHANGE_PUBLISH'', ''LOGIN_SUCCESS'', ''LOGIN_FAILURE'', ''LOGOUT'',
                                 ''LOGOUT_ALL'', ''TOKEN_REFRESH'']),
         col ''entity_type'' (Enum_col ''audit_entity_type'' [''RESTAURANT'', ''PROPOSED_CHANGE'', ''AGENT_RUN'',
               ''USER'', ''SESSION'']),
         col ''entity_id'' (Varchar 255),
         nullable ''actor_id'' Uuid_col,
         nullable ''actor_email'' (Varchar 320),
         nullable ''old_values'' Jsonb,
         nullable ''new_values'' Jsonb,
         nullable ''metadata'' Jsonb,
         nullable ''agent_run_id'' (Varchar 255),
         stamped ''created_at'']
        [(''actor_id'', ''users'', ''SET NULL'')]),
        Create_index (index_on ''ix_audit_logs_action'' ''audit_logs'' [''action''] False),
        Create_index (index_on ''ix_audit_logs_actor_id'' ''audit_logs'' [''actor_id''] False),
        Create_index (index_on ''ix_audit_logs_agent_run_id'' ''audit_logs'' [''agent_run_id''] False),
        Create_index (index_on ''ix_audit_logs_created_at'' ''audit_logs'' [''created_at''] False),
        Create_index (index_on ''ix_audit_logs_entity_id'' ''audit_logs'' [''entity_id''] False),
        Create_index (index_on ''ix_audit_logs_entity_type'' ''audit_logs'' [''entity_type''] False)],
      mg_downgrade =
       [Drop_index ''ix_audit_logs_entity_type'',
        Drop_index ''ix_audit_logs_entity_id'',
        Drop_index ''ix_audit_logs_created_at'',
        Drop_index ''ix_audit_logs_agent_run_id'',
        Drop_index ''ix_audit_logs_actor_id'',
        Drop_index ''ix_audit_logs_action'',
        Drop_table ''audit_logs'']\<rparr>"

definition create_sources :: migration where
  "create_sources =
     \<lparr>mg_revision = ''157831e5ab5b'', mg_down_revision = Some ''0ca6b90bca26'',
      mg_upgrade =
       [Create_table (new_table ''sources''
        [col ''id'' Uuid_col,
         col ''restaurant_id'' Uuid_col,
         col ''source_type'' (Enum_col ''source_type'' [''RESTAURANT_WEBSITE'', ''THIRD_PARTY_MENU_PROVIDER'',
               ''PDF_MENU'', ''MANUAL_ENTRY'']),
         col ''url'' (Varchar 2048),
         col ''is_verified_domain'' Boolean_col,
         stamped ''created_at'']
        []),
        Create_index (index_on ''ix_sources_restaurant_id'' ''sources'' [''restaurant_id''] False)],
      mg_downgrade =
       [Drop_index ''ix_sources_restaurant_id'',
        Drop_table ''sources'']\<rparr>"

definition create_restaurant_tables :: migration where
  "create_restaurant_tables =
     \<lparr>mg_revision = ''2186b16aec20'', mg_down_revision = Some ''676658c5c999'',
      mg_upgrade =
       [Create_table (new_table ''proposed_changes''
        [col ''id'' Uuid_col,
         col ''entity_type'' (Enum_col ''proposed_change_entity_type'' [''RESTAURANT'', ''RESTAURANT_LOCATION'',
               ''MENU'', ''MENU_CATEGORY'', ''DISH'']),
         col ''entity_id'' Uuid_col,
         col ''structured_json'' Jsonb,
         col ''validation_result'' Jsonb,
         col ''status'' (Enum_col ''proposed_change_status'' [''PENDING'', ''APPROVED'', ''REJECTED'', ''PUBLISHED'']),
         nullable ''agent_run_id'' Uuid_col,
         nullable ''source_id'' Uuid_col,
         nullable ''thread_id'' (Varchar 255),
         nullable ''created_by_user_id'' Uuid_col,
         stamped ''created_at'',
         stamped ''updated_at'']
        []),
        Create_index (index_on ''ix_proposed_changes_agent_run_id'' ''proposed_changes'' [''agent_run_id''] False),
        Create_index (index_on ''ix_proposed_changes_entity_id'' ''proposed_changes'' [''entity_id''] False),
        Create_index (index_on ''ix_proposed_changes_status'' ''proposed_changes'' [''status''] False),
        Create_index (index_on ''ix_proposed_changes_thread_id'' ''proposed_changes'' [''thread_id''] False),
        Create_table (new_table ''restaurants''
        [col ''id'' Uuid_col,
         col ''name'' (Varchar 255),
         nullable ''description'' (Varchar 2000),
         nullable ''logo_url'' (Varchar 2048),
         nullable ''cover_image_url'' (Varchar 2048),
         col ''gallery_image_urls'' Jsonb,
         nullable ''website_url'' (Varchar 2048),
         col ''cuisine_types'' Jsonb,
         col ''is_active'' Boolean_col,
         stamped ''created_at'',
         stamped ''updated_at'']
        []),
        Create_table (new_table ''approvals''
        [col ''id'' Uuid_col,
         col ''proposed_change_id'' Uuid_col,
         col ''decision'' (Enum_col ''proposed_change_status'' [''PENDING'', ''APPROVED'', ''REJECTED'', ''PUBLISHED'']),
         col ''reviewer_user_id'' Uuid_col,
         nullable ''reason'' (Varchar 2000),
         stamped ''decided_at'']
        [(''proposed_change_id'', ''proposed_changes'', ''CASCADE'')]),
        Create_index (index_on ''ix_approvals_proposed_change_id'' ''approvals'' [''proposed_change_id''] False),
        Create_table (new_table ''menus''
        [col ''id'' Uuid_col,
         col ''restaurant_id'' Uuid_col,
         col ''name'' (Varchar 255)]
        [(''restaurant_id'', ''restaurants'', ''CASCADE'')]),
        Create_index (index_on ''ix_menus_restaurant_id'' ''menus'' [''restaurant_id''] False),
        Create_table (new_table ''restaurant_locations''
        [col ''id'' Uuid_col,
         col ''restaurant_id'' Uuid_col,
         nullable ''label'' (Varchar 255),
         col ''address_line1'' (Varchar 255),
         nullable ''address_line2'' (Varchar 255),
         col ''city'' (Varchar 120),
         nullable ''state'' (Varchar 120),
         nullable ''postal_code'' (Varchar 20),
         col ''country'' (Varchar 2),
         nullable ''latitude'' (Numeric_col None),
         nullable ''longitude'' (Numeric_col None),
         nullable ''phone'' (Varchar 50)]
        [(''restaurant_id'', ''restaurants'', ''CASCADE'')]),
        Create_index (index_on ''ix_restaurant_locations_restaurant_id'' ''restaurant_locations'' [''restaurant_id''] False),
        Create_table (new_table ''menu_categories''
        [col ''id'' Uuid_col,
         col ''menu_id'' Uuid_col,
         nullable ''parent_id'' Uuid_col,
         col ''name'' (Varchar 255),
         col ''display_order'' Integer_col]
        [(''menu_id'', ''menus'', ''CASCADE''), (''parent_id'', ''menu_categories'', ''CASCADE'')]),
        Create_index (index_on ''ix_menu_categories_menu_id'' ''menu_categories'' [''menu_id''] False),
        Create_index (index_on ''ix_menu_categories_parent_id'' ''menu_categories'' [''parent_id''] False),
        Create_table (new_table ''dishes''
        [col ''id'' Uuid_col,
         col ''category_id'' Uuid_col,
         col ''name'' (Varchar 255),
         nullable ''description'' (Varchar 2000),
         nullable ''image_url'' (Varchar 2048),
         col ''nutrition'' Jsonb,
         col ''allergens'' Jsonb,
         col ''ingredients'' Jsonb,
         nullable ''quantity'' (Varchar 100),
         nullable ''price'' (Numeric_col (Some (10, 2))),
         col ''currency'' (Varchar 3),
         col ''review_state'' (Enum_col ''dish_review_state'' [''PENDING'', ''CONFIRMED'', ''REJECTED''])]
        [(''category_id'', ''menu_categories'', ''CASCADE'')]),
        Create_index (index_on ''ix_dishes_category_id'' ''dishes'' [''category_id''] False)],
      mg_downgrade =
       [Drop_index ''ix_dishes_category_id'',
        Drop_table ''dishes'',
        Drop_index ''ix_menu_categories_parent_id'',
        Drop_index ''ix_menu_categories_menu_id'',
        Drop_table ''menu_categories'',
        Drop_index ''ix_restaurant_locations_restaurant_id'',
        Drop_table ''restaurant_locations'',
        Drop_index ''ix_menus_restaurant_id'',
        Drop_table ''menus'',
        Drop_index ''ix_approvals_proposed_change_id'',
        Drop_table ''approvals'',
        Drop_table ''restaurants'',
        Drop_index ''ix_proposed_changes_thread_id'',
        Drop_index ''ix_proposed_changes_status'',
        Drop_index ''ix_proposed_changes_entity_id'',
        Drop_index ''ix_proposed_changes_agent_run_id'',
        Drop_table ''proposed_changes'']\<rparr>"

definition create_source_snapshots :: migration where
  "create_source_snapshots =
     \<lparr>mg_revision = ''2e8de6675983'', mg_down_revision = Some ''2186b16aec20'',
      mg_upgrade =
       [Create_table (new_table ''source_snapshots''
        [col ''id'' Uuid_col,
         col ''source_id'' Uuid_col,
         col ''content_type'' (Enum_col ''snapshot_content_type'' [''HTML'', ''PDF'', ''SCREENSHOT'']),
         col ''content_hash'' (Varchar 64),
         col ''storage_path'' (Varchar 2048),
         col ''fetched_at'' Timestamptz,
         nullable ''http_status'' Integer_col,
         nullable ''content_length_bytes'' Integer_col,
         stamped ''created_at'']
        [(''source_id'', ''sources'', ''CASCADE'')]),
        Create_index (index_on ''ix_source_snapshots_content_hash'' ''source_snapshots'' [''content_hash''] False),
        Create_index (index_on ''ix_source_snapshots_source_id'' ''source_snapshots'' [''source_id''] False)],
      mg_downgrade =
       [Drop_index ''ix_source_snapshots_source_id'',
        Drop_index ''ix_source_snapshots_content_hash'',
        Drop_table ''source_snapshots'']\<rparr>"

definition create_agent_runs :: migration where
  "create_agent_runs =
     \<lparr>mg_revision = ''676658c5c999'', mg_down_revision = Some ''157831e5ab5b'',
      mg_upgrade =
       [Create_table (new_table ''agent_runs''
        [col ''id'' Uuid_col,
         col ''workflow_type'' (Enum_col ''agent_workflow_type'' [''COLLECTOR'', ''REVIEWER'']),
         nullable ''restaurant_id'' Uuid_col,
         col ''status'' (Enum_col ''agent_run_status'' [''PENDING'', ''RUNNING'', ''SUCCEEDED'', ''FAILED'', ''CANCELLED'']),
         nullable ''started_at'' Timestamptz,
         nullable ''completed_at'' Timestamptz,
         nullable ''error_message'' (Varchar 2000),
         stamped ''created_at'']
        []),
        Create_index (index_on ''ix_agent_runs_restaurant_id'' ''agent_runs'' [''restaurant_id''] False),
        Create_index (index_on ''ix_agent_runs_status'' ''agent_runs'' [''status''] False),
        Create_index (index_on ''ix_agent_runs_workflow_type'' ''agent_runs'' [''workflow_type''] False)],
      mg_downgrade =
       [Drop_index ''ix_agent_runs_workflow_type'',
        Drop_index ''ix_agent_runs_status'',
        Drop_index ''ix_agent_runs_restaurant_id'',
        Drop_table ''agent_runs'']\<rparr>"

definition add_run_metrics :: migration where
  "add_run_metrics =
     \<lparr>mg_revision = ''9da502924b3e'', mg_down_revision = Some ''2e8de6675983'',
      mg_upgrade =
       [Add_column ''agent_runs'' (col_default ''metrics'' Jsonb ([CHR 0x27] @ ''{}'' @ [CHR 0x27] @ ''::jsonb'')),
        Drop_default ''agent_runs'' ''metrics''],
      mg_downgrade =
       [Drop_column ''agent_runs'' ''metrics'']\<rparr>"

definition create_users :: migration where
  "create_users =
     \<lparr>mg_revision = ''afa529af6a10'', mg_down_revision = None,
      mg_upgrade =
       [Create_table (new_table ''users''
        [col ''id'' Uuid_col,
         col ''email'' (Varchar 320),
         col ''hashed_password'' (Varchar 255),
         col ''full_name'' (Varchar 255),
         col ''role'' (Enum_col ''user_role'' [''SUPER_ADMIN'', ''DATA_MANAGER'', ''REVIEWER'', ''VIEWER'']),
         col ''is_active'' Boolean_col,
         stamped ''created_at'',
         stamped ''updated_at'']
        []),
        Create_index (index_on ''ix_users_email'' ''users'' [''email''] True),
        Create_table (new_table ''refresh_tokens''
        [col ''id'' Uuid_col,
         col ''user_id'' Uuid_col,
         col ''token_hash'' (Varchar 64),
         col ''revoked'' Boolean_col,
         stamped ''created_at'',
         col ''expires_at'' Timestamptz]
        [(''user_id'', ''users'', ''CASCADE'')]),
        Create_index (index_on ''ix_refresh_tokens_token_hash'' ''refresh_tokens'' [''token_hash''] True),
        Create_index (index_on ''ix_refresh_tokens_user_id'' ''refresh_tokens'' [''user_id''] False)],
      mg_downgrade =
       [Drop_index ''ix_refresh_tokens_user_id'',
        Drop_index ''ix_refresh_tokens_token_hash'',
        Drop_table ''refresh_tokens'',
        Drop_index ''ix_users_email'',
        Drop_table ''users'']\<rparr>"

definition create_ingestion_queue :: migration where
  "create_ingestion_queue =
     \<lparr>mg_revision = ''b3f1a9c2d4e5'', mg_down_revision = Some ''9da502924b3e'',
      mg_upgrade =
       [Create_table (new_table ''ingestion_queue_items''
        [col ''id'' Uuid_col,
         col ''batch_id'' Uuid_col,
         col ''name'' (Varchar 255),
         col ''official_url'' (Varchar 2048),
         nullable ''city'' (Varchar 120),
         nullable ''state'' (Varchar 120),
         nullable ''country'' (Varchar 2),
         nullable ''phone'' (Varchar 50),
         col ''status'' (Enum_col ''ingestion_queue_status'' [''QUEUED'', ''RUNNING'', ''SUCCEEDED'', ''FAILED'']),
         nullable ''restaurant_seed_id'' (Varchar 64),
         nullable ''error_message'' (Varchar 2000),
         nullable ''created_by_user_id'' Uuid_col,
         stamped ''created_at'',
         stamped ''updated_at'']
        []),
        Create_index (index_on ''ix_ingestion_queue_items_batch_id'' ''ingestion_queue_items'' [''batch_id''] False),
        Create_index (index_on ''ix_ingestion_queue_items_created_by_user_id'' ''ingestion_queue_items'' [''created_by_user_id''] False),
        Create_index (index_on ''ix_ingestion_queue_items_status_created_at'' ''ingestion_queue_items'' [''status'',
              ''created_at''] False)],
      mg_downgrade =
       [Drop_index ''ix_ingestion_queue_items_status_created_at'',
        Drop_index ''ix_ingestion_queue_items_created_by_user_id'',
        Drop_index ''ix_ingestion_queue_items_batch_id'',
        Drop_table ''ingestion_queue_items'',
        Drop_type ''ingestion_queue_status'']\<rparr>"

definition replace_queue_fields :: migration where
  "replace_queue_fields =
     \<lparr>mg_revision = ''c47d8e1f3a2b'', mg_down_revision = Some ''b3f1a9c2d4e5'',
      mg_upgrade =
       [Rename_column ''ingestion_queue_items'' ''official_url'' ''menu_url'',
        Add_column ''ingestion_queue_items'' (col_default ''nutrition_url'' (Varchar 2048) ''''),
        Drop_default ''ingestion_queue_items'' ''nutrition_url'',
        Drop_column ''ingestion_queue_items'' ''city'',
        Drop_column ''ingestion_queue_items'' ''state'',
        Drop_column ''ingestion_queue_items'' ''country'',
        Drop_column ''ingestion_queue_items'' ''phone''],
      mg_downgrade =
       [Add_column ''ingestion_queue_items'' (nullable ''city'' (Varchar 120)),
        Add_column ''ingestion_queue_items'' (nullable ''state'' (Varchar 120)),
        Add_column ''ingestion_queue_items'' (nullable ''country'' (Varchar 2)),
        Add_column ''ingestion_queue_items'' (nullable ''phone'' (Varchar 50)),
        Drop_column ''ingestion_queue_items'' ''nutrition_url'',
        Rename_column ''ingestion_queue_items'' ''menu_url'' ''official_url'']\<rparr>"

definition versions :: "migration list" where
  "versions = [create_audit_logs, create_sources, create_restaurant_tables, create_source_snapshots,
        create_agent_runs, add_run_metrics, create_users, create_ingestion_queue, replace_queue_fields]"

section \<open>The models\<close>

record orm_model =
  om_table :: db_table
  om_indexes :: "db_index list"

text \<open>\<open>index=True\<close> on a column: SQLAlchemy names the index after table and column.\<close>

definition indexed :: "string \<Rightarrow> string \<Rightarrow> bool \<Rightarrow> db_index" where
  "indexed t c u = index_on (''ix_'' @ t @ ''_'' @ c) t [c] u"

definition orm_users :: orm_model where
  "orm_users =
     \<lparr>om_table = new_table ''users''
        [col ''id'' Uuid_col,
         col ''email'' (Varchar 320),
         col ''hashed_password'' (Varchar 255),
         col ''full_name'' (Varchar 255),
         col ''role'' (Enum_col ''user_role'' [''SUPER_ADMIN'', ''DATA_MANAGER'', ''REVIEWER'', ''VIEWER'']),
         col ''is_active'' Boolean_col,
         stamped ''created_at'',
         stamped ''updated_at'']
        [],
      om_indexes =
       [indexed ''users'' ''email'' True]\<rparr>"

definition orm_refresh_tokens :: orm_model where
  "orm_refresh_tokens =
     \<lparr>om_table = new_table ''refresh_tokens''
        [col ''id'' Uuid_col,
         col ''user_id'' Uuid_col,
         col ''token_hash'' (Varchar 64),
         col ''revoked'' Boolean_col,
         stamped ''created_at'',
         col ''expires_at'' Timestamptz]
        [(''user_id'', ''users'', ''CASCADE'')],
      om_indexes =
       [indexed ''refresh_tokens'' ''user_id'' False,
        indexed ''refresh_tokens'' ''token_hash'' True]\<rparr>"

definition orm_audit_logs :: orm_model where
  "orm_audit_logs =
     \<lparr>om_table = new_table ''audit_logs''
        [col ''id'' Uuid_col,
         col ''action'' (Enum_col ''audit_action'' [''RESTAURANT_CREATE'', ''RESTAURANT_EDIT'',
               ''RESTAURANT_DELETE'', ''AI_EXTRACTION'', ''AGENT_RUN_TRIGGER'', ''PROPOSED_CHANGE_CREATE'',
                     ''PROPOSED_CHANGE_EDIT'', ''PROPOSED_CHANGE_APPROVE'', ''PROPOSED_CHANGE_REJECT'',
                           ''PROPOSED_CHANGE_PUBLISH'', ''LOGIN_SUCCESS'', ''LOGIN_FAILURE'', ''LOGOUT'',
                                 ''LOGOUT_ALL'', ''TOKEN_REFRESH'']),
         col ''entity_type'' (Enum_col ''audit_entity_type'' [''RESTAURANT'', ''PROPOSED_CHANGE'', ''AGENT_RUN'',
               ''USER'', ''SESSION'']),
         col ''entity_id'' (Varchar 255),
         nullable ''actor_id'' Uuid_col,
         nullable ''actor_email'' (Varchar 320),
         nullable ''old_values'' Jsonb,
         nullable ''new_values'' Jsonb,
         nullable ''metadata'' Jsonb,
         nullable ''agent_run_id'' (Varchar 255),
         stamped ''created_at'']
        [(''actor_id'', ''users'', ''SET NULL'')],
      om_indexes =
       [indexed ''audit_logs'' ''action'' False,
        indexed ''audit_logs'' ''entity_type'' False,
        indexed ''audit_logs'' ''entity_id'' False,
        indexed ''audit_logs'' ''actor_id'' False,
        indexed ''audit_logs'' ''agent_run_id'' False,
        indexed ''audit_logs'' ''created_at'' False]\<rparr>"

definition orm_sources :: orm_model where
  "orm_sources =
     \<lparr>om_table = new_table ''sources''
        [col ''id'' Uuid_col,
         col ''restaurant_id'' Uuid_col,
         col ''source_type'' (Enum_col ''source_type'' [''RESTAURANT_WEBSITE'', ''THIRD_PARTY_MENU_PROVIDER'',
               ''PDF_MENU'', ''MANUAL_ENTRY'']),
         col ''url'' (Varchar 2048),
         col ''is_verified_domain'' Boolean_col,
         stamped ''created_at'']
        [],
      om_indexes =
       [indexed ''sources'' ''restaurant_id'' False]\<rparr>"

definition orm_source_snapshots :: orm_model where
  "orm_source_snapshots =
     \<lparr>om_table = new_table ''source_snapshots''
        [col ''id'' Uuid_col,
         col ''source_id'' Uuid_col,
         col ''content_type'' (Enum_col ''snapshot_content_type'' [''HTML'', ''PDF'', ''SCREENSHOT'']),
         col ''content_hash'' (Varchar 64),
         col ''storage_path'' (Varchar 2048),
         col ''fetched_at'' Timestamptz,
         nullable ''http_status'' Integer_col,
         nullable ''content_length_bytes'' Integer_col,
         stamped ''created_at'']
        [(''source_id'', ''sources'', ''CASCADE'')],
      om_indexes =
       [indexed ''source_snapshots'' ''source_id'' False,
        indexed ''source_snapshots'' ''content_hash'' False]\<rparr>"

definition orm_agent_runs :: orm_model where
  "orm_agent_runs =
     \<lparr>om_table = new_table ''agent_runs''
        [col ''id'' Uuid_col,
         col ''workflow_type'' (Enum_col ''agent_workflow_type'' [''COLLECTOR'', ''REVIEWER'']),
         nullable ''restaurant_id'' Uuid_col,
         col ''status'' (Enum_col ''agent_run_status'' [''PENDING'', ''RUNNING'', ''SUCCEEDED'', ''FAILED'', ''CANCELLED'']),
         nullable ''started_at'' Timestamptz,
         nullable ''completed_at'' Timestamptz,
         nullable ''error_message'' (Varchar 2000),
         col ''metrics'' Jsonb,
         stamped ''created_at'']
        [],
      om_indexes =
       [indexed ''agent_runs'' ''workflow_type'' False,
        indexed ''agent_runs'' ''restaurant_id'' False,
        indexed ''agent_runs'' ''status'' False]\<rparr>"

definition orm_restaurants :: orm_model where
  "orm_restaurants =
     \<lparr>om_table = new_table ''restaurants''
        [col ''id'' Uuid_col,
         col ''name'' (Varchar 255),
         nullable ''description'' (Varchar 2000),
         nullable ''logo_url'' (Varchar 2048),
         nullable ''cover_image_url'' (Varchar 2048),
         col ''gallery_image_urls'' Jsonb,
         nullable ''website_url'' (Varchar 2048),
         col ''cuisine_types'' Jsonb,
         col ''is_active'' Boolean_col,
         stamped ''created_at'',
         stamped ''updated_at'']
        [],
      om_indexes =
       []\<rparr>"

definition orm_restaurant_locations :: orm_model where
  "orm_restaurant_locations =
     \<lparr>om_table = new_table ''restaurant_locations''
        [col ''id'' Uuid_col,
         col ''restaurant_id'' Uuid_col,
         nullable ''label'' (Varchar 255),
         col ''address_line1'' (Varchar 255),
         nullable ''address_line2'' (Varchar 255),
         col ''city'' (Varchar 120),
         nullable ''state'' (Varchar 120),
         nullable ''postal_code'' (Varchar 20),
         col ''country'' (Varchar 2),
         nullable ''latitude'' (Numeric_col None),
         nullable ''longitude'' (Numeric_col None),
         nullable ''phone'' (Varchar 50)]
        [(''restaurant_id'', ''restaurants'', ''CASCADE'')],
      om_indexes =
       [indexed ''restaurant_locations'' ''restaurant_id'' False]\<rparr>"

definition orm_menus :: orm_model where
  "orm_menus =
     \<lparr>om_table = new_table ''menus''
        [col ''id'' Uuid_col,
         col ''restaurant_id'' Uuid_col,
         col ''name'' (Varchar 255)]
        [(''restaurant_id'', ''restaurants'', ''CASCADE'')],
      om_indexes =
       [indexed ''menus'' ''restaurant_id'' False]\<rparr>"

definition orm_menu_categories :: orm_model where
  "orm_menu_categories =
     \<lparr>om_table = new_table ''menu_categories''
        [col ''id'' Uuid_col,
         col ''menu_id'' Uuid_col,
         nullable ''parent_id'' Uuid_col,
         col ''name'' (Varchar 255),
         col ''display_order'' Integer_col]
        [(''menu_id'', ''menus'', ''CASCADE''), (''parent_id'', ''menu_categories'', ''CASCADE'')],
      om_indexes =
       [indexed ''menu_categories'' ''menu_id'' False,
        indexed ''menu_categories'' ''parent_id'' False]\<rparr>"

definition orm_dishes :: orm_model where
  "orm_dishes =
     \<lparr>om_table = new_table ''dishes''
        [col ''id'' Uuid_col,
         col ''category_id'' Uuid_col,
         col ''name'' (Varchar 255),
         nullable ''description'' (Varchar 2000),
         nullable ''image_url'' (Varchar 2048),
         col ''nutrition'' Jsonb,
         col ''allergens'' Jsonb,
         col ''ingredients'' Jsonb,
         nullable ''quantity'' (Varchar 100),
         nullable ''price'' (Numeric_col (Some (10, 2))),
         col ''currency'' (Varchar 3),
         col ''review_state'' (Enum_col ''dish_review_state'' [''PENDING'', ''CONFIRMED'', ''REJECTED''])]
        [(''category_id'', ''menu_categories'', ''CASCADE'')],
      om_indexes =
       [indexed ''dishes'' ''category_id'' False]\<rparr>"

definition orm_proposed_changes :: orm_model where
  "orm_proposed_changes =
     \<lparr>om_table = new_table ''proposed_changes''
        [col ''id'' Uuid_col,
         col ''entity_type'' (Enum_col ''proposed_change_entity_type'' [''RESTAURANT'', ''RESTAURANT_LOCATION'',
               ''MENU'', ''MENU_CATEGORY'', ''DISH'']),
         col ''entity_id'' Uuid_col,
         col ''structured_json'' Jsonb,
         col ''validation_result'' Jsonb,
         col ''status'' (Enum_col ''proposed_change_status'' [''PENDING'', ''APPROVED'', ''REJECTED'', ''PUBLISHED'']),
         nullable ''agent_run_id'' Uuid_col,
         nullable ''source_id'' Uuid_col,
         nullable ''thread_id'' (Varchar 255),
         nullable ''created_by_user_id'' Uuid_col,
         stamped ''created_at'',
         stamped ''updated_at'']
        [],
      om_indexes =
       [indexed ''proposed_changes'' ''entity_id'' False,
        indexed ''proposed_changes'' ''status'' False,
        indexed ''proposed_changes'' ''agent_run_id'' False,
        indexed ''proposed_changes'' ''thread_id'' False]\<rparr>"

definition orm_approvals :: orm_model where
  "orm_approvals =
     \<lparr>om_table = new_table ''approvals''
        [col ''id'' Uuid_col,
         col ''proposed_change_id'' Uuid_col,
         col ''decision'' (Enum_col ''proposed_change_status'' [''PENDING'', ''APPROVED'', ''REJECTED'', ''PUBLISHED'']),
         col ''reviewer_user_id'' Uuid_col,
         nullable ''reason'' (Varchar 2000),
         stamped ''decided_at'']
        [(''proposed_change_id'', ''proposed_changes'', ''CASCADE'')],
      om_indexes =
       [indexed ''approvals'' ''proposed_change_id'' False]\<rparr>"

definition orm_ingestion_queue_items :: orm_model where
  "orm_ingestion_queue_items =
     \<lparr>om_table = new_table ''ingestion_queue_items''
        [col ''id'' Uuid_col,
         col ''batch_id'' Uuid_col,
         col ''name'' (Varchar 255),
         col ''menu_url'' (Varchar 2048),
         col ''nutrition_url'' (Varchar 2048),
         col ''status'' (Enum_col ''ingestion_queue_status'' [''QUEUED'', ''RUNNING'', ''SUCCEEDED'', ''FAILED'']),
         nullable ''restaurant_seed_id'' (Varchar 64),
         nullable ''error_message'' (Varchar 2000),
         nullable ''created_by_user_id'' Uuid_col,
         stamped ''created_at'',
         stamped ''updated_at'']
        [],
      om_indexes =
       [indexed ''ingestion_queue_items'' ''batch_id'' False,
        indexed ''ingestion_queue_items'' ''status'' False,
        indexed ''ingestion_queue_items'' ''created_by_user_id'' False]\<rparr>"

definition orm_metadata :: "orm_model list" where
  "orm_metadata = [orm_users, orm_refresh_tokens, orm_audit_logs, orm_sources, orm_source_snapshots, orm_agent_runs,
        orm_restaurants, orm_restaurant_locations, orm_menus, orm_menu_categories, orm_dishes, orm_proposed_changes,
              orm_approvals, orm_ingestion_queue_items]"

section \<open>Migrations and models\<close>

text \<open>Equal up to the order of columns.\<close>

definition same_table :: "db_table \<Rightarrow> db_table \<Rightarrow> bool" where
  "same_table t t' \<longleftrightarrow> tb_name t = tb_name t' \<and> length (tb_columns t) = length (tb_columns t')
     \<and> list_all (\<lambda>c. c \<in> set (tb_columns t')) (tb_columns t) \<and> set (tb_foreign_keys t) = set (tb_foreign_keys t')"

definition same_tables :: "db_table list \<Rightarrow> db_table list \<Rightarrow> bool" where
  "same_tables ts us \<longleftrightarrow> length ts = length us \<and> list_all (\<lambda>t. list_ex (same_table t) us) ts"

text \<open>The schema the models declare. The models index the status of a queue item; the migration creates
  an index on status and creation time instead.\<close>

definition declared_indexes :: "db_index list" where
  "declared_indexes = concat (map om_indexes orm_metadata)"

definition migrated_indexes :: "db_index list" where
  "migrated_indexes =
     index_on ''ix_ingestion_queue_items_status_created_at'' ''ingestion_queue_items'' [''status'', ''created_at''] False
     # filter (\<lambda>i. ix_name i \<noteq> ''ix_ingestion_queue_items_status'') declared_indexes"

definition declares :: "orm_model list \<Rightarrow> schema \<Rightarrow> bool" where
  "declares ms s \<longleftrightarrow> same_tables (sc_tables s) (map om_table ms)
     \<and> set (sc_types s) = set (concat (map (enums_of \<circ> om_table) ms))"

text \<open>Every migration of a path, undone as soon as it is done, each in a run of its own.\<close>

fun undone :: "migration list \<Rightarrow> schema \<Rightarrow> bool" where
  "undone [] s \<longleftrightarrow> True"
| "undone (m # ms) s \<longleftrightarrow>
     (case upgrade [m] s of
        Inl _ \<Rightarrow> False
      | Inr s1 \<Rightarrow>
          (case downgrade [m] s1 of
             Inl _ \<Rightarrow> False
           | Inr s2 \<Rightarrow> same_tables (sc_tables s2) (sc_tables s) \<and> set (sc_indexes s2) = set (sc_indexes s))
          \<and> undone ms s1)"

lemma revisions [simp]:
  "mg_revision create_users = ''afa529af6a10''" "mg_down_revision create_users = None"
  "mg_revision create_audit_logs = ''0ca6b90bca26''" "mg_down_revision create_audit_logs = Some ''afa529af6a10''"
  "mg_revision create_sources = ''157831e5ab5b''" "mg_down_revision create_sources = Some ''0ca6b90bca26''"
  "mg_revision create_agent_runs = ''676658c5c999''" "mg_down_revision create_agent_runs = Some ''157831e5ab5b''"
  "mg_revision create_restaurant_tables = ''2186b16aec20''"
  "mg_down_revision create_restaurant_tables = Some ''676658c5c999''"
  "mg_revision create_source_snapshots = ''2e8de6675983''"
  "mg_down_revision create_source_snapshots = Some ''2186b16aec20''"
  "mg_revision add_run_metrics = ''9da502924b3e''" "mg_down_revision add_run_metrics = Some ''2e8de6675983''"
  "mg_revision create_ingestion_queue = ''b3f1a9c2d4e5''"
  "mg_down_revision create_ingestion_queue = Some ''9da502924b3e''"
  "mg_revision replace_queue_fields = ''c47d8e1f3a2b''"
  "mg_down_revision replace_queue_fields = Some ''b3f1a9c2d4e5''"
  unfolding create_users_def create_audit_logs_def create_sources_def create_agent_runs_def
    create_restaurant_tables_def create_source_snapshots_def add_run_metrics_def create_ingestion_queue_def
    replace_queue_fields_def
  by (simp_all only: migration.simps)

lemma history_versions:
  "history versions =
     [create_users, create_audit_logs, create_sources, create_agent_runs, create_restaurant_tables,
      create_source_snapshots, add_run_metrics, create_ingestion_queue, replace_queue_fields]"
  by (simp add: history_def versions_def)

lemma migrated:
  "case upgrade (history versions) empty_schema of
     Inl _ \<Rightarrow> False
   | Inr s \<Rightarrow> declares orm_metadata s \<and> set (sc_indexes s) = set migrated_indexes"
  unfolding history_versions by code_simp

lemma history_complete:
  "length (history versions) = length versions \<and> list_all (\<lambda>m. mg_revision m \<in> set (map mg_revision (history versions))) versions"
  unfolding history_versions by (simp add: versions_def)

lemma migrations_undone: "undone (history versions) empty_schema"
  unfolding history_versions by code_simp

lemma reupgrade_fails:
  "case upgrade (history versions) empty_schema of
     Inl _ \<Rightarrow> False
   | Inr s \<Rightarrow>
       (case downgrade (rev (history versions)) s of
          Inl _ \<Rightarrow> False
        | Inr s1 \<Rightarrow> sc_tables s1 = [] \<and> upgrade (history versions) s1 = Inl (Duplicate ''user_role''))"
  unfolding history_versions by code_simp


end
