(* ===== verification/Spec2Isabelle.thy ===== *)
theory Spec2Isabelle
  imports Prelude Schemas Validation Database Catalog Url SourceAuthority Fetch Throttle AI Translation Capture Crawler
    Workflow Collector CollectorRuns Delta Patch Reviewer ReviewerRuns Settings Auth ReviewService Queue Locks Jobs Dispatch
    DispatchPool JobRuns AdminApi Served Conformance Responses Migrations
begin

text \<open>
  HungrX ingests restaurant menus. A \<^emph>\<open>collector\<close> run finds a restaurant's official website, captures its
  pages, has a model extract the menu, validates the result deterministically and pauses for a person;
  only an approval writes the production tables. A \<^emph>\<open>reviewer\<close> run polls a published restaurant's
  website, computes the field-level delta of what changed and pauses in the same way. RQ workers run both;
  an admin API queues work and decides on what is paused. The central promise is that the data that is
  served changes only by the decision of a person entitled to it, and then exactly as decided.

  \<^bold>\<open>Layers and theories.\<close>
  \<^item> \<open>Prelude\<close>: Python strings, identifiers, decimals, the lemma collections.
  \<^item> \<open>Schemas\<close> (\<open>core/schemas/{nutrition,menu,restaurant}.py\<close>): the data model with dump and
    validation. \<open>Validation\<close> (\<open>core/validation\<close>): the rules, safe corrections and the engine.
  \<^item> \<open>Database\<close> (\<open>database/models\<close>, \<open>database/repositories\<close>): the record \<^typ>\<open>db\<close>, a list of
    rows per table; agent runs, proposed changes, approvals, audit log, sources, snapshots. \<open>Catalog\<close>: the
    production tables, \<open>persist_tree\<close> and \<open>get_full_tree\<close>. \<open>Conformance\<close>: when their rows fit the
    schema. \<open>Migrations\<close> (\<open>database/migrations/versions\<close>): the Alembic scripts as DDL operations, the path
    they form and the tables the models declare.
  \<^item> \<open>Url\<close>, \<open>SourceAuthority\<close>, \<open>Fetch\<close>, \<open>Throttle\<close> (\<open>infrastructure/source_authority\<close>,
    \<open>infrastructure/crawler\<close>, \<open>infrastructure/storage\<close>): which website, which requests, which files.
    \<open>Crawler\<close>: robots.txt, the fetcher that keeps it, page metadata and screenshots.
    \<open>Capture\<close>, \<open>AI\<close>, \<open>Translation\<close>: pages to material to a model's answer to a restaurant.
  \<^item> \<open>Workflow\<close>, \<open>Collector\<close>, \<open>CollectorRuns\<close> (\<open>workflows/collector_workflow\<close>) and \<open>Delta\<close>,
    \<open>Patch\<close>, \<open>Reviewer\<close>, \<open>ReviewerRuns\<close> (\<open>workflows/reviewer_workflow\<close>): the nodes, the graphs, and
    what whole runs do.
  \<^item> \<open>Settings\<close>, \<open>Auth\<close> (\<open>core/config\<close>, \<open>apps/api/app/{core,dependencies,middleware}\<close>,
    \<open>auth_service.py\<close>, \<open>routers/v1/auth\<close>): configuration, errors, users, tokens, permissions, rate limits.
  \<^item> \<open>ReviewService\<close> (\<open>apps/api/app/services/review_service.py\<close>): decisions on paused runs, over the
    record \<open>world\<close> of database and files and the map of checkpoints.
  \<^item> \<open>Queue\<close> (\<open>ingestion_queue_repository.py\<close>), \<open>Locks\<close> (\<open>infrastructure/queue/lock.py\<close> and the
    dispatch lock), \<open>Jobs\<close> (\<open>apps/worker/app/jobs\<close>) over the record \<^typ>\<open>system\<close>: world, Redis and its
    clock, enqueued jobs, checkpoints.
  \<^item> \<open>Dispatch\<close>, \<open>DispatchPool\<close> (\<open>ingestion_queue_dispatcher.py\<close>): one worker as a function, any number
    of workers with the API and crashes as the step relation \<^const>\<open>pool_step\<close>. \<open>JobRuns\<close>: what jobs can do.
  \<^item> \<open>AdminApi\<close> (\<open>routers/v1/admin\<close>, \<open>routers/v1/agents\<close>): the routes, \<^const>\<open>handle\<close> dispatching
    a request. \<open>Served\<close>: histories of jobs and requests over the whole system.
    \<open>Responses\<close>: what reading a restaurant answers after any of them.

  \<^bold>\<open>What is proved.\<close>
  \<^item> Decisions. Over every history of jobs and requests, production changes only by an approval that an
    active user entitled to review made (\<open>Served\<close>). A decision carries out exactly the plan of the paused
    run and records it, or fails without a trace, and no change is decided twice (\<open>ReviewService\<close>). Undecided
    runs of either workflow publish nothing; decided ones write the approved payload or delta exactly;
    an approved restaurant reads back whole, and a patch is the plan its delta stands for
    (\<open>CollectorRuns\<close>, \<open>ReviewerRuns\<close>, \<open>Catalog\<close>, \<open>Patch\<close>, \<open>Delta\<close>).
  \<^item> Types. After any history the production tables fit their schema, so reading a restaurant is refused,
    finds nothing or answers with a well-formed one (\<open>Conformance\<close>, \<open>Responses\<close>). The migrations build the
    tables the models declare (\<open>Migrations\<close>).
  \<^item> Access. Every successful request is authorized and every failed one changes nothing (\<open>Served\<close>);
    refresh tokens work once, sessions follow the account, login attempts are bounded (\<open>Auth\<close>).
  \<^item> The queue. An upload is deduplicated and, on an idle queue, worked off; a chain of dispatch jobs
    ends; one restaurant is ingested at a time under any interleaving; an item only follows its life cycle;
    the locks exclude (\<open>Queue\<close>, \<open>Dispatch\<close>, \<open>DispatchPool\<close>, \<open>Locks\<close>).
  \<^item> Ingestion. Validated restaurants round trip, a valid outcome means plausible dishes, corrections
    preserve content, duplicates are exact; source authority takes the best accepted candidate; requests stay
    on the verified domain behind the SSRF guard, bounded, throttled and under the rules of robots.txt; snapshots match their hash;
    extraction assembles every category once and maps it faithfully.
  \<^item> Behaviours that go wrong, as lemmas beside their component, for example \<open>worker_runs_are_not_resumable\<close>
    and \<open>crawl_without_source_fails\<close> (\<open>JobRuns\<close>), \<open>lost_wakeup\<close> and \<open>dead_worker_blocks_the_queue\<close>
    (\<open>DispatchPool\<close>), \<open>nested_dish_paths_collide\<close> (\<open>Patch\<close>), \<open>www_host_not_checked\<close> (\<open>Fetch\<close>), \<open>malformed_robots_block_the_site\<close>
    (\<open>Crawler\<close>), \<open>reupgrade_fails\<close> (\<open>Migrations\<close>).

  \<^bold>\<open>Interfaces.\<close> Locales state the contracts shared by several parts, each interpreted on the model:
  \<open>dish_rule\<close> (every validation rule), \<open>row_update\<close> (the row updates of the tables, also those of the queue
  and of the patch), \<open>storage_adapter\<close>, \<open>page_fetcher\<close> and \<open>page_fetchers\<close>, \<open>review_node\<close> (both
  review nodes), \<open>paused_run\<close> (both graphs as the review service resumes them), \<open>token_lock\<close> and its
  extension \<open>lasting_lock\<close> (both Redis locks).

  \<^bold>\<open>Conventions and bounds.\<close> Exceptions are left values of sums; an API failure is a \<^typ>\<open>failure\<close>; a
  transaction that raises keeps the old database. Identifiers are naturals drawn from a supply in the
  database, so they are fresh; decimals are exact rationals; strings are ASCII. Redirects, retries and
  capped reads follow the program's own limits, so they need no fuel. \<^const>\<open>work_dispatch\<close> takes a number of
  jobs; one more than the waiting items is enough (\<open>Dispatch.ingestion_queue_drains\<close>). Everything else is
  total.

  \<^bold>\<open>Parameters.\<close> Code that is not in the repository is an argument: HTTP, DNS, FlareSolverr, the
  browser and, of a single fetch, what robots.txt allows (\<open>network\<close>), BeautifulSoup's links and tags, the model's answers, DeepDiff's report,
  SHA-256, bcrypt, PyJWT, \<open>secrets\<close>, \<open>uuid5\<close>, and what LangGraph does with a thread it has no
  checkpoint of. Where a theorem relies on documented behaviour of one of them, it is a named
  hypothesis (\<open>jwt_faithful\<close>, for example) with a concrete instance in the witness.

  \<^bold>\<open>Not modelled.\<close> Reading the environment, log lines, connections and start-up
  (\<open>main.py\<close>, \<open>session.py\<close>, \<open>redis_connection.py\<close>, \<open>async_bridge.py\<close>, health checks, job status), since
  they are I/O without state of their own; the set-up of Alembic (\<open>env.py\<close>); the browser process; \<open>updated_at\<close> of proposed
  changes, and old and new values of audit rows; files written by a run that raises; the
  dashboard and the tests. Category calls of an extraction are an ordered list, not concurrent tasks, since
  their results are gathered in order.
\<close>

end
